(* ===== verification/Prelude.thy ===== *)
theory Prelude
  imports Main "HOL-Library.AList"
begin

text \<open>
  Shared vocabulary of the development.

  Python values. A \<^verbatim>\<open>str\<close> is a \<^typ>\<open>string\<close>: the model's strings hold one character per
  code point of an ASCII text (the few non-ASCII literals of the sources are written as their
  UTF-8 bytes). A \<^verbatim>\<open>dict\<close> keeps insertion order, so it is an association list with distinct
  keys: reading is \<^const>\<open>map_of\<close>, writing is \<^const>\<open>AList.update\<close> (replace in place, or
  append). A JSON-like value (\<^verbatim>\<open>Any\<close>) is a \<open>json\<close>; a float is kept as the text of its
  \<^verbatim>\<open>repr\<close>. A \<^verbatim>\<open>set\<close> that is only tested for membership is a HOL set given by a list.

  Exceptions are the left values of a sum; \<open>py_error\<close> lists the classes the sources raise.
\<close>

named_theorems dict_simps \<open>laws of insertion-ordered dictionaries\<close>
named_theorems state_simps \<open>field-wise effect of state transitions\<close>

section \<open>Dictionaries\<close>

type_synonym 'v dict = "(string \<times> 'v) list"

abbreviation dget :: "'v dict \<Rightarrow> string \<Rightarrow> 'v option" where
  "dget d k \<equiv> map_of d k"

abbreviation dset :: "string \<Rightarrow> 'v \<Rightarrow> 'v dict \<Rightarrow> 'v dict" where
  "dset k v d \<equiv> AList.update k v d"

abbreviation keys :: "'v dict \<Rightarrow> string list" where
  "keys d \<equiv> map fst d"

abbreviation has_key :: "'v dict \<Rightarrow> string \<Rightarrow> bool" where
  "has_key d k \<equiv> map_of d k \<noteq> None"

definition dget_or :: "'v \<Rightarrow> 'v dict \<Rightarrow> string \<Rightarrow> 'v" where
  "dget_or dflt d k = (case map_of d k of None \<Rightarrow> dflt | Some v \<Rightarrow> v)"

text \<open>The dictionary interface, as the clients use it.\<close>

locale dictionary =
  fixes empty :: 'd
    and lookup :: "'d \<Rightarrow> 'k \<Rightarrow> 'v option"
    and store :: "'k \<Rightarrow> 'v \<Rightarrow> 'd \<Rightarrow> 'd"
    and wf :: "'d \<Rightarrow> bool"
  assumes lookup_empty: "lookup empty k = None"
    and lookup_store: "lookup (store k v d) k' = (if k' = k then Some v else lookup d k')"
    and wf_empty: "wf empty"
    and wf_store: "wf d \<Longrightarrow> wf (store k v d)"
begin

lemma lookup_store_same: "lookup (store k v d) k = Some v"
  by (simp add: lookup_store)

lemma lookup_store_other: "k' \<noteq> k \<Longrightarrow> lookup (store k v d) k' = lookup d k'"
  by (simp add: lookup_store)

lemma lookup_fold_other:
  "k \<notin> fst ` set kvs \<Longrightarrow> lookup (fold (\<lambda>(k, v). store k v) kvs d) k = lookup d k"
  by (induction kvs arbitrary: d) (auto simp: lookup_store split: prod.splits)

lemma wf_fold: "wf d \<Longrightarrow> wf (fold (\<lambda>(k, v). store k v) kvs d)"
  by (induction kvs arbitrary: d) (auto simp: wf_store split: prod.splits)

end

interpretation adict: dictionary "[]" "dget :: 'v dict \<Rightarrow> _" "dset :: _ \<Rightarrow> 'v \<Rightarrow> _" "\<lambda>d. distinct (keys d)"
  by unfold_locales (auto simp: update_conv' distinct_update)

declare adict.lookup_store [dict_simps]

lemma keys_dset [dict_simps]: "set (keys (dset k v d)) = insert k (set (keys d))"
  by (auto simp: update_keys)

lemma has_key_iff [dict_simps]: "(map_of d k \<noteq> None) = (k \<in> set (keys d))"
  by (simp add: map_of_eq_None_iff)

lemma dget_or_dset [dict_simps]:
  "dget_or dflt (dset k v d) k' = (if k' = k then v else dget_or dflt d k')"
  by (simp add: dget_or_def update_conv')

section \<open>Errors\<close>

datatype py_error =
    ValueError string
  | KeyError string
  | TypeErr string
  | RuntimeErr string
  | PermissionErr string
  | LookupErr string

type_synonym 'a result = "py_error + 'a"

text \<open>Sequencing of computations that may raise, and a loop whose body may raise.\<close>

fun rbind :: "'e + 'a \<Rightarrow> ('a \<Rightarrow> 'e + 'b) \<Rightarrow> 'e + 'b" where
  "rbind (Inl e) f = Inl e"
| "rbind (Inr x) f = f x"

fun rmap :: "('a \<Rightarrow> 'b) \<Rightarrow> 'e + 'a \<Rightarrow> 'e + 'b" where
  "rmap f (Inl e) = Inl e"
| "rmap f (Inr x) = Inr (f x)"

fun fold_result :: "('a \<Rightarrow> 's \<Rightarrow> 'e + 's) \<Rightarrow> 'a list \<Rightarrow> 's \<Rightarrow> 'e + 's" where
  "fold_result f [] s = Inr s"
| "fold_result f (x # xs) s = rbind (f x s) (fold_result f xs)"

lemma rbind_Inr_iff: "rbind r f = Inr y \<longleftrightarrow> (\<exists>x. r = Inr x \<and> f x = Inr y)"
  by (cases r) auto

lemma rmap_rbind: "rmap f (rbind r g) = rbind r (\<lambda>x. rmap f (g x))"
  by (cases r) auto

lemma rmap_rmap: "rmap f (rmap g r) = rmap (\<lambda>x. f (g x)) r"
  by (cases r) auto

lemma rbind_assoc: "rbind (rbind r f) g = rbind r (\<lambda>x. rbind (f x) g)"
  by (cases r) auto

lemma fold_result_append: "fold_result f (xs @ ys) s = rbind (fold_result f xs s) (fold_result f ys)"
proof (induction xs arbitrary: s)
  case (Cons x xs)
  then show ?case by (cases "f x s") simp_all
qed simp

text \<open>
  The interface of a state machine driven by a list: a step that may raise, and an invariant
  that every step which returns keeps.
\<close>

locale invariant_machine =
  fixes step :: "'a \<Rightarrow> 's \<Rightarrow> 'e + 's"
    and inv :: "'s \<Rightarrow> bool"
  assumes step_inv: "inv s \<Longrightarrow> step x s = Inr s' \<Longrightarrow> inv s'"
begin

lemma fold_inv: "inv s \<Longrightarrow> fold_result step xs s = Inr s' \<Longrightarrow> inv s'"
  by (induction xs arbitrary: s) (auto simp: rbind_Inr_iff dest: step_inv)

end

text \<open>
  A machine with a view: \<open>proj\<close> forgets what the step never reads, and the \<open>silent\<close> inputs
  change only what \<open>proj\<close> forgets.
\<close>

locale projected_machine =
  fixes step :: "'a \<Rightarrow> 's \<Rightarrow> 'e + 's"
    and proj :: "'s \<Rightarrow> 's"
    and silent :: "'a \<Rightarrow> bool"
  assumes proj_step: "rmap proj (step x s) = rmap proj (step x (proj s))"
    and silent_step: "silent x \<Longrightarrow> step x s = Inr s' \<Longrightarrow> proj s' = proj s"
begin

lemma step_cong: "proj s = proj t \<Longrightarrow> rmap proj (step x s) = rmap proj (step x t)"
  by (subst proj_step, subst (2) proj_step) simp

lemma fold_cong:
  "proj s = proj t \<Longrightarrow> rmap proj (fold_result step xs s) = rmap proj (fold_result step xs t)"
proof (induction xs arbitrary: s t)
  case Nil
  then show ?case by simp
next
  case (Cons x xs)
  show ?case
  proof (cases "step x s")
    case (Inl e)
    then have "step x t = Inl e" using step_cong[OF Cons.prems, of x] by (cases "step x t") simp_all
    with Inl show ?thesis by simp
  next
    case (Inr u)
    then obtain v where v: "step x t = Inr v" "proj u = proj v"
      using step_cong[OF Cons.prems, of x] by (cases "step x t") simp_all
    show ?thesis using Cons.IH[OF v(2)] by (simp add: Inr v(1))
  qed
qed

lemma fold_silent:
  "fold_result step xs s = Inr s' \<Longrightarrow>
   rmap proj (fold_result step (filter (\<lambda>x. \<not> silent x) xs) s) = Inr (proj s')"
proof (induction xs arbitrary: s)
  case Nil
  then show ?case by simp
next
  case (Cons x xs)
  then obtain u where u: "step x s = Inr u" "fold_result step xs u = Inr s'"
    by (auto simp: rbind_Inr_iff)
  show ?case
  proof (cases "silent x")
    case True
    have "rmap proj (fold_result step (filter (\<lambda>x. \<not> silent x) xs) s)
        = rmap proj (fold_result step (filter (\<lambda>x. \<not> silent x) xs) u)"
      by (rule fold_cong) (rule silent_step[OF True u(1), symmetric])
    from trans[OF this Cons.IH[OF u(2)]] True show ?thesis
      by (simp only: filter.simps if_False if_True simp_thms)
  next
    case False
    then show ?thesis using u Cons.IH by simp
  qed
qed

end

section \<open>Numbers and strings\<close>

definition digit_char :: "nat \<Rightarrow> char" where
  "digit_char n = char_of (48 + n)"

fun show_nat :: "nat \<Rightarrow> string" where
  "show_nat n = (if n < 10 then [digit_char n] else show_nat (n div 10) @ [digit_char (n mod 10)])"

declare show_nat.simps [simp del]

definition show_int :: "int \<Rightarrow> string" where
  "show_int i = (if i < 0 then ''-'' @ show_nat (nat (- i)) else show_nat (nat i))"

definition is_space :: "char \<Rightarrow> bool" where
  "is_space c \<longleftrightarrow> (let n = of_char c :: nat in n = 32 \<or> (9 \<le> n \<and> n \<le> 13) \<or> (28 \<le> n \<and> n \<le> 31))"

definition is_digit :: "char \<Rightarrow> bool" where
  "is_digit c \<longleftrightarrow> (let n = of_char c :: nat in 48 \<le> n \<and> n \<le> 57)"

definition is_alpha :: "char \<Rightarrow> bool" where
  "is_alpha c \<longleftrightarrow> (let n = of_char c :: nat in (65 \<le> n \<and> n \<le> 90) \<or> (97 \<le> n \<and> n \<le> 122))"

text \<open>The regular-expression class \<^verbatim>\<open>\w\<close> on ASCII.\<close>

definition is_word :: "char \<Rightarrow> bool" where
  "is_word c \<longleftrightarrow> is_alpha c \<or> is_digit c \<or> c = CHR ''_''"

definition lower_char :: "char \<Rightarrow> char" where
  "lower_char c = (let n = of_char c :: nat in if 65 \<le> n \<and> n \<le> 90 then char_of (n + 32) else c)"

definition lower :: "string \<Rightarrow> string" where
  "lower s = map lower_char s"

definition lstrip :: "string \<Rightarrow> string" where
  "lstrip s = dropWhile is_space s"

definition rstrip_chars :: "(char \<Rightarrow> bool) \<Rightarrow> string \<Rightarrow> string" where
  "rstrip_chars p s = rev (dropWhile p (rev s))"

definition strip :: "string \<Rightarrow> string" where
  "strip s = rstrip_chars is_space (lstrip s)"

fun split_on :: "char \<Rightarrow> string \<Rightarrow> string list" where
  "split_on c [] = [[]]"
| "split_on c (x # xs) =
     (if x = c then [] # split_on c xs
      else (case split_on c xs of [] \<Rightarrow> [[x]] | p # ps \<Rightarrow> (x # p) # ps))"

fun join :: "string \<Rightarrow> string list \<Rightarrow> string" where
  "join sep [] = []"
| "join sep [s] = s"
| "join sep (s # t # ts) = s @ sep @ join sep (t # ts)"

fun starts_with :: "string \<Rightarrow> string \<Rightarrow> bool" where
  "starts_with [] s = True"
| "starts_with (p # ps) [] = False"
| "starts_with (p # ps) (c # s) = (p = c \<and> starts_with ps s)"

definition ends_with :: "string \<Rightarrow> string \<Rightarrow> bool" where
  "ends_with p s = starts_with (rev p) (rev s)"

fun contains_sub :: "string \<Rightarrow> string \<Rightarrow> bool" where
  "contains_sub p [] = (p = [])"
| "contains_sub p (c # s) = (starts_with p (c # s) \<or> contains_sub p s)"

lemma starts_with_iff: "starts_with p s \<longleftrightarrow> (\<exists>t. s = p @ t)"
  by (induction p s rule: starts_with.induct) auto

lemma contains_sub_iff: "contains_sub p s \<longleftrightarrow> (\<exists>a b. s = a @ p @ b)"
proof (induction s)
  case Nil
  then show ?case by auto
next
  case (Cons c s)
  show ?case
    unfolding contains_sub.simps starts_with_iff Cons.IH
    by (metis append_Cons append_Nil neq_Nil_conv list.inject)
qed

text \<open>The text of an f-string field in single quotes.\<close>

definition quoted :: "string \<Rightarrow> string" where
  "quoted s = [CHR 0x27] @ s @ [CHR 0x27]"

text \<open>The em dash of some messages, as its UTF-8 bytes.\<close>

definition dash :: string where
  "dash = [CHR 0xE2, CHR 0x80, CHR 0x94]"

text \<open>Python's \<open>xs.index\<close>-style search and \<open>max\<close> over a non-empty list.\<close>

fun index_of :: "'a \<Rightarrow> 'a list \<Rightarrow> nat" where
  "index_of x [] = 0"
| "index_of x (y # ys) = (if x = y then 0 else Suc (index_of x ys))"

lemma index_of_less: "x \<in> set xs \<Longrightarrow> index_of x xs < length xs"
  by (induction xs) auto

lemma nth_index_of: "x \<in> set xs \<Longrightarrow> xs ! index_of x xs = x"
  by (induction xs) auto

lemma in_concat_iff: "x \<in> set (concat ls) \<longleftrightarrow> (\<exists>i < length ls. x \<in> set (ls ! i))"
  unfolding set_concat by (metis UN_iff in_set_conv_nth)

lemma in_concat_take_iff:
  "x \<in> set (concat (take j ls)) \<longleftrightarrow> (\<exists>i. i < j \<and> i < length ls \<and> x \<in> set (ls ! i))"
  unfolding in_concat_iff by auto

lemma list_all2_in_set: "list_all2 P xs ys \<Longrightarrow> x \<in> set xs \<Longrightarrow> \<exists>y\<in>set ys. P x y"
  by (induction rule: list_all2_induct) auto

lemma find_append: "find P (xs @ ys) = (case find P xs of None \<Rightarrow> find P ys | Some x \<Rightarrow> Some x)"
  by (induction xs) auto

text \<open>Deduplicate, keeping first occurrences (the key order of a dictionary display).\<close>

fun dedup :: "'a list \<Rightarrow> 'a list \<Rightarrow> 'a list" where
  "dedup seen [] = []"
| "dedup seen (x # xs) = (if x \<in> set seen then dedup seen xs else x # dedup (x # seen) xs)"

lemma set_dedup: "set (dedup seen xs) = set xs - set seen"
  by (induction seen xs rule: dedup.induct) auto

lemma distinct_dedup: "distinct (dedup seen xs)"
  by (induction seen xs rule: dedup.induct) (auto simp: set_dedup)

text \<open>Python's \<open>x or y\<close> on a string and on an optional string, and the truth of the latter.\<close>

definition str_or :: "string \<Rightarrow> string \<Rightarrow> string" where
  "str_or s t = (if s = [] then t else s)"

definition opt_or :: "string option \<Rightarrow> string \<Rightarrow> string" where
  "opt_or x t = (case x of None \<Rightarrow> t | Some s \<Rightarrow> str_or s t)"

definition opt_truthy :: "string option \<Rightarrow> bool" where
  "opt_truthy x = (case x of None \<Rightarrow> False | Some s \<Rightarrow> s \<noteq> [])"

section \<open>JSON values\<close>

datatype json =
    JNull
  | JBool bool
  | JInt int
  | JFloat string
  | JStr string
  | JList "json list"
  | JDict "(string \<times> json) list"

text \<open>Python truthiness.\<close>

fun truthy :: "json \<Rightarrow> bool" where
  "truthy JNull = False"
| "truthy (JBool b) = b"
| "truthy (JInt i) = (i \<noteq> 0)"
| "truthy (JFloat r) = (r \<noteq> ''0.0'' \<and> r \<noteq> ''-0.0'')"
| "truthy (JStr s) = (s \<noteq> [])"
| "truthy (JList xs) = (xs \<noteq> [])"
| "truthy (JDict d) = (d \<noteq> [])"

fun is_jdict :: "json \<Rightarrow> bool" where
  "is_jdict (JDict d) = True"
| "is_jdict _ = False"

fun is_jstr :: "json \<Rightarrow> bool" where
  "is_jstr (JStr s) = True"
| "is_jstr _ = False"

fun num_text :: "json \<Rightarrow> string option" where
  "num_text (JBool b) = Some (if b then ''1.0'' else ''0.0'')"
| "num_text (JInt i) = Some (show_int i @ ''.0'')"
| "num_text (JFloat r) = Some r"
| "num_text _ = None"

lemma json_size_dict: "(k, v) \<in> set d \<Longrightarrow> size v < size (JDict d)"
proof -
  assume "(k, v) \<in> set d"
  then have "size_prod (\<lambda>x. 0) size (k, v) \<le> size_list (size_prod (\<lambda>x. 0) size) d"
    by (rule size_list_estimation') simp
  then show ?thesis by simp
qed

lemma json_size_snd: "kv \<in> set d \<Longrightarrow> size (snd kv) < size (JDict d)"
  by (cases kv) (auto dest!: json_size_dict simp del: json.size)

lemma json_size_list: "x \<in> set xs \<Longrightarrow> size x < size (JList xs)"
  by (simp add: less_Suc_eq_le size_list_estimation')

text \<open>
  Python's \<open>==\<close> on JSON values: numbers and booleans compare by value across their types,
  dictionaries ignore order.
\<close>

function py_eq :: "json \<Rightarrow> json \<Rightarrow> bool" where
  "py_eq a b =
     (case (a, b) of
        (JNull, JNull) \<Rightarrow> True
      | (JStr s, JStr t) \<Rightarrow> s = t
      | (JList xs, JList ys) \<Rightarrow>
          length xs = length ys \<and> list_all (\<lambda>(x, y). py_eq x y) (zip xs ys)
      | (JDict d, JDict e) \<Rightarrow>
          length d = length e \<and>
          list_all (\<lambda>(k, v). case map_of e k of None \<Rightarrow> False | Some w \<Rightarrow> py_eq v w) d
      | _ \<Rightarrow> num_text a \<noteq> None \<and> num_text a = num_text b)"
  by pat_completeness auto
termination
proof (relation "measure (\<lambda>(a, b). size a)", goal_cases)
  case 1
  show ?case by simp
next
  case (2 a b x1 x2 xs ys z x y)
  then have "x \<in> set xs" by (auto dest: set_zip_leftD)
  then have "size x < size (JList xs)" by (rule json_size_list)
  with 2 show ?case by (cases z) auto
next
  case (3 a b x1 x2 d e z k v w)
  then show ?case by (auto dest!: json_size_dict)
qed

declare py_eq.simps [simp del]

end
