(* ===== verification/Py_Text.thy ===== *)
theory Py_Text
  imports Prelude "HOL-Library.Char_ord" "HOL-Library.List_Lexorder"
begin

text \<open>
  The text renderings of Python values that the sources store or compare: \<^verbatim>\<open>str\<close> and
  \<^verbatim>\<open>repr\<close> of a value, and \<^verbatim>\<open>json.dumps\<close> with and without \<^verbatim>\<open>sort_keys\<close>.
\<close>

definition hex_char :: "nat \<Rightarrow> char" where
  "hex_char n = (if n < 10 then char_of (48 + n) else char_of (87 + n))"

definition hex2 :: "nat \<Rightarrow> string" where
  "hex2 n = [hex_char (n div 16 mod 16), hex_char (n mod 16)]"

abbreviation backslash :: char where
  "backslash \<equiv> CHR 0x5C"

section \<open>repr and str\<close>

definition repr_char :: "char \<Rightarrow> char \<Rightarrow> string" where
  "repr_char q c =
     (if c = q \<or> c = backslash then [backslash, c]
      else if c = CHR 0x0A then [backslash, CHR ''n'']
      else if c = CHR 0x0D then [backslash, CHR ''r'']
      else if c = CHR 0x09 then [backslash, CHR ''t'']
      else if (of_char c :: nat) < 32 \<or> (of_char c :: nat) = 127
           then backslash # CHR ''x'' # hex2 (of_char c)
      else [c])"

definition repr_str :: "string \<Rightarrow> string" where
  "repr_str s =
     (let q = (if CHR 0x27 \<in> set s \<and> CHR 0x22 \<notin> set s then CHR 0x22 else CHR 0x27)
      in [q] @ concat (map (repr_char q) s) @ [q])"

function py_repr :: "json \<Rightarrow> string" where
  "py_repr JNull = ''None''"
| "py_repr (JBool b) = (if b then ''True'' else ''False'')"
| "py_repr (JInt i) = show_int i"
| "py_repr (JFloat r) = r"
| "py_repr (JStr s) = repr_str s"
| "py_repr (JList xs) = ''['' @ join '', '' (map py_repr xs) @ '']''"
| "py_repr (JDict d) =
     ''{'' @ join '', '' (map (\<lambda>kv. repr_str (fst kv) @ '': '' @ py_repr (snd kv)) d) @ ''}''"
  by pat_completeness auto
termination
  by (relation "measure size")
     (auto simp: json_size_snd json_size_list simp del: json.size(13,14))

definition py_str :: "json \<Rightarrow> string" where
  "py_str v = (case v of JStr s \<Rightarrow> s | _ \<Rightarrow> py_repr v)"

section \<open>json.dumps\<close>

definition dumps_char :: "char \<Rightarrow> string" where
  "dumps_char c =
     (if c = CHR 0x22 \<or> c = backslash then [backslash, c]
      else if c = CHR 0x0A then [backslash, CHR ''n'']
      else if c = CHR 0x0D then [backslash, CHR ''r'']
      else if c = CHR 0x09 then [backslash, CHR ''t'']
      else if c = CHR 0x0C then [backslash, CHR ''f'']
      else if c = CHR 0x08 then [backslash, CHR ''b'']
      else if (of_char c :: nat) < 32 then backslash # CHR ''u'' # CHR ''0'' # CHR ''0'' # hex2 (of_char c)
      else [c])"

definition dumps_str :: "string \<Rightarrow> string" where
  "dumps_str s = [CHR 0x22] @ concat (map dumps_char s) @ [CHR 0x22]"

definition dumps_item :: "string \<Rightarrow> string \<times> string \<Rightarrow> string" where
  "dumps_item ksep kt = dumps_str (fst kt) @ ksep @ snd kt"

text \<open>
  \<open>json_dumps_sep isep ksep srt v\<close> is \<^verbatim>\<open>json.dumps(v, sort_keys=srt, separators=(isep, ksep))\<close>: the
  values of a dictionary are rendered first, then its items are put in key order when \<open>srt\<close>
  holds.
\<close>

function json_dumps_sep :: "string \<Rightarrow> string \<Rightarrow> bool \<Rightarrow> json \<Rightarrow> string" where
  "json_dumps_sep isep ksep srt JNull = ''null''"
| "json_dumps_sep isep ksep srt (JBool b) = (if b then ''true'' else ''false'')"
| "json_dumps_sep isep ksep srt (JInt i) = show_int i"
| "json_dumps_sep isep ksep srt (JFloat r) = r"
| "json_dumps_sep isep ksep srt (JStr s) = dumps_str s"
| "json_dumps_sep isep ksep srt (JList xs) = ''['' @ join isep (map (json_dumps_sep isep ksep srt) xs) @ '']''"
| "json_dumps_sep isep ksep srt (JDict d) =
     (let items = map (\<lambda>kv. (fst kv, json_dumps_sep isep ksep srt (snd kv))) d
      in ''{'' @ join isep (map (dumps_item ksep) (if srt then sort_key fst items else items)) @ ''}'')"
  by pat_completeness auto
termination
  by (relation "measure (\<lambda>(isep, ksep, srt, v). size v)")
     (auto simp: json_size_snd json_size_list simp del: json.size(13,14))

text \<open>The default separators.\<close>

abbreviation json_dumps :: "bool \<Rightarrow> json \<Rightarrow> string" where
  "json_dumps \<equiv> json_dumps_sep '', '' '': ''"

section \<open>Order\<close>

text \<open>
  The value of a number text (\<^verbatim>\<open>repr\<close> of an int or a finite float): sign, integer part, fraction
  and exponent.
\<close>

fun digits_val :: "int \<Rightarrow> string \<Rightarrow> int" where
  "digits_val acc [] = acc"
| "digits_val acc (c # cs) = digits_val (10 * acc + (of_char c - 48)) cs"

definition signed_val :: "string \<Rightarrow> int" where
  "signed_val s = (case s of
     [] \<Rightarrow> 0
   | c # cs \<Rightarrow> if c = CHR ''-'' then - digits_val 0 cs
              else if c = CHR ''+'' then digits_val 0 cs else digits_val 0 (c # cs))"

text \<open>A decimal is kept as mantissa and power of ten.\<close>

definition decimal_parts :: "string \<Rightarrow> int \<times> int" where
  "decimal_parts s =
     (let mant = takeWhile (\<lambda>c. c \<noteq> CHR ''e'') s;
          expo = drop 1 (dropWhile (\<lambda>c. c \<noteq> CHR ''e'') s);
          ip = takeWhile (\<lambda>c. c \<noteq> CHR ''.'') mant;
          fp = drop 1 (dropWhile (\<lambda>c. c \<noteq> CHR ''.'') mant)
      in (signed_val (ip @ fp), signed_val expo - int (length fp)))"

text \<open>Compare \<open>m * 10^a\<close> with \<open>n * 10^b\<close> by scaling to the smaller exponent.\<close>

definition scaled :: "int \<times> int \<Rightarrow> int \<times> int \<Rightarrow> int \<times> int" where
  "scaled x y = (case (x, y) of ((m, a), (n, b)) \<Rightarrow>
     (m * 10 ^ nat (a - min a b), n * 10 ^ nat (b - min a b)))"

datatype cmp_op = CLt | CLe | CGt | CGe

fun int_cmp :: "cmp_op \<Rightarrow> int \<Rightarrow> int \<Rightarrow> bool" where
  "int_cmp CLt a b = (a < b)"
| "int_cmp CLe a b = (a \<le> b)"
| "int_cmp CGt a b = (a > b)"
| "int_cmp CGe a b = (a \<ge> b)"

fun str_cmp :: "cmp_op \<Rightarrow> string \<Rightarrow> string \<Rightarrow> bool" where
  "str_cmp CLt a b = (a < b)"
| "str_cmp CLe a b = (a \<le> b)"
| "str_cmp CGt a b = (a > b)"
| "str_cmp CGe a b = (a \<ge> b)"

text \<open>
  Python's \<^verbatim>\<open><\<close>, \<^verbatim>\<open><=\<close>, \<^verbatim>\<open>>\<close>, \<^verbatim>\<open>>=\<close> on JSON values: numbers by value, strings and lists
  lexicographically, anything else is a TypeError (None).
\<close>

function py_cmp :: "cmp_op \<Rightarrow> json \<Rightarrow> json \<Rightarrow> bool option" where
  "py_cmp c a b =
     (case (a, b) of
        (JStr s, JStr t) \<Rightarrow> Some (str_cmp c s t)
      | (JList xs, JList ys) \<Rightarrow>
          (case find (\<lambda>(x, y). \<not> py_eq x y) (zip xs ys) of
             None \<Rightarrow> Some (int_cmp c (int (length xs)) (int (length ys)))
           | Some (x, y) \<Rightarrow> py_cmp c x y)
      | _ \<Rightarrow>
          (case (num_text a, num_text b) of
             (Some s, Some t) \<Rightarrow> (case scaled (decimal_parts s) (decimal_parts t) of (m, n) \<Rightarrow> Some (int_cmp c m n))
           | _ \<Rightarrow> None))"
  by pat_completeness auto
termination
proof (relation "measure (\<lambda>(c, a, b). size a)", goal_cases)
  case 1
  show ?case by simp
next
  case (2 c a b v1 v2 xs ys z x y)
  then have "(x, y) \<in> set (zip xs ys)" by (auto simp: find_Some_iff in_set_conv_nth)
  then have "x \<in> set xs" by (rule set_zip_leftD)
  then have "size x < size (JList xs)" by (rule json_size_list)
  with 2 show ?case by auto
qed

declare py_cmp.simps [simp del]

section \<open>Key order does not matter to the sorted rendering\<close>

lemma alist_eqI:
  assumes "map fst xs = map fst ys" and "set xs = set ys" and "distinct (map fst xs)"
  shows "xs = ys"
proof (rule nth_equalityI)
  show "length xs = length ys" using assms(1) by (rule map_eq_imp_length_eq)
  fix i assume i: "i < length xs"
  then have "fst (xs ! i) = fst (ys ! i)"
    using assms(1) \<open>length xs = length ys\<close> by (metis nth_map)
  moreover have "xs ! i \<in> set xs" using i by (rule nth_mem)
  moreover have "ys ! i \<in> set xs"
    using i \<open>length xs = length ys\<close> unfolding assms(2) by simp
  moreover have "inj_on fst (set xs)" using assms(3) by (simp add: distinct_map)
  ultimately show "xs ! i = ys ! i" by (simp add: inj_on_def)
qed

lemma sort_key_perm_distinct:
  fixes xs ys :: "(string \<times> 'b) list"
  assumes "set xs = set ys" and "distinct (map fst xs)" and "distinct (map fst ys)"
  shows "sort_key fst xs = sort_key fst ys"
proof (rule alist_eqI)
  have "set (map fst (sort_key fst xs)) = set (map fst (sort_key fst ys))"
    using assms(1) by simp
  moreover have "distinct (map fst (sort_key fst xs))" "distinct (map fst (sort_key fst ys))"
    using assms(2,3) by (simp_all add: distinct_map)
  ultimately show "map fst (sort_key fst xs) = map fst (sort_key fst ys)"
    by (intro sorted_distinct_set_unique) simp_all
  show "set (sort_key fst xs) = set (sort_key fst ys)" using assms(1) by simp
  show "distinct (map fst (sort_key fst xs))"
    using assms(2) by (simp add: distinct_map)
qed

text \<open>Two dictionaries with the same items, in whatever order, have the same sorted rendering.\<close>

lemma json_dumps_sorted_order:
  assumes "set d = set e" and "distinct (keys d)" and "distinct (keys e)"
  shows "json_dumps_sep isep ksep True (JDict d) = json_dumps_sep isep ksep True (JDict e)"
proof -
  let ?r = "\<lambda>kv. (fst kv, json_dumps_sep isep ksep True (snd kv))"
  have "sort_key fst (map ?r d) = sort_key fst (map ?r e)"
    by (rule sort_key_perm_distinct) (use assms in \<open>simp_all add: comp_def\<close>)
  then show ?thesis by (simp add: Let_def)
qed

end
