(* ===== verification/Plan_Model.thy ===== *)
theory Plan_Model
  imports Py_Text
begin

text \<open>
  The plan data model of \<^verbatim>\<open>src/harness/models/plan.py\<close>: steps, output references, declared
  operations and plans as records with the source's fields, the structural match of a step
  against a declared operation, and the reading of upstream outputs along a dotted path.
  The dependency checks are in \<open>Plan_Check\<close>, the layering in \<open>Plan_Topo\<close>.
\<close>

record dag_step =
  ds_id :: string
  ds_tool :: string
  ds_input :: "json dict"
  ds_depends_on :: "string list"
  ds_description :: string
  ds_upstream_selectors :: "string dict option"
  ds_max_parallel :: int
  ds_branches :: "json option"
  ds_probe :: bool

record output_ref =
  or_step_id :: string
  or_field_path :: string

record required_operation =
  ro_tool :: string
  ro_input :: "json dict"

record dag_plan =
  dp_user_intent :: string
  dp_intent :: string
  dp_steps :: "dag_step list"
  dp_failed :: bool
  dp_step_tasks :: "string dict"
  dp_declared_operations :: "required_operation list"

text \<open>A step built with the defaults of the class.\<close>

definition DagStep0 :: dag_step where
  "DagStep0 = \<lparr> ds_id = [], ds_tool = [], ds_input = [], ds_depends_on = [], ds_description = [],
     ds_upstream_selectors = None, ds_max_parallel = 10, ds_branches = None, ds_probe = False \<rparr>"

definition DagPlan0 :: dag_plan where
  "DagPlan0 = \<lparr> dp_user_intent = [], dp_intent = [], dp_steps = [], dp_failed = False,
     dp_step_tasks = [], dp_declared_operations = [] \<rparr>"

abbreviation step_ids :: "dag_step list \<Rightarrow> string list" where
  "step_ids steps \<equiv> map ds_id steps"

section \<open>Matching a step against an operation\<close>

definition workspace_root_aliases :: "string list" where
  "workspace_root_aliases =
     [''.'', ''./'', ''workspace'', ''workspace directory'', ''current directory'',
      ''the workspace'', ''/workspace'', ''root'']"

definition or_dot :: "string \<Rightarrow> string" where
  "or_dot s = (if s = [] then ''.'' else s)"

definition norm_path :: "string \<Rightarrow> string" where
  "norm_path p = or_dot (rstrip_chars (\<lambda>c. c = CHR ''/'') (lower (strip p)))"

definition paths_equivalent :: "string \<Rightarrow> string \<Rightarrow> json option \<Rightarrow> bool" where
  "paths_equivalent a b operation =
     (if a = b then True
      else if operation \<noteq> Some (JStr ''list'') then False
      else if norm_path a \<in> set workspace_root_aliases
           then norm_path b \<in> set workspace_root_aliases
      else False)"

text \<open>\<open>d.get(key) != value\<close> where a missing key reads as None.\<close>

definition get_eq :: "json option \<Rightarrow> json \<Rightarrow> bool" where
  "get_eq x v = py_eq (case x of None \<Rightarrow> JNull | Some w \<Rightarrow> w) v"

definition path_text :: "json option \<Rightarrow> string" where
  "path_text x = (case x of None \<Rightarrow> [] | Some JNull \<Rightarrow> [] | Some v \<Rightarrow> py_str v)"

definition key_satisfied :: "dag_step \<Rightarrow> required_operation \<Rightarrow> string \<times> json \<Rightarrow> bool" where
  "key_satisfied step req kv =
     (case kv of (key, value) \<Rightarrow>
        if key = ''content'' then True
        else if key = ''path'' then
          paths_equivalent (py_str value) (path_text (dget (ds_input step) key))
            (dget (ro_input req) ''operation'')
        else get_eq (dget (ds_input step) key) value)"

definition step_satisfies :: "dag_step \<Rightarrow> required_operation \<Rightarrow> bool" where
  "step_satisfies step req =
     (if ds_tool step \<noteq> ro_tool req then False
      else list_all (key_satisfied step req) (ro_input req))"

section \<open>Upstream outputs\<close>

text \<open>
  \<open>step_map plan\<close> is \<^verbatim>\<open>{s.id: s for s in self.steps}\<close>: the last step with an id wins.
\<close>

definition step_map :: "dag_step list \<Rightarrow> dag_step dict" where
  "step_map steps = fold (\<lambda>s d. dset (ds_id s) s d) steps []"

fun parse_nat_acc :: "nat \<Rightarrow> string \<Rightarrow> nat" where
  "parse_nat_acc acc [] = acc"
| "parse_nat_acc acc (c # cs) = parse_nat_acc (10 * acc + (of_char c - 48)) cs"

definition parse_nat :: "string \<Rightarrow> nat" where
  "parse_nat s = parse_nat_acc 0 s"

fun resolve_parts :: "json \<Rightarrow> string list \<Rightarrow> json" where
  "resolve_parts current [] = current"
| "resolve_parts current (part # parts) =
     (case current of
        JDict d \<Rightarrow> resolve_parts (dget_or JNull d part) parts
      | JList xs \<Rightarrow>
          if part \<noteq> [] \<and> list_all is_digit part then
            resolve_parts (if parse_nat part < length xs then xs ! parse_nat part else JNull) parts
          else JNull
      | _ \<Rightarrow> JNull)"

definition resolve_path :: "json \<Rightarrow> string \<Rightarrow> json" where
  "resolve_path obj path = resolve_parts obj (split_on (CHR ''.'') path)"

text \<open>
  A prior result is a dictionary (its \<open>output\<close> entry is read), an object with an \<open>output\<close>
  attribute, or any other value, which is taken as it is.
\<close>

datatype prior_result = PRDict "json dict" | PRObject json | PRValue json

fun prior_output :: "prior_result \<Rightarrow> json" where
  "prior_output (PRDict d) = dget_or JNull d ''output''"
| "prior_output (PRObject out) = out"
| "prior_output (PRValue v) = v"

definition upstream_one :: "dag_step \<Rightarrow> prior_result dict \<Rightarrow> string \<Rightarrow> json" where
  "upstream_one step results dep_id =
     (case dget results dep_id of
        None \<Rightarrow> JNull
      | Some r \<Rightarrow>
          (case dget (case ds_upstream_selectors step of None \<Rightarrow> [] | Some sel \<Rightarrow> sel) dep_id of
             Some path \<Rightarrow> resolve_path (prior_output r) path
           | None \<Rightarrow> prior_output r))"

definition upstream_outputs :: "dag_plan \<Rightarrow> string \<Rightarrow> prior_result dict \<Rightarrow> json dict" where
  "upstream_outputs plan step_id results =
     (case dget (step_map (dp_steps plan)) step_id of
        None \<Rightarrow> []
      | Some step \<Rightarrow>
          fold (\<lambda>dep_id merged. dset dep_id (upstream_one step results dep_id) merged)
            (ds_depends_on step) [])"

section \<open>A sample plan\<close>

text \<open>The plan on which the witnesses evaluate the definitions: a diamond of four steps.\<close>

definition mk_step :: "string \<Rightarrow> string \<Rightarrow> string list \<Rightarrow> dag_step" where
  "mk_step sid tool deps = DagStep0\<lparr>ds_id := sid, ds_tool := tool, ds_depends_on := deps\<rparr>"

definition diamond_plan :: dag_plan where
  "diamond_plan = DagPlan0\<lparr>dp_steps :=
     [mk_step ''s1'' ''http_request'' [], mk_step ''s2'' ''file_op'' [''s1''],
      mk_step ''s3'' ''file_op'' [''s1''], mk_step ''s4'' ''file_op'' [''s2'', ''s3'']]\<rparr>"

section \<open>Lemmas\<close>

lemma dget_step_map: "dget (step_map steps) k = find (\<lambda>s. ds_id s = k) (rev steps)"
  by (induction steps rule: rev_induct) (auto simp: step_map_def update_conv')

lemma keys_step_map: "set (keys (step_map steps)) = set (step_ids steps)"
  by (induction steps rule: rev_induct) (auto simp: step_map_def keys_dset simp del: set_map)

lemma dget_step_map_Some: "dget (step_map steps) k = Some s \<Longrightarrow> s \<in> set steps \<and> ds_id s = k"
  unfolding dget_step_map find_Some_iff by (metis length_rev nth_mem set_rev)

lemma dget_step_map_None: "dget (step_map steps) k = None \<longleftrightarrow> k \<notin> set (step_ids steps)"
  by (auto simp: dget_step_map find_None_iff)

lemma dget_step_map_distinct:
  "distinct (step_ids steps) \<Longrightarrow> s \<in> set steps \<Longrightarrow> dget (step_map steps) (ds_id s) = Some s"
  by (cases "dget (step_map steps) (ds_id s)")
     (auto simp: dget_step_map_None distinct_map dest!: dget_step_map_Some dest: inj_onD)

end
