(* ===== verification/Plan_Topo.thy ===== *)
theory Plan_Topo
  imports Plan_Model
begin

text \<open>
  \<^verbatim>\<open>DagPlan.topological_sort\<close> of \<^verbatim>\<open>src/harness/models/plan.py\<close>: Kahn's algorithm by layers,
  with the in-degree table and the adjacency lists as dictionaries, the queue as a list and
  the two \<^verbatim>\<open>ValueError\<close>s as left values. The lemmas give the exact effect of one neighbour
  loop and of one layer, the invariant of the outer loop, and from it: a returned layering
  schedules every pending step once, after its pending dependencies; a plan with distinct
  ids, known dependencies and no cycle is always layered.
\<close>

section \<open>The algorithm\<close>

definition unknown_dep_msg :: "string \<Rightarrow> string \<Rightarrow> string" where
  "unknown_dep_msg sid dep = ''Step '' @ quoted sid @ '': depends on unknown step '' @ quoted dep"

definition cycle_msg :: string where
  "cycle_msg = ''Cycle detected in DAG plan''"

type_synonym topo_tables = "int dict \<times> string list dict"

definition topo_init :: "dag_step list \<Rightarrow> topo_tables" where
  "topo_init steps =
     (fold (\<lambda>s d. dset (ds_id s) 0 d) steps [], fold (\<lambda>s d. dset (ds_id s) [] d) steps [])"

fun topo_deps :: "string set \<Rightarrow> string set \<Rightarrow> string set \<Rightarrow> string \<Rightarrow> string list \<Rightarrow> topo_tables
    \<Rightarrow> topo_tables result" where
  "topo_deps all_valid in_plan completed sid [] tabs = Inr tabs"
| "topo_deps all_valid in_plan completed sid (dep # deps) (in_degree, adjacency) =
     (if dep \<notin> all_valid then Inl (ValueError (unknown_dep_msg sid dep))
      else if dep \<notin> in_plan \<or> dep \<in> completed
        then topo_deps all_valid in_plan completed sid deps (in_degree, adjacency)
      else topo_deps all_valid in_plan completed sid deps
             (dset sid (dget_or 0 in_degree sid + 1) in_degree,
              dset dep (dget_or [] adjacency dep @ [sid]) adjacency))"

fun topo_edges :: "string set \<Rightarrow> string set \<Rightarrow> string set \<Rightarrow> dag_step list \<Rightarrow> topo_tables
    \<Rightarrow> topo_tables result" where
  "topo_edges all_valid in_plan completed [] tabs = Inr tabs"
| "topo_edges all_valid in_plan completed (s # ss) tabs =
     (case topo_deps all_valid in_plan completed (ds_id s) (ds_depends_on s) tabs of
        Inl e \<Rightarrow> Inl e
      | Inr tabs' \<Rightarrow> topo_edges all_valid in_plan completed ss tabs')"

text \<open>\<^verbatim>\<open>for neighbor in adjacency.get(sid, [])\<close>: decrement, and enqueue what reaches zero.\<close>

fun topo_neighbors :: "string set \<Rightarrow> string list \<Rightarrow> int dict \<times> string list \<Rightarrow> int dict \<times> string list" where
  "topo_neighbors completed [] (deg, queue) = (deg, queue)"
| "topo_neighbors completed (n # ns) (deg, queue) =
     (let d = dget_or 0 deg n - 1
      in topo_neighbors completed ns
           (dset n d deg, if d = 0 \<and> n \<notin> completed then queue @ [n] else queue))"

type_synonym topo_state = "string list \<times> int dict \<times> string list \<times> nat"

text \<open>\<^verbatim>\<open>for _ in range(len(queue))\<close>: one layer, popping from the left.\<close>

fun topo_layer :: "string set \<Rightarrow> string list dict \<Rightarrow> nat \<Rightarrow> topo_state \<Rightarrow> topo_state" where
  "topo_layer completed adjacency 0 st = st"
| "topo_layer completed adjacency (Suc k) ([], deg, layer, visited) = ([], deg, layer, visited)"
| "topo_layer completed adjacency (Suc k) (sid # queue, deg, layer, visited) =
     (if sid \<in> completed then topo_layer completed adjacency k (queue, deg, layer, visited)
      else case topo_neighbors completed (dget_or [] adjacency sid) (deg, queue) of
        (deg', queue') \<Rightarrow>
          topo_layer completed adjacency k (queue', deg', layer @ [sid], Suc visited))"

definition n_pos :: "int dict \<Rightarrow> nat" where
  "n_pos deg = length (filter (\<lambda>kd. 0 < snd kd) deg)"

lemma n_pos_dset:
  "n_pos (dset n (dget_or 0 deg n - 1) deg) + (if dget_or 0 deg n - 1 = 0 then 1 else 0) \<le> n_pos deg"
  by (induction deg) (auto simp: n_pos_def dget_or_def split: option.splits if_splits)

lemma topo_neighbors_measure:
  "topo_neighbors C ns (deg, queue) = (deg', queue') \<Longrightarrow>
     n_pos deg' + length queue' \<le> n_pos deg + length queue"
proof (induction ns arbitrary: deg queue)
  case (Cons n ns)
  let ?d = "dget_or 0 deg n - 1"
  let ?q = "if ?d = 0 \<and> n \<notin> C then queue @ [n] else queue"
  have "n_pos deg' + length queue' \<le> n_pos (dset n ?d deg) + length ?q"
    using Cons.prems by (intro Cons.IH) (simp add: Let_def)
  then show ?case using n_pos_dset[of n deg] by (auto split: if_splits)
qed simp

lemma topo_neighbors_append: "\<exists>new. snd (topo_neighbors C ns (deg, queue)) = queue @ new"
  by (induction ns arbitrary: deg queue) (auto simp: Let_def, metis append_assoc)

lemma topo_layer_measure:
  "topo_layer C adj k (queue, deg, layer, vis) = (queue', deg', layer', vis') \<Longrightarrow>
     n_pos deg' + length queue' + min k (length queue) \<le> n_pos deg + length queue"
proof (induction k arbitrary: queue deg layer vis)
  case (Suc k)
  show ?case
  proof (cases queue)
    case Nil
    then show ?thesis using Suc.prems by simp
  next
    case (Cons sid q)
    obtain d1 q1 where nb: "topo_neighbors C (dget_or [] adj sid) (deg, q) = (d1, q1)"
      by fastforce
    show ?thesis
    proof (cases "sid \<in> C")
      case True
      then have "n_pos deg' + length queue' + min k (length q) \<le> n_pos deg + length q"
        using Suc.prems Cons by (intro Suc.IH) simp
      then show ?thesis using Cons by simp
    next
      case False
      have "n_pos d1 + length q1 \<le> n_pos deg + length q"
        by (rule topo_neighbors_measure[OF nb])
      moreover have "length q \<le> length q1"
        using topo_neighbors_append[of C "dget_or [] adj sid" deg q] nb by auto
      moreover have "n_pos deg' + length queue' + min k (length q1) \<le> n_pos d1 + length q1"
        using Suc.prems False Cons nb by (intro Suc.IH) simp
      ultimately show ?thesis using Cons by simp
    qed
  qed
qed simp

text \<open>\<^verbatim>\<open>while queue\<close>: every round pops the whole queue and enqueues only steps whose
  in-degree has just left the positive range, so the loop ends.\<close>

function topo_loop :: "string set \<Rightarrow> string list dict \<Rightarrow> string list \<Rightarrow> int dict
    \<Rightarrow> string list list \<Rightarrow> nat \<Rightarrow> string list list \<times> nat" where
  "topo_loop completed adjacency queue deg layers visited =
     (if queue = [] then (layers, visited)
      else case topo_layer completed adjacency (length queue) (queue, deg, [], visited) of
        (queue', deg', layer, visited') \<Rightarrow>
          topo_loop completed adjacency queue' deg' (layers @ [layer]) visited')"
  by pat_completeness auto
termination
proof (relation "measure (\<lambda>(C, adj, queue, deg, layers, vis). n_pos deg + length queue)", goal_cases)
  case (2 completed adjacency queue deg layers visited z q d y)
  then show ?case
    using topo_layer_measure[of completed adjacency "length queue" queue deg "[]" visited]
    by (cases queue) (auto simp: prod_eq_iff)
qed simp

declare topo_loop.simps [simp del]

definition topological_sort :: "dag_plan \<Rightarrow> string set \<Rightarrow> string set \<Rightarrow> string list list result" where
  "topological_sort plan completed external =
     (let steps = dp_steps plan;
          in_plan = set (keys (step_map steps));
          all_valid = in_plan \<union> completed \<union> external
      in case topo_edges all_valid in_plan completed steps (topo_init steps) of
           Inl e \<Rightarrow> Inl e
         | Inr (in_degree, adjacency) \<Rightarrow>
             (let queue = map fst (filter (\<lambda>(sid, deg). deg = 0 \<and> sid \<notin> completed) in_degree);
                  visited = length (filter (\<lambda>k. k \<in> completed) (keys (step_map steps)))
              in case topo_loop completed adjacency queue in_degree [] visited of
                   (layers, visited') \<Rightarrow>
                     if visited' \<noteq> length steps then Inl (ValueError cycle_msg)
                     else Inr layers))"

section \<open>The neighbour loop and the layer, in closed form\<close>

lemma topo_neighbors_deg:
  "dget_or 0 (fst (topo_neighbors C ns (deg, queue))) v = dget_or 0 deg v - int (count_list ns v)"
  by (induction ns arbitrary: deg queue) (auto simp: Let_def dict_simps)

lemma topo_neighbors_keys:
  "set (keys (fst (topo_neighbors C ns (deg, queue)))) = set (keys deg) \<union> set ns"
  by (induction ns arbitrary: deg queue) (auto simp: Let_def dict_simps simp del: set_map)

text \<open>Exactly the pending neighbours whose in-degree reaches zero are enqueued, each once.\<close>

lemma topo_neighbors_queue:
  assumes "\<And>v. int (count_list ns v) \<le> dget_or 0 deg v"
  shows "\<exists>new. snd (topo_neighbors C ns (deg, queue)) = queue @ new \<and> distinct new \<and>
           set new = {v \<in> set ns. v \<notin> C \<and> dget_or 0 deg v = int (count_list ns v)}"
  using assms
proof (induction ns arbitrary: deg queue)
  case (Cons n ns)
  let ?d = "dget_or 0 deg n - 1"
  let ?deg = "dset n ?d deg"
  let ?q = "if ?d = 0 \<and> n \<notin> C then queue @ [n] else queue"
  have le: "int (count_list ns v) \<le> dget_or 0 ?deg v" for v
    using Cons.prems[of v] by (auto simp: dict_simps)
  from Cons.IH[OF this, of ?q] obtain new where
    new: "snd (topo_neighbors C ns (?deg, ?q)) = ?q @ new" "distinct new"
      "set new = {v \<in> set ns. v \<notin> C \<and> dget_or 0 ?deg v = int (count_list ns v)}"
    by blast
  have now: "?d = 0 \<Longrightarrow> n \<notin> set ns"
    using le[of n] by (auto simp: dict_simps count_list_0_iff)
  have same: "dget_or 0 deg v = int (count_list (n # ns) v) \<longleftrightarrow> dget_or 0 ?deg v = int (count_list ns v)" for v
    by (simp add: dget_or_dset) linarith
  have n: "dget_or 0 ?deg n = ?d" by (simp add: dget_or_dset)
  show ?case
  proof (cases "?d = 0 \<and> n \<notin> C")
    case True
    then have "count_list ns n = 0" using now by (simp add: count_list_0_iff)
    then have "dget_or 0 ?deg n = int (count_list ns n)" using n True by simp
    then have "set (n # new) = {v \<in> set (n # ns). v \<notin> C \<and> dget_or 0 deg v = int (count_list (n # ns) v)}"
      unfolding same list.set new(3) using True by blast
    then show ?thesis using True new now
      by (intro exI[of _ "n # new"]) (auto simp: Let_def)
  next
    case False
    have "n \<in> set ns" if "n \<notin> C" "dget_or 0 ?deg n = int (count_list ns n)"
    proof (rule ccontr)
      assume "n \<notin> set ns"
      then have "?d = 0" using that(2) n by (simp add: count_list_0_iff)
      with False that(1) show False by simp
    qed
    then have "set new = {v \<in> set (n # ns). v \<notin> C \<and> dget_or 0 deg v = int (count_list (n # ns) v)}"
      unfolding same list.set new(3) by blast
    then show ?thesis using False new
      by (intro exI[of _ new]) (auto simp: Let_def)
  qed
qed simp

definition n_edges :: "string list dict \<Rightarrow> string list \<Rightarrow> string \<Rightarrow> int" where
  "n_edges adj us v = (\<Sum>u\<leftarrow>us. int (count_list (dget_or [] adj u) v))"

lemma n_edges_simps [simp]:
  "n_edges adj [] v = 0"
  "n_edges adj (u # us) v = int (count_list (dget_or [] adj u) v) + n_edges adj us v"
  by (simp_all add: n_edges_def)

lemma n_edges_nonneg: "0 \<le> n_edges adj us v"
  by (induction us) auto

lemma n_edges_distinct:
  "distinct us \<Longrightarrow> n_edges adj us v = (\<Sum>u\<in>set us. int (count_list (dget_or [] adj u) v))"
  by (simp add: n_edges_def sum_list_distinct_conv_sum_set)

lemma count_list_pos_iff: "(0 < count_list xs v) = (v \<in> set xs)"
  using count_list_0_iff[of xs v] by auto

text \<open>One layer emits the whole queue in order and leaves exactly the newly freed steps.\<close>

lemma topo_layer_spec:
  assumes "\<And>v. n_edges adj cur v \<le> dget_or 0 deg v" and "distinct new"
    and "\<And>v. v \<in> set new \<Longrightarrow> n_edges adj cur v = 0" and "set cur \<inter> C = {}"
  shows "\<exists>deg' new'. topo_layer C adj (length cur) (cur @ new, deg, layer, vis)
             = (new @ new', deg', layer @ cur, vis + length cur)
           \<and> (\<forall>v. dget_or 0 deg' v = dget_or 0 deg v - n_edges adj cur v)
           \<and> distinct (new @ new')
           \<and> set new' = {v. v \<notin> C \<and> 0 < n_edges adj cur v \<and> dget_or 0 deg v = n_edges adj cur v}"
  using assms
proof (induction cur arbitrary: deg new layer vis)
  case Nil
  then show ?case by (intro exI[of _ deg] exI[of _ "[]"]) auto
next
  case (Cons u cur)
  let ?ns = "dget_or [] adj u"
  have le: "int (count_list ?ns v) \<le> dget_or 0 deg v" for v
    using Cons.prems(1)[of v] n_edges_nonneg[of adj cur v] by simp
  obtain deg1 q1 where nb: "topo_neighbors C ?ns (deg, cur @ new) = (deg1, q1)" by fastforce
  with topo_neighbors_queue[OF le, of C "cur @ new"] obtain new1 where
    q1: "q1 = cur @ new @ new1" and d1: "distinct new1"
    and s1: "set new1 = {v \<in> set ?ns. v \<notin> C \<and> dget_or 0 deg v = int (count_list ?ns v)}"
    by auto
  have deg1: "dget_or 0 deg1 v = dget_or 0 deg v - int (count_list ?ns v)" for v
    using topo_neighbors_deg[of C ?ns deg "cur @ new" v] nb by simp
  have zero: "n_edges adj cur v = 0" if "v \<in> set (new @ new1)" for v
    using that Cons.prems(1)[of v] Cons.prems(3)[of v] s1 n_edges_nonneg[of adj cur v] by auto
  have dist: "distinct (new @ new1)"
    using Cons.prems(2,3) d1 s1 n_edges_nonneg[of adj cur]
    by (fastforce simp: count_list_0_iff add_nonneg_eq_0_iff)
  have le1: "n_edges adj cur v \<le> dget_or 0 deg1 v" for v
    using Cons.prems(1)[of v] by (simp add: deg1)
  have "set cur \<inter> C = {}" using Cons.prems(4) by auto
  from Cons.IH[OF le1 dist zero this, of "layer @ [u]" "Suc vis"] obtain deg' new' where
    ih: "topo_layer C adj (length cur) (cur @ new @ new1, deg1, layer @ [u], Suc vis)
           = ((new @ new1) @ new', deg', (layer @ [u]) @ cur, Suc vis + length cur)"
    and ih_deg: "\<And>v. dget_or 0 deg' v = dget_or 0 deg1 v - n_edges adj cur v"
    and ih_dist: "distinct ((new @ new1) @ new')"
    and ih_set: "set new' = {v. v \<notin> C \<and> 0 < n_edges adj cur v \<and> dget_or 0 deg1 v = n_edges adj cur v}"
    by blast
  have "set (new1 @ new') = {v. v \<notin> C \<and> 0 < n_edges adj (u # cur) v
      \<and> dget_or 0 deg v = n_edges adj (u # cur) v}"
  proof (rule set_eqI)
    fix v
    have "v \<in> set new1 \<longleftrightarrow> 0 < count_list ?ns v \<and> v \<notin> C \<and> dget_or 0 deg v = int (count_list ?ns v)"
      by (auto simp: s1 count_list_pos_iff)
    moreover have "v \<in> set new1 \<Longrightarrow> n_edges adj cur v = 0" using zero by simp
    moreover have "v \<in> set new' \<longleftrightarrow> v \<notin> C \<and> 0 < n_edges adj cur v
        \<and> dget_or 0 deg v - int (count_list ?ns v) = n_edges adj cur v"
      by (simp add: ih_set deg1)
    ultimately show "v \<in> set (new1 @ new') \<longleftrightarrow>
        v \<in> {v. v \<notin> C \<and> 0 < n_edges adj (u # cur) v \<and> dget_or 0 deg v = n_edges adj (u # cur) v}"
      using n_edges_nonneg[of adj cur v] by auto
  qed
  moreover have "topo_layer C adj (length (u # cur)) ((u # cur) @ new, deg, layer, vis)
      = (new @ (new1 @ new'), deg', layer @ u # cur, vis + length (u # cur))"
    using nb q1 ih Cons.prems(4) by simp
  moreover have "dget_or 0 deg' v = dget_or 0 deg v - n_edges adj (u # cur) v" for v
    by (simp add: ih_deg deg1)
  ultimately show ?case using ih_dist
    by (intro exI[of _ deg'] exI[of _ "new1 @ new'"]) simp
qed

section \<open>The invariant of the outer loop\<close>

text \<open>
  \<open>N\<close> the step ids, \<open>P\<close> the ids already in a layer: the in-degree table counts the edges
  from unprocessed steps, and the queue holds exactly the pending unprocessed steps that
  have none left.
\<close>

definition topo_inv :: "string set \<Rightarrow> string list dict \<Rightarrow> string set \<Rightarrow> string set \<Rightarrow> string list
    \<Rightarrow> int dict \<Rightarrow> bool" where
  "topo_inv C adj N P queue deg \<longleftrightarrow>
     finite N \<and> P \<subseteq> N - C \<and> distinct queue
     \<and> (\<forall>u. set (dget_or [] adj u) \<subseteq> N)
     \<and> (\<forall>v. dget_or 0 deg v = (\<Sum>u\<in>N - P. int (count_list (dget_or [] adj u) v)))
     \<and> (\<forall>v\<in>P. dget_or 0 deg v = 0)
     \<and> set queue = {v \<in> N - C - P. dget_or 0 deg v = 0}"

lemma topo_inv_preds:
  assumes "topo_inv C adj N P queue deg" and "v \<in> set queue" and "u \<in> N"
    and "v \<in> set (dget_or [] adj u)"
  shows "u \<in> P"
proof (rule ccontr)
  assume "u \<notin> P"
  have "(\<Sum>u\<in>N - P. int (count_list (dget_or [] adj u) v)) = 0" and "finite (N - P)"
    using assms(1,2) by (auto simp: topo_inv_def)
  then have "count_list (dget_or [] adj u) v = 0"
    using \<open>u \<notin> P\<close> assms(3) by (subst (asm) sum_nonneg_eq_0_iff) auto
  then show False using assms(4) by (simp add: count_list_0_iff)
qed

lemma topo_inv_step:
  assumes inv: "topo_inv C adj N P queue deg"
  shows "\<exists>deg' queue'. topo_layer C adj (length queue) (queue, deg, [], vis)
             = (queue', deg', queue, vis + length queue)
           \<and> topo_inv C adj N (P \<union> set queue) queue' deg'"
proof -
  let ?w = "\<lambda>v u. int (count_list (dget_or [] adj u) v)"
  have fin: "finite N" and sub: "set queue \<subseteq> N - P" and dq: "distinct queue"
    and adjN: "\<And>u. set (dget_or [] adj u) \<subseteq> N"
    and deg: "\<And>v. dget_or 0 deg v = sum (?w v) (N - P)"
    and zP: "\<And>v. v \<in> P \<Longrightarrow> dget_or 0 deg v = 0"
    and q: "set queue = {v \<in> N - C - P. dget_or 0 deg v = 0}"
    and PN: "P \<subseteq> N - C"
    using inv by (auto simp: topo_inv_def)
  have ne: "n_edges adj queue v = sum (?w v) (set queue)" for v
    by (rule n_edges_distinct[OF dq])
  have split: "dget_or 0 deg v = sum (?w v) (N - P - set queue) + n_edges adj queue v" for v
    using deg[of v] sum.subset_diff[OF sub, of "?w v"] fin by (simp add: ne)
  then have le: "n_edges adj queue v \<le> dget_or 0 deg v" for v
    by (simp add: sum_nonneg)
  have "set queue \<inter> C = {}" using q by auto
  with topo_layer_spec[of adj queue deg "[]" C "[]" vis] le obtain deg' queue' where
    layer: "topo_layer C adj (length queue) (queue, deg, [], vis)
      = (queue', deg', queue, vis + length queue)"
    and deg': "\<And>v. dget_or 0 deg' v = dget_or 0 deg v - n_edges adj queue v"
    and dq': "distinct queue'"
    and q': "set queue' = {v. v \<notin> C \<and> 0 < n_edges adj queue v \<and> dget_or 0 deg v = n_edges adj queue v}"
    by auto
  have inN: "v \<in> N" if "0 < n_edges adj queue v" for v
  proof -
    have "\<exists>u\<in>set queue. ?w v u \<noteq> 0"
      using that unfolding ne by (metis (mono_tags, lifting) less_irrefl sum.neutral)
    then show ?thesis using adjN by (auto simp: count_list_0_iff)
  qed
  have zero: "n_edges adj queue v = 0" if "v \<in> P \<union> set queue" for v
  proof -
    have "dget_or 0 deg v = 0" using that zP[of v] unfolding q by blast
    then show ?thesis using le[of v] n_edges_nonneg[of adj queue v] by simp
  qed
  have setq': "set queue' = {v \<in> N - C - (P \<union> set queue). dget_or 0 deg' v = 0}"
  proof (rule set_eqI)
    fix v
    let ?E = "n_edges adj queue v"
    show "v \<in> set queue' \<longleftrightarrow> v \<in> {v \<in> N - C - (P \<union> set queue). dget_or 0 deg' v = 0}"
    proof
      assume "v \<in> set queue'"
      then have *: "v \<notin> C" "0 < ?E" "dget_or 0 deg v = ?E" unfolding q' by blast+
      then have "v \<notin> P \<union> set queue" using zero[of v] by (metis less_irrefl)
      then show "v \<in> {v \<in> N - C - (P \<union> set queue). dget_or 0 deg' v = 0}"
        using * inN[of v] deg'[of v] by simp
    next
      assume "v \<in> {v \<in> N - C - (P \<union> set queue). dget_or 0 deg' v = 0}"
      then have *: "v \<in> N - C - P" "v \<notin> set queue" "dget_or 0 deg v = ?E"
        using deg'[of v] by auto
      then have "dget_or 0 deg v \<noteq> 0" unfolding q by blast
      then have "0 < ?E" using *(3) n_edges_nonneg[of adj queue v] by linarith
      then show "v \<in> set queue'" using * unfolding q' by blast
    qed
  qed
  have "dget_or 0 deg' v = sum (?w v) (N - (P \<union> set queue))" for v
  proof -
    have "N - P - set queue = N - (P \<union> set queue)" by blast
    then show ?thesis using split[of v] deg'[of v] by simp
  qed
  moreover have "dget_or 0 deg' v = 0" if "v \<in> P \<union> set queue" for v
    using that zP[of v] zero[of v] deg'[of v] unfolding q by auto
  moreover have "P \<union> set queue \<subseteq> N - C" using PN q by auto
  ultimately have "topo_inv C adj N (P \<union> set queue) queue' deg'"
    unfolding topo_inv_def using fin dq' adjN setq' by (intro conjI allI ballI) assumption+
  with layer show ?thesis by blast
qed

text \<open>
  What the whole loop returns: the layers partition the steps processed, every in-plan
  predecessor of a step of layer \<open>i\<close> was processed before layer \<open>i\<close>, and no unprocessed
  pending step is left without an unprocessed predecessor.
\<close>

lemma topo_loop_spec:
  assumes "topo_inv C adj N P queue deg"
  shows "\<exists>ls. topo_loop C adj queue deg layers vis = (layers @ ls, vis + length (concat ls))
     \<and> distinct (concat ls) \<and> set (concat ls) \<subseteq> N - C - P
     \<and> (\<forall>i < length ls. \<forall>v\<in>set (ls ! i). \<forall>u\<in>N. v \<in> set (dget_or [] adj u) \<longrightarrow>
            u \<in> P \<union> set (concat (take i ls)))
     \<and> (\<forall>v\<in>N - C - P - set (concat ls). \<exists>u\<in>N - P - set (concat ls). v \<in> set (dget_or [] adj u))
     \<and> [] \<notin> set ls"
  using assms
proof (induction C adj queue deg layers vis arbitrary: P rule: topo_loop.induct)
  case (1 C adj queue deg layers vis)
  show ?case
  proof (cases "queue = []")
    case True
    have "\<exists>u\<in>N - P. v \<in> set (dget_or [] adj u)" if "v \<in> N - C - P" for v
    proof -
      have "(\<Sum>u\<in>N - P. int (count_list (dget_or [] adj u) v)) \<noteq> 0"
        using "1.prems" True that by (auto simp: topo_inv_def)
      then show ?thesis by (metis (mono_tags, lifting) count_list_0_iff of_nat_0 sum.neutral)
    qed
    then show ?thesis using True by (intro exI[of _ "[]"]) (simp add: topo_loop.simps)
  next
    case False
    obtain deg' queue' where
      layer: "topo_layer C adj (length queue) (queue, deg, [], vis)
        = (queue', deg', queue, vis + length queue)"
      and inv': "topo_inv C adj N (P \<union> set queue) queue' deg'"
      using topo_inv_step[OF "1.prems"] by blast
    from "1.IH"[OF False layer[symmetric] refl refl inv'] obtain ls where
      ls: "topo_loop C adj queue' deg' (layers @ [queue]) (vis + length queue)
         = ((layers @ [queue]) @ ls, vis + length queue + length (concat ls))"
      "distinct (concat ls)" "set (concat ls) \<subseteq> N - C - (P \<union> set queue)"
      "\<forall>i < length ls. \<forall>v\<in>set (ls ! i). \<forall>u\<in>N. v \<in> set (dget_or [] adj u) \<longrightarrow>
            u \<in> P \<union> set queue \<union> set (concat (take i ls))"
      "\<forall>v\<in>N - C - (P \<union> set queue) - set (concat ls).
          \<exists>u\<in>N - (P \<union> set queue) - set (concat ls). v \<in> set (dget_or [] adj u)"
      "[] \<notin> set ls"
      by blast
    have "topo_loop C adj queue deg layers vis
        = (layers @ queue # ls, vis + length (concat (queue # ls)))"
      using ls(1) layer False by (subst topo_loop.simps) simp
    moreover have "distinct (concat (queue # ls))" "set (concat (queue # ls)) \<subseteq> N - C - P"
      using ls(2,3) "1.prems" by (auto simp: topo_inv_def)
    moreover have "\<forall>i < length (queue # ls). \<forall>v\<in>set ((queue # ls) ! i). \<forall>u\<in>N.
        v \<in> set (dget_or [] adj u) \<longrightarrow> u \<in> P \<union> set (concat (take i (queue # ls)))"
    proof (intro allI impI ballI)
      fix i v u
      assume i: "i < length (queue # ls)" "v \<in> set ((queue # ls) ! i)" "u \<in> N"
        and e: "v \<in> set (dget_or [] adj u)"
      show "u \<in> P \<union> set (concat (take i (queue # ls)))"
        using i e ls(4) topo_inv_preds[OF "1.prems" _ _ e] by (cases i) auto
    qed
    moreover have "\<forall>v\<in>N - C - P - set (concat (queue # ls)).
        \<exists>u\<in>N - P - set (concat (queue # ls)). v \<in> set (dget_or [] adj u)"
      using ls(5) by (simp add: Diff_eq Int_assoc Int_Un_distrib)
    ultimately show ?thesis using ls(6) False
      by (intro exI[of _ "queue # ls"]) (simp del: concat.simps)
  qed
qed

section \<open>The tables\<close>

definition dep_edges :: "dag_step list \<Rightarrow> string set \<Rightarrow> (string \<times> string) set" where
  "dep_edges steps C = {(d, ds_id s) | d s. s \<in> set steps \<and> d \<in> set (ds_depends_on s)
      \<and> d \<in> set (step_ids steps) \<and> d \<notin> C}"

text \<open>
  \<open>tables_ok\<close>: the in-degree of a step is the number of its occurrences in the adjacency
  lists, and the two dictionaries have the step ids as keys.
\<close>

definition tables_ok :: "string set \<Rightarrow> topo_tables \<Rightarrow> bool" where
  "tables_ok N tabs \<longleftrightarrow> finite N
     \<and> (\<forall>v. dget_or 0 (fst tabs) v = (\<Sum>u\<in>N. int (count_list (dget_or [] (snd tabs) u) v)))
     \<and> set (keys (fst tabs)) = N \<and> distinct (keys (fst tabs))
     \<and> (\<forall>u. set (dget_or [] (snd tabs) u) \<subseteq> N)"

definition table_edges :: "topo_tables \<Rightarrow> (string \<times> string) set" where
  "table_edges tabs = {(u, v). v \<in> set (dget_or [] (snd tabs) u)}"

lemma dget_fold_const:
  "dget (fold (\<lambda>s d. dset (f s) c d) xs d0) k = (if k \<in> f ` set xs then Some c else dget d0 k)"
  by (induction xs arbitrary: d0) (auto simp: update_conv')

lemma keys_fold_const: "set (keys (fold (\<lambda>s d. dset (f s) (g s) d) xs d0)) = set (keys d0) \<union> f ` set xs"
  by (induction xs arbitrary: d0) (auto simp: keys_dset simp del: set_map)

lemma distinct_keys_fold:
  "distinct (keys d0) \<Longrightarrow> distinct (keys (fold (\<lambda>s d. dset (f s) (g s) d) xs d0))"
  by (induction xs arbitrary: d0) (auto simp: distinct_update)

lemma tables_ok_init:
  "tables_ok (set (step_ids steps)) (topo_init steps)" "table_edges (topo_init steps) = {}"
  by (auto simp: tables_ok_def topo_init_def table_edges_def dget_or_def dget_fold_const
        keys_fold_const distinct_keys_fold simp del: set_map split: option.splits if_splits)
     auto

lemma tables_ok_add:
  assumes "tables_ok N (deg, adj)" and "sid \<in> N" and "dep \<in> N"
  shows "tables_ok N (dset sid (dget_or 0 deg sid + 1) deg, dset dep (dget_or [] adj dep @ [sid]) adj)"
    (is "tables_ok N (?deg, ?adj)")
proof -
  have cnt: "count_list (dget_or [] ?adj u) v =
      count_list (dget_or [] adj u) v + (if u = dep \<and> v = sid then 1 else 0)" for u v
    by (simp add: dict_simps)
  have "dget_or 0 ?deg v = (\<Sum>u\<in>N. int (count_list (dget_or [] ?adj u) v))" for v
  proof -
    have "(\<Sum>u\<in>N. int (count_list (dget_or [] ?adj u) v)) =
        (\<Sum>u\<in>N. int (count_list (dget_or [] adj u) v)) + (\<Sum>u\<in>N. if u = dep then if v = sid then 1 else 0 else 0)"
      unfolding sum.distrib[symmetric] by (rule sum.cong) (auto simp: cnt)
    also have "\<dots> = dget_or 0 deg v + (if v = sid then 1 else 0)"
      using assms by (simp add: tables_ok_def)
    finally show ?thesis by (simp add: dict_simps)
  qed
  moreover have "set (keys ?deg) = N" "distinct (keys ?deg)"
    using assms by (auto simp: tables_ok_def keys_dset distinct_update simp del: set_map)
  moreover have "set (dget_or [] ?adj u) \<subseteq> N" for u
    using assms by (auto simp: tables_ok_def dict_simps)
  ultimately show ?thesis using assms(1) by (simp add: tables_ok_def)
qed

lemma table_edges_add:
  "table_edges (deg', dset dep (dget_or [] adj dep @ [sid]) adj) = insert (dep, sid) (table_edges (deg, adj))"
  by (auto simp: table_edges_def dict_simps split: if_splits)

lemma topo_deps_spec:
  assumes "tables_ok N tabs" and "sid \<in> N"
  shows "case topo_deps V N C sid deps tabs of
      Inl e \<Rightarrow> (\<exists>d\<in>set deps. d \<notin> V \<and> e = ValueError (unknown_dep_msg sid d))
    | Inr tabs' \<Rightarrow> set deps \<subseteq> V \<and> tables_ok N tabs'
        \<and> table_edges tabs' = table_edges tabs \<union> {(d, sid) | d. d \<in> set deps \<and> d \<in> N \<and> d \<notin> C}"
  using assms
proof (induction V N C sid deps tabs rule: topo_deps.induct)
  case (2 V N C sid dep deps deg adj)
  show ?case
  proof (cases "dep \<in> V")
    case True
    show ?thesis
    proof (cases "dep \<notin> N \<or> dep \<in> C")
      case skip: True
      with 2 True show ?thesis by (auto split: sum.splits)
    next
      case False
      let ?tabs = "(dset sid (dget_or 0 deg sid + 1) deg, dset dep (dget_or [] adj dep @ [sid]) adj)"
      have "tables_ok N ?tabs" using "2.prems" False by (intro tables_ok_add) auto
      from "2.IH"(2)[OF _ False this "2.prems"(2)] True False show ?thesis
        by (auto simp: table_edges_add[of _ dep adj sid deg] split: sum.splits)
    qed
  qed simp
qed simp

lemma topo_edges_spec:
  assumes "tables_ok N tabs" and "set (step_ids ss) \<subseteq> N"
  shows "case topo_edges V N C ss tabs of
      Inl e \<Rightarrow> (\<exists>s\<in>set ss. \<exists>d\<in>set (ds_depends_on s). d \<notin> V \<and> e = ValueError (unknown_dep_msg (ds_id s) d))
    | Inr tabs' \<Rightarrow> (\<forall>s\<in>set ss. set (ds_depends_on s) \<subseteq> V) \<and> tables_ok N tabs'
        \<and> table_edges tabs' = table_edges tabs
            \<union> {(d, ds_id s) | d s. s \<in> set ss \<and> d \<in> set (ds_depends_on s) \<and> d \<in> N \<and> d \<notin> C}"
  using assms
proof (induction ss arbitrary: tabs)
  case (Cons s ss)
  show ?case
  proof (cases "topo_deps V N C (ds_id s) (ds_depends_on s) tabs")
    case (Inl e)
    with topo_deps_spec[where V = V and N = N and C = C and sid = "ds_id s" and deps = "ds_depends_on s" and tabs = tabs] Cons.prems show ?thesis by auto
  next
    case (Inr tabs1)
    with topo_deps_spec[where V = V and N = N and C = C and sid = "ds_id s" and deps = "ds_depends_on s" and tabs = tabs] Cons.prems
    have 1: "set (ds_depends_on s) \<subseteq> V" "tables_ok N tabs1"
      "table_edges tabs1 = table_edges tabs \<union> {(d, ds_id s) | d. d \<in> set (ds_depends_on s) \<and> d \<in> N \<and> d \<notin> C}"
      by auto
    have "set (step_ids ss) \<subseteq> N" using Cons.prems(2) by simp
    note ih = Cons.IH[OF 1(2) this]
    show ?thesis
    proof (cases "topo_edges V N C ss tabs1")
      case err: (Inl e)
      show ?thesis using ih by (simp add: Inr err)
    next
      case res: (Inr tabs2)
      have "table_edges tabs2 = table_edges tabs1
          \<union> {(d, ds_id s) | d s. s \<in> set ss \<and> d \<in> set (ds_depends_on s) \<and> d \<in> N \<and> d \<notin> C}"
        using ih by (simp add: res)
      then have "table_edges tabs2 = table_edges tabs
          \<union> {(d, ds_id s') | d s'. s' \<in> set (s # ss) \<and> d \<in> set (ds_depends_on s') \<and> d \<in> N \<and> d \<notin> C}"
        unfolding 1(3) set_simps by blast
      then show ?thesis using ih 1(1) by (simp add: Inr res)
    qed
  qed
qed auto

section \<open>What the layering guarantees\<close>

text \<open>
  The run of the algorithm behind a result, with the specification of the tables and of the
  loop put together.
\<close>

lemma topological_sort_run:
  fixes plan C E
  defines "N \<equiv> set (step_ids (dp_steps plan))"
  assumes deps: "\<forall>s\<in>set (dp_steps plan). set (ds_depends_on s) \<subseteq> N \<union> C \<union> E"
  shows "\<exists>ls. distinct (concat ls) \<and> set (concat ls) \<subseteq> N - C \<and> [] \<notin> set ls
     \<and> (\<forall>i < length ls. \<forall>v\<in>set (ls ! i). \<forall>u. (u, v) \<in> dep_edges (dp_steps plan) C \<longrightarrow>
            u \<in> set (concat (take i ls)))
     \<and> (\<forall>v\<in>N - C - set (concat ls). \<exists>u\<in>N - C - set (concat ls). (u, v) \<in> dep_edges (dp_steps plan) C)
     \<and> topological_sort plan C E =
         (if card (N \<inter> C) + length (concat ls) \<noteq> length (dp_steps plan)
          then Inl (ValueError cycle_msg) else Inr ls)"
proof -
  let ?steps = "dp_steps plan" and ?V = "N \<union> C \<union> E"
  have keysN: "set (keys (step_map ?steps)) = N"
    unfolding N_def by (rule keys_step_map)
  obtain deg adj where tabs: "topo_edges ?V N C ?steps (topo_init ?steps) = Inr (deg, adj)"
    and ok: "tables_ok N (deg, adj)"
    and edges: "table_edges (deg, adj) = dep_edges ?steps C"
  proof (cases "topo_edges ?V N C ?steps (topo_init ?steps)")
    case (Inl e)
    then show ?thesis
      using topo_edges_spec[of N "topo_init ?steps" ?steps ?V C] tables_ok_init[of ?steps] deps
      unfolding N_def by auto
  next
    case (Inr tabs)
    then show ?thesis
      using topo_edges_spec[of N "topo_init ?steps" ?steps ?V C] tables_ok_init[of ?steps] that
      unfolding N_def dep_edges_def by (cases tabs) (auto simp del: set_map)
  qed
  let ?queue = "map fst (filter (\<lambda>(sid, deg). deg = 0 \<and> sid \<notin> C) deg)"
  have dk: "distinct (keys deg)" "set (keys deg) = N" using ok by (auto simp: tables_ok_def)
  have "set ?queue = {v \<in> N - C. dget_or 0 deg v = 0}"
  proof (rule set_eqI)
    fix v
    have "v \<in> set ?queue \<longleftrightarrow> dget deg v = Some 0 \<and> v \<notin> C"
      using dk(1) by (force simp: image_iff)
    then show "v \<in> set ?queue \<longleftrightarrow> v \<in> {v \<in> N - C. dget_or 0 deg v = 0}"
      using has_key_iff[of deg v] dk(2) by (auto simp: dget_or_def split: option.splits)
  qed
  moreover have "distinct ?queue" using dk(1) by (simp add: distinct_map_filter)
  ultimately have inv: "topo_inv C adj N {} ?queue deg"
    using ok by (simp add: topo_inv_def tables_ok_def)
  have edge_iff: "v \<in> set (dget_or [] adj u) \<longleftrightarrow> (u, v) \<in> dep_edges ?steps C" for u v
    using edges by (auto simp: table_edges_def)
  have edgeN: "(u, v) \<in> dep_edges ?steps C \<Longrightarrow> u \<in> N - C" for u v
    by (auto simp: dep_edges_def N_def)
  let ?vis = "length (filter (\<lambda>k. k \<in> C) (keys (step_map ?steps)))"
  have "distinct (keys (step_map ?steps))"
    unfolding step_map_def by (rule distinct_keys_fold) simp
  then have vis: "?vis = card (N \<inter> C)"
    using keysN by (metis distinct_card distinct_filter Int_commute set_filter Collect_conj_eq Collect_mem_eq)
  from topo_loop_spec[OF inv, of "[]" ?vis] obtain ls where
    ls: "topo_loop C adj ?queue deg [] ?vis = (ls, ?vis + length (concat ls))"
    "distinct (concat ls)" "set (concat ls) \<subseteq> N - C" "[] \<notin> set ls"
    "\<forall>i < length ls. \<forall>v\<in>set (ls ! i). \<forall>u\<in>N. v \<in> set (dget_or [] adj u) \<longrightarrow> u \<in> set (concat (take i ls))"
    "\<forall>v\<in>N - C - set (concat ls). \<exists>u\<in>N - set (concat ls). v \<in> set (dget_or [] adj u)"
    by auto
  have "topological_sort plan C E =
         (if card (N \<inter> C) + length (concat ls) \<noteq> length ?steps
          then Inl (ValueError cycle_msg) else Inr ls)"
    using tabs ls(1) unfolding topological_sort_def keysN Let_def vis by simp
  moreover have "\<forall>i < length ls. \<forall>v\<in>set (ls ! i). \<forall>u. (u, v) \<in> dep_edges ?steps C \<longrightarrow>
            u \<in> set (concat (take i ls))"
    using ls(5) edgeN by (auto simp: edge_iff)
  moreover have "\<forall>v\<in>N - C - set (concat ls). \<exists>u\<in>N - C - set (concat ls). (u, v) \<in> dep_edges ?steps C"
  proof
    fix v assume "v \<in> N - C - set (concat ls)"
    with ls(6) obtain u where "u \<in> N - set (concat ls)" "v \<in> set (dget_or [] adj u)" by blast
    with edgeN[of u v] show "\<exists>u\<in>N - C - set (concat ls). (u, v) \<in> dep_edges ?steps C"
      unfolding edge_iff by blast
  qed
  ultimately show ?thesis using ls(2-4) by (intro exI[of _ ls]) simp
qed

lemma topological_sort_unknown_dep:
  assumes "s \<in> set (dp_steps plan)" and "d \<in> set (ds_depends_on s)"
    and "d \<notin> set (step_ids (dp_steps plan)) \<union> C \<union> E"
  shows "\<exists>s'\<in>set (dp_steps plan). \<exists>d'\<in>set (ds_depends_on s').
      d' \<notin> set (step_ids (dp_steps plan)) \<union> C \<union> E
      \<and> topological_sort plan C E = Inl (ValueError (unknown_dep_msg (ds_id s') d'))"
proof -
  let ?N = "set (step_ids (dp_steps plan))"
  let ?run = "topo_edges (?N \<union> C \<union> E) ?N C (dp_steps plan) (topo_init (dp_steps plan))"
  have spec: "case ?run of
      Inl e \<Rightarrow> (\<exists>s\<in>set (dp_steps plan). \<exists>d\<in>set (ds_depends_on s). d \<notin> ?N \<union> C \<union> E
                 \<and> e = ValueError (unknown_dep_msg (ds_id s) d))
    | Inr tabs' \<Rightarrow> (\<forall>s\<in>set (dp_steps plan). set (ds_depends_on s) \<subseteq> ?N \<union> C \<union> E)"
    using topo_edges_spec[OF tables_ok_init(1) order_refl, of "dp_steps plan" "?N \<union> C \<union> E" C]
    by (simp split: sum.splits)
  show ?thesis
  proof (cases ?run)
    case (Inl e)
    then have "topological_sort plan C E = Inl e"
      unfolding topological_sort_def keys_step_map Let_def by simp
    with spec Inl show ?thesis by auto
  next
    case (Inr tabs)
    with spec assms show ?thesis by auto
  qed
qed

lemma topological_sort_success:
  assumes "topological_sort plan C E = Inr layers"
  shows "distinct (step_ids (dp_steps plan))"
    and "distinct (concat layers)"
    and "set (concat layers) = set (step_ids (dp_steps plan)) - C"
    and "[] \<notin> set layers"
    and "\<And>i v u. i < length layers \<Longrightarrow> v \<in> set (layers ! i) \<Longrightarrow> (u, v) \<in> dep_edges (dp_steps plan) C
          \<Longrightarrow> u \<in> set (concat (take i layers))"
    and "\<forall>s\<in>set (dp_steps plan). set (ds_depends_on s) \<subseteq> set (step_ids (dp_steps plan)) \<union> C \<union> E"
proof -
  let ?ids = "step_ids (dp_steps plan)"
  let ?N = "set ?ids"
  show deps: "\<forall>s\<in>set (dp_steps plan). set (ds_depends_on s) \<subseteq> ?N \<union> C \<union> E"
    using topological_sort_unknown_dep[of _ plan _ C E] assms by fastforce
  from topological_sort_run[OF deps] assms have
    run: "distinct (concat layers)" "set (concat layers) \<subseteq> ?N - C" "[] \<notin> set layers"
    "\<forall>i < length layers. \<forall>v\<in>set (layers ! i). \<forall>u. (u, v) \<in> dep_edges (dp_steps plan) C \<longrightarrow>
        u \<in> set (concat (take i layers))"
    "card (?N \<inter> C) + length (concat layers) = length (dp_steps plan)"
    by (auto split: if_splits)
  have len: "length (concat layers) = card (set (concat layers))"
    by (rule distinct_card[OF run(1), symmetric])
  have split: "card ?N = card (?N \<inter> C) + card (?N - C)"
    by (metis List.finite_set card_Diff_subset_Int card_mono finite_Int inf_le1 le_add_diff_inverse)
  have le: "card (set (concat layers)) \<le> card (?N - C)"
    using run(2) by (intro card_mono) auto
  have "card ?N \<le> length ?ids" by (rule card_length)
  then have eqs: "card ?N = length ?ids" "card (set (concat layers)) = card (?N - C)"
    using run(5) len split le by simp_all
  show "distinct ?ids" using eqs(1) by (rule card_distinct)
  show "set (concat layers) = ?N - C"
    using run(2) eqs(2) by (intro card_subset_eq) auto
  show "distinct (concat layers)" "[] \<notin> set layers" by fact+
  show "\<And>i v u. i < length layers \<Longrightarrow> v \<in> set (layers ! i) \<Longrightarrow> (u, v) \<in> dep_edges (dp_steps plan) C
          \<Longrightarrow> u \<in> set (concat (take i layers))"
    using run(4) by blast
qed

text \<open>A finite relation in which every element of a set has a predecessor in the set is cyclic.\<close>

lemma no_source_imp_cyclic:
  assumes "finite A" and "A \<noteq> {}" and "\<forall>v\<in>A. \<exists>u\<in>A. (u, v) \<in> r"
  shows "\<not> acyclic r"
proof
  assume "acyclic r"
  let ?r = "r \<inter> A \<times> A"
  have "finite ?r" using assms(1) by (simp add: finite_Int)
  moreover have "acyclic ?r" using \<open>acyclic r\<close> by (rule acyclic_subset) auto
  ultimately have "wf ?r" by (rule finite_acyclic_wf)
  then obtain z where "z \<in> A" "\<forall>u. (u, z) \<in> ?r \<longrightarrow> u \<notin> A"
    using assms(2) by (metis wf_eq_minimal ex_in_conv)
  then show False using assms(3) by blast
qed

lemma topological_sort_complete:
  assumes ids: "distinct (step_ids (dp_steps plan))"
    and deps: "\<forall>s\<in>set (dp_steps plan). set (ds_depends_on s) \<subseteq> set (step_ids (dp_steps plan)) \<union> C \<union> E"
    and acyc: "acyclic (dep_edges (dp_steps plan) C)"
  shows "\<exists>layers. topological_sort plan C E = Inr layers"
proof -
  let ?N = "set (step_ids (dp_steps plan))"
  from topological_sort_run[OF deps] obtain ls where
    ls: "distinct (concat ls)" "set (concat ls) \<subseteq> ?N - C"
    "\<forall>v\<in>?N - C - set (concat ls). \<exists>u\<in>?N - C - set (concat ls). (u, v) \<in> dep_edges (dp_steps plan) C"
    "topological_sort plan C E =
         (if card (?N \<inter> C) + length (concat ls) \<noteq> length (dp_steps plan)
          then Inl (ValueError cycle_msg) else Inr ls)"
    by blast
  have "?N - C - set (concat ls) = {}"
    using no_source_imp_cyclic[OF _ _ ls(3)] acyc by auto
  with ls(2) have "set (concat ls) = ?N - C" by blast
  then have "length (concat ls) = card (?N - C)"
    using ls(1) by (metis distinct_card)
  moreover have "card ?N = card (?N \<inter> C) + card (?N - C)"
    by (metis List.finite_set card_Diff_subset_Int card_mono finite_Int inf_le1 le_add_diff_inverse)
  moreover have "card ?N = length (dp_steps plan)" using distinct_card[OF ids] by simp
  ultimately show ?thesis using ls(4) by simp
qed

lemma layers_acyclic:
  assumes "topological_sort plan C E = Inr layers"
  shows "acyclic (dep_edges (dp_steps plan) C)"
proof -
  let ?r = "dep_edges (dp_steps plan) C"
  define f where "f x = (LEAST i. i < length layers \<and> x \<in> set (layers ! i))" for x
  have edge: "f x < f y" if e: "(x, y) \<in> ?r" and "y \<notin> C" for x y
  proof -
    have "y \<in> set (concat layers)"
      using that topological_sort_success(3)[OF assms] by (auto simp: dep_edges_def)
    then have "\<exists>i. i < length layers \<and> y \<in> set (layers ! i)" unfolding in_concat_iff by blast
    then have fy: "f y < length layers" "y \<in> set (layers ! f y)"
      unfolding f_def by (auto dest!: LeastI_ex[of "\<lambda>i. i < length layers \<and> y \<in> set (layers ! i)"])
    then have "x \<in> set (concat (take (f y) layers))"
      using topological_sort_success(5)[OF assms _ _ e] by blast
    then obtain j where j: "j < f y" "j < length layers" "x \<in> set (layers ! j)"
      unfolding in_concat_take_iff by blast
    then have "f x \<le> j" unfolding f_def by (intro Least_le) simp
    with j show ?thesis by simp
  qed
  have "f x < f y" if "(x, y) \<in> ?r\<^sup>+" "y \<notin> C" for x y
    using that
  proof (induction rule: trancl_induct)
    case (step y z)
    then have "y \<notin> C" by (auto simp: dep_edges_def)
    with step edge[of y z] show ?case by simp
  qed (rule edge)
  moreover have "x \<notin> C" if "(x, x) \<in> ?r\<^sup>+" for x
    using tranclD[OF that] by (auto simp: dep_edges_def)
  ultimately show ?thesis by (fastforce simp: acyclic_def)
qed

section \<open>Properties\<close>

text \<open>
  C28: a layering returned by \<open>topological_sort\<close> holds every step of the plan that is not yet
  completed exactly once, no layer is empty, and each step comes in a strictly later layer
  than each of its in-plan dependencies that is not completed.
\<close>

theorem topological_sort_sound:
  assumes "topological_sort plan C E = Inr layers"
  shows "distinct (concat layers)
    \<and> set (concat layers) = set (step_ids (dp_steps plan)) - C
    \<and> [] \<notin> set layers
    \<and> (\<forall>s\<in>set (dp_steps plan). \<forall>d\<in>set (ds_depends_on s). \<forall>j < length layers.
          ds_id s \<in> set (layers ! j) \<longrightarrow> d \<in> set (step_ids (dp_steps plan)) \<longrightarrow> d \<notin> C \<longrightarrow>
          (\<exists>i < j. d \<in> set (layers ! i)))"
proof (intro conjI ballI allI impI)
  show "distinct (concat layers)" "set (concat layers) = set (step_ids (dp_steps plan)) - C"
    "[] \<notin> set layers"
    by (rule topological_sort_success[OF assms])+
  fix s d j
  assume s: "s \<in> set (dp_steps plan)" "d \<in> set (ds_depends_on s)"
    and j: "j < length layers" "ds_id s \<in> set (layers ! j)"
    and d: "d \<in> set (step_ids (dp_steps plan))" "d \<notin> C"
  have "(d, ds_id s) \<in> dep_edges (dp_steps plan) C" using s d by (auto simp: dep_edges_def)
  from topological_sort_success(5)[OF assms j this]
  show "\<exists>i < j. d \<in> set (layers ! i)" unfolding in_concat_take_iff by blast
qed

lemma topological_sort_sound_witness:
  "topological_sort diamond_plan {} {} = Inr [[''s1''], [''s2'', ''s3''], [''s4'']]
   \<and> distinct (concat [[''s1''], [''s2'', ''s3''], [''s4'']])"
proof -
  have run: "topological_sort diamond_plan {} {} = Inr [[''s1''], [''s2'', ''s3''], [''s4'']]"
    by code_simp
  show ?thesis using run topological_sort_sound[OF run] by blast
qed

text \<open>
  C29: \<open>topological_sort\<close> succeeds exactly when the step ids are distinct, every dependency is
  an in-plan, completed or external step, and the pending dependencies have no cycle.
\<close>

theorem topological_sort_succeeds_iff:
  "(\<exists>layers. topological_sort plan C E = Inr layers) =
     (distinct (step_ids (dp_steps plan))
      \<and> (\<forall>s\<in>set (dp_steps plan). set (ds_depends_on s) \<subseteq> set (step_ids (dp_steps plan)) \<union> C \<union> E)
      \<and> acyclic (dep_edges (dp_steps plan) C))"
  using topological_sort_success(1,6)[of plan C E] layers_acyclic[of plan C E]
    topological_sort_complete[of plan C E]
  by blast

lemma topological_sort_succeeds_iff_witness:
  "distinct (step_ids (dp_steps diamond_plan)) \<and> acyclic (dep_edges (dp_steps diamond_plan) {})"
proof -
  have "topological_sort diamond_plan {} {} = Inr [[''s1''], [''s2'', ''s3''], [''s4'']]"
    by code_simp
  then show ?thesis using topological_sort_succeeds_iff[of diamond_plan "{}" "{}"] by blast
qed

text \<open>
  the two errors. With an unknown dependency the exception names a step and a dependency of
  it that is unknown; with all dependencies known, the only failure is the cycle error.
\<close>

theorem topological_sort_error:
  "(case topological_sort plan C E of
      Inr layers \<Rightarrow> True
    | Inl e \<Rightarrow>
        if \<forall>s\<in>set (dp_steps plan). set (ds_depends_on s) \<subseteq> set (step_ids (dp_steps plan)) \<union> C \<union> E
        then e = ValueError cycle_msg
        else \<exists>s\<in>set (dp_steps plan). \<exists>d\<in>set (ds_depends_on s).
               d \<notin> set (step_ids (dp_steps plan)) \<union> C \<union> E
               \<and> e = ValueError (unknown_dep_msg (ds_id s) d))"
proof (cases "\<forall>s\<in>set (dp_steps plan). set (ds_depends_on s) \<subseteq> set (step_ids (dp_steps plan)) \<union> C \<union> E")
  case True
  from topological_sort_run[OF True] show ?thesis
    using True by (auto split: if_splits)
next
  case False
  then obtain s d where "s \<in> set (dp_steps plan)" "d \<in> set (ds_depends_on s)"
    "d \<notin> set (step_ids (dp_steps plan)) \<union> C \<union> E" by blast
  from topological_sort_unknown_dep[OF this] show ?thesis
    unfolding if_not_P[OF False] by (elim bexE conjE) (simp, blast)
qed

lemma topological_sort_error_witness:
  "topological_sort (DagPlan0\<lparr>dp_steps := [mk_step ''s1'' ''shell'' [''s1'']]\<rparr>) {} {}
     = Inl (ValueError cycle_msg)
   \<and> topological_sort (DagPlan0\<lparr>dp_steps := [mk_step ''s1'' ''shell'' [''s9'']]\<rparr>) {} {}
     = Inl (ValueError (unknown_dep_msg ''s1'' ''s9''))"
  using topological_sort_error[of "DagPlan0\<lparr>dp_steps := [mk_step ''s1'' ''shell'' [''s1'']]\<rparr>" "{}" "{}"]
    topological_sort_error[of "DagPlan0\<lparr>dp_steps := [mk_step ''s1'' ''shell'' [''s9'']]\<rparr>" "{}" "{}"]
  by (intro conjI; code_simp)

end
