(* ===== verification/Plan_Check.thy ===== *)
theory Plan_Check
  imports Plan_Topo
begin

text \<open>
  The static plan validation of \<^verbatim>\<open>src/harness/models/plan.py\<close>: the three-colour depth-first
  search \<^verbatim>\<open>_find_cycle\<close>, the memoised level computation \<^verbatim>\<open>_hierarchy_errors\<close> and
  \<^verbatim>\<open>validate_dag_structure\<close>. Both recursions carry a fuel argument, one unit per nested call;
  \<open>length ids + 1\<close> units are enough (each nested call of the search blackens a white step,
  each nested call of the level computation moves down an acyclic graph), as proved below.
  The Python set of step ids is iterated in an unspecified order: the definitions take it as
  a list and the results hold for every order.
\<close>

section \<open>Cycle detection\<close>

datatype color = White | Gray | Black

type_synonym dfs_state = "(string \<Rightarrow> color) \<times> string list"

definition plan_adjacency :: "dag_step list \<Rightarrow> string list \<Rightarrow> string \<Rightarrow> string list" where
  "plan_adjacency steps ids sid =
     (case dget (step_map steps) sid of
        None \<Rightarrow> []
      | Some step \<Rightarrow> filter (\<lambda>d. d \<in> set ids) (ds_depends_on step))"

function (sequential) dfs :: "nat \<Rightarrow> (string \<Rightarrow> string list) \<Rightarrow> string \<Rightarrow> dfs_state
      \<Rightarrow> (string list option \<times> dfs_state) option"
  and dfs_next :: "nat \<Rightarrow> (string \<Rightarrow> string list) \<Rightarrow> string list \<Rightarrow> dfs_state
      \<Rightarrow> (string list option \<times> dfs_state) option" where
  "dfs 0 adjacency sid st = None"
| "dfs (Suc n) adjacency sid (color, stack) =
     (case dfs_next n adjacency (adjacency sid) (color(sid := Gray), stack @ [sid]) of
        None \<Rightarrow> None
      | Some (Some cyc, st) \<Rightarrow> Some (Some cyc, st)
      | Some (None, (color', stack')) \<Rightarrow> Some (None, (color'(sid := Black), butlast stack')))"
| "dfs_next n adjacency [] st = Some (None, st)"
| "dfs_next n adjacency (nxt # rest) (color, stack) =
     (if color nxt = Gray then
        Some (Some (drop (index_of nxt stack) stack @ [nxt]), (color, stack))
      else if color nxt = White then
        (case dfs n adjacency nxt (color, stack) of
           None \<Rightarrow> None
         | Some (Some cyc, st) \<Rightarrow> Some (Some cyc, st)
         | Some (None, st) \<Rightarrow> dfs_next n adjacency rest st)
      else dfs_next n adjacency rest (color, stack))"
  by pat_completeness auto
termination
  by (relation "measures [\<lambda>x. case x of Inl (n, _) \<Rightarrow> n | Inr (n, _) \<Rightarrow> n,
        \<lambda>x. case x of Inl _ \<Rightarrow> 0 | Inr (n, adj, ns, st) \<Rightarrow> Suc (length ns)]") auto

fun dfs_roots :: "nat \<Rightarrow> (string \<Rightarrow> string list) \<Rightarrow> string list \<Rightarrow> dfs_state \<Rightarrow> string list option" where
  "dfs_roots fuel adjacency [] st = Some []"
| "dfs_roots fuel adjacency (sid # sids) (color, stack) =
     (if color sid = White then
        (case dfs fuel adjacency sid (color, stack) of
           None \<Rightarrow> None
         | Some (Some cyc, st) \<Rightarrow> Some cyc
         | Some (None, st) \<Rightarrow> dfs_roots fuel adjacency sids st)
      else dfs_roots fuel adjacency sids (color, stack))"

definition find_cycle_run :: "dag_step list \<Rightarrow> string list \<Rightarrow> string list option" where
  "find_cycle_run steps ids =
     dfs_roots (Suc (length ids)) (plan_adjacency steps ids) ids (\<lambda>_. White, [])"

definition find_cycle :: "dag_step list \<Rightarrow> string list \<Rightarrow> string list" where
  "find_cycle steps ids = (case find_cycle_run steps ids of None \<Rightarrow> [] | Some c \<Rightarrow> c)"

section \<open>Level consistency\<close>

type_synonym levels = "string \<rightharpoonup> nat"

function (sequential) level :: "nat \<Rightarrow> dag_step dict \<Rightarrow> string list \<Rightarrow> string \<Rightarrow> levels \<Rightarrow> (nat \<times> levels) option"
  and level_deps :: "nat \<Rightarrow> dag_step dict \<Rightarrow> string list \<Rightarrow> string list \<Rightarrow> levels \<Rightarrow> (nat list \<times> levels) option"
  where
  "level 0 smap ids sid lv = None"
| "level (Suc n) smap ids sid lv =
     (case lv sid of
        Some l \<Rightarrow> Some (l, lv)
      | None \<Rightarrow>
          (case dget smap sid of
             None \<Rightarrow> Some (0, lv)
           | Some step \<Rightarrow>
               (case level_deps n smap ids (filter (\<lambda>d. d \<in> set ids) (ds_depends_on step)) lv of
                  None \<Rightarrow> None
                | Some (dep_levels, lv') \<Rightarrow>
                    (let l = (if dep_levels \<noteq> [] then Max (set dep_levels) + 1 else 0)
                     in Some (l, lv'(sid \<mapsto> l))))))"
| "level_deps n smap ids [] lv = Some ([], lv)"
| "level_deps n smap ids (d # ds) lv =
     (case level n smap ids d lv of
        None \<Rightarrow> None
      | Some (l, lv') \<Rightarrow>
          (case level_deps n smap ids ds lv' of
             None \<Rightarrow> None
           | Some (ls, lv'') \<Rightarrow> Some (l # ls, lv'')))"
  by pat_completeness auto
termination
  by (relation "measures [\<lambda>x. case x of Inl (n, _) \<Rightarrow> n | Inr (n, _) \<Rightarrow> n,
        \<lambda>x. case x of Inl _ \<Rightarrow> 0 | Inr (n, smap, ids, ds, lv) \<Rightarrow> Suc (length ds)]") auto

definition get_level :: "levels \<Rightarrow> string \<Rightarrow> nat" where
  "get_level lv d = (case lv d of None \<Rightarrow> 0 | Some l \<Rightarrow> l)"

definition hierarchy_msg :: "string \<Rightarrow> string \<Rightarrow> nat \<Rightarrow> nat \<Rightarrow> string" where
  "hierarchy_msg sid dep dl l =
     ''Step '' @ quoted sid @ '' is scheduled before its dependency '' @ quoted dep
     @ '' (hierarchy inconsistency: dep level '' @ show_nat dl @ '' >= '' @ show_nat l @ '')''"

fun hierarchy_loop :: "nat \<Rightarrow> dag_step dict \<Rightarrow> string list \<Rightarrow> dag_step list \<Rightarrow> levels \<Rightarrow> string list option" where
  "hierarchy_loop fuel smap ids [] lv = Some []"
| "hierarchy_loop fuel smap ids (step # steps) lv =
     (case level fuel smap ids (ds_id step) lv of
        None \<Rightarrow> None
      | Some (l, lv') \<Rightarrow>
          (let in_plan_deps = filter (\<lambda>d. d \<in> set ids) (ds_depends_on step);
               errs = map (\<lambda>dep. hierarchy_msg (ds_id step) dep (get_level lv' dep) l)
                        (filter (\<lambda>dep. l \<le> get_level lv' dep) in_plan_deps)
           in case hierarchy_loop fuel smap ids steps lv' of
                None \<Rightarrow> None
              | Some rest \<Rightarrow> Some (errs @ rest)))"

definition hierarchy_run :: "dag_step list \<Rightarrow> string list \<Rightarrow> string list option" where
  "hierarchy_run steps ids = hierarchy_loop (Suc (length ids)) (step_map steps) ids steps Map.empty"

definition hierarchy_errors :: "dag_step list \<Rightarrow> string list \<Rightarrow> string list" where
  "hierarchy_errors steps ids = (case hierarchy_run steps ids of None \<Rightarrow> [] | Some es \<Rightarrow> es)"

section \<open>The validation\<close>

definition missing_id_msg :: "nat \<Rightarrow> string" where
  "missing_id_msg i = ''Step '' @ show_nat i @ '' is missing '' @ quoted ''id'' @ '' field''"

definition duplicate_id_msg :: "string \<Rightarrow> string" where
  "duplicate_id_msg sid = ''Duplicate step id '' @ quoted sid"

definition self_dep_msg :: "string \<Rightarrow> string" where
  "self_dep_msg sid = ''Step '' @ quoted sid @ '' depends on itself''"

definition cycle_path_msg :: "string list \<Rightarrow> string" where
  "cycle_path_msg cyc = ''Cycle detected: '' @ join '' -> '' cyc"

fun check_ids :: "nat \<Rightarrow> dag_step list \<Rightarrow> string list \<Rightarrow> string list \<times> string list" where
  "check_ids i [] ids = ([], ids)"
| "check_ids i (s # ss) ids =
     (if ds_id s = [] then
        (case check_ids (Suc i) ss ids of (es, ids') \<Rightarrow> (missing_id_msg i # es, ids'))
      else if ds_id s \<in> set ids then
        (case check_ids (Suc i) ss ids of (es, ids') \<Rightarrow> (duplicate_id_msg (ds_id s) # es, ids'))
      else check_ids (Suc i) ss (ids @ [ds_id s]))"

definition check_dep :: "string list \<Rightarrow> string set \<Rightarrow> string \<Rightarrow> string \<Rightarrow> string list" where
  "check_dep ids external sid dep =
     (if dep = sid then [self_dep_msg sid]
      else if dep \<notin> set ids \<and> dep \<notin> external then [unknown_dep_msg sid dep]
      else [])"

definition check_deps :: "string list \<Rightarrow> string set \<Rightarrow> dag_step \<Rightarrow> string list" where
  "check_deps ids external s =
     (if ds_id s = [] then [] else concat (map (check_dep ids external (ds_id s)) (ds_depends_on s)))"

text \<open>
  The sixth check of the source (\<^verbatim>\<open>isinstance(step.input, dict)\<close>) is settled by the type of
  \<^const>\<open>ds_input\<close>, as it is by the pydantic model.
\<close>

definition validate_dag_structure :: "dag_plan \<Rightarrow> string set \<Rightarrow> string set \<Rightarrow> string list" where
  "validate_dag_structure plan completed available =
     (let steps = dp_steps plan; external = completed \<union> available
      in if steps = [] then []
         else case check_ids 0 steps [] of
           (id_errors, ids) \<Rightarrow>
             (let errors = id_errors @ concat (map (check_deps ids external) steps)
              in if errors = [] then
                   (let cyc = find_cycle steps ids
                    in if cyc \<noteq> [] then [cycle_path_msg cyc]
                       else hierarchy_errors steps ids)
                 else errors))"

section \<open>Correctness of the cycle search\<close>

definition is_cycle :: "(string \<Rightarrow> string list) \<Rightarrow> string list \<Rightarrow> bool" where
  "is_cycle adj cyc \<longleftrightarrow> 2 \<le> length cyc \<and> hd cyc = last cyc
     \<and> successively (\<lambda>x y. y \<in> set (adj x)) cyc"

definition black_edges :: "(string \<Rightarrow> string list) \<Rightarrow> (string \<Rightarrow> color) \<Rightarrow> (string \<times> string) set" where
  "black_edges adj col = {(x, y). col x = Black \<and> y \<in> set (adj x)}"

text \<open>
  The invariant of the search: the grey steps are the stack, a path; the black steps are
  closed under dependencies and have no cycle among them.
\<close>

definition dfs_inv :: "(string \<Rightarrow> string list) \<Rightarrow> string set \<Rightarrow> (string \<Rightarrow> color) \<Rightarrow> string list \<Rightarrow> bool" where
  "dfs_inv adj V col stk \<longleftrightarrow>
     finite V \<and> (\<forall>x. set (adj x) \<subseteq> V) \<and> (\<forall>x. col x = Gray \<longleftrightarrow> x \<in> set stk) \<and> distinct stk
     \<and> successively (\<lambda>x y. y \<in> set (adj x)) stk
     \<and> (\<forall>x y. col x = Black \<longrightarrow> y \<in> set (adj x) \<longrightarrow> col y = Black)
     \<and> acyclic (black_edges adj col)"

definition dfs_post :: "(string \<Rightarrow> string list) \<Rightarrow> string set \<Rightarrow> dfs_state \<Rightarrow> string set
    \<Rightarrow> (string list option \<times> dfs_state) option \<Rightarrow> bool" where
  "dfs_post adj V st done res \<longleftrightarrow>
     (case res of
        None \<Rightarrow> False
      | Some (Some cyc, st') \<Rightarrow> is_cycle adj cyc
      | Some (None, (col', stk')) \<Rightarrow>
          stk' = snd st \<and> dfs_inv adj V col' stk' \<and> (\<forall>x\<in>done. col' x = Black)
          \<and> (\<forall>x. fst st x = Black \<longrightarrow> col' x = Black) \<and> (\<forall>x. col' x = White \<longrightarrow> fst st x = White))"

definition whites :: "string set \<Rightarrow> (string \<Rightarrow> color) \<Rightarrow> string set" where
  "whites V col = {x \<in> V. col x = White}"

lemma acyclic_add_source:
  assumes "acyclic r" and "sid \<notin> Range r" and "sid \<notin> Y"
  shows "acyclic (r \<union> {sid} \<times> Y)"
proof (rule acyclicI, intro allI notI)
  let ?r = "r \<union> {sid} \<times> Y"
  fix x assume cyc: "(x, x) \<in> ?r\<^sup>+"
  have "(x, y) \<in> r\<^sup>+" if "(x, y) \<in> ?r\<^sup>+" "x \<noteq> sid" for y
    using that
  proof (induction rule: trancl_induct)
    case (base y)
    then show ?case by auto
  next
    case (step y z)
    then have "y \<noteq> sid" using assms(2,3) by (auto dest!: tranclD2)
    with step show ?case by (auto intro: trancl_into_trancl)
  qed
  moreover have "x \<noteq> sid" using cyc assms(2,3) by (auto dest!: tranclD2)
  ultimately have "(x, x) \<in> r\<^sup>+" using cyc by blast
  then show False using assms(1) by (simp add: acyclic_def)
qed

lemma dfs_inv_enter:
  assumes "dfs_inv adj V col stk" and "col sid = White"
    and "stk = [] \<or> sid \<in> set (adj (last stk))"
  shows "dfs_inv adj V (col(sid := Gray)) (stk @ [sid])"
proof -
  have "black_edges adj (col(sid := Gray)) = black_edges adj col"
    using assms(2) by (auto simp: black_edges_def split: if_splits)
  moreover have "sid \<notin> set stk" using assms(1,2) by (metis color.distinct(1) dfs_inv_def)
  ultimately show ?thesis
    using assms unfolding dfs_inv_def
    by (auto simp: successively_append_iff split: if_splits)
qed

lemma dfs_inv_leave:
  assumes inv: "dfs_inv adj V col (stk @ [sid])" and black: "\<forall>y\<in>set (adj sid). col y = Black"
  shows "dfs_inv adj V (col(sid := Black)) stk"
proof -
  have gray: "col sid = Gray" using inv by (auto simp: dfs_inv_def)
  have closed: "\<And>x y. col x = Black \<Longrightarrow> y \<in> set (adj x) \<Longrightarrow> col y = Black"
    using inv by (auto simp: dfs_inv_def)
  have "black_edges adj (col(sid := Black)) = black_edges adj col \<union> {sid} \<times> set (adj sid)"
    using gray by (auto simp: black_edges_def split: if_splits)
  moreover have "sid \<notin> Range (black_edges adj col)"
    using closed gray by (force simp: black_edges_def)
  moreover have "sid \<notin> set (adj sid)" using black gray by auto
  moreover have "acyclic (black_edges adj col)" using inv by (auto simp: dfs_inv_def)
  ultimately have "acyclic (black_edges adj (col(sid := Black)))"
    by (simp add: acyclic_add_source)
  moreover have "\<forall>x. (col(sid := Black)) x = Gray \<longleftrightarrow> x \<in> set stk" "distinct stk"
    using inv by (auto simp: dfs_inv_def)
  ultimately show ?thesis
    using inv black closed unfolding dfs_inv_def
    by (auto simp: successively_append_iff)
qed

lemma stack_cycle:
  assumes "dfs_inv adj V col stk" and "col nxt = Gray" and "nxt \<in> set (adj (last stk))"
  shows "is_cycle adj (drop (index_of nxt stk) stk @ [nxt])"
proof -
  let ?i = "index_of nxt stk"
  have mem: "nxt \<in> set stk" using assms(1,2) by (simp add: dfs_inv_def)
  then have i: "?i < length stk" by (rule index_of_less)
  have "hd (drop ?i stk) = nxt" using i mem by (simp add: hd_drop_conv_nth nth_index_of)
  moreover have "successively (\<lambda>x y. y \<in> set (adj x)) (drop ?i stk)"
    using assms(1) append_take_drop_id[of ?i stk] unfolding dfs_inv_def
    by (metis successively_append_iff)
  ultimately show ?thesis
    using i assms(3) by (simp add: is_cycle_def successively_append_iff last_drop)
qed

lemma dfs_post_weaken:
  assumes "dfs_post adj V (col', stk) D res"
    and "\<forall>x. col x = Black \<longrightarrow> col' x = Black" and "\<forall>x. col' x = White \<longrightarrow> col x = White"
    and "\<forall>x\<in>D'. x \<in> D \<or> col' x = Black"
  shows "dfs_post adj V (col, stk) D' res"
proof (cases res)
  case None
  then show ?thesis using assms(1) by (simp add: dfs_post_def)
next
  case (Some p)
  obtain r col'' stk'' where p: "p = (r, col'', stk'')" by (cases p) auto
  show ?thesis
  proof (cases r)
    case None
    have *: "stk'' = stk" "dfs_inv adj V col'' stk" "\<forall>x\<in>D. col'' x = Black"
      "\<forall>x. col' x = Black \<longrightarrow> col'' x = Black" "\<forall>x. col'' x = White \<longrightarrow> col' x = White"
      using assms(1) unfolding dfs_post_def Some p None by auto
    have "\<forall>x\<in>D'. col'' x = Black" using *(3,4) assms(4) by blast
    moreover have "\<forall>x. col x = Black \<longrightarrow> col'' x = Black" using *(4) assms(2) by blast
    moreover have "\<forall>x. col'' x = White \<longrightarrow> col x = White" using *(5) assms(3) by blast
    ultimately show ?thesis using *(1,2) by (simp add: dfs_post_def Some p None)
  next
    case (Some cyc)
    then show ?thesis using assms(1) \<open>res = Some p\<close> by (simp add: dfs_post_def p)
  qed
qed

lemma dfs_specs:
  "dfs_inv adj V (fst st) (snd st) \<Longrightarrow> fst st sid = White \<Longrightarrow> sid \<in> V \<Longrightarrow>
     snd st = [] \<or> sid \<in> set (adj (last (snd st))) \<Longrightarrow> card (whites V (fst st)) \<le> n \<Longrightarrow>
     dfs_post adj V st {sid} (dfs n adj sid st)"
  "dfs_inv adj V (fst st) (snd st) \<Longrightarrow> snd st \<noteq> [] \<Longrightarrow> set ns \<subseteq> set (adj (last (snd st))) \<Longrightarrow>
     card (whites V (fst st)) \<le> n \<Longrightarrow> dfs_post adj V st (set ns) (dfs_next n adj ns st)"
proof (induction n adj sid st and n adj ns st rule: dfs_dfs_next.induct)
  case (1 adj sid st)
  then have "whites V (fst st) = {}" by (simp add: dfs_inv_def whites_def)
  with 1 show ?case by (auto simp: whites_def)
next
  case (2 n adj sid col stk)
  let ?col = "col(sid := Gray)" and ?stk = "stk @ [sid]"
  have inv: "dfs_inv adj V ?col ?stk"
    using "2.prems" by (intro dfs_inv_enter) auto
  have "whites V ?col = whites V col - {sid}" by (auto simp: whites_def)
  moreover have "sid \<in> whites V col" "finite (whites V col)"
    using "2.prems" by (auto simp: whites_def dfs_inv_def)
  ultimately have le: "card (whites V ?col) \<le> n" using "2.prems"(5) by simp
  have post: "dfs_post adj V (?col, ?stk) (set (adj sid)) (dfs_next n adj (adj sid) (?col, ?stk))"
    by (rule "2.IH") (use inv le in \<open>simp_all del: fun_upd_apply\<close>)
  show ?case
  proof (cases "dfs_next n adj (adj sid) (?col, ?stk)")
    case None
    with post show ?thesis by (simp add: dfs_post_def)
  next
    case (Some res)
    obtain r col' stk' where res: "res = (r, col', stk')" by (cases res) auto
    show ?thesis
    proof (cases r)
      case None
      have *: "stk' = ?stk" "dfs_inv adj V col' ?stk" "\<forall>y\<in>set (adj sid). col' y = Black"
        "\<forall>x. ?col x = Black \<longrightarrow> col' x = Black" "\<forall>x. col' x = White \<longrightarrow> ?col x = White"
        using post unfolding dfs_post_def Some res None by auto
      then have "dfs_inv adj V (col'(sid := Black)) stk" by (intro dfs_inv_leave) simp_all
      moreover have "\<forall>x. col x = Black \<longrightarrow> (col'(sid := Black)) x = Black"
        using *(4) "2.prems"(2) by auto
      moreover have "\<forall>x. (col'(sid := Black)) x = White \<longrightarrow> col x = White"
        using *(5) by auto
      ultimately show ?thesis using *(1) by (simp add: Some res None dfs_post_def)
    next
      case (Some cyc)
      with post show ?thesis
        using \<open>dfs_next n adj (adj sid) (?col, ?stk) = Some res\<close> by (simp add: res dfs_post_def)
    qed
  qed
next
  case (3 n adj st)
  then show ?case by (cases st) (simp add: dfs_post_def)
next
  case (4 n adj nxt rest col stk)
  have inV: "nxt \<in> V" using "4.prems"(1,3) by (auto simp: dfs_inv_def)
  show ?case
  proof (cases "col nxt")
    case Gray
    then show ?thesis using stack_cycle[of adj V col stk nxt] "4.prems" by (simp add: dfs_post_def)
  next
    case Black
    have "dfs_post adj V (col, stk) (set rest) (dfs_next n adj rest (col, stk))"
      using "4.IH"(3) "4.prems" Black by simp
    then show ?thesis using Black
      by (auto simp: dfs_post_def split: option.splits prod.splits)
  next
    case White
    have post: "dfs_post adj V (col, stk) {nxt} (dfs n adj nxt (col, stk))"
      using "4.IH"(1) "4.prems" White inV by simp
    show ?thesis
    proof (cases "dfs n adj nxt (col, stk)")
      case None
      with post show ?thesis by (simp add: dfs_post_def)
    next
      case (Some res)
      obtain r col' stk' where res: "res = (r, col', stk')" by (cases res) auto
      show ?thesis
      proof (cases r)
        case None
        have *: "stk' = stk" "dfs_inv adj V col' stk" "col' nxt = Black"
          "\<forall>x. col x = Black \<longrightarrow> col' x = Black" "\<forall>x. col' x = White \<longrightarrow> col x = White"
          using post unfolding dfs_post_def Some res None by auto
        have "whites V col' \<subseteq> whites V col" using *(5) by (auto simp: whites_def)
        moreover have "finite (whites V col)" using "4.prems"(1) by (simp add: whites_def dfs_inv_def)
        ultimately have "card (whites V col') \<le> n" using "4.prems"(4) by (metis card_mono fst_conv le_trans)
        then have "dfs_post adj V (col', stk) (set rest) (dfs_next n adj rest (col', stk))"
          using "4.IH"(2) White Some res None * "4.prems" by simp
        then have "dfs_post adj V (col, stk) (set (nxt # rest)) (dfs_next n adj rest (col', stk))"
          by (rule dfs_post_weaken) (use * in simp_all)
        then show ?thesis using White Some res None *(1) by simp
      next
        case (Some cyc)
        with post White show ?thesis
          using \<open>dfs n adj nxt (col, stk) = Some res\<close> by (simp add: res dfs_post_def)
      qed
    qed
  qed
qed

text \<open>The loop over the roots, from an empty stack.\<close>

lemma dfs_roots_spec:
  assumes "dfs_inv adj V col []" and "set sids \<subseteq> V" and "card V \<le> fuel"
    and "\<forall>x\<in>V. col x = Black \<or> x \<in> set sids"
  shows "\<exists>c. dfs_roots fuel adj sids (col, []) = Some c
      \<and> (if c = [] then acyclic {(x, y). x \<in> V \<and> y \<in> set (adj x)} else is_cycle adj c)"
  using assms
proof (induction sids arbitrary: col)
  case Nil
  then have "{(x, y). x \<in> V \<and> y \<in> set (adj x)} \<subseteq> black_edges adj col"
    by (auto simp: black_edges_def)
  with Nil(1) show ?case by (auto simp: dfs_inv_def intro: acyclic_subset)
next
  case (Cons sid sids)
  show ?case
  proof (cases "col sid = White")
    case False
    moreover have "col sid \<noteq> Gray" using Cons.prems(1) by (simp add: dfs_inv_def)
    ultimately have "col sid = Black" by (cases "col sid") simp_all
    then have "\<forall>x\<in>V. col x = Black \<or> x \<in> set sids" using Cons.prems(4) by auto
    from Cons.IH[OF Cons.prems(1) _ Cons.prems(3) this] Cons.prems(2) False show ?thesis by simp
  next
    case True
    have "finite V" using Cons.prems(1) by (simp add: dfs_inv_def)
    then have "card (whites V col) \<le> fuel"
      using Cons.prems(3) card_mono[of V "whites V col"] by (auto simp: whites_def)
    then have post: "dfs_post adj V (col, []) {sid} (dfs fuel adj sid (col, []))"
      using True Cons.prems by (intro dfs_specs(1)) auto
    show ?thesis
    proof (cases "dfs fuel adj sid (col, [])")
      case None
      with post show ?thesis by (simp add: dfs_post_def)
    next
      case (Some res)
      obtain r col' stk' where res: "res = (r, col', stk')" by (cases res) auto
      show ?thesis
      proof (cases r)
        case None
        have *: "stk' = []" "dfs_inv adj V col' []" "col' sid = Black"
          "\<forall>x. col x = Black \<longrightarrow> col' x = Black"
          using post unfolding dfs_post_def Some res None by auto
        have "\<forall>x\<in>V. col' x = Black \<or> x \<in> set sids" using Cons.prems(4) *(3,4) by auto
        from Cons.IH[OF *(2) _ Cons.prems(3) this] Cons.prems(2) show ?thesis
          using True Some res None *(1) by simp
      next
        case (Some cyc)
        with post \<open>dfs fuel adj sid (col, []) = Some res\<close> True show ?thesis
          by (auto simp: dfs_post_def res is_cycle_def)
      qed
    qed
  qed
qed

lemma find_cycle_correct:
  fixes steps :: "dag_step list" and ids :: "string list"
  defines "adj \<equiv> plan_adjacency steps ids"
  shows "find_cycle_run steps ids \<noteq> None"
    and "find_cycle steps ids = [] \<longleftrightarrow> acyclic {(x, y). x \<in> set ids \<and> y \<in> set (adj x)}"
    and "find_cycle steps ids \<noteq> [] \<Longrightarrow> is_cycle adj (find_cycle steps ids)"
proof -
  let ?E = "{(x, y). x \<in> set ids \<and> y \<in> set (adj x)}"
  have sub: "set (adj x) \<subseteq> set ids" for x
    by (auto simp: adj_def plan_adjacency_def split: option.splits)
  then have "dfs_inv adj (set ids) (\<lambda>_. White) []"
    by (auto simp: dfs_inv_def black_edges_def acyclic_def)
  from dfs_roots_spec[OF this, of ids "Suc (length ids)"] obtain c where
    c: "find_cycle_run steps ids = Some c" "if c = [] then acyclic ?E else is_cycle adj c"
    unfolding find_cycle_run_def adj_def[symmetric] using card_length[of ids] by auto
  then have eq: "find_cycle steps ids = c" by (simp add: find_cycle_def)
  show "find_cycle_run steps ids \<noteq> None" using c by simp
  show "find_cycle steps ids \<noteq> [] \<Longrightarrow> is_cycle adj (find_cycle steps ids)"
    using c eq by simp
  have "\<not> acyclic ?E" if cyc: "is_cycle adj c"
  proof -
    obtain x xs where xs: "c = x # xs" "xs \<noteq> []" "last xs = x"
      using cyc by (cases c) (auto simp: is_cycle_def split: if_splits)
    have "(x, last xs) \<in> ?E\<^sup>+" if "successively (\<lambda>x y. y \<in> set (adj x)) (x # xs)" "xs \<noteq> []" "x \<in> set ids" for x xs
      using that
    proof (induction xs arbitrary: x)
      case (Cons y ys)
      then have e: "(x, y) \<in> ?E" "y \<in> set ids" using sub by auto
      show ?case
      proof (cases "ys = []")
        case False
        with Cons e have "(y, last ys) \<in> ?E\<^sup>+" by simp
        with e False show ?thesis by (auto intro: trancl_into_trancl2)
      qed (use e in auto)
    qed simp
    moreover have "x \<in> set ids"
    proof -
      have "xs = butlast xs @ [x]" using xs by (metis append_butlast_last_id)
      then have "x \<in> set (adj (last (x # butlast xs)))"
        using cyc xs(1) unfolding is_cycle_def
        by (metis append_Cons last_ConsL last_snoc list.sel(1) list.simps(3) successively_append_iff)
      then show ?thesis using sub by blast
    qed
    ultimately have "(x, x) \<in> ?E\<^sup>+"
      using cyc xs by (auto simp: is_cycle_def)
    then show ?thesis by (auto simp: acyclic_def)
  qed
  then show "find_cycle steps ids = [] \<longleftrightarrow> acyclic ?E"
    using c eq by (auto split: if_splits)
qed

section \<open>The level computation ends and never disagrees\<close>

definition plan_edges :: "dag_step list \<Rightarrow> string list \<Rightarrow> (string \<times> string) set" where
  "plan_edges steps ids = {(x, y). x \<in> set ids \<and> y \<in> set (plan_adjacency steps ids x)}"

definition reach :: "(string \<times> string) set \<Rightarrow> string \<Rightarrow> string set" where
  "reach r x = r\<^sup>* `` {x}"

definition memo_ok :: "(string \<Rightarrow> string list) \<Rightarrow> levels \<Rightarrow> bool" where
  "memo_ok adj lv \<longleftrightarrow> (\<forall>x l. lv x = Some l \<longrightarrow> (\<forall>y\<in>set (adj x). \<exists>m. lv y = Some m \<and> m < l))"

lemma finite_reach: "finite (reach (plan_edges steps ids) x)"
proof -
  have "reach (plan_edges steps ids) x \<subseteq> insert x (set ids)"
  proof
    fix y assume "y \<in> reach (plan_edges steps ids) x"
    then have "(x, y) \<in> (plan_edges steps ids)\<^sup>*" by (simp add: reach_def)
    then show "y \<in> insert x (set ids)"
      by (induction rule: rtrancl_induct)
         (auto simp: plan_edges_def plan_adjacency_def split: option.splits)
  qed
  then show ?thesis by (rule finite_subset) simp
qed

lemma card_reach_less:
  assumes "acyclic (plan_edges steps ids)" and "(x, y) \<in> plan_edges steps ids"
  shows "card (reach (plan_edges steps ids) y) < card (reach (plan_edges steps ids) x)"
    and "x \<notin> reach (plan_edges steps ids) y"
proof -
  let ?r = "plan_edges steps ids"
  show no: "x \<notin> reach ?r y"
    using assms by (auto simp: reach_def acyclic_def dest: rtrancl_into_trancl2)
  moreover have "reach ?r y \<subseteq> reach ?r x"
    using assms(2) by (auto simp: reach_def intro: converse_rtrancl_into_rtrancl)
  moreover have "x \<in> reach ?r x" by (simp add: reach_def)
  ultimately have "reach ?r y \<subset> reach ?r x" by blast
  then show "card (reach ?r y) < card (reach ?r x)" by (intro psubset_card_mono finite_reach)
qed

lemma level_specs:
  fixes steps :: "dag_step list" and all_ids :: "string list"
  defines "adj \<equiv> plan_adjacency steps all_ids" and "r \<equiv> plan_edges steps all_ids"
  assumes ids: "set all_ids = set (step_ids steps)" and acyc: "acyclic r"
  shows "smap = step_map steps \<Longrightarrow> ids = all_ids \<Longrightarrow> memo_ok adj lv \<Longrightarrow> sid \<in> set ids \<Longrightarrow>
      card (reach r sid) \<le> n \<Longrightarrow>
      \<exists>l lv'. level n smap ids sid lv = Some (l, lv') \<and> memo_ok adj lv' \<and> lv' sid = Some l
        \<and> lv \<subseteq>\<^sub>m lv' \<and> dom lv' \<subseteq> dom lv \<union> reach r sid"
    and "smap = step_map steps \<Longrightarrow> ids = all_ids \<Longrightarrow> memo_ok adj lv \<Longrightarrow> set ds \<subseteq> set ids \<Longrightarrow>
      \<forall>d\<in>set ds. card (reach r d) \<le> n \<Longrightarrow>
      \<exists>ls lv'. level_deps n smap ids ds lv = Some (ls, lv') \<and> memo_ok adj lv'
        \<and> list_all2 (\<lambda>d l. lv' d = Some l) ds ls
        \<and> lv \<subseteq>\<^sub>m lv' \<and> dom lv' \<subseteq> dom lv \<union> (\<Union>d\<in>set ds. reach r d)"
proof (induction n smap ids sid lv and n smap ids ds lv rule: level_level_deps.induct)
  case (1 smap ids sid lv)
  have "sid \<in> reach r sid" "finite (reach r sid)"
    by (simp_all add: reach_def r_def finite_reach[unfolded reach_def])
  with 1 show ?case by auto
next
  case (2 n smap ids sid lv)
  show ?case
  proof (cases "lv sid")
    case (Some l)
    with "2.prems" show ?thesis by auto
  next
    case None
    have "dget (step_map steps) sid \<noteq> None"
      using "2.prems" ids dget_step_map_None[of steps sid] by auto
    then obtain step where step: "dget (step_map steps) sid = Some step" by blast
    let ?ds = "filter (\<lambda>d. d \<in> set all_ids) (ds_depends_on step)"
    have adj: "adj sid = ?ds" by (simp add: adj_def plan_adjacency_def step)
    have edge: "(sid, d) \<in> r" if "d \<in> set ?ds" for d
      using that adj "2.prems" by (simp add: r_def plan_edges_def adj_def)
    have less: "card (reach r d) \<le> n" "sid \<notin> reach r d" if "d \<in> set ?ds" for d
      using card_reach_less[OF acyc[unfolded r_def] edge[OF that, unfolded r_def]] "2.prems"(5)
      by (simp_all add: r_def)
    obtain ls lv' where deps: "level_deps n smap ids ?ds lv = Some (ls, lv')" "memo_ok adj lv'"
      "list_all2 (\<lambda>d l. lv' d = Some l) ?ds ls" "lv \<subseteq>\<^sub>m lv'"
      "dom lv' \<subseteq> dom lv \<union> (\<Union>d\<in>set ?ds. reach r d)"
    proof -
      have sm: "dget smap sid = Some step" using step "2.prems"(1) by simp
      have A: "set (filter (\<lambda>d. d \<in> set ids) (ds_depends_on step)) \<subseteq> set ids" by auto
      have B: "\<forall>d\<in>set (filter (\<lambda>d. d \<in> set ids) (ds_depends_on step)). card (reach r d) \<le> n"
        using less(1) unfolding "2.prems"(2) by blast
      from "2.IH"[OF None sm "2.prems"(1-3) A B] show ?thesis
        using that unfolding "2.prems"(2) by (elim exE conjE)
    qed
    let ?l = "if ls \<noteq> [] then Max (set ls) + 1 else 0"
    have fresh: "lv' sid = None" using deps(5) None less(2) by blast
    have sid_dep: "\<exists>m. lv' y = Some m \<and> m < ?l \<and> y \<noteq> sid" if "y \<in> set (adj sid)" for y
    proof -
      from that deps(3) obtain m where m: "lv' y = Some m" "m \<in> set ls"
        unfolding adj by (blast dest: list_all2_in_set)
      have "m \<le> Max (set ls)" "ls \<noteq> []" using m(2) by auto
      then have "m < ?l" by simp
      moreover have "y \<noteq> sid" using m(1) fresh by auto
      ultimately show ?thesis using m(1) by blast
    qed
    have "memo_ok adj (lv'(sid \<mapsto> ?l))"
      unfolding memo_ok_def
    proof (intro allI impI ballI)
      fix x l y assume x: "(lv'(sid \<mapsto> ?l)) x = Some l" and y: "y \<in> set (adj x)"
      show "\<exists>m. (lv'(sid \<mapsto> ?l)) y = Some m \<and> m < l"
      proof (cases "x = sid")
        case True
        then show ?thesis using x sid_dep y by auto
      next
        case False
        then have "lv' x = Some l" using x by simp
        with deps(2) y obtain m where "lv' y = Some m" "m < l" unfolding memo_ok_def by blast
        with fresh show ?thesis by auto
      qed
    qed
    moreover have "lv \<subseteq>\<^sub>m lv'(sid \<mapsto> ?l)" using deps(4) None by (auto simp: map_le_def)
    moreover have "dom (lv'(sid \<mapsto> ?l)) \<subseteq> dom lv \<union> reach r sid"
    proof -
      have "reach r d \<subseteq> reach r sid" if "d \<in> set ?ds" for d
        using edge[OF that] by (auto simp: reach_def intro: converse_rtrancl_into_rtrancl)
      then have "dom lv' \<subseteq> dom lv \<union> reach r sid" using deps(5) by blast
      moreover have "sid \<in> reach r sid" by (simp add: reach_def)
      ultimately show ?thesis by simp
    qed
    ultimately show ?thesis using None step deps(1) "2.prems" by (simp add: Let_def)
  qed
next
  case (3 n smap ids lv)
  then show ?case by simp
next
  case (4 n smap ids d ds lv)
  from 4 obtain l lv1 where 1: "level n smap ids d lv = Some (l, lv1)" "memo_ok adj lv1"
    "lv1 d = Some l" "lv \<subseteq>\<^sub>m lv1" "dom lv1 \<subseteq> dom lv \<union> reach r d"
    by auto
  from "4.IH"(2)[OF 1(1) refl] 1(2) "4.prems" obtain ls lv' where
    2: "level_deps n smap ids ds lv1 = Some (ls, lv')" "memo_ok adj lv'"
    "list_all2 (\<lambda>d l. lv' d = Some l) ds ls" "lv1 \<subseteq>\<^sub>m lv'"
    "dom lv' \<subseteq> dom lv1 \<union> (\<Union>d\<in>set ds. reach r d)"
    by auto
  have "lv' d = Some l" using 1(3) 2(4) by (metis domI map_le_def)
  moreover have "lv \<subseteq>\<^sub>m lv'" using 1(4) 2(4) by (rule map_le_trans)
  moreover have "dom lv' \<subseteq> dom lv \<union> (\<Union>d\<in>set (d # ds). reach r d)"
    using order_trans[OF 2(5) Un_mono[OF 1(5) order_refl]] by (simp add: Un_assoc)
  ultimately show ?case using 1(1) 2(1-3) by auto
qed

lemma hierarchy_loop_nil:
  fixes steps :: "dag_step list" and ids :: "string list"
  assumes ids: "set ids = set (step_ids steps)" and dist: "distinct (step_ids steps)"
    and acyc: "acyclic (plan_edges steps ids)"
    and "set ss \<subseteq> set steps" and "memo_ok (plan_adjacency steps ids) lv"
  shows "hierarchy_loop (Suc (length ids)) (step_map steps) ids ss lv = Some []"
  using assms(4,5)
proof (induction ss arbitrary: lv)
  case (Cons s ss)
  let ?r = "plan_edges steps ids"
  have sid: "ds_id s \<in> set ids" and step: "dget (step_map steps) (ds_id s) = Some s"
    using Cons.prems(1) ids dist by (auto intro: dget_step_map_distinct)
  have "reach ?r (ds_id s) \<subseteq> set ids"
  proof
    fix y assume "y \<in> reach ?r (ds_id s)"
    then have "(ds_id s, y) \<in> ?r\<^sup>*" by (simp add: reach_def)
    then show "y \<in> set ids"
      by (induction rule: rtrancl_induct)
         (use sid in \<open>auto simp: plan_edges_def plan_adjacency_def split: option.splits\<close>)
  qed
  then have "card (reach ?r (ds_id s)) \<le> Suc (length ids)"
    by (meson List.finite_set card_length card_mono le_SucI le_trans)
  from level_specs(1)[OF ids acyc refl refl Cons.prems(2) sid this] obtain l lv' where
    lv: "level (Suc (length ids)) (step_map steps) ids (ds_id s) lv = Some (l, lv')"
    "memo_ok (plan_adjacency steps ids) lv'" "lv' (ds_id s) = Some l"
    by blast
  have "\<not> l \<le> get_level lv' d" if "d \<in> set (ds_depends_on s)" "d \<in> set ids" for d
  proof -
    have "d \<in> set (plan_adjacency steps ids (ds_id s))"
      using that by (simp add: plan_adjacency_def step)
    then obtain m where "lv' d = Some m" "m < l"
      using lv(2,3) unfolding memo_ok_def by blast
    then show ?thesis by (simp add: get_level_def)
  qed
  then have "filter (\<lambda>dep. l \<le> get_level lv' dep) (filter (\<lambda>d. d \<in> set ids) (ds_depends_on s)) = []"
    by (auto simp: filter_empty_conv)
  moreover have "hierarchy_loop (Suc (length ids)) (step_map steps) ids ss lv' = Some []"
    using Cons.IH[OF _ lv(2)] Cons.prems(1) by simp
  ultimately show ?case
    unfolding hierarchy_loop.simps lv(1) by (simp add: Let_def del: filter_filter)
qed simp

lemma hierarchy_errors_nil:
  assumes "set ids = set (step_ids steps)" and "distinct (step_ids steps)"
    and "acyclic (plan_edges steps ids)"
  shows "hierarchy_run steps ids = Some []" and "hierarchy_errors steps ids = []"
proof -
  show "hierarchy_run steps ids = Some []"
    unfolding hierarchy_run_def
    by (rule hierarchy_loop_nil[OF assms]) (simp_all add: memo_ok_def)
  then show "hierarchy_errors steps ids = []" by (simp add: hierarchy_errors_def)
qed

section \<open>What validation accepts\<close>

text \<open>The contract of an executable plan, stated without the algorithms.\<close>

definition plan_wf :: "dag_step list \<Rightarrow> string set \<Rightarrow> bool" where
  "plan_wf steps external \<longleftrightarrow>
     [] \<notin> set (step_ids steps) \<and> distinct (step_ids steps)
     \<and> (\<forall>s\<in>set steps. \<forall>d\<in>set (ds_depends_on s). d \<in> set (step_ids steps) \<or> d \<in> external)
     \<and> acyclic (dep_edges steps {})"

lemma check_ids_spec:
  assumes "check_ids i ss ids = (es, ids')"
  shows "es = [] \<longleftrightarrow> [] \<notin> set (step_ids ss) \<and> distinct (step_ids ss) \<and> set (step_ids ss) \<inter> set ids = {}"
    and "es = [] \<Longrightarrow> ids' = ids @ step_ids ss"
  using assms by (induction i ss ids arbitrary: es ids' rule: check_ids.induct)
    (auto split: prod.splits if_splits)

lemma check_dep_nil_iff:
  "check_dep ids external sid d = [] \<longleftrightarrow> d \<noteq> sid \<and> (d \<in> set ids \<or> d \<in> external)"
  by (simp add: check_dep_def)

lemma check_deps_nil_iff:
  "ds_id s \<noteq> [] \<Longrightarrow> check_deps ids external s = [] \<longleftrightarrow>
     (\<forall>d\<in>set (ds_depends_on s). d \<noteq> ds_id s \<and> (d \<in> set ids \<or> d \<in> external))"
  by (simp add: check_deps_def check_dep_nil_iff)

lemma plan_edges_converse:
  assumes "distinct (step_ids steps)"
  shows "plan_edges steps (step_ids steps) = (dep_edges steps {})\<inverse>"
proof (rule set_eqI)
  fix e :: "string \<times> string"
  obtain x y where e: "e = (x, y)" by fastforce
  have "y \<in> set (plan_adjacency steps (step_ids steps) x) \<longleftrightarrow>
      (\<exists>s\<in>set steps. ds_id s = x \<and> y \<in> set (ds_depends_on s) \<and> y \<in> set (step_ids steps))"
    using dget_step_map_distinct[OF assms] dget_step_map_Some[of steps x]
    unfolding plan_adjacency_def by (auto split: option.splits) force+
  then show "e \<in> plan_edges steps (step_ids steps) \<longleftrightarrow> e \<in> (dep_edges steps {})\<inverse>"
    by (auto simp: e plan_edges_def dep_edges_def)
qed

lemma self_edge_cyclic:
  "s \<in> set steps \<Longrightarrow> ds_id s \<in> set (ds_depends_on s) \<Longrightarrow> \<not> acyclic (dep_edges steps {})"
proof -
  assume "s \<in> set steps" and "ds_id s \<in> set (ds_depends_on s)"
  then have "(ds_id s, ds_id s) \<in> dep_edges steps {}" by (auto simp: dep_edges_def)
  then show ?thesis by (auto simp: acyclic_def)
qed

text \<open>Validation reports nothing exactly for the well-formed plans.\<close>

lemma validate_nil_iff:
  "validate_dag_structure plan completed available = [] \<longleftrightarrow>
     plan_wf (dp_steps plan) (completed \<union> available)"
proof (cases "dp_steps plan = []")
  case True
  then show ?thesis by (simp add: validate_dag_structure_def plan_wf_def dep_edges_def acyclic_def)
next
  case False
  let ?steps = "dp_steps plan" and ?ext = "completed \<union> available"
  obtain es ids where ck: "check_ids 0 ?steps [] = (es, ids)" by fastforce
  note ids_ok = check_ids_spec[OF ck]
  show ?thesis
  proof (cases "es @ concat (map (check_deps ids ?ext) ?steps) = []")
    case errs: False
    have "\<not> plan_wf ?steps ?ext"
    proof
      assume wf: "plan_wf ?steps ?ext"
      then have es: "es = []" and ids: "ids = step_ids ?steps"
        using ids_ok by (auto simp: plan_wf_def)
      have "check_deps ids ?ext s = []" if "s \<in> set ?steps" for s
      proof -
        have "ds_id s \<noteq> []" using wf that by (force simp: plan_wf_def)
        then show ?thesis using that wf self_edge_cyclic[OF that]
          by (subst check_deps_nil_iff) (auto simp: plan_wf_def ids)
      qed
      with es errs show False by simp
    qed
    moreover have "validate_dag_structure plan completed available \<noteq> []"
      using False errs unfolding validate_dag_structure_def Let_def ck by auto
    ultimately show ?thesis by blast
  next
    case noerrs: True
    then have es: "es = []" and deps: "\<forall>s\<in>set ?steps. check_deps ids ?ext s = []" by auto
    then have ids: "ids = step_ids ?steps" "[] \<notin> set (step_ids ?steps)" "distinct (step_ids ?steps)"
      using ids_ok by auto
    have exts: "\<forall>s\<in>set ?steps. \<forall>d\<in>set (ds_depends_on s). d \<in> set (step_ids ?steps) \<or> d \<in> ?ext"
      using deps ids(1,2) by (metis check_deps_nil_iff imageI list.set_map)
    have cyc: "find_cycle ?steps ids = [] \<longleftrightarrow> acyclic (plan_edges ?steps ids)"
      using find_cycle_correct(2)[of ?steps ids] by (simp add: plan_edges_def)
    also have "\<dots> \<longleftrightarrow> acyclic (dep_edges ?steps {})"
      by (simp add: ids(1) plan_edges_converse[OF ids(3)])
    finally have iff: "find_cycle ?steps ids = [] \<longleftrightarrow> acyclic (dep_edges ?steps {})" .
    have "validate_dag_structure plan completed available =
        (if find_cycle ?steps ids \<noteq> [] then [cycle_path_msg (find_cycle ?steps ids)]
         else hierarchy_errors ?steps ids)"
      using False noerrs unfolding validate_dag_structure_def Let_def ck by simp
    moreover have "hierarchy_errors ?steps ids = []" if "find_cycle ?steps ids = []"
      using hierarchy_errors_nil(2)[of ids ?steps] ids cyc that by simp
    ultimately show ?thesis using iff ids(2,3) exts by (auto simp: plan_wf_def)
  qed
qed

section \<open>Properties\<close>

text \<open>
  C30: \<open>validate_dag_structure\<close> returns no error exactly for the well-formed plans: non-empty
  distinct ids, dependencies that are steps of the plan or completed or available, and no
  dependency cycle.
\<close>

theorem validate_accepts_exactly_wf:
  "(validate_dag_structure plan completed available = []) =
     plan_wf (dp_steps plan) (completed \<union> available)"
  by (rule validate_nil_iff)

lemma validate_nil_schedulable:
  assumes "validate_dag_structure plan completed available = []"
  shows "\<exists>layers. topological_sort plan completed available = Inr layers"
proof -
  have wf: "plan_wf (dp_steps plan) (completed \<union> available)"
    using assms by (simp add: validate_nil_iff)
  have "dep_edges (dp_steps plan) completed \<subseteq> dep_edges (dp_steps plan) {}"
    by (auto simp: dep_edges_def)
  with wf have "acyclic (dep_edges (dp_steps plan) completed)"
    by (auto simp: plan_wf_def intro: acyclic_subset)
  with wf show ?thesis
    by (intro topological_sort_complete) (auto simp: plan_wf_def)
qed

text \<open>
  a plan that passes validation never makes the scheduler's topological sort raise, whatever
  subset of the known external steps counts as completed.
\<close>

theorem validated_plan_is_schedulable:
  assumes "validate_dag_structure plan completed available = []"
  shows "\<exists>layers. topological_sort plan completed available = Inr layers"
  by (rule validate_nil_schedulable[OF assms])

lemma validated_plan_is_schedulable_witness:
  "validate_dag_structure diamond_plan {} {} = []
   \<and> (\<exists>layers. topological_sort diamond_plan {} {} = Inr layers)"
proof -
  have ok: "validate_dag_structure diamond_plan {} {} = []" by code_simp
  show ?thesis using ok validated_plan_is_schedulable[OF ok] by blast
qed

text \<open>
  the cycle search ends for every plan (its fuel of one unit per step and one more is
  enough); it reports a path exactly when the in-plan dependencies are cyclic, and the path it
  reports is a real cycle: it returns to its first step and every step depends on the next.
\<close>

theorem find_cycle_sound_complete:
  "find_cycle_run steps ids = Some (find_cycle steps ids)
   \<and> (if acyclic (plan_edges steps ids) then find_cycle steps ids = []
      else is_cycle (plan_adjacency steps ids) (find_cycle steps ids))"
  using find_cycle_correct[of steps ids]
  by (auto simp: plan_edges_def find_cycle_def split: option.splits)

text \<open>
  the hierarchy check that follows the cycle search never reports anything: on an acyclic
  plan with distinct ids its memoised recursion ends and every level exceeds the levels of the
  in-plan dependencies.
\<close>

theorem hierarchy_check_is_silent:
  assumes "set ids = set (step_ids steps)" and "distinct (step_ids steps)"
    and "find_cycle steps ids = []"
  shows "hierarchy_run steps ids = Some []"
  using assms find_cycle_correct(2)[of steps ids]
  by (intro hierarchy_errors_nil(1)) (auto simp: plan_edges_def)

lemma hierarchy_check_is_silent_witness:
  "hierarchy_run (dp_steps diamond_plan) [''s1'', ''s2'', ''s3'', ''s4''] = Some []"
  by (rule hierarchy_check_is_silent; code_simp)

end
