(* ===== verification/Dag_Vars.thy ===== *)
theory Dag_Vars
  imports Py_Text
begin

text \<open>
  Variable references in step inputs, \<^verbatim>\<open>src/harness/core/dag_vars.py\<close>: \<^verbatim>\<open>$var\<close> and
  \<^verbatim>\<open>$var.path\<close> are resolved against the outputs of upstream steps. The parameter \<open>loads\<close> of the
  definitions stands for \<^verbatim>\<open>json.loads\<close> (\<open>None\<close> when it raises); the results hold for every
  such function. The two regular expressions of the source are the parser \<open>parse_ref\<close>: both
  classes are matched greedily and no shorter match can succeed where the longest fails.
\<close>

section \<open>References\<close>

record var_error =
  ve_reference :: string
  ve_var_name :: string
  ve_path :: string
  ve_available :: "string list"

definition var_error_str :: "var_error \<Rightarrow> string" where
  "var_error_str e =
     ''Cannot resolve '' @ quoted (ve_reference e) @ '' '' @ [CHR 0xE2, CHR 0x80, CHR 0x94]
     @ '' step '' @ quoted (ve_var_name e) @ '' output has no field '' @ quoted (ve_path e)
     @ (if ve_available e \<noteq> []
        then ''. Available fields: '' @ py_repr (JList (map JStr (sort (ve_available e)))) else [])"

definition is_name_start :: "char \<Rightarrow> bool" where
  "is_name_start c \<longleftrightarrow> is_alpha c \<or> c = CHR ''_''"

definition is_name_char :: "char \<Rightarrow> bool" where
  "is_name_char c \<longleftrightarrow> is_word c \<or> c = CHR ''-''"

definition is_path_char :: "char \<Rightarrow> bool" where
  "is_path_char c \<longleftrightarrow> is_word c \<or> c = CHR ''.''"

text \<open>What follows a dollar sign: the name, the optional path and the rest of the text.\<close>

fun parse_ref :: "string \<Rightarrow> (string \<times> string option \<times> string) option" where
  "parse_ref [] = None"
| "parse_ref (c # cs) =
     (if is_name_start c then
        (let name = c # takeWhile is_name_char cs; rest = dropWhile is_name_char cs
         in case rest of
              [] \<Rightarrow> Some (name, None, [])
            | d # r \<Rightarrow>
                if d = CHR ''.'' \<and> takeWhile is_path_char r \<noteq> []
                then Some (name, Some (takeWhile is_path_char r), dropWhile is_path_char r)
                else Some (name, None, rest))
      else None)"

definition ref_text :: "string \<Rightarrow> string option \<Rightarrow> string" where
  "ref_text name path = ''$'' @ name @ (case path of None \<Rightarrow> [] | Some p \<Rightarrow> ''.'' @ p)"

text \<open>
  The anchored pattern: the whole value is one reference. \<^verbatim>\<open>$\<close> of a Python regular
  expression also matches before a final newline.
\<close>

definition pure_ref :: "string \<Rightarrow> (string \<times> string option) option" where
  "pure_ref s =
     (case s of
        [] \<Rightarrow> None
      | c # cs \<Rightarrow>
          if c = CHR ''$'' then
            (case parse_ref cs of
               None \<Rightarrow> None
             | Some (name, path, rest) \<Rightarrow> if rest = [] \<or> rest = [CHR 0x0A] then Some (name, path) else None)
          else None)"

section \<open>Following a path\<close>

text \<open>The main loop: \<open>None\<close> is \<^verbatim>\<open>field_missing\<close>.\<close>

fun traverse :: "(string \<Rightarrow> json option) \<Rightarrow> json \<Rightarrow> string list \<Rightarrow> json option" where
  "traverse loads value [] = Some value"
| "traverse loads value (part # parts) =
     (case value of
        JDict d \<Rightarrow> (case dget d part of Some v \<Rightarrow> traverse loads v parts | None \<Rightarrow> None)
      | JStr s \<Rightarrow>
          (case loads s of
             Some (JDict d) \<Rightarrow> (case dget d part of Some v \<Rightarrow> traverse loads v parts | None \<Rightarrow> None)
           | _ \<Rightarrow> None)
      | _ \<Rightarrow> None)"

text \<open>The inner loop of the fuzzy search, over dictionaries only.\<close>

fun walk_dicts :: "json \<Rightarrow> string list \<Rightarrow> json option" where
  "walk_dicts current [] = Some current"
| "walk_dicts current (part # parts) =
     (case current of
        JDict d \<Rightarrow> (case dget d part of Some v \<Rightarrow> walk_dicts v parts | None \<Rightarrow> None)
      | _ \<Rightarrow> None)"

text \<open>
  \<open>deep_values depth parts vs\<close> is the loop of \<^verbatim>\<open>deep_resolve\<close> over \<^verbatim>\<open>output.values()\<close>; Python's
  \<^verbatim>\<open>None\<close> is \<^const>\<open>JNull\<close>. The recursion stops below depth five: the loop is entered at depth
  five at most, so its own test of the depth is never the one that stops it.
\<close>

function (sequential) deep_resolve :: "(string \<Rightarrow> json option) \<Rightarrow> json dict \<Rightarrow> string list \<Rightarrow> nat \<Rightarrow> json"
  and deep_values :: "(string \<Rightarrow> json option) \<Rightarrow> json list \<Rightarrow> string list \<Rightarrow> nat \<Rightarrow> json" where
  "deep_resolve loads output parts depth =
     (if depth > 5 \<or> output = [] then JNull else deep_values loads (map snd output) parts depth)"
| "deep_values loads [] parts depth = JNull"
| "deep_values loads (v # vs) parts depth =
     (let nested = (case v of
                      JDict d \<Rightarrow> Some d
                    | JStr s \<Rightarrow> (case loads s of Some (JDict d) \<Rightarrow> Some d | _ \<Rightarrow> None)
                    | _ \<Rightarrow> None)
      in case nested of
           None \<Rightarrow> deep_values loads vs parts depth
         | Some d \<Rightarrow>
             (case walk_dicts (JDict d) parts of
                Some found \<Rightarrow> found
              | None \<Rightarrow>
                  if depth > 5 then deep_values loads vs parts depth
                  else (let result = deep_resolve loads d parts (Suc depth)
                        in if result \<noteq> JNull then result else deep_values loads vs parts depth)))"
  by pat_completeness auto
termination
  by (relation "measures [\<lambda>x. case x of Inl (l, out, ps, d) \<Rightarrow> 6 - d | Inr (l, vs, ps, d) \<Rightarrow> 6 - d,
        \<lambda>x. case x of Inl _ \<Rightarrow> 1 | Inr _ \<Rightarrow> 0,
        \<lambda>x. case x of Inl _ \<Rightarrow> 0 | Inr (l, vs, ps, d) \<Rightarrow> length vs]") auto

fun add_nested_keys :: "string \<Rightarrow> string list \<Rightarrow> string list \<Rightarrow> string list" where
  "add_nested_keys k [] ks = ks"
| "add_nested_keys k (nk # nks) ks =
     (let dotted = k @ ''.'' @ nk
      in add_nested_keys k nks (if dotted \<in> set ks then ks else ks @ [dotted]))"

fun collect_items :: "(string \<times> json) list \<Rightarrow> string list \<Rightarrow> string list" where
  "collect_items [] ks = ks"
| "collect_items ((k, v) # rest) ks =
     (let ks' = ks @ [k]
      in collect_items rest (case v of JDict d \<Rightarrow> add_nested_keys k (keys d) ks' | _ \<Rightarrow> ks'))"

definition collect_keys :: "json \<Rightarrow> string list" where
  "collect_keys obj = (case obj of JDict d \<Rightarrow> collect_items d [] | _ \<Rightarrow> [])"

text \<open>\<open>Inr None\<close> is the sentinel \<^verbatim>\<open>_REF_NOT_FOUND\<close>.\<close>

definition resolve_ref :: "(string \<Rightarrow> json option) \<Rightarrow> string \<Rightarrow> string option \<Rightarrow> json dict
    \<Rightarrow> var_error + json option" where
  "resolve_ref loads var_name path upstream =
     (case dget upstream var_name of
        None \<Rightarrow> Inr None
      | Some value \<Rightarrow>
          (case path of
             None \<Rightarrow> Inr (Some value)
           | Some p \<Rightarrow>
               if value = JNull then Inr (Some value)
               else (let parts = split_on (CHR ''.'') p
                     in case traverse loads value parts of
                          Some v \<Rightarrow> Inr (Some v)
                        | None \<Rightarrow>
                            (let found = (case value of JDict d \<Rightarrow> deep_resolve loads d parts 0 | _ \<Rightarrow> JNull)
                             in if found \<noteq> JNull then Inr (Some found)
                                else Inl \<lparr> ve_reference = ref_text var_name (Some p), ve_var_name = var_name,
                                           ve_path = p, ve_available = collect_keys value \<rparr>))))"

section \<open>Substitution\<close>

definition replacement :: "string \<Rightarrow> string option \<Rightarrow> json option \<Rightarrow> string" where
  "replacement name path r =
     (case r of None \<Rightarrow> ref_text name path | Some v \<Rightarrow> if v = JNull then ''null'' else py_str v)"

lemma parse_ref_text:
  assumes "parse_ref cs = Some (n, p, rest)"
  shows "ref_text n p @ rest = CHR ''$'' # cs" and "n \<noteq> []"
proof -
  obtain c cs' where c: "cs = c # cs'" using assms by (cases cs) auto
  have name: "cs' = takeWhile is_name_char cs' @ dropWhile is_name_char cs'" by simp
  show "n \<noteq> []" using assms c by (auto simp: Let_def split: if_splits list.splits)
  show "ref_text n p @ rest = CHR ''$'' # cs"
  proof (cases "dropWhile is_name_char cs'")
    case Nil
    then show ?thesis using assms c name
      by (auto simp: Let_def ref_text_def simp del: dropWhile_eq_Nil_conv split: if_splits)
  next
    case (Cons d r)
    have "r = takeWhile is_path_char r @ dropWhile is_path_char r" by simp
    then show ?thesis using assms c name Cons
      by (auto simp: Let_def ref_text_def split: if_splits)
  qed
qed

lemma parse_ref_rest_length:
  assumes "parse_ref cs = Some (n, p, rest)" shows "length rest < length cs"
proof -
  have "length (ref_text n p @ rest) = Suc (length cs)" using parse_ref_text(1)[OF assms] by simp
  then show ?thesis using parse_ref_text(2)[OF assms] by (cases n) (auto simp: ref_text_def)
qed

function substitute_vars :: "(string \<Rightarrow> json option) \<Rightarrow> string \<Rightarrow> json dict \<Rightarrow> var_error + string" where
  "substitute_vars loads text upstream =
     (case text of
        [] \<Rightarrow> Inr []
      | c # cs \<Rightarrow>
          (case (if c = CHR ''$'' then parse_ref cs else None) of
             None \<Rightarrow>
               (case substitute_vars loads cs upstream of Inl e \<Rightarrow> Inl e | Inr t \<Rightarrow> Inr (c # t))
           | Some (name, path, rest) \<Rightarrow>
               (case resolve_ref loads name path upstream of
                  Inl e \<Rightarrow> Inl e
                | Inr r \<Rightarrow>
                    (case substitute_vars loads rest upstream of
                       Inl e \<Rightarrow> Inl e
                     | Inr t \<Rightarrow> Inr (replacement name path r @ t)))))"
  by pat_completeness auto
termination
  by (relation "measure (\<lambda>(loads, text, upstream). length text)")
     (auto dest: parse_ref_rest_length split: if_splits)

declare substitute_vars.simps [simp del]

definition resolve_string :: "(string \<Rightarrow> json option) \<Rightarrow> string \<Rightarrow> json dict \<Rightarrow> var_error + json" where
  "resolve_string loads value upstream =
     (let subst = (case substitute_vars loads value upstream of Inl e \<Rightarrow> Inl e | Inr t \<Rightarrow> Inr (JStr t))
      in case pure_ref value of
           None \<Rightarrow> subst
         | Some (name, path) \<Rightarrow>
             (case resolve_ref loads name path upstream of
                Inl e \<Rightarrow> Inl e
              | Inr (Some rv) \<Rightarrow> Inr rv
              | Inr None \<Rightarrow> subst))"

text \<open>The three levels of \<^verbatim>\<open>resolve_variables_in_input\<close>: a value of the input, its items, a list.\<close>

function (sequential) resolve_value :: "(string \<Rightarrow> json option) \<Rightarrow> json dict \<Rightarrow> json \<Rightarrow> var_error + json"
  and resolve_items :: "(string \<Rightarrow> json option) \<Rightarrow> json dict \<Rightarrow> (string \<times> json) list \<Rightarrow> var_error + json dict"
  and resolve_elems :: "(string \<Rightarrow> json option) \<Rightarrow> json dict \<Rightarrow> json list \<Rightarrow> var_error + json list" where
  "resolve_value loads upstream (JStr s) = resolve_string loads s upstream"
| "resolve_value loads upstream (JDict d) =
     (case resolve_items loads upstream d of Inl e \<Rightarrow> Inl e | Inr d' \<Rightarrow> Inr (JDict d'))"
| "resolve_value loads upstream (JList xs) =
     (case resolve_elems loads upstream xs of Inl e \<Rightarrow> Inl e | Inr ys \<Rightarrow> Inr (JList ys))"
| "resolve_value loads upstream v = Inr v"
| "resolve_items loads upstream [] = Inr []"
| "resolve_items loads upstream ((k, v) # rest) =
     (case resolve_value loads upstream v of
        Inl e \<Rightarrow> Inl e
      | Inr v' \<Rightarrow>
          (case resolve_items loads upstream rest of Inl e \<Rightarrow> Inl e | Inr r \<Rightarrow> Inr ((k, v') # r)))"
| "resolve_elems loads upstream [] = Inr []"
| "resolve_elems loads upstream (x # xs) =
     (case (case x of
              JStr s \<Rightarrow> (case substitute_vars loads s upstream of Inl e \<Rightarrow> Inl e | Inr t \<Rightarrow> Inr (JStr t))
            | JDict d \<Rightarrow> (case resolve_items loads upstream d of Inl e \<Rightarrow> Inl e | Inr d' \<Rightarrow> Inr (JDict d'))
            | _ \<Rightarrow> Inr x) of
        Inl e \<Rightarrow> Inl e
      | Inr x' \<Rightarrow>
          (case resolve_elems loads upstream xs of Inl e \<Rightarrow> Inl e | Inr ys \<Rightarrow> Inr (x' # ys)))"
  by pat_completeness auto
termination
  by (relation "measure (\<lambda>x. case x of
        Inl (l, u, v) \<Rightarrow> size v
      | Inr (Inl (l, u, d)) \<Rightarrow> size_list (size_prod (\<lambda>_. 0) size) d
      | Inr (Inr (l, u, xs)) \<Rightarrow> size_list size xs)") auto

definition resolve_variables_in_input :: "(string \<Rightarrow> json option) \<Rightarrow> json dict \<Rightarrow> json dict \<Rightarrow> var_error + json dict" where
  "resolve_variables_in_input loads step_input upstream = resolve_items loads upstream step_input"

definition OUTPUT_SUMMARY_MAX_CHARS :: nat where
  "OUTPUT_SUMMARY_MAX_CHARS = 200"

definition truncate_output :: "json \<Rightarrow> nat \<Rightarrow> string" where
  "truncate_output output max_chars =
     (case output of
        JNull \<Rightarrow> []
      | JStr s \<Rightarrow> take max_chars s
      | _ \<Rightarrow> (let text = json_dumps False output
              in if max_chars < length text then take max_chars text @ ''...'' else text))"

section \<open>Lemmas\<close>

lemma resolve_ref_unknown: "dget upstream n = None \<Longrightarrow> resolve_ref loads n p upstream = Inr None"
  by (simp add: resolve_ref_def)

lemma substitute_vars_empty_upstream: "substitute_vars loads txt0 [] = Inr txt0"
proof (induction loads txt0 "[] :: json dict" rule: substitute_vars.induct)
  case (1 loads txt0)
  show ?case
  proof (cases txt0)
    case (Cons c cs)
    show ?thesis
    proof (cases "if c = CHR ''$'' then parse_ref cs else None")
      case None
      with 1 Cons show ?thesis by (subst substitute_vars.simps) simp
    next
      case (Some m)
      obtain n p rest where m: "m = (n, p, rest)" by (cases m) auto
      with Some have c: "c = CHR ''$''" and ref: "parse_ref cs = Some (n, p, rest)"
        by (auto split: if_splits)
      have "substitute_vars loads rest [] = Inr rest"
        using 1(2) Cons Some m by (simp add: resolve_ref_unknown)
      then show ?thesis
        using Cons c ref parse_ref_text(1)[OF ref]
        by (subst substitute_vars.simps) (simp add: resolve_ref_unknown replacement_def)
    qed
  qed (simp add: substitute_vars.simps)
qed

lemma substitute_vars_Nil [simp]: "substitute_vars loads [] upstream = Inr []"
  by (simp add: substitute_vars.simps)

lemma substitute_vars_Cons_plain [simp]:
  "c \<noteq> CHR ''$'' \<Longrightarrow> substitute_vars loads (c # cs) upstream =
     (case substitute_vars loads cs upstream of Inl e \<Rightarrow> Inl e | Inr t \<Rightarrow> Inr (c # t))"
  by (subst substitute_vars.simps) simp

lemma substitute_vars_no_dollar: "CHR ''$'' \<notin> set txt0 \<Longrightarrow> substitute_vars loads txt0 upstream = Inr txt0"
  by (induction txt0) (auto simp: eq_commute[of "CHR ''$''"])

lemma resolve_string_empty_upstream: "resolve_string loads s [] = Inr (JStr s)"
  by (auto simp: resolve_string_def substitute_vars_empty_upstream resolve_ref_unknown Let_def
      split: option.splits)

lemma resolve_empty_upstream:
  "upstream = [] \<Longrightarrow> resolve_value loads upstream v = Inr v"
  "upstream = [] \<Longrightarrow> resolve_items loads upstream d = Inr d"
  "upstream = [] \<Longrightarrow> resolve_elems loads upstream xs = Inr xs"
  by (induction loads upstream v and loads upstream d and loads upstream xs
        rule: resolve_value_resolve_items_resolve_elems.induct)
     (auto simp: resolve_string_empty_upstream substitute_vars_empty_upstream split: json.splits)

lemma resolve_items_keys: "resolve_items loads upstream d = Inr d' \<Longrightarrow> keys d' = keys d"
  by (induction d arbitrary: d') (auto split: sum.splits)

lemma split_on_no_sep: "c \<notin> set s \<Longrightarrow> split_on c s = [s]"
  by (induction s) auto

lemma split_on_append: "c \<notin> set s \<Longrightarrow> split_on c (s @ c # t) = s # split_on c t"
  by (induction s) auto

lemma split_on_join:
  "parts \<noteq> [] \<Longrightarrow> \<forall>p\<in>set parts. c \<notin> set p \<Longrightarrow> split_on c (join [c] parts) = parts"
  by (induction "[c]" parts rule: join.induct) (auto simp: split_on_no_sep split_on_append)

text \<open>A value nested under a path of keys.\<close>

fun nest :: "string list \<Rightarrow> json \<Rightarrow> json" where
  "nest [] v = v"
| "nest (k # ks) v = JDict [(k, nest ks v)]"

lemma traverse_nest: "traverse loads (nest ks v) ks = Some v"
  by (induction ks) auto

lemma truncate_output_length:
  "length (truncate_output v m) \<le> m + 3" "is_jstr v \<Longrightarrow> length (truncate_output v m) \<le> m"
  by (cases v; auto simp: truncate_output_def Let_def)+

section \<open>Properties\<close>

text \<open>
  with no upstream output every reference is kept as it is written: resolution returns the
  input unchanged, nested dictionaries and lists included.
\<close>

theorem resolve_without_upstream_is_identity:
  "resolve_variables_in_input loads step_input [] = Inr step_input"
  by (simp add: resolve_variables_in_input_def resolve_empty_upstream)

text \<open>
  resolution never adds, drops or reorders an input key.
\<close>

theorem resolve_preserves_keys:
  assumes "resolve_variables_in_input loads step_input upstream = Inr resolved"
  shows "keys resolved = keys step_input"
  using assms unfolding resolve_variables_in_input_def by (rule resolve_items_keys)

lemma resolve_preserves_keys_witness:
  "resolve_variables_in_input (\<lambda>_. None) [(''a'', JStr ''$s1.x''), (''b'', JInt 2)]
      [(''s1'', JDict [(''x'', JInt 7)])] = Inr [(''a'', JInt 7), (''b'', JInt 2)]
   \<and> keys [(''a'', JInt 7), (''b'', JInt 2)] = keys [(''a'', JStr ''$s1.x''), (''b'', JInt 2)]"
proof -
  have run: "resolve_variables_in_input (\<lambda>_. None) [(''a'', JStr ''$s1.x''), (''b'', JInt 2)]
      [(''s1'', JDict [(''x'', JInt 7)])] = Inr [(''a'', JInt 7), (''b'', JInt 2)]"
    by code_simp
  show ?thesis using run resolve_preserves_keys[OF run] by blast
qed

text \<open>
  a dotted path reads back the value stored under its keys, at any depth and whatever the
  value is: the exact path wins over the fuzzy search.
\<close>

theorem resolve_ref_reads_nested_field:
  assumes "ks \<noteq> []" and "\<forall>k\<in>set ks. CHR ''.'' \<notin> set k"
    and "dget upstream name = Some (nest ks v)"
  shows "resolve_ref loads name (Some (join ''.'' ks)) upstream = Inr (Some v)"
proof -
  have "nest ks v \<noteq> JNull" using assms(1) by (cases ks) auto
  then show ?thesis
    using assms(3) by (simp add: resolve_ref_def split_on_join[OF assms(1,2)] traverse_nest)
qed

lemma resolve_ref_reads_nested_field_witness:
  "resolve_ref (\<lambda>_. None) ''s1'' (Some (join ''.'' [''data'', ''id'']))
     [(''s1'', JDict [(''data'', JDict [(''id'', JNull)])])] = Inr (Some JNull)"
  by (rule resolve_ref_reads_nested_field) auto

text \<open>
  the full stop of a sentence is taken into the path of an inline reference. A text that ends
  with a reference to an existing field followed by a dot makes the resolution raise, for every
  field value that is a plain string.
\<close>

theorem inline_reference_before_full_stop_fails:
  assumes "loads ''ok'' = None"
  shows "\<exists>e. substitute_vars loads ''See $s1.result.'' [(''s1'', JDict [(''result'', JStr ''ok'')])] = Inl e
      \<and> ve_path e = ''result.''"
proof -
  have "substitute_vars loads ''$s1.result.'' [(''s1'', JDict [(''result'', JStr ''ok'')])] =
      Inl \<lparr> ve_reference = ''$s1.result.'', ve_var_name = ''s1'', ve_path = ''result.'',
            ve_available = [''result''] \<rparr>"
    using assms
    by (simp add: substitute_vars.simps resolve_ref_def is_name_start_def is_name_char_def
        is_path_char_def is_word_def is_alpha_def is_digit_def Let_def ref_text_def collect_keys_def)
  then show ?thesis by simp
qed

lemma inline_reference_before_full_stop_fails_witness:
  "\<exists>e. substitute_vars (\<lambda>_. None) ''See $s1.result.'' [(''s1'', JDict [(''result'', JStr ''ok'')])] = Inl e
      \<and> ve_path e = ''result.''"
  by (rule inline_reference_before_full_stop_fails) simp

text \<open>
  the summary of a tool output is never longer than the limit plus the three dots that mark
  a cut, and the dots do come on top of the limit: a rendered output that is cut has exactly
  three characters more than the limit.
\<close>

theorem truncate_output_bound:
  "length (truncate_output v m) \<le> m + 3
   \<and> length (truncate_output (JList (replicate 5 (JInt 1))) 4) = 4 + 3"
  by (intro conjI truncate_output_length(1)) code_simp

end
