(* ===== verification/Event_Model.thy ===== *)
theory Event_Model
  imports Complex_Main Plan_Model
begin

text \<open>
  The event vocabulary of \<^verbatim>\<open>src/harness/models/events.py\<close> and the delivery contract of
  \<^verbatim>\<open>src/harness/models/intent.py\<close>: one record per payload class, the aggregate unions as one
  datatype \<open>payload\<close>, the event types, and the predicates on (type, phase). A stored payload
  is a dictionary that pydantic validates into one of these classes when it is read; the model
  keeps the validated form, whose \<^verbatim>\<open>phase\<close> literal is determined by the class. Floats are the
  text of their \<^verbatim>\<open>repr\<close>.
\<close>

type_synonym pyfloat = string

text \<open>A clock reading (\<^verbatim>\<open>time.time()\<close>) is only compared, so it is the rational it denotes.\<close>

type_synonym timestamp = rat

section \<open>Contracts\<close>

datatype delivery_source = CALLER | EXTRACTED

record delivery_contract =
  dc_contract_id :: string
  dc_source :: delivery_source
  dc_tool :: string
  dc_input :: "json dict"

text \<open>
  \<open>sha256hex\<close> stands for \<^verbatim>\<open>hashlib.sha256(...).hexdigest()\<close>. A contract built without an id gets
  the first sixteen digits of the digest of its canonical JSON.
\<close>

definition ensure_contract_id :: "(string \<Rightarrow> string) \<Rightarrow> delivery_contract \<Rightarrow> delivery_contract" where
  "ensure_contract_id sha256hex c =
     (if dc_contract_id c = []
      then c\<lparr>dc_contract_id := take 16 (sha256hex (json_dumps True
             (JDict [(''tool'', JStr (dc_tool c)), (''input'', JDict (dc_input c))])))\<rparr>
      else c)"

section \<open>Event types\<close>

datatype event_type =
    RUN | PLAN | STEP | STEP_REPAIR | TOOL | CONFIRMATION | CONTEXT | CONVERSATION | WORKSPACE
  | DIAGNOSTIC | AGENT_THOUGHT | FEEDBACK_INJECTED | DELIVERY_CONTRACTS_RESOLVED

fun event_type_value :: "event_type \<Rightarrow> string" where
  "event_type_value RUN = ''Run''"
| "event_type_value PLAN = ''Plan''"
| "event_type_value STEP = ''Step''"
| "event_type_value STEP_REPAIR = ''StepRepair''"
| "event_type_value TOOL = ''Tool''"
| "event_type_value CONFIRMATION = ''Confirmation''"
| "event_type_value CONTEXT = ''Context''"
| "event_type_value CONVERSATION = ''Conversation''"
| "event_type_value WORKSPACE = ''Workspace''"
| "event_type_value DIAGNOSTIC = ''Diagnostic''"
| "event_type_value AGENT_THOUGHT = ''AgentThought''"
| "event_type_value FEEDBACK_INJECTED = ''FeedbackInjected''"
| "event_type_value DELIVERY_CONTRACTS_RESOLVED = ''DeliveryContractsResolved''"

definition terminal_run_phases :: "string list" where
  "terminal_run_phases = [''completed'', ''failed'']"

definition is_terminal_event :: "event_type \<Rightarrow> string option \<Rightarrow> bool" where
  "is_terminal_event et phase \<longleftrightarrow> et = RUN \<and> phase \<in> Some ` set terminal_run_phases"

definition is_run_stopped :: "event_type \<Rightarrow> string option \<Rightarrow> bool" where
  "is_run_stopped et phase \<longleftrightarrow>
     is_terminal_event et phase \<or> (et = RUN \<and> phase = Some ''orphaned'')"

definition legacy_phase_names :: "(event_type \<times> string) dict" where
  "legacy_phase_names =
     [(''RunStarted'', (RUN, ''started'')), (''RunPaused'', (RUN, ''paused'')),
      (''RunResumed'', (RUN, ''resumed'')), (''RunCompleted'', (RUN, ''completed'')),
      (''RunFailed'', (RUN, ''failed'')), (''RunOrphaned'', (RUN, ''orphaned'')),
      (''PlanCreated'', (PLAN, ''created'')), (''PlanRevised'', (PLAN, ''revised'')),
      (''PlanCompleted'', (PLAN, ''completed'')), (''PlanFailed'', (PLAN, ''failed'')),
      (''DagStepStarted'', (STEP, ''started'')), (''DagStepCompleted'', (STEP, ''completed'')),
      (''DagStepFailed'', (STEP, ''failed'')), (''DagStepSkipped'', (STEP, ''skipped'')),
      (''StepLocalRepairStarted'', (STEP_REPAIR, ''started'')),
      (''StepLocalRepairCompleted'', (STEP_REPAIR, ''completed'')),
      (''ToolCalled'', (TOOL, ''called'')), (''ToolCompleted'', (TOOL, ''completed'')),
      (''ToolFailed'', (TOOL, ''failed'')), (''ToolTimeout'', (TOOL, ''timeout'')),
      (''GuardrailTriggered'', (TOOL, ''blocked'')), (''OutputBlobStored'', (TOOL, ''output_stored'')),
      (''ConfirmationRequested'', (CONFIRMATION, ''requested'')),
      (''ConfirmationReceived'', (CONFIRMATION, ''received'')),
      (''ContextCheckpointed'', (CONTEXT, ''checkpointed'')),
      (''EpisodeArchived'', (CONTEXT, ''archived'')), (''ContextPruned'', (CONTEXT, ''pruned'')),
      (''ConversationStarted'', (CONVERSATION, ''started'')),
      (''ConversationMessage'', (CONVERSATION, ''message'')),
      (''WorkspaceCreated'', (WORKSPACE, ''created'')), (''WorkspaceUpdated'', (WORKSPACE, ''updated'')),
      (''WorkspaceDeleted'', (WORKSPACE, ''deleted'')),
      (''LateEventRejected'', (DIAGNOSTIC, ''late_event_rejected'')),
      (''PhaseTimedOut'', (DIAGNOSTIC, ''phase_timeout'')),
      (''TaskCleanupTimeout'', (DIAGNOSTIC, ''cleanup_timeout''))]"

definition event_matches :: "event_type \<Rightarrow> string option \<Rightarrow> string \<Rightarrow> bool" where
  "event_matches et phase spec =
     (if event_type_value et = spec then True
      else case dget legacy_phase_names spec of
             None \<Rightarrow> False
           | Some (t, ph) \<Rightarrow> et = t \<and> phase = Some ph)"

section \<open>Payloads\<close>

datatype tool_result_type = TR_SUCCESS | TR_UNSUCCESSFUL

record run_started_payload =
  rst_intent :: string
  rst_current_request :: "string option"
  rst_context_snapshot :: "json dict"
  rst_conversation_id :: "string option"
  rst_workspace_id :: "string option"
  rst_intent_raw :: "string option"
  rst_contracts :: "delivery_contract list"
  rst_requires_contract_extraction :: bool

record delivery_contracts_resolved_payload =
  dcr_contracts :: "delivery_contract list"
  dcr_source :: string
  dcr_timed_out :: bool
  dcr_error :: "string option"

record conversation_started_payload =
  cst_conversation_id :: string
  cst_title :: string
  cst_user_id :: string

record conversation_message_payload =
  cms_conversation_id :: string
  cms_run_id :: string
  cms_role :: string
  cms_content :: string
  cms_client_request_id :: "string option"

record agent_thought_payload =
  at_thought :: string
  at_tool_choice :: "string option"
  at_tool_calls :: "string list option"

record tool_called_payload =
  tc_tool_call_id :: string
  tc_tool_name :: string
  tc_input :: "json dict"
  tc_idempotency_key :: "string option"
  tc_step_id :: "string option"

record tool_completed_payload =
  tco_tool_call_id :: string
  tco_tool_name :: string
  tco_output :: json
  tco_duration_ms :: int
  tco_result_type :: tool_result_type
  tco_error :: "string option"
  tco_step_id :: "string option"

record tool_failed_payload =
  tf_tool_call_id :: string
  tf_tool_name :: string
  tf_error :: string
  tf_retryable :: bool
  tf_step_id :: "string option"

record tool_timeout_payload =
  tt_tool_call_id :: string
  tt_tool_name :: string
  tt_timeout_ms :: int
  tt_step_id :: "string option"

record guardrail_triggered_payload =
  gt_tool_call_id :: string
  gt_tool_name :: string
  gt_guardrail_id :: string
  gt_reason :: string
  gt_step_id :: "string option"
  gt_workspace_id :: "string option"

record output_blob_stored_payload =
  obs_tool_call_id :: string
  obs_tool_name :: string
  obs_ref :: string
  obs_sha256 :: string
  obs_bytes :: int
  obs_summary :: string
  obs_truncated :: bool
  obs_step_id :: "string option"
  obs_workspace_id :: "string option"

record workspace_created_payload =
  wc_workspace_id :: string
  wc_tenant_id :: string
  wc_name :: string
  wc_description :: string
  wc_scope :: "json dict"
  wc_actor :: string

record workspace_updated_payload =
  wu_workspace_id :: string
  wu_tenant_id :: string
  wu_changed_fields :: "string list"
  wu_old_values :: "json dict"
  wu_new_values :: "json dict"
  wu_actor :: string

record workspace_deleted_payload =
  wd_workspace_id :: string
  wd_tenant_id :: string
  wd_reason :: string
  wd_actor :: string

record confirmation_requested_payload =
  crq_confirmation_id :: string
  crq_tool_call_id :: string
  crq_tool_name :: string
  crq_input :: "json dict"
  crq_idempotency_key :: string
  crq_risk_level :: string
  crq_step_id :: "string option"

record confirmation_received_payload =
  crc_confirmation_id :: string
  crc_confirmed :: bool
  crc_operator_id :: string
  crc_step_id :: "string option"

record episode =
  ep_range :: "int \<times> int"
  ep_key_decisions :: "string list"
  ep_tools_used :: "string list"
  ep_key_findings :: "string list"
  ep_errors_encountered :: "string list"
  ep_current_plan :: "string option"
  ep_original_event_refs :: "int list"
  ep_title :: string
  ep_summary :: string
  ep_importance_score :: pyfloat
  ep_embedding :: "pyfloat list option"
  ep_parent_episode_id :: "string option"
  ep_format :: string
  ep_preserved_excerpts :: "string list"

record context_checkpointed_payload =
  cc_checkpoint_seq :: int
  cc_snapshot_ref :: string

record run_paused_payload =
  rp_reason :: string

record run_resumed_payload =
  rr_resume_from_seq :: int

record run_completed_payload =
  rc_result_summary :: string
  rc_all_normal :: bool
  rc_unmet_step_ids :: "string list"
  rc_deliverable_status :: string
  rc_deliverable_summary :: "json dict list"

record run_failed_payload =
  rf_final_error :: string
  rf_event_count :: int
  rf_result_summary :: "string option"
  rf_user_facing_message :: string

datatype feedback_category =
  TOOL_FAILURE | REPEATED_CALL | GUARDRAIL_TRIGGERED | OPERATOR_ADVICE | CONDITION_RESOLVED

datatype feedback_source = MONITOR | OPERATOR

datatype feedback_priority = PHigh | PMedium | PLow

record feedback_injected_payload =
  fb_feedback_id :: string
  fb_source :: feedback_source
  fb_category :: feedback_category
  fb_feedback_text :: string
  fb_priority :: feedback_priority
  fb_affected_tool :: "string option"
  fb_error_type :: "string option"
  fb_error_detail :: "string option"
  fb_suggestion :: "string option"
  fb_expires_at_seq :: "int option"
  fb_resolves_feedback_id :: "string option"
  fb_consumed_at_seq :: "int option"
  fb_injected_at_seq :: "int option"

record plan_created_payload =
  pc_plan_id :: string
  pc_intent :: string
  pc_steps_summary :: string
  pc_layer_count :: int
  pc_steps :: "json dict list"

record dag_step_started_payload =
  dss_plan_id :: string
  dss_step_id :: string
  dss_tool_name :: string
  dss_depends_on :: "string list"

record dag_step_completed_payload =
  dsc_plan_id :: string
  dsc_step_id :: string
  dsc_output_summary :: string
  dsc_status :: string
  dsc_error :: "string option"
  dsc_tool_call_id :: "string option"

record dag_step_failed_payload =
  dsf_plan_id :: string
  dsf_step_id :: string
  dsf_error :: string
  dsf_retryable :: bool
  dsf_tool_name :: string
  dsf_tool_call_id :: "string option"

record dag_step_skipped_payload =
  dsk_plan_id :: string
  dsk_step_id :: string
  dsk_reason :: string
  dsk_tool_name :: string

record plan_revised_payload =
  pr_plan_id :: string
  pr_revision_reason :: string
  pr_intent :: string
  pr_remaining_steps_summary :: string
  pr_steps :: "json dict list"
  pr_step_tasks :: "string dict"

record plan_completed_payload =
  pco_plan_id :: string
  pco_completed_steps :: int
  pco_total_layers :: int
  pco_summary :: string

record plan_failed_payload =
  pf_plan_id :: string
  pf_completed_steps :: int
  pf_total_layers :: int
  pf_final_error :: string

record run_orphaned_payload =
  ro_reason :: string
  ro_detected_at :: pyfloat

record episode_archived_payload =
  ea_episode :: episode
  ea_keep_recent_count :: int
  ea_archived_event_refs :: "int list"

record context_pruned_payload =
  cp_pruned_event_refs :: "int list"
  cp_pruned_seq_count :: int
  cp_reason :: string

record late_event_rejected_payload =
  ler_seq :: int
  ler_event_type :: string
  ler_reason :: string

record phase_timed_out_payload =
  pto_timed_out_phase :: string
  pto_budget_ms :: int

record task_cleanup_timeout_payload =
  tct_pending_count :: int
  tct_grace_ms :: int

datatype reject_stage = StagePlan | StageRevise | StageMerge | StageDegenerate | StageInvariant

record plan_rejected_payload =
  prj_stage :: reject_stage
  prj_attempt :: int
  prj_reasons :: "string list"
  prj_recovered :: bool

record step_local_repair_started_payload =
  slrs_step_id :: string
  slrs_plan_id :: string
  slrs_repair_round :: int
  slrs_budget_remaining :: int
  slrs_step_tool :: string
  slrs_error :: "string option"
  slrs_tool_whitelist :: "string list"

datatype repair_outcome = Accepted | Rejected | Exhausted

record step_local_repair_completed_payload =
  slrc_step_id :: string
  slrc_plan_id :: string
  slrc_repair_round :: int
  slrc_outcome :: repair_outcome
  slrc_tool_name :: string
  slrc_proposed_tool :: string
  slrc_error :: "string option"
  slrc_reason :: string

text \<open>The aggregate unions: one datatype per aggregate, one constructor per payload class.\<close>

datatype run_payload =
    RunStarted run_started_payload
  | RunPaused run_paused_payload
  | RunResumed run_resumed_payload
  | RunCompleted run_completed_payload
  | RunFailed run_failed_payload
  | RunOrphaned run_orphaned_payload

datatype plan_payload =
    PlanCreated plan_created_payload
  | PlanRevised plan_revised_payload
  | PlanFailed plan_failed_payload
  | PlanCompleted plan_completed_payload

datatype step_payload =
    DagStepStarted dag_step_started_payload
  | DagStepFailed dag_step_failed_payload
  | DagStepSkipped dag_step_skipped_payload
  | DagStepCompleted dag_step_completed_payload

datatype step_repair_payload =
    StepLocalRepairStarted step_local_repair_started_payload
  | StepLocalRepairCompleted step_local_repair_completed_payload

datatype tool_payload =
    ToolCalled tool_called_payload
  | ToolCompleted tool_completed_payload
  | ToolFailed tool_failed_payload
  | ToolTimeout tool_timeout_payload
  | GuardrailTriggered guardrail_triggered_payload
  | OutputBlobStored output_blob_stored_payload

datatype confirmation_payload =
    ConfirmationRequested confirmation_requested_payload
  | ConfirmationReceived confirmation_received_payload

datatype context_payload =
    ContextCheckpointed context_checkpointed_payload
  | EpisodeArchived episode_archived_payload
  | ContextPruned context_pruned_payload

datatype conversation_payload =
    ConversationStarted conversation_started_payload
  | ConversationMessage conversation_message_payload

datatype workspace_payload =
    WorkspaceCreated workspace_created_payload
  | WorkspaceUpdated workspace_updated_payload
  | WorkspaceDeleted workspace_deleted_payload

datatype diagnostic_payload =
    LateEventRejected late_event_rejected_payload
  | PhaseTimedOut phase_timed_out_payload
  | TaskCleanupTimeout task_cleanup_timeout_payload
  | PlanRejected plan_rejected_payload

datatype payload =
    PRun run_payload
  | PPlan plan_payload
  | PStep step_payload
  | PStepRepair step_repair_payload
  | PTool tool_payload
  | PConfirmation confirmation_payload
  | PContext context_payload
  | PConversation conversation_payload
  | PWorkspace workspace_payload
  | PDiagnostic diagnostic_payload
  | PAgentThought agent_thought_payload
  | PFeedbackInjected feedback_injected_payload
  | PDeliveryContractsResolved delivery_contracts_resolved_payload

text \<open>\<open>PAYLOAD_MODEL_MAP\<close> read backwards: the aggregate a payload class belongs to.\<close>

fun payload_type :: "payload \<Rightarrow> event_type" where
  "payload_type (PRun _) = RUN"
| "payload_type (PPlan _) = PLAN"
| "payload_type (PStep _) = STEP"
| "payload_type (PStepRepair _) = STEP_REPAIR"
| "payload_type (PTool _) = TOOL"
| "payload_type (PConfirmation _) = CONFIRMATION"
| "payload_type (PContext _) = CONTEXT"
| "payload_type (PConversation _) = CONVERSATION"
| "payload_type (PWorkspace _) = WORKSPACE"
| "payload_type (PDiagnostic _) = DIAGNOSTIC"
| "payload_type (PAgentThought _) = AGENT_THOUGHT"
| "payload_type (PFeedbackInjected _) = FEEDBACK_INJECTED"
| "payload_type (PDeliveryContractsResolved _) = DELIVERY_CONTRACTS_RESOLVED"

text \<open>The \<^verbatim>\<open>phase\<close> literal of the payload class; the singletons have none.\<close>

fun run_phase :: "run_payload \<Rightarrow> string" where
  "run_phase (RunStarted _) = ''started''"
| "run_phase (RunPaused _) = ''paused''"
| "run_phase (RunResumed _) = ''resumed''"
| "run_phase (RunCompleted _) = ''completed''"
| "run_phase (RunFailed _) = ''failed''"
| "run_phase (RunOrphaned _) = ''orphaned''"

fun plan_phase :: "plan_payload \<Rightarrow> string" where
  "plan_phase (PlanCreated _) = ''created''"
| "plan_phase (PlanRevised _) = ''revised''"
| "plan_phase (PlanFailed _) = ''failed''"
| "plan_phase (PlanCompleted _) = ''completed''"

fun step_phase :: "step_payload \<Rightarrow> string" where
  "step_phase (DagStepStarted _) = ''started''"
| "step_phase (DagStepFailed _) = ''failed''"
| "step_phase (DagStepSkipped _) = ''skipped''"
| "step_phase (DagStepCompleted _) = ''completed''"

fun step_repair_phase :: "step_repair_payload \<Rightarrow> string" where
  "step_repair_phase (StepLocalRepairStarted _) = ''started''"
| "step_repair_phase (StepLocalRepairCompleted _) = ''completed''"

fun tool_phase :: "tool_payload \<Rightarrow> string" where
  "tool_phase (ToolCalled _) = ''called''"
| "tool_phase (ToolCompleted _) = ''completed''"
| "tool_phase (ToolFailed _) = ''failed''"
| "tool_phase (ToolTimeout _) = ''timeout''"
| "tool_phase (GuardrailTriggered _) = ''blocked''"
| "tool_phase (OutputBlobStored _) = ''output_stored''"

fun confirmation_phase :: "confirmation_payload \<Rightarrow> string" where
  "confirmation_phase (ConfirmationRequested _) = ''requested''"
| "confirmation_phase (ConfirmationReceived _) = ''received''"

fun context_phase :: "context_payload \<Rightarrow> string" where
  "context_phase (ContextCheckpointed _) = ''checkpointed''"
| "context_phase (EpisodeArchived _) = ''archived''"
| "context_phase (ContextPruned _) = ''pruned''"

fun conversation_phase :: "conversation_payload \<Rightarrow> string" where
  "conversation_phase (ConversationStarted _) = ''started''"
| "conversation_phase (ConversationMessage _) = ''message''"

fun workspace_phase :: "workspace_payload \<Rightarrow> string" where
  "workspace_phase (WorkspaceCreated _) = ''created''"
| "workspace_phase (WorkspaceUpdated _) = ''updated''"
| "workspace_phase (WorkspaceDeleted _) = ''deleted''"

fun diagnostic_phase :: "diagnostic_payload \<Rightarrow> string" where
  "diagnostic_phase (LateEventRejected _) = ''late_event_rejected''"
| "diagnostic_phase (PhaseTimedOut _) = ''phase_timeout''"
| "diagnostic_phase (TaskCleanupTimeout _) = ''cleanup_timeout''"
| "diagnostic_phase (PlanRejected _) = ''plan_rejected''"

fun payload_phase :: "payload \<Rightarrow> string option" where
  "payload_phase (PRun p) = Some (run_phase p)"
| "payload_phase (PPlan p) = Some (plan_phase p)"
| "payload_phase (PStep p) = Some (step_phase p)"
| "payload_phase (PStepRepair p) = Some (step_repair_phase p)"
| "payload_phase (PTool p) = Some (tool_phase p)"
| "payload_phase (PConfirmation p) = Some (confirmation_phase p)"
| "payload_phase (PContext p) = Some (context_phase p)"
| "payload_phase (PConversation p) = Some (conversation_phase p)"
| "payload_phase (PWorkspace p) = Some (workspace_phase p)"
| "payload_phase (PDiagnostic p) = Some (diagnostic_phase p)"
| "payload_phase (PAgentThought p) = None"
| "payload_phase (PFeedbackInjected p) = None"
| "payload_phase (PDeliveryContractsResolved p) = None"

record event =
  ev_run_id :: string
  ev_seq :: int
  ev_payload :: payload
  ev_idempotency_key :: "string option"
  ev_created_at :: timestamp
  ev_tenant_id :: string
  ev_workspace_id :: "string option"
  ev_is_audit :: bool

abbreviation ev_type :: "event \<Rightarrow> event_type" where
  "ev_type e \<equiv> payload_type (ev_payload e)"

abbreviation ev_phase :: "event \<Rightarrow> string option" where
  "ev_phase e \<equiv> payload_phase (ev_payload e)"

section \<open>Episode text and feedback ids\<close>

definition labelled :: "string \<Rightarrow> string list \<Rightarrow> string list" where
  "labelled label xs = (if xs = [] then [] else [label @ join '', '' xs])"

definition to_context_text :: "episode \<Rightarrow> string" where
  "to_context_text e = join [CHR 0x0A]
     ((if ep_title e \<noteq> [] then [''Title: '' @ ep_title e] else [])
      @ (if ep_summary e \<noteq> [] then [''Summary: '' @ ep_summary e] else [])
      @ labelled ''Key decisions: '' (ep_key_decisions e)
      @ labelled ''Tools used: '' (ep_tools_used e)
      @ labelled ''Key findings: '' (ep_key_findings e)
      @ labelled ''Errors: '' (ep_errors_encountered e)
      @ (case ep_current_plan e of None \<Rightarrow> [] | Some p \<Rightarrow> if p \<noteq> [] then [''Current plan: '' @ p] else [])
      @ (if ep_preserved_excerpts e \<noteq> []
         then [''Preserved verbatim excerpts:'' @ [CHR 0x0A] @ ''- ''
               @ join ([CHR 0x0A] @ ''- '') (ep_preserved_excerpts e)] else []))"

definition compute_feedback_id :: "(string \<Rightarrow> string) \<Rightarrow> string \<Rightarrow> string \<Rightarrow> string \<Rightarrow> string \<Rightarrow> string" where
  "compute_feedback_id sha256hex run_id category field_a field_b =
     take 16 (sha256hex (run_id @ '':'' @ category @ '':'' @ field_a @ '':'' @ field_b))"

section \<open>Lemmas and properties\<close>

lemma ensure_contract_id_idem: "ensure_contract_id h (ensure_contract_id h c) = ensure_contract_id h c"
  if "\<And>s. h s \<noteq> []"
  using that by (auto simp: ensure_contract_id_def)

lemma is_terminal_event_payload:
  "is_terminal_event (payload_type p) (payload_phase p) \<longleftrightarrow>
     (\<exists>q. p = PRun (RunCompleted q)) \<or> (\<exists>q. p = PRun (RunFailed q))"
proof (cases p)
  case (PRun r)
  then show ?thesis
    by (cases r) (simp_all add: is_terminal_event_def terminal_run_phases_def image_def)
qed (simp_all add: is_terminal_event_def)

lemma is_run_stopped_payload:
  "is_run_stopped (payload_type p) (payload_phase p) \<longleftrightarrow>
     is_terminal_event (payload_type p) (payload_phase p) \<or> (\<exists>q. p = PRun (RunOrphaned q))"
proof (cases p)
  case (PRun r)
  then show ?thesis by (cases r) (simp_all add: is_run_stopped_def)
qed (simp_all add: is_run_stopped_def is_terminal_event_def)

lemma legacy_lookup:
  "(\<exists>name. dget legacy_phase_names name = Some v) \<longleftrightarrow> v \<in> set (map snd legacy_phase_names)"
proof -
  have "distinct (keys legacy_phase_names)" by code_simp
  then show ?thesis by (force simp: map_of_eq_Some_iff)
qed

text \<open>
  the legacy names are unambiguous and complete: no two of them stand for the same
  (aggregate, phase), and every payload class with a phase is named by one of them, except the
  rejected-plan diagnostic, which has none.
\<close>

theorem legacy_names_cover_phases:
  "distinct (map snd legacy_phase_names)
   \<and> (payload_phase p = Some ph \<longrightarrow>
        ((\<exists>name. dget legacy_phase_names name = Some (payload_type p, ph))
         \<longleftrightarrow> ph \<noteq> ''plan_rejected''))"
proof
  show "distinct (map snd legacy_phase_names)" by code_simp
  have mem: "(RUN, run_phase r) \<in> set (map snd legacy_phase_names)" for r
    by (cases r; simp only: run_phase.simps; code_simp)
  have mem2: "(PLAN, plan_phase r) \<in> set (map snd legacy_phase_names)" for r
    by (cases r; simp only: plan_phase.simps; code_simp)
  have mem3: "(STEP, step_phase r) \<in> set (map snd legacy_phase_names)" for r
    by (cases r; simp only: step_phase.simps; code_simp)
  have mem4: "(STEP_REPAIR, step_repair_phase r) \<in> set (map snd legacy_phase_names)" for r
    by (cases r; simp only: step_repair_phase.simps; code_simp)
  have mem5: "(TOOL, tool_phase r) \<in> set (map snd legacy_phase_names)" for r
    by (cases r; simp only: tool_phase.simps; code_simp)
  have mem6: "(CONFIRMATION, confirmation_phase r) \<in> set (map snd legacy_phase_names)" for r
    by (cases r; simp only: confirmation_phase.simps; code_simp)
  have mem7: "(CONTEXT, context_phase r) \<in> set (map snd legacy_phase_names)" for r
    by (cases r; simp only: context_phase.simps; code_simp)
  have mem8: "(CONVERSATION, conversation_phase r) \<in> set (map snd legacy_phase_names)" for r
    by (cases r; simp only: conversation_phase.simps; code_simp)
  have mem9: "(WORKSPACE, workspace_phase r) \<in> set (map snd legacy_phase_names)" for r
    by (cases r; simp only: workspace_phase.simps; code_simp)
  have mem10: "(DIAGNOSTIC, diagnostic_phase r) \<in> set (map snd legacy_phase_names)
      \<longleftrightarrow> diagnostic_phase r \<noteq> ''plan_rejected''" for r
    by (cases r; simp only: diagnostic_phase.simps; code_simp)
  have mem11: "(DIAGNOSTIC, ''plan_rejected'') \<notin> set (map snd legacy_phase_names)"
    by code_simp
  have ne: "run_phase a \<noteq> ''plan_rejected''" "plan_phase b \<noteq> ''plan_rejected''"
    "step_phase c \<noteq> ''plan_rejected''" "step_repair_phase d \<noteq> ''plan_rejected''"
    "tool_phase e \<noteq> ''plan_rejected''" "confirmation_phase f \<noteq> ''plan_rejected''"
    "context_phase g \<noteq> ''plan_rejected''" "conversation_phase h \<noteq> ''plan_rejected''"
    "workspace_phase i \<noteq> ''plan_rejected''" for a b c d e f g h i
    by - ((cases a; simp), (cases b; simp), (cases c; simp), (cases d; simp), (cases e; simp),
          (cases f; simp), (cases g; simp), (cases h; simp), (cases i; simp))
  show "payload_phase p = Some ph \<longrightarrow>
        ((\<exists>name. dget legacy_phase_names name = Some (payload_type p, ph)) \<longleftrightarrow> ph \<noteq> ''plan_rejected'')"
    unfolding legacy_lookup
  proof
    assume "payload_phase p = Some ph"
    then show "(payload_type p, ph) \<in> set (map snd legacy_phase_names) \<longleftrightarrow> ph \<noteq> ''plan_rejected''"
      by (cases p) (auto simp only: payload_phase.simps option.inject option.distinct payload_type.simps
          mem mem2 mem3 mem4 mem5 mem6 mem7 mem8 mem9 mem10 mem11 ne)
  qed
qed

lemma legacy_names_cover_phases_witness:
  "(\<exists>name. dget legacy_phase_names name = Some (RUN, ''paused''))"
  using legacy_names_cover_phases[of "PRun (RunPaused \<lparr>rp_reason = ''x''\<rparr>)" "''paused''"] by simp

end
