(* ===== verification/Dag_Types.thy ===== *)
theory Dag_Types
  imports Py_Text
begin

text \<open>
  The typed step results of \<^verbatim>\<open>src/harness/core/dag_types.py\<close>: the execution state written by
  the system, the task state written by the model, \<open>StepResult\<close> with its derived predicates,
  and the canonical signature of an action. The predicates are functions of the execution
  state and the probe flag alone.
\<close>

datatype exec_state = PENDING | RUNNING | COMPLETED | UNSUCCESSFUL | FAILED | SKIPPED | IDEMPOTENT | CANCELLED

fun exec_state_value :: "exec_state \<Rightarrow> string" where
  "exec_state_value PENDING = ''pending''"
| "exec_state_value RUNNING = ''running''"
| "exec_state_value COMPLETED = ''completed''"
| "exec_state_value UNSUCCESSFUL = ''unsuccessful''"
| "exec_state_value FAILED = ''failed''"
| "exec_state_value SKIPPED = ''skipped''"
| "exec_state_value IDEMPOTENT = ''idempotent''"
| "exec_state_value CANCELLED = ''cancelled''"

text \<open>
  \<open>ExecState\<close> is a \<open>str\<close> enumeration, so the predicate is applied to raw state strings too
  (the folded evidence keeps strings): it is defined on the string value.
\<close>

definition exec_state_is_normal :: "string \<Rightarrow> bool \<Rightarrow> bool" where
  "exec_state_is_normal st probe \<longleftrightarrow>
     st \<in> {exec_state_value COMPLETED, exec_state_value IDEMPOTENT}
     \<or> (st = exec_state_value UNSUCCESSFUL \<and> probe)"

datatype task_state = UNKNOWN | ACHIEVED | PARTIAL | NOT_ACHIEVED | WAIVED

fun task_state_value :: "task_state \<Rightarrow> string" where
  "task_state_value UNKNOWN = ''unknown''"
| "task_state_value ACHIEVED = ''achieved''"
| "task_state_value PARTIAL = ''partial''"
| "task_state_value NOT_ACHIEVED = ''not_achieved''"
| "task_state_value WAIVED = ''waived''"

record step_result =
  sr_step_id :: string
  sr_exec_state :: exec_state
  sr_output :: json
  sr_summary :: string
  sr_error :: "string option"
  sr_retryable :: bool
  sr_confirmation_id :: "string option"
  sr_task_state :: task_state
  sr_probe :: bool
  sr_tool_call_id :: "string option"

definition StepResult0 :: "string \<Rightarrow> step_result" where
  "StepResult0 sid = \<lparr> sr_step_id = sid, sr_exec_state = PENDING, sr_output = JNull, sr_summary = [],
     sr_error = None, sr_retryable = False, sr_confirmation_id = None, sr_task_state = UNKNOWN,
     sr_probe = False, sr_tool_call_id = None \<rparr>"

definition should_not_rerun :: "step_result \<Rightarrow> bool" where
  "should_not_rerun r \<longleftrightarrow> sr_exec_state r \<in> {COMPLETED, IDEMPOTENT, CANCELLED}"

definition is_completed :: "step_result \<Rightarrow> bool" where
  "is_completed r \<longleftrightarrow> sr_exec_state r = COMPLETED"

definition step_normal :: "step_result \<Rightarrow> bool" where
  "step_normal r \<longleftrightarrow> exec_state_is_normal (exec_state_value (sr_exec_state r)) (sr_probe r)"

definition output_available :: "step_result \<Rightarrow> bool" where
  "output_available r \<longleftrightarrow> sr_exec_state r \<in> {COMPLETED, UNSUCCESSFUL, IDEMPOTENT}"

definition is_failed :: "step_result \<Rightarrow> bool" where
  "is_failed r \<longleftrightarrow> sr_exec_state r = FAILED"

definition needs_confirmation :: "step_result \<Rightarrow> bool" where
  "needs_confirmation r \<longleftrightarrow> sr_confirmation_id r \<noteq> None"

definition is_unsuccessful :: "step_result \<Rightarrow> bool" where
  "is_unsuccessful r \<longleftrightarrow> sr_exec_state r = UNSUCCESSFUL"

text \<open>\<^verbatim>\<open>json.dumps(inp or {}, sort_keys=True, default=str)\<close>.\<close>

definition action_input_signature :: "json \<Rightarrow> string" where
  "action_input_signature inp = json_dumps True (if truthy inp then inp else JDict [])"

definition action_signature :: "string \<Rightarrow> json \<Rightarrow> string \<times> string" where
  "action_signature tool inp = (tool, action_input_signature inp)"

section \<open>Lemmas\<close>

lemma exec_state_value_inj: "exec_state_value a = exec_state_value b \<longleftrightarrow> a = b"
  by (cases a; cases b) simp_all

lemma step_normal_iff:
  "step_normal r \<longleftrightarrow> sr_exec_state r = COMPLETED \<or> sr_exec_state r = IDEMPOTENT
     \<or> (sr_exec_state r = UNSUCCESSFUL \<and> sr_probe r)"
  unfolding step_normal_def exec_state_is_normal_def by (simp only: insert_iff empty_iff exec_state_value_inj) blast

lemma step_normal_output_available: "step_normal r \<Longrightarrow> output_available r"
  by (auto simp: step_normal_iff output_available_def)

section \<open>Properties\<close>

text \<open>
  the trusted predicates of a step result do not depend on the task state the model writes:
  changing it changes none of them.
\<close>

theorem trusted_predicates_ignore_task_state:
  "step_normal (r\<lparr>sr_task_state := t\<rparr>) = step_normal r
   \<and> should_not_rerun (r\<lparr>sr_task_state := t\<rparr>) = should_not_rerun r
   \<and> output_available (r\<lparr>sr_task_state := t\<rparr>) = output_available r
   \<and> is_failed (r\<lparr>sr_task_state := t\<rparr>) = is_failed r
   \<and> needs_confirmation (r\<lparr>sr_task_state := t\<rparr>) = needs_confirmation r"
  by (simp add: step_normal_def should_not_rerun_def output_available_def is_failed_def
      needs_confirmation_def)

text \<open>
  the action signature does not depend on the key order of the tool input: two inputs with
  the same items have the same signature.
\<close>

theorem action_signature_key_order:
  assumes "set d = set e" and "distinct (keys d)" and "distinct (keys e)"
  shows "action_signature tool (JDict d) = action_signature tool (JDict e)"
proof -
  have "d = [] \<longleftrightarrow> e = []" using assms(1) by auto
  then show ?thesis
    using json_dumps_sorted_order[OF assms] by (simp add: action_signature_def action_input_signature_def)
qed

lemma action_signature_key_order_witness:
  "action_signature ''file_op'' (JDict [(''path'', JStr ''a''), (''mode'', JInt 1)])
     = action_signature ''file_op'' (JDict [(''mode'', JInt 1), (''path'', JStr ''a'')])"
  by (rule action_signature_key_order) auto

end
