(* ===== verification/Event_Fold.thy ===== *)
theory Event_Fold
  imports Event_Model Dag_Types
begin

text \<open>
  The projection of \<^verbatim>\<open>src/harness/core/fold.py\<close>: \<open>fold_events\<close> folds the event stream of a run
  into a \<open>run_state\<close>. The loop body is \<open>apply_event\<close>, one function per aggregate of the match.
  A plan entry is shared between \<^verbatim>\<open>plan_history\<close> and \<^verbatim>\<open>latest_plan\<close>, so the latter is kept as
  the position of the entry in the history; an update through it is then seen in both. The
  loop raises on an empty stream, on mixed run ids, on a blueprint entry without a step id
  that is searched, and on a \<^verbatim>\<open>depends_on\<close> that is not iterable.
\<close>

section \<open>State\<close>

datatype run_status = RS_RUNNING | RS_PAUSED | RS_COMPLETED | RS_FAILED

datatype tool_result_status =
  TRS_COMPLETED | TRS_UNSUCCESSFUL | TRS_FAILED | TRS_TIMEOUT | TRS_GUARDRAIL_BLOCKED

record thought_entry =
  te_seq :: int
  te_thought :: string
  te_tool_choice :: "string option"

record tool_result =
  trs_tool_call_id :: string
  trs_tool_name :: string
  trs_status :: tool_result_status
  trs_output :: json
  trs_error :: "string option"
  trs_duration_ms :: int
  trs_idempotency_key :: "string option"
  trs_event_seq :: int

record step_evidence =
  se_step_id :: string
  se_plan_id :: string
  se_tool_name :: string
  se_exec_state :: string
  se_depends_on :: "json list"
  se_output_summary :: string
  se_error :: "string option"
  se_tool_call_id :: "string option"
  se_output_ref :: "string option"
  se_output :: json
  se_probe :: bool
  se_skip_reason :: "string option"
  se_updated_seq :: int

definition evidence_normal :: "step_evidence \<Rightarrow> bool" where
  "evidence_normal ev = exec_state_is_normal (se_exec_state ev) (se_probe ev)"

record plan_entry =
  ple_plan_id :: string
  ple_intent :: string
  ple_steps_summary :: string
  ple_layer_count :: int
  ple_steps :: "json dict list"
  ple_revision_reason :: "string option"
  ple_remaining_steps_summary :: "string option"
  ple_step_tasks :: "string dict option"
  ple_status :: "string option"
  ple_summary :: "string option"
  ple_final_error :: "string option"

datatype run_summary = SumEpisode episode | SumText string

record run_state =
  rs_run_id :: string
  rs_status :: run_status
  rs_seq :: int
  rs_intent :: string
  rs_current_request :: string
  rs_context_snapshot :: "json dict"
  rs_thought_history :: "thought_entry list"
  rs_latest_thought :: "thought_entry option"
  rs_tool_calls :: "tool_called_payload list"
  rs_tool_results :: "tool_result list"
  rs_last_error :: "string option"
  rs_user_facing_message :: "string option"
  rs_summary :: "run_summary option"
  rs_keep_recent_count :: int
  rs_pause_reason :: "string option"
  rs_pending_confirmations :: "confirmation_requested_payload list"
  rs_last_checkpoint_seq :: "int option"
  rs_feedbacks :: "feedback_injected_payload list"
  rs_plan_history :: "plan_entry list"
  rs_step_tasks :: "string dict"
  rs_latest_plan :: "nat option"
  rs_plan_boundary_seqs :: "int list"
  rs_completion_evidence :: "json dict"
  rs_conversation_id :: "string option"
  rs_workspace_id :: "string option"
  rs_orphaned :: bool
  rs_episodes :: "episode list"
  rs_intent_raw :: string
  rs_delivery_contracts :: "delivery_contract list"
  rs_requires_contract_extraction :: bool
  rs_step_evidence :: "step_evidence dict"

definition RunState0 :: "string \<Rightarrow> run_state" where
  "RunState0 run_id = \<lparr> rs_run_id = run_id, rs_status = RS_RUNNING, rs_seq = 0, rs_intent = [],
     rs_current_request = [], rs_context_snapshot = [], rs_thought_history = [],
     rs_latest_thought = None, rs_tool_calls = [], rs_tool_results = [], rs_last_error = None,
     rs_user_facing_message = None, rs_summary = None, rs_keep_recent_count = 0,
     rs_pause_reason = None, rs_pending_confirmations = [], rs_last_checkpoint_seq = None,
     rs_feedbacks = [], rs_plan_history = [], rs_step_tasks = [], rs_latest_plan = None,
     rs_plan_boundary_seqs = [], rs_completion_evidence = [], rs_conversation_id = None,
     rs_workspace_id = None, rs_orphaned = False, rs_episodes = [], rs_intent_raw = [],
     rs_delivery_contracts = [], rs_requires_contract_extraction = False, rs_step_evidence = [] \<rparr>"

section \<open>Step evidence\<close>

definition StepEvidence0 :: "string \<Rightarrow> string \<Rightarrow> int \<Rightarrow> step_evidence" where
  "StepEvidence0 sid pid seq = \<lparr> se_step_id = sid, se_plan_id = pid, se_tool_name = [],
     se_exec_state = ''pending'', se_depends_on = [], se_output_summary = [], se_error = None,
     se_tool_call_id = None, se_output_ref = None, se_output = JNull, se_probe = False,
     se_skip_reason = None, se_updated_seq = seq \<rparr>"

text \<open>\<open>_evidence\<close>: get or create; the caller writes the mutated record back under the same key.\<close>

definition evidence_for :: "step_evidence dict \<Rightarrow> string \<Rightarrow> string \<Rightarrow> int \<Rightarrow> step_evidence" where
  "evidence_for evs sid pid seq =
     (case dget evs sid of
        None \<Rightarrow> StepEvidence0 sid pid seq
      | Some ev \<Rightarrow> if pid \<noteq> [] then ev\<lparr>se_plan_id := pid\<rparr> else ev)"

text \<open>\<^verbatim>\<open>list(x or [])\<close> on a JSON value: a string gives its characters, a dict its keys.\<close>

fun py_list_or_empty :: "json \<Rightarrow> json list result" where
  "py_list_or_empty v =
     (if \<not> truthy v then Inr []
      else case v of
             JList xs \<Rightarrow> Inr xs
           | JStr s \<Rightarrow> Inr (map (\<lambda>c. JStr [c]) s)
           | JDict d \<Rightarrow> Inr (map (\<lambda>kv. JStr (fst kv)) d)
           | _ \<Rightarrow> Inl (TypeErr ''object is not iterable''))"

definition finished_states :: "string list" where
  "finished_states = [''completed'', ''idempotent'', ''cancelled'']"

text \<open>The body of \<open>_apply_blueprint\<close>'s loop for one evidence record.\<close>

definition blueprint_evidence :: "json dict \<Rightarrow> json list \<Rightarrow> step_evidence \<Rightarrow> step_evidence" where
  "blueprint_evidence s deps ev =
     (let new_tool = (case dget s ''tool_name'' of
                        Some v \<Rightarrow> if truthy v then py_str v else se_tool_name ev
                      | None \<Rightarrow> se_tool_name ev);
          tool_changed = (se_tool_name ev \<noteq> [] \<and> new_tool \<noteq> se_tool_name ev
                          \<and> se_exec_state ev \<noteq> ''pending'');
          ev1 = ev\<lparr>se_tool_name := new_tool, se_depends_on := deps,
                    se_probe := truthy (dget_or (JBool False) s ''probe'')\<rparr>
      in if tool_changed \<and> se_exec_state ev1 \<notin> set finished_states
         then ev1\<lparr>se_exec_state := ''pending'', se_error := None, se_output_summary := [],
                   se_tool_call_id := None\<rparr>
         else ev1)"

fun apply_blueprint_step :: "string \<Rightarrow> int \<Rightarrow> json dict \<Rightarrow> step_evidence dict \<Rightarrow> step_evidence dict result" where
  "apply_blueprint_step pid seq s evs =
     (if \<not> truthy (dget_or JNull s ''step_id'') then Inr evs
      else let sid = py_str (dget_or JNull s ''step_id'')
           in rbind (py_list_or_empty (dget_or JNull s ''depends_on''))
                (\<lambda>deps. Inr (dset sid (blueprint_evidence s deps (evidence_for evs sid pid seq)) evs)))"

definition apply_blueprint :: "json dict list \<Rightarrow> string \<Rightarrow> int \<Rightarrow> step_evidence dict \<Rightarrow> step_evidence dict result" where
  "apply_blueprint steps pid seq evs = fold_result (apply_blueprint_step pid seq) steps evs"

section \<open>The latest plan\<close>

definition latest_entry :: "run_state \<Rightarrow> plan_entry option" where
  "latest_entry st = (case rs_latest_plan st of None \<Rightarrow> None | Some i \<Rightarrow> Some (rs_plan_history st ! i))"

definition update_latest :: "(plan_entry \<Rightarrow> plan_entry) \<Rightarrow> run_state \<Rightarrow> run_state" where
  "update_latest f st =
     (case rs_latest_plan st of
        None \<Rightarrow> st
      | Some i \<Rightarrow> st\<lparr>rs_plan_history := (rs_plan_history st)[i := f (rs_plan_history st ! i)]\<rparr>)"

definition latest_is :: "string \<Rightarrow> run_state \<Rightarrow> bool" where
  "latest_is pid st = (case latest_entry st of None \<Rightarrow> False | Some e \<Rightarrow> ple_plan_id e = pid)"

text \<open>\<^verbatim>\<open>next((s for s in steps if s["step_id"] == step_id), None)\<close>.\<close>

fun find_plan_step :: "string \<Rightarrow> nat \<Rightarrow> json dict list \<Rightarrow> nat option result" where
  "find_plan_step sid i [] = Inr None"
| "find_plan_step sid i (s # ss) =
     (case dget s ''step_id'' of
        None \<Rightarrow> Inl (KeyError ''step_id'')
      | Some v \<Rightarrow> if v = JStr sid then Inr (Some i) else find_plan_step sid (Suc i) ss)"

definition record_plan_step ::
    "string \<Rightarrow> string \<Rightarrow> (json dict \<Rightarrow> json dict) \<Rightarrow> json dict \<Rightarrow> run_state \<Rightarrow> run_state result" where
  "record_plan_step pid sid upd fresh st =
     (case latest_entry st of
        None \<Rightarrow> Inr st
      | Some e \<Rightarrow>
          if ple_plan_id e \<noteq> pid then Inr st
          else rbind (find_plan_step sid 0 (ple_steps e)) (\<lambda>existing.
                 Inr (update_latest (\<lambda>e. e\<lparr>ple_steps :=
                   (case existing of
                      None \<Rightarrow> ple_steps e @ [fresh]
                    | Some i \<Rightarrow> (ple_steps e)[i := upd (ple_steps e ! i)])\<rparr>) st)))"

definition dset_if :: "string \<Rightarrow> string option \<Rightarrow> json dict \<Rightarrow> json dict" where
  "dset_if k x d = (if opt_truthy x then dset k (JStr (the x)) d else d)"

section \<open>Events\<close>

fun apply_run :: "run_payload \<Rightarrow> run_state \<Rightarrow> run_state" where
  "apply_run (RunStarted p) st = st\<lparr>
     rs_intent := rst_intent p,
     rs_current_request := opt_or (rst_current_request p) (rst_intent p),
     rs_context_snapshot := rst_context_snapshot p,
     rs_status := RS_RUNNING,
     rs_conversation_id := rst_conversation_id p,
     rs_workspace_id := rst_workspace_id p,
     rs_intent_raw := opt_or (rst_intent_raw p) (rst_intent p),
     rs_delivery_contracts := rst_contracts p,
     rs_requires_contract_extraction := rst_requires_contract_extraction p\<rparr>"
| "apply_run (RunPaused p) st = st\<lparr>rs_status := RS_PAUSED, rs_pause_reason := Some (rp_reason p)\<rparr>"
| "apply_run (RunResumed p) st = st\<lparr>rs_status := RS_RUNNING, rs_pause_reason := None\<rparr>"
| "apply_run (RunCompleted p) st = st\<lparr>
     rs_status := RS_COMPLETED,
     rs_summary := Some (SumText (rc_result_summary p)),
     rs_completion_evidence :=
       [(''all_normal'', JBool (rc_all_normal p)),
        (''unmet_step_ids'', JList (map JStr (rc_unmet_step_ids p))),
        (''deliverable_status'', JStr (rc_deliverable_status p)),
        (''deliverable_summary'', JList (map JDict (rc_deliverable_summary p)))]\<rparr>"
| "apply_run (RunFailed p) st =
     (let st1 = st\<lparr>rs_status := RS_FAILED, rs_last_error := Some (rf_final_error p),
                    rs_user_facing_message := Some (rf_user_facing_message p)\<rparr>
      in if opt_truthy (rf_result_summary p)
         then st1\<lparr>rs_summary := Some (SumText (the (rf_result_summary p)))\<rparr> else st1)"
| "apply_run (RunOrphaned p) st = st\<lparr>rs_orphaned := True\<rparr>"

definition ToolResult0 :: "string \<Rightarrow> string \<Rightarrow> tool_result_status \<Rightarrow> string option \<Rightarrow> int \<Rightarrow> tool_result" where
  "ToolResult0 cid name status err seq = \<lparr> trs_tool_call_id = cid, trs_tool_name = name,
     trs_status = status, trs_output = JNull, trs_error = err, trs_duration_ms = 0,
     trs_idempotency_key = None, trs_event_seq = seq \<rparr>"

definition blob_ref :: "json \<Rightarrow> string option" where
  "blob_ref out =
     (case out of
        JDict d \<Rightarrow> if truthy (dget_or JNull d ''ref'') \<and> truthy (dget_or JNull d ''sha256'')
                  then Some (py_str (dget_or JNull d ''ref'')) else None
      | _ \<Rightarrow> None)"

definition tool_evidence :: "tool_completed_payload \<Rightarrow> step_evidence \<Rightarrow> step_evidence" where
  "tool_evidence p ev =
     ev\<lparr>se_output := tco_output p,
        se_tool_name := str_or (tco_tool_name p) (se_tool_name ev),
        se_tool_call_id := (if tco_tool_call_id p \<noteq> [] then Some (tco_tool_call_id p) else se_tool_call_id ev),
        se_output_ref := (case blob_ref (tco_output p) of None \<Rightarrow> se_output_ref ev | Some r \<Rightarrow> Some r)\<rparr>"

fun apply_tool :: "int \<Rightarrow> tool_payload \<Rightarrow> run_state \<Rightarrow> run_state" where
  "apply_tool seq (ToolCalled p) st = st\<lparr>rs_tool_calls := rs_tool_calls st @ [p]\<rparr>"
| "apply_tool seq (ToolCompleted p) st =
     (let st1 = st\<lparr>rs_tool_results := rs_tool_results st @
            [(ToolResult0 (tco_tool_call_id p) (tco_tool_name p)
               (if tco_result_type p = TR_UNSUCCESSFUL then TRS_UNSUCCESSFUL else TRS_COMPLETED)
               (tco_error p) seq)\<lparr>trs_output := tco_output p, trs_duration_ms := tco_duration_ms p\<rparr>]\<rparr>
      in if opt_truthy (tco_step_id p)
         then st1\<lparr>rs_step_evidence :=
                dset (the (tco_step_id p))
                  (tool_evidence p (evidence_for (rs_step_evidence st) (the (tco_step_id p)) [] seq))
                  (rs_step_evidence st)\<rparr>
         else st1)"
| "apply_tool seq (ToolFailed p) st = st\<lparr>
     rs_tool_results := rs_tool_results st @
       [ToolResult0 (tf_tool_call_id p) (tf_tool_name p) TRS_FAILED (Some (tf_error p)) seq],
     rs_last_error := Some (tf_error p)\<rparr>"
| "apply_tool seq (ToolTimeout p) st = st\<lparr>
     rs_tool_results := rs_tool_results st @
       [ToolResult0 (tt_tool_call_id p) (tt_tool_name p) TRS_TIMEOUT
          (Some (''Timeout after '' @ show_int (tt_timeout_ms p) @ ''ms'')) seq],
     rs_last_error := Some (''Tool '' @ quoted (tt_tool_name p) @ '' timed out'')\<rparr>"
| "apply_tool seq (GuardrailTriggered p) st = st\<lparr>
     rs_tool_results := rs_tool_results st @
       [ToolResult0 (gt_tool_call_id p) (gt_tool_name p) TRS_GUARDRAIL_BLOCKED
          (Some (''Guardrail '' @ quoted (gt_guardrail_id p) @ '': '' @ gt_reason p)) seq]\<rparr>"
| "apply_tool seq (OutputBlobStored p) st = st"

fun apply_confirmation :: "confirmation_payload \<Rightarrow> run_state \<Rightarrow> run_state" where
  "apply_confirmation (ConfirmationRequested p) st =
     st\<lparr>rs_pending_confirmations := rs_pending_confirmations st @ [p]\<rparr>"
| "apply_confirmation (ConfirmationReceived p) st =
     st\<lparr>rs_pending_confirmations :=
         filter (\<lambda>c. crq_confirmation_id c \<noteq> crc_confirmation_id p) (rs_pending_confirmations st)\<rparr>"

definition drop_refs :: "int list \<Rightarrow> run_state \<Rightarrow> run_state" where
  "drop_refs refs st = st\<lparr>
     rs_thought_history := filter (\<lambda>t. te_seq t \<notin> set refs) (rs_thought_history st),
     rs_tool_results := filter (\<lambda>tr. trs_event_seq tr \<notin> set refs) (rs_tool_results st)\<rparr>"

fun apply_context :: "context_payload \<Rightarrow> run_state \<Rightarrow> run_state" where
  "apply_context (ContextCheckpointed p) st = st\<lparr>rs_last_checkpoint_seq := Some (cc_checkpoint_seq p)\<rparr>"
| "apply_context (EpisodeArchived p) st =
     drop_refs (ea_archived_event_refs p)
       (st\<lparr>rs_summary := Some (SumEpisode (ea_episode p)),
            rs_episodes := rs_episodes st @ [ea_episode p],
            rs_keep_recent_count := ea_keep_recent_count p\<rparr>)"
| "apply_context (ContextPruned p) st = drop_refs (cp_pruned_event_refs p) st"

definition apply_thought :: "int \<Rightarrow> agent_thought_payload \<Rightarrow> run_state \<Rightarrow> run_state" where
  "apply_thought seq p st =
     (let t = \<lparr>te_seq = seq, te_thought = at_thought p, te_tool_choice = at_tool_choice p\<rparr>
      in st\<lparr>rs_thought_history := rs_thought_history st @ [t], rs_latest_thought := Some t\<rparr>)"

definition apply_feedback :: "int \<Rightarrow> feedback_injected_payload \<Rightarrow> run_state \<Rightarrow> run_state" where
  "apply_feedback seq p st =
     st\<lparr>rs_feedbacks := rs_feedbacks st @
         [if fb_injected_at_seq p = None then p\<lparr>fb_injected_at_seq := Some seq\<rparr> else p]\<rparr>"

definition consume_feedbacks :: "int \<Rightarrow> feedback_injected_payload list \<Rightarrow> feedback_injected_payload list" where
  "consume_feedbacks seq fbs =
     map (\<lambda>fb. if fb_consumed_at_seq fb = None then fb\<lparr>fb_consumed_at_seq := Some seq\<rparr> else fb) fbs"

definition with_evidence :: "run_state \<Rightarrow> step_evidence dict result \<Rightarrow> run_state result" where
  "with_evidence st r = rmap (\<lambda>evs. st\<lparr>rs_step_evidence := evs\<rparr>) r"

fun apply_plan :: "int \<Rightarrow> plan_payload \<Rightarrow> run_state \<Rightarrow> run_state result" where
  "apply_plan seq (PlanCreated p) st =
     (let entry = \<lparr> ple_plan_id = pc_plan_id p, ple_intent = pc_intent p,
                    ple_steps_summary = pc_steps_summary p, ple_layer_count = pc_layer_count p,
                    ple_steps = pc_steps p, ple_revision_reason = None,
                    ple_remaining_steps_summary = None, ple_step_tasks = None, ple_status = None,
                    ple_summary = None, ple_final_error = None \<rparr>;
          st1 = st\<lparr>rs_plan_history := rs_plan_history st @ [entry],
                    rs_latest_plan := Some (length (rs_plan_history st))\<rparr>
      in with_evidence st1 (apply_blueprint (pc_steps p) (pc_plan_id p) seq (rs_step_evidence st)))"
| "apply_plan seq (PlanRevised p) st =
     (let st1 = st\<lparr>rs_feedbacks := consume_feedbacks seq (rs_feedbacks st)\<rparr>;
          st2 = (if latest_is (pr_plan_id p) st1
                 then update_latest (\<lambda>e. e\<lparr>
                        ple_intent := pr_intent p,
                        ple_revision_reason := Some (pr_revision_reason p),
                        ple_remaining_steps_summary := Some (pr_remaining_steps_summary p),
                        ple_step_tasks := Some (pr_step_tasks p),
                        ple_steps := (if pr_steps p \<noteq> [] then pr_steps p else ple_steps e)\<rparr>) st1
                 else st1);
          st3 = st2\<lparr>rs_step_tasks := fold (\<lambda>(k, v). dset k v) (pr_step_tasks p) (rs_step_tasks st2)\<rparr>
      in if pr_steps p \<noteq> []
         then with_evidence st3 (apply_blueprint (pr_steps p) (pr_plan_id p) seq (rs_step_evidence st3))
         else Inr st3)"
| "apply_plan seq (PlanCompleted p) st =
     (let st1 = st\<lparr>rs_plan_boundary_seqs := rs_plan_boundary_seqs st @ [seq]\<rparr>
      in Inr (if latest_is (pco_plan_id p) st1
              then update_latest (\<lambda>e. e\<lparr>ple_status := Some ''completed'', ple_summary := Some (pco_summary p)\<rparr>) st1
              else st1))"
| "apply_plan seq (PlanFailed p) st =
     (let st1 = st\<lparr>rs_plan_boundary_seqs := rs_plan_boundary_seqs st @ [seq]\<rparr>
      in Inr (if latest_is (pf_plan_id p) st1
              then update_latest (\<lambda>e. e\<lparr>ple_status := Some ''failed'', ple_final_error := Some (pf_final_error p)\<rparr>) st1
              else st1))"

definition started_evidence :: "int \<Rightarrow> dag_step_started_payload \<Rightarrow> step_evidence \<Rightarrow> step_evidence" where
  "started_evidence seq p ev =
     ev\<lparr>se_exec_state := (if se_exec_state ev \<in> {''pending'', []} then ''running'' else se_exec_state ev),
        se_tool_name := str_or (dss_tool_name p) (se_tool_name ev),
        se_depends_on := (if dss_depends_on p \<noteq> [] then map JStr (dss_depends_on p) else se_depends_on ev),
        se_updated_seq := seq\<rparr>"

definition completed_evidence :: "int \<Rightarrow> dag_step_completed_payload \<Rightarrow> step_evidence \<Rightarrow> step_evidence" where
  "completed_evidence seq p ev =
     ev\<lparr>se_exec_state := str_or (dsc_status p) ''completed'',
        se_output_summary := str_or (dsc_output_summary p) (se_output_summary ev),
        se_error := (if opt_truthy (dsc_error p) then dsc_error p else se_error ev),
        se_tool_call_id := (if opt_truthy (dsc_tool_call_id p) then dsc_tool_call_id p else se_tool_call_id ev),
        se_updated_seq := seq\<rparr>"

definition failed_evidence :: "int \<Rightarrow> dag_step_failed_payload \<Rightarrow> step_evidence \<Rightarrow> step_evidence" where
  "failed_evidence seq p ev =
     ev\<lparr>se_exec_state := ''failed'',
        se_error := Some (dsf_error p),
        se_tool_name := str_or (dsf_tool_name p) (se_tool_name ev),
        se_tool_call_id := (if opt_truthy (dsf_tool_call_id p) then dsf_tool_call_id p else se_tool_call_id ev),
        se_updated_seq := seq\<rparr>"

definition skipped_evidence :: "int \<Rightarrow> dag_step_skipped_payload \<Rightarrow> step_evidence \<Rightarrow> step_evidence" where
  "skipped_evidence seq p ev =
     ev\<lparr>se_exec_state := ''skipped'',
        se_skip_reason := Some (dsk_reason p),
        se_tool_name := str_or (dsk_tool_name p) (se_tool_name ev),
        se_updated_seq := seq\<rparr>"

definition touch_evidence ::
    "(step_evidence \<Rightarrow> step_evidence) \<Rightarrow> string \<Rightarrow> string \<Rightarrow> int \<Rightarrow> run_state \<Rightarrow> run_state" where
  "touch_evidence f sid pid seq st =
     st\<lparr>rs_step_evidence := dset sid (f (evidence_for (rs_step_evidence st) sid pid seq)) (rs_step_evidence st)\<rparr>"

fun apply_step :: "int \<Rightarrow> step_payload \<Rightarrow> run_state \<Rightarrow> run_state result" where
  "apply_step seq (DagStepStarted p) st =
     record_plan_step (dss_plan_id p) (dss_step_id p)
       (\<lambda>s. dset ''tool_name'' (JStr (dss_tool_name p)) (dset ''status'' (JStr ''started'') s))
       [(''step_id'', JStr (dss_step_id p)), (''tool_name'', JStr (dss_tool_name p)), (''status'', JStr ''started'')]
       (touch_evidence (started_evidence seq p) (dss_step_id p) (dss_plan_id p) seq st)"
| "apply_step seq (DagStepCompleted p) st =
     (let step_status = str_or (dsc_status p) ''completed'';
          tail = (\<lambda>d. dset_if ''tool_call_id'' (dsc_tool_call_id p) (dset_if ''error'' (dsc_error p) d))
      in record_plan_step (dsc_plan_id p) (dsc_step_id p)
           (\<lambda>s. tail (dset ''output_summary'' (JStr (dsc_output_summary p)) (dset ''status'' (JStr step_status) s)))
           (tail [(''step_id'', JStr (dsc_step_id p)), (''status'', JStr step_status),
                  (''output_summary'', JStr (dsc_output_summary p))])
           (touch_evidence (completed_evidence seq p) (dsc_step_id p) (dsc_plan_id p) seq st))"
| "apply_step seq (DagStepFailed p) st =
     record_plan_step (dsf_plan_id p) (dsf_step_id p)
       (\<lambda>s. dset_if ''tool_call_id'' (dsf_tool_call_id p)
              (dset ''error'' (JStr (dsf_error p)) (dset ''status'' (JStr ''failed'') s)))
       (dset_if ''tool_call_id'' (dsf_tool_call_id p)
          [(''step_id'', JStr (dsf_step_id p)), (''status'', JStr ''failed''), (''error'', JStr (dsf_error p))])
       (touch_evidence (failed_evidence seq p) (dsf_step_id p) (dsf_plan_id p) seq st)"
| "apply_step seq (DagStepSkipped p) st =
     record_plan_step (dsk_plan_id p) (dsk_step_id p)
       (\<lambda>s. dset ''reason'' (JStr (dsk_reason p)) (dset ''status'' (JStr ''skipped'') s))
       [(''step_id'', JStr (dsk_step_id p)), (''status'', JStr ''skipped''), (''reason'', JStr (dsk_reason p))]
       (touch_evidence (skipped_evidence seq p) (dsk_step_id p) (dsk_plan_id p) seq st)"

fun apply_payload :: "int \<Rightarrow> payload \<Rightarrow> run_state \<Rightarrow> run_state result" where
  "apply_payload seq (PRun p) st = Inr (apply_run p st)"
| "apply_payload seq (PDeliveryContractsResolved p) st = Inr (st\<lparr>rs_delivery_contracts := dcr_contracts p\<rparr>)"
| "apply_payload seq (PAgentThought p) st = Inr (apply_thought seq p st)"
| "apply_payload seq (PTool p) st = Inr (apply_tool seq p st)"
| "apply_payload seq (PConfirmation p) st = Inr (apply_confirmation p st)"
| "apply_payload seq (PContext p) st = Inr (apply_context p st)"
| "apply_payload seq (PFeedbackInjected p) st = Inr (apply_feedback seq p st)"
| "apply_payload seq (PPlan p) st = apply_plan seq p st"
| "apply_payload seq (PStep p) st = apply_step seq p st"
| "apply_payload seq (PStepRepair p) st = Inr st"
| "apply_payload seq (PDiagnostic p) st = Inr st"
| "apply_payload seq (PConversation p) st = Inr st"
| "apply_payload seq (PWorkspace p) st = Inr st"

definition mixed_run_ids_msg :: "string \<Rightarrow> string \<Rightarrow> string" where
  "mixed_run_ids_msg expected got =
     ''Mixed run_ids in event stream: expected '' @ quoted expected @ '', got '' @ quoted got"

definition apply_event :: "event \<Rightarrow> run_state \<Rightarrow> run_state result" where
  "apply_event e st =
     (if ev_run_id e \<noteq> rs_run_id st
      then Inl (ValueError (mixed_run_ids_msg (rs_run_id st) (ev_run_id e)))
      else apply_payload (ev_seq e) (ev_payload e) (st\<lparr>rs_seq := max (rs_seq st) (ev_seq e)\<rparr>))"

definition fold_events :: "event list \<Rightarrow> run_state result" where
  "fold_events events =
     (case events of
        [] \<Rightarrow> Inl (ValueError ''Cannot fold empty event list'')
      | e # _ \<Rightarrow> fold_result apply_event events (RunState0 (ev_run_id e)))"

section \<open>The trusted view\<close>

text \<open>The state without the working view that context compression trims.\<close>

definition trusted :: "run_state \<Rightarrow> run_state" where
  "trusted st = st\<lparr>rs_seq := 0, rs_thought_history := [], rs_tool_results := [], rs_summary := None,
     rs_episodes := [], rs_keep_recent_count := 0, rs_last_checkpoint_seq := None\<rparr>"

lemma update_latest_trusted: "trusted (update_latest f (trusted st)) = trusted (update_latest f st)"
  by (simp add: trusted_def update_latest_def split: option.split)

lemma latest_entry_trusted: "latest_entry (trusted st) = latest_entry st"
  by (simp add: latest_entry_def trusted_def split: option.split)

lemma trusted_idem: "trusted (trusted st) = trusted st" by (simp add: trusted_def)

lemma record_trusted:
  "rmap trusted (record_plan_step pid sid upd fresh (trusted st)) = rmap trusted (record_plan_step pid sid upd fresh st)"
  by (simp add: record_plan_step_def latest_entry_trusted rmap_rbind update_latest_trusted trusted_idem split: option.split)

lemma touch_trusted: "touch_evidence f sid pid seq (trusted st) = trusted (touch_evidence f sid pid seq st)"
  by (simp add: touch_evidence_def trusted_def)

lemma apply_step_trusted: "rmap trusted (apply_step seq p (trusted st)) = rmap trusted (apply_step seq p st)"
  by (cases p) (simp_all add: touch_trusted record_trusted Let_def)

lemma apply_plan_trusted: "rmap trusted (apply_plan seq p (trusted st)) = rmap trusted (apply_plan seq p st)"
  by (cases p) (simp_all add: trusted_def update_latest_def latest_is_def latest_entry_def Let_def
       with_evidence_def rmap_rmap split: option.split)

lemma apply_run_trusted: "trusted (apply_run p (trusted st)) = trusted (apply_run p st)"
  by (cases p) (simp_all add: trusted_def Let_def)
lemma apply_tool_trusted: "trusted (apply_tool seq p (trusted st)) = trusted (apply_tool seq p st)"
  by (cases p) (simp_all add: trusted_def Let_def)
lemma apply_context_trusted: "trusted (apply_context p st) = trusted st"
  by (cases p) (simp_all add: trusted_def drop_refs_def)

lemma apply_confirmation_trusted: "trusted (apply_confirmation p (trusted st)) = trusted (apply_confirmation p st)"
  by (cases p) (simp_all add: trusted_def Let_def)

lemma apply_payload_trusted:
  "rmap trusted (apply_payload seq p (trusted st)) = rmap trusted (apply_payload seq p st)"
  by (cases p) (simp_all add: apply_run_trusted apply_tool_trusted apply_context_trusted
    apply_confirmation_trusted apply_plan_trusted apply_step_trusted trusted_idem,
    simp_all add: trusted_def Let_def apply_thought_def apply_feedback_def)

lemma trusted_seq: "trusted (st\<lparr>rs_seq := n\<rparr>) = trusted st" "rs_run_id (trusted st) = rs_run_id st"
  by (simp_all add: trusted_def)

lemma apply_event_trusted: "rmap trusted (apply_event e s) = rmap trusted (apply_event e (trusted s))"
proof -
  let ?u = "s\<lparr>rs_seq := max (rs_seq s) (ev_seq e)\<rparr>"
  let ?v = "(trusted s)\<lparr>rs_seq := max (rs_seq (trusted s)) (ev_seq e)\<rparr>"
  have "rmap trusted (apply_payload (ev_seq e) (ev_payload e) ?u)
      = rmap trusted (apply_payload (ev_seq e) (ev_payload e) ?v)"
    using apply_payload_trusted[of "ev_seq e" "ev_payload e" ?u]
      apply_payload_trusted[of "ev_seq e" "ev_payload e" ?v] by (simp add: trusted_seq trusted_idem)
  then show ?thesis by (simp add: apply_event_def trusted_seq)
qed

interpretation trusted_fold: projected_machine apply_event trusted "\<lambda>e. ev_type e = CONTEXT"
proof
  show "rmap trusted (apply_event x s) = rmap trusted (apply_event x (trusted s))" for x s
    by (rule apply_event_trusted)
  show "trusted s' = trusted s" if "ev_type x = CONTEXT" "apply_event x s = Inr s'" for x s s'
    using that by (cases "ev_payload x") (auto simp: apply_event_def apply_context_trusted trusted_seq split: if_splits)
qed

section \<open>Frames\<close>

lemma update_latest_frame:
  "\<exists>h. update_latest f st = st\<lparr>rs_plan_history := h\<rparr> \<and> length h = length (rs_plan_history st)"
proof (cases "rs_latest_plan st")
  case None
  then have "update_latest f st = st\<lparr>rs_plan_history := rs_plan_history st\<rparr>"
    by (simp add: update_latest_def)
  then show ?thesis by blast
next
  case (Some i)
  then show ?thesis by (auto simp: update_latest_def)
qed

lemma update_latest_fields [simp]:
  "rs_step_evidence (update_latest f st) = rs_step_evidence st"
  "rs_run_id (update_latest f st) = rs_run_id st"
  "rs_status (update_latest f st) = rs_status st"
  "rs_seq (update_latest f st) = rs_seq st"
  "rs_pending_confirmations (update_latest f st) = rs_pending_confirmations st"
  "rs_latest_plan (update_latest f st) = rs_latest_plan st"
  "length (rs_plan_history (update_latest f st)) = length (rs_plan_history st)"
  using update_latest_frame[of f st] by auto

lemma record_plan_step_frame:
  "record_plan_step pid sid upd fresh st = Inr st' \<Longrightarrow> st' = st \<or> (\<exists>f. st' = update_latest f st)"
  by (auto simp: record_plan_step_def rbind_Inr_iff split: option.splits if_splits)

lemma record_plan_step_fields:
  assumes "record_plan_step pid sid upd fresh st = Inr st'"
  shows "rs_step_evidence st' = rs_step_evidence st" "rs_run_id st' = rs_run_id st"
    "rs_status st' = rs_status st" "rs_seq st' = rs_seq st"
    "rs_pending_confirmations st' = rs_pending_confirmations st"
    "rs_latest_plan st' = rs_latest_plan st"
    "length (rs_plan_history st') = length (rs_plan_history st)"
  using record_plan_step_frame[OF assms] by auto

lemma touch_evidence_fields [simp]:
  "rs_run_id (touch_evidence f sid pid seq st) = rs_run_id st"
  "rs_status (touch_evidence f sid pid seq st) = rs_status st"
  "rs_seq (touch_evidence f sid pid seq st) = rs_seq st"
  "rs_pending_confirmations (touch_evidence f sid pid seq st) = rs_pending_confirmations st"
  "rs_latest_plan (touch_evidence f sid pid seq st) = rs_latest_plan st"
  "rs_plan_history (touch_evidence f sid pid seq st) = rs_plan_history st"
  by (simp_all add: touch_evidence_def)

text \<open>The evidence update of a step event, apart from the plan entry it also records.\<close>

fun step_event_id :: "step_payload \<Rightarrow> string" where
  "step_event_id (DagStepStarted p) = dss_step_id p"
| "step_event_id (DagStepCompleted p) = dsc_step_id p"
| "step_event_id (DagStepFailed p) = dsf_step_id p"
| "step_event_id (DagStepSkipped p) = dsk_step_id p"

fun step_event_plan :: "step_payload \<Rightarrow> string" where
  "step_event_plan (DagStepStarted p) = dss_plan_id p"
| "step_event_plan (DagStepCompleted p) = dsc_plan_id p"
| "step_event_plan (DagStepFailed p) = dsf_plan_id p"
| "step_event_plan (DagStepSkipped p) = dsk_plan_id p"

fun step_event_update :: "int \<Rightarrow> step_payload \<Rightarrow> step_evidence \<Rightarrow> step_evidence" where
  "step_event_update seq (DagStepStarted p) = started_evidence seq p"
| "step_event_update seq (DagStepCompleted p) = completed_evidence seq p"
| "step_event_update seq (DagStepFailed p) = failed_evidence seq p"
| "step_event_update seq (DagStepSkipped p) = skipped_evidence seq p"

lemma apply_step_record:
  assumes "apply_step seq p st = Inr st'"
  obtains upd fresh where
    "record_plan_step (step_event_plan p) (step_event_id p) upd fresh
       (touch_evidence (step_event_update seq p) (step_event_id p) (step_event_plan p) seq st) = Inr st'"
  using assms by (cases p) (auto simp: Let_def)

lemma apply_step_fields:
  assumes "apply_step seq p st = Inr st'"
  shows "rs_run_id st' = rs_run_id st" "rs_status st' = rs_status st" "rs_seq st' = rs_seq st"
    "rs_pending_confirmations st' = rs_pending_confirmations st"
    "rs_latest_plan st' = rs_latest_plan st"
    "length (rs_plan_history st') = length (rs_plan_history st)"
    "rs_step_evidence st' = dset (step_event_id p)
       (step_event_update seq p (evidence_for (rs_step_evidence st) (step_event_id p) (step_event_plan p) seq))
       (rs_step_evidence st)"
proof -
  obtain upd fresh where "record_plan_step (step_event_plan p) (step_event_id p) upd fresh
       (touch_evidence (step_event_update seq p) (step_event_id p) (step_event_plan p) seq st) = Inr st'"
    by (rule apply_step_record[OF assms])
  note * = record_plan_step_fields[OF this]
  show "rs_run_id st' = rs_run_id st" "rs_status st' = rs_status st" "rs_seq st' = rs_seq st"
    "rs_pending_confirmations st' = rs_pending_confirmations st"
    "rs_latest_plan st' = rs_latest_plan st"
    "length (rs_plan_history st') = length (rs_plan_history st)"
    using * by simp_all
  show "rs_step_evidence st' = dset (step_event_id p)
       (step_event_update seq p (evidence_for (rs_step_evidence st) (step_event_id p) (step_event_plan p) seq))
       (rs_step_evidence st)"
    using *(1) by (simp add: touch_evidence_def)
qed

lemma with_evidence_Inr:
  "with_evidence st r = Inr st' \<longleftrightarrow> (\<exists>evs. r = Inr evs \<and> st' = st\<lparr>rs_step_evidence := evs\<rparr>)"
  by (cases r) (auto simp: with_evidence_def)

lemma apply_plan_fields:
  assumes "apply_plan seq p st = Inr st'"
  shows "rs_run_id st' = rs_run_id st" "rs_status st' = rs_status st" "rs_seq st' = rs_seq st"
    "rs_pending_confirmations st' = rs_pending_confirmations st"
  using assms by (cases p; auto simp: Let_def with_evidence_Inr split: if_splits)+

fun plan_blueprint :: "plan_payload \<Rightarrow> json dict list" where
  "plan_blueprint (PlanCreated p) = pc_steps p"
| "plan_blueprint (PlanRevised p) = pr_steps p"
| "plan_blueprint _ = []"

fun plan_event_id :: "plan_payload \<Rightarrow> string" where
  "plan_event_id (PlanCreated p) = pc_plan_id p"
| "plan_event_id (PlanRevised p) = pr_plan_id p"
| "plan_event_id (PlanCompleted p) = pco_plan_id p"
| "plan_event_id (PlanFailed p) = pf_plan_id p"

lemma apply_plan_evidence:
  assumes "apply_plan seq p st = Inr st'"
  shows "apply_blueprint (plan_blueprint p) (plan_event_id p) seq (rs_step_evidence st) = Inr (rs_step_evidence st')"
  using assms by (cases p) (auto simp: Let_def with_evidence_Inr apply_blueprint_def split: if_splits)

lemma apply_plan_latest:
  assumes "apply_plan seq p st = Inr st'"
  shows "if \<exists>q. p = PlanCreated q
         then rs_latest_plan st' = Some (length (rs_plan_history st))
              \<and> length (rs_plan_history st') = Suc (length (rs_plan_history st))
         else rs_latest_plan st' = rs_latest_plan st
              \<and> length (rs_plan_history st') = length (rs_plan_history st)"
  using assms by (cases p) (auto simp: Let_def with_evidence_Inr split: if_splits)

section \<open>Invariant\<close>

text \<open>Every event keeps the run id, and an event outside the RUN aggregate keeps the status.\<close>

fun run_status_of :: "payload \<Rightarrow> run_status option" where
  "run_status_of (PRun (RunStarted _)) = Some RS_RUNNING"
| "run_status_of (PRun (RunPaused _)) = Some RS_PAUSED"
| "run_status_of (PRun (RunResumed _)) = Some RS_RUNNING"
| "run_status_of (PRun (RunCompleted _)) = Some RS_COMPLETED"
| "run_status_of (PRun (RunFailed _)) = Some RS_FAILED"
| "run_status_of _ = None"

lemma apply_run_fields:
  "rs_run_id (apply_run p st) = rs_run_id st"
  "rs_seq (apply_run p st) = rs_seq st"
  "rs_pending_confirmations (apply_run p st) = rs_pending_confirmations st"
  "rs_step_evidence (apply_run p st) = rs_step_evidence st"
  "rs_plan_history (apply_run p st) = rs_plan_history st"
  "rs_latest_plan (apply_run p st) = rs_latest_plan st"
  "rs_status (apply_run p st) = (case run_status_of (PRun p) of None \<Rightarrow> rs_status st | Some s \<Rightarrow> s)"
  by (cases p; simp add: Let_def)+

lemma apply_tool_fields:
  "rs_run_id (apply_tool seq p st) = rs_run_id st"
  "rs_seq (apply_tool seq p st) = rs_seq st"
  "rs_pending_confirmations (apply_tool seq p st) = rs_pending_confirmations st"
  "rs_plan_history (apply_tool seq p st) = rs_plan_history st"
  "rs_latest_plan (apply_tool seq p st) = rs_latest_plan st"
  "rs_status (apply_tool seq p st) = rs_status st"
  by (cases p; simp add: Let_def)+

lemma apply_confirmation_fields:
  "rs_run_id (apply_confirmation p st) = rs_run_id st"
  "rs_seq (apply_confirmation p st) = rs_seq st"
  "rs_step_evidence (apply_confirmation p st) = rs_step_evidence st"
  "rs_plan_history (apply_confirmation p st) = rs_plan_history st"
  "rs_latest_plan (apply_confirmation p st) = rs_latest_plan st"
  "rs_status (apply_confirmation p st) = rs_status st"
  by (cases p; simp)+

lemma apply_context_fields:
  "rs_run_id (apply_context p st) = rs_run_id st"
  "rs_seq (apply_context p st) = rs_seq st"
  "rs_pending_confirmations (apply_context p st) = rs_pending_confirmations st"
  "rs_step_evidence (apply_context p st) = rs_step_evidence st"
  "rs_plan_history (apply_context p st) = rs_plan_history st"
  "rs_latest_plan (apply_context p st) = rs_latest_plan st"
  "rs_status (apply_context p st) = rs_status st"
  by (cases p; simp add: drop_refs_def)+

lemmas fold_fields = apply_run_fields apply_tool_fields apply_confirmation_fields apply_context_fields

lemma apply_payload_fields:
  assumes "apply_payload seq p st = Inr st'"
  shows "rs_run_id st' = rs_run_id st"
    and "rs_seq st' = rs_seq st"
    and "rs_status st' = (case run_status_of p of None \<Rightarrow> rs_status st | Some s \<Rightarrow> s)"
    and "\<not> (\<exists>q. p = PConfirmation q) \<Longrightarrow> rs_pending_confirmations st' = rs_pending_confirmations st"
proof (goal_cases)
  case 1 show ?case using assms
    by (cases p) (auto simp: fold_fields apply_thought_def apply_feedback_def Let_def
        dest: apply_plan_fields apply_step_fields)
next
  case 2 show ?case using assms
    by (cases p) (auto simp: fold_fields apply_thought_def apply_feedback_def Let_def
        dest: apply_plan_fields apply_step_fields)
next
  case 3 show ?case using assms
    by (cases p) (auto simp: fold_fields apply_thought_def apply_feedback_def Let_def
        dest: apply_plan_fields apply_step_fields)
next
  case 4 then show ?case using assms
    by (cases p) (auto simp: fold_fields apply_thought_def apply_feedback_def Let_def
        dest: apply_plan_fields apply_step_fields)
qed

lemma apply_event_Inr:
  "apply_event e st = Inr st' \<longleftrightarrow> ev_run_id e = rs_run_id st
     \<and> apply_payload (ev_seq e) (ev_payload e) (st\<lparr>rs_seq := max (rs_seq st) (ev_seq e)\<rparr>) = Inr st'"
  by (auto simp: apply_event_def)

text \<open>The evidence dictionary: one record per step, filed under its own id.\<close>

definition evidence_wf :: "step_evidence dict \<Rightarrow> bool" where
  "evidence_wf evs \<longleftrightarrow> distinct (keys evs) \<and> list_all (\<lambda>(k, ev). se_step_id ev = k) evs"

definition state_wf :: "run_state \<Rightarrow> bool" where
  "state_wf st \<longleftrightarrow> evidence_wf (rs_step_evidence st)
     \<and> rs_latest_plan st = (if rs_plan_history st = [] then None else Some (length (rs_plan_history st) - 1))"

lemma list_all_dset:
  "list_all (\<lambda>(k, v). P k v) d \<Longrightarrow> P k v \<Longrightarrow> list_all (\<lambda>(k, v). P k v) (dset k v d)"
  by (induction d) auto

lemma evidence_wf_dset: "evidence_wf evs \<Longrightarrow> se_step_id ev = k \<Longrightarrow> evidence_wf (dset k ev evs)"
  by (simp add: evidence_wf_def distinct_update list_all_dset)

lemma evidence_wf_dget: "evidence_wf evs \<Longrightarrow> dget evs k = Some ev \<Longrightarrow> se_step_id ev = k"
  by (auto simp: evidence_wf_def list_all_iff dest!: map_of_SomeD)

lemma evidence_for_id: "evidence_wf evs \<Longrightarrow> se_step_id (evidence_for evs sid pid seq) = sid"
  by (auto simp: evidence_for_def StepEvidence0_def evidence_wf_dget split: option.split)

lemma evidence_update_id [simp]:
  "se_step_id (step_event_update seq p ev) = se_step_id ev"
  "se_step_id (tool_evidence q ev) = se_step_id ev"
  "se_step_id (blueprint_evidence s deps ev) = se_step_id ev"
  by (cases p; simp add: started_evidence_def completed_evidence_def failed_evidence_def skipped_evidence_def)
     (simp_all add: tool_evidence_def blueprint_evidence_def Let_def)

interpretation blueprint_machine: invariant_machine "apply_blueprint_step pid seq" evidence_wf
  by unfold_locales
     (auto simp: Let_def rbind_Inr_iff evidence_wf_dset evidence_for_id simp del: py_list_or_empty.simps split: if_splits)

lemma apply_plan_wf: "state_wf st \<Longrightarrow> apply_plan seq p st = Inr st' \<Longrightarrow> state_wf st'"
  using apply_plan_evidence[of seq p st st'] apply_plan_latest[of seq p st st']
  by (auto simp: state_wf_def apply_blueprint_def dest: blueprint_machine.fold_inv split: if_splits)

lemma apply_step_wf: "state_wf st \<Longrightarrow> apply_step seq p st = Inr st' \<Longrightarrow> state_wf st'"
  using apply_step_fields[of seq p st st']
  by (auto simp: state_wf_def evidence_wf_dset evidence_for_id)

lemma apply_tool_wf: "state_wf st \<Longrightarrow> state_wf (apply_tool seq p st)"
  by (cases p) (auto simp: state_wf_def Let_def evidence_wf_dset evidence_for_id)

lemma apply_payload_wf:
  assumes "state_wf st" and "apply_payload seq p st = Inr st'"
  shows "state_wf st'"
proof (cases p)
  case (PTool q)
  then show ?thesis using assms by (auto simp: apply_tool_wf)
next
  case (PPlan q)
  then show ?thesis using assms by (auto dest: apply_plan_wf)
next
  case (PStep q)
  then show ?thesis using assms by (auto dest: apply_step_wf)
qed (use assms in \<open>auto simp: state_wf_def fold_fields apply_thought_def apply_feedback_def Let_def\<close>)

lemma state_wf_seq: "state_wf (st\<lparr>rs_seq := n\<rparr>) = state_wf st"
  by (simp add: state_wf_def)

interpretation fold_machine: invariant_machine apply_event state_wf
  by unfold_locales (auto simp: apply_event_Inr state_wf_seq dest: apply_payload_wf[rotated])

lemma state_wf_init: "state_wf (RunState0 rid)"
  by (simp add: state_wf_def RunState0_def evidence_wf_def)

lemma fold_events_Inr:
  "fold_events es = Inr st \<longleftrightarrow> es \<noteq> [] \<and> fold_result apply_event es (RunState0 (ev_run_id (hd es))) = Inr st"
  by (auto simp: fold_events_def split: list.split)

section \<open>Properties\<close>

lemma fold_state_induct [consumes 1, case_names init step]:
  assumes "fold_result apply_event es s0 = Inr st"
    and "P [] s0"
    and "\<And>es e s s'. fold_result apply_event es s0 = Inr s \<Longrightarrow> P es s \<Longrightarrow> apply_event e s = Inr s' \<Longrightarrow> P (es @ [e]) s'"
  shows "P es st"
  using assms(1)
proof (induction es arbitrary: st rule: rev_induct)
  case Nil
  then show ?case using assms(2) by simp
next
  case (snoc e es)
  from snoc.prems obtain s where s: "fold_result apply_event es s0 = Inr s" "apply_event e s = Inr st"
    by (auto simp: fold_result_append rbind_Inr_iff)
  show ?case by (rule assms(3)[OF s(1) snoc.IH[OF s(1)] s(2)])
qed

text \<open>
  the trusted part of a folded state (status, intent, plans, step evidence, confirmations,
  contracts, feedback) does not depend on context compression: dropping every CONTEXT event
  from the stream gives the same state up to the working view that compression trims.
\<close>

theorem compression_never_changes_trusted_state:
  assumes "fold_events es = Inr st" and "ev_type (hd es) \<noteq> CONTEXT"
  shows "\<exists>st'. fold_events (filter (\<lambda>e. ev_type e \<noteq> CONTEXT) es) = Inr st' \<and> trusted st' = trusted st"
proof -
  let ?es = "filter (\<lambda>e. ev_type e \<noteq> CONTEXT) es"
  from assms have es: "es \<noteq> []" "fold_result apply_event es (RunState0 (ev_run_id (hd es))) = Inr st"
    by (auto simp: fold_events_Inr)
  with assms(2) have hd: "?es \<noteq> []" "hd ?es = hd es" by (cases es; simp)+
  from trusted_fold.fold_silent[OF es(2)]
  obtain st' where "fold_result apply_event ?es (RunState0 (ev_run_id (hd es))) = Inr st'" "trusted st' = trusted st"
    by (cases "fold_result apply_event ?es (RunState0 (ev_run_id (hd es)))") auto
  with hd show ?thesis by (auto simp: fold_events_Inr)
qed

text \<open>
  every state that folding returns is well formed: evidence is filed once per step under the
  step's own id, and the latest plan is the last entry of the plan history.
\<close>

theorem folded_state_wf: "fold_events es = Inr st \<Longrightarrow> state_wf st"
  by (auto simp: fold_events_Inr dest: fold_machine.fold_inv[OF state_wf_init])

lemma fold_status_last:
  "fold_events es = Inr st \<Longrightarrow>
   rs_status st = last (RS_RUNNING # List.map_filter (\<lambda>e. run_status_of (ev_payload e)) es)"
proof -
  assume "fold_events es = Inr st"
  then have "fold_result apply_event es (RunState0 (ev_run_id (hd es))) = Inr st"
    by (simp add: fold_events_Inr)
  then show ?thesis
  proof (induction rule: fold_state_induct)
    case init
    show ?case by (simp add: RunState0_def map_filter_simps)
  next
    case (step es e s s')
    then show ?case
      using apply_payload_fields(3)[of "ev_seq e" "ev_payload e" _ s']
      by (auto simp: apply_event_Inr map_filter_def split: option.splits)
  qed
qed

text \<open>
  the status of a folded run is that of its last RUN event other than the orphan marker,
  whatever plan, step, tool and other events come between.
\<close>

theorem folded_status_is_last_run_event:
  "fold_events es = Inr st \<Longrightarrow>
   rs_status st = last (RS_RUNNING # List.map_filter (\<lambda>e. run_status_of (ev_payload e)) es)"
  by (rule fold_status_last)

text \<open>The confirmations of a stream that no later event answers.\<close>

fun answers :: "string \<Rightarrow> payload \<Rightarrow> bool" where
  "answers cid (PConfirmation (ConfirmationReceived p)) = (crc_confirmation_id p = cid)"
| "answers cid _ = False"

fun open_confirmations :: "payload list \<Rightarrow> confirmation_requested_payload list" where
  "open_confirmations [] = []"
| "open_confirmations (PConfirmation (ConfirmationRequested p) # ps) =
     (if list_ex (answers (crq_confirmation_id p)) ps then [] else [p]) @ open_confirmations ps"
| "open_confirmations (_ # ps) = open_confirmations ps"

lemma open_confirmations_other:
  "\<not> (\<exists>q. p = PConfirmation q) \<Longrightarrow> open_confirmations (p # ps) = open_confirmations ps"
  "\<not> (\<exists>q. p = PConfirmation q) \<Longrightarrow> \<not> answers cid p"
  by (cases p; simp)+

lemma open_confirmations_snoc:
  "open_confirmations (ps @ [p]) =
     (case p of
        PConfirmation (ConfirmationRequested q) \<Rightarrow> open_confirmations ps @ [q]
      | _ \<Rightarrow> filter (\<lambda>c. \<not> answers (crq_confirmation_id c) p) (open_confirmations ps))"
proof (induction ps rule: open_confirmations.induct)
  case 1
  show ?case by (auto split: payload.split confirmation_payload.split)
qed (auto split: payload.split confirmation_payload.split)


text \<open>
  the pending confirmations of a folded run are exactly the requests that no later event of
  the stream answers, in the order they were asked.
\<close>

theorem pending_confirmations_are_unanswered:
  "fold_events es = Inr st \<Longrightarrow> rs_pending_confirmations st = open_confirmations (map ev_payload es)"
proof -
  assume "fold_events es = Inr st"
  then have "fold_result apply_event es (RunState0 (ev_run_id (hd es))) = Inr st"
    by (simp add: fold_events_Inr)
  then show ?thesis
  proof (induction rule: fold_state_induct)
    case init
    show ?case by (simp add: RunState0_def)
  next
    case (step es e s s')
    show ?case
    proof (cases "\<exists>q. ev_payload e = PConfirmation q")
      case True
      then obtain q where q: "ev_payload e = PConfirmation q" by blast
      show ?thesis
        using step.hyps(2) step.IH q by (cases q) (auto simp: apply_event_Inr open_confirmations_snoc intro!: filter_cong)
    next
      case False
      then have "rs_pending_confirmations s' = rs_pending_confirmations s"
        using step.hyps(2) apply_payload_fields(4)[of "ev_seq e" "ev_payload e" _ s'] by (auto simp: apply_event_Inr)
      with False step.IH show ?thesis
        by (auto simp: open_confirmations_snoc open_confirmations_other(2) split: payload.split)
    qed
  qed
qed

text \<open>What a plan or a revision leaves of the evidence of a step that is already there.\<close>

definition kept :: "step_evidence \<Rightarrow> step_evidence \<Rightarrow> bool" where
  "kept ev ev' \<longleftrightarrow> se_exec_state ev' = se_exec_state ev \<and> se_error ev' = se_error ev
     \<and> se_output_summary ev' = se_output_summary ev \<and> se_tool_call_id ev' = se_tool_call_id ev
     \<and> se_output ev' = se_output ev \<and> se_output_ref ev' = se_output_ref ev"

definition names_step :: "string \<Rightarrow> json dict \<Rightarrow> bool" where
  "names_step sid s \<longleftrightarrow> truthy (dget_or JNull s ''step_id'') \<and> py_str (dget_or JNull s ''step_id'') = sid"

definition names_tool :: "string \<Rightarrow> json dict \<Rightarrow> bool" where
  "names_tool tool s \<longleftrightarrow> (case dget s ''tool_name'' of None \<Rightarrow> True | Some v \<Rightarrow> truthy v \<longrightarrow> py_str v = tool)"

lemma blueprint_kept:
  "se_exec_state ev \<in> set finished_states \<or> names_tool (se_tool_name ev) s \<Longrightarrow> kept ev (blueprint_evidence s deps ev)"
  by (auto simp: kept_def names_tool_def blueprint_evidence_def Let_def split: option.splits)

lemma blueprint_tool_kept:
  "names_tool (se_tool_name ev) s \<Longrightarrow> se_tool_name (blueprint_evidence s deps ev) = se_tool_name ev"
  by (auto simp: names_tool_def blueprint_evidence_def Let_def split: option.splits if_splits)

lemma evidence_for_kept:
  "dget evs sid = Some ev \<Longrightarrow> kept ev (evidence_for evs sid pid seq)
     \<and> se_tool_name (evidence_for evs sid pid seq) = se_tool_name ev"
  by (simp add: evidence_for_def kept_def)

lemma kept_trans: "kept a b \<Longrightarrow> kept b c \<Longrightarrow> kept a c"
  by (simp add: kept_def)

lemma apply_blueprint_step_Inr:
  "apply_blueprint_step pid seq s evs = Inr evs' \<Longrightarrow>
     (evs' = evs \<and> \<not> truthy (dget_or JNull s ''step_id''))
   \<or> (\<exists>deps. truthy (dget_or JNull s ''step_id'')
         \<and> evs' = dset (py_str (dget_or JNull s ''step_id''))
              (blueprint_evidence s deps (evidence_for evs (py_str (dget_or JNull s ''step_id'')) pid seq)) evs)"
  by (auto simp: Let_def rbind_Inr_iff simp del: py_list_or_empty.simps split: if_splits)

lemma apply_blueprint_keeps:
  assumes "apply_blueprint steps pid seq evs = Inr evs'"
    and "dget evs sid = Some ev"
    and "se_exec_state ev \<in> set finished_states
         \<or> (\<forall>s\<in>set steps. names_step sid s \<longrightarrow> names_tool (se_tool_name ev) s)"
  shows "\<exists>ev'. dget evs' sid = Some ev' \<and> kept ev ev'"
  using assms unfolding apply_blueprint_def
proof (induction steps arbitrary: evs ev)
  case Nil
  then show ?case by (simp add: kept_def)
next
  case (Cons s steps)
  from Cons.prems(1) obtain evs1 where 1: "apply_blueprint_step pid seq s evs = Inr evs1"
    "fold_result (apply_blueprint_step pid seq) steps evs1 = Inr evs'"
    by (auto simp: rbind_Inr_iff simp del: apply_blueprint_step.simps)
  have "\<exists>ev1. dget evs1 sid = Some ev1 \<and> kept ev ev1
     \<and> (names_tool (se_tool_name ev) s \<or> \<not> names_step sid s \<longrightarrow> se_tool_name ev1 = se_tool_name ev)"
  proof (cases "names_step sid s")
    case True
    note tool = blueprint_tool_kept[of "evidence_for evs sid pid seq" s]
    note ev = evidence_for_kept[OF Cons.prems(2), of pid seq]
    have "kept ev (blueprint_evidence s deps (evidence_for evs sid pid seq))" for deps
      using Cons.prems(3) True ev by (intro kept_trans[OF conjunct1[OF ev] blueprint_kept]) (auto simp: kept_def)
    then show ?thesis
      using apply_blueprint_step_Inr[OF 1(1)] True ev tool
      by (auto simp: names_step_def adict.lookup_store)
  next
    case False
    then have "dget evs1 sid = Some ev"
      using apply_blueprint_step_Inr[OF 1(1)] Cons.prems(2) by (auto simp: names_step_def adict.lookup_store)
    then show ?thesis by (simp add: kept_def)
  qed
  then obtain ev1 where ev1: "dget evs1 sid = Some ev1" "kept ev ev1"
    "names_tool (se_tool_name ev) s \<or> \<not> names_step sid s \<longrightarrow> se_tool_name ev1 = se_tool_name ev"
    by blast
  have "se_exec_state ev1 \<in> set finished_states
         \<or> (\<forall>s\<in>set steps. names_step sid s \<longrightarrow> names_tool (se_tool_name ev1) s)"
    using Cons.prems(3) ev1 by (auto simp: kept_def)
  from Cons.IH[OF 1(2) ev1(1) this] ev1(2) show ?case by (auto intro: kept_trans)
qed

text \<open>
  a plan event never regresses a finished step: its execution state, error, summary, call id
  and output survive a new plan or a revision. A step that is not finished is touched only if
  the blueprint names another tool for it.
\<close>

theorem plan_events_keep_step_outcomes:
  assumes "apply_plan seq p st = Inr st'" and "dget (rs_step_evidence st) sid = Some ev"
    and "se_exec_state ev \<in> set finished_states
         \<or> (\<forall>s\<in>set (plan_blueprint p). names_step sid s \<longrightarrow> names_tool (se_tool_name ev) s)"
  shows "\<exists>ev'. dget (rs_step_evidence st') sid = Some ev' \<and> kept ev ev'"
  by (rule apply_blueprint_keeps[OF apply_plan_evidence[OF assms(1)] assms(2,3)])


section \<open>Witnesses\<close>

definition mk_event :: "int \<Rightarrow> payload \<Rightarrow> event" where
  "mk_event seq p = \<lparr> ev_run_id = ''r1'', ev_seq = seq, ev_payload = p, ev_idempotency_key = None,
     ev_created_at = 0, ev_tenant_id = ''t'', ev_workspace_id = None, ev_is_audit = False \<rparr>"

definition sample_blueprint :: "json dict list" where
  "sample_blueprint = [[(''step_id'', JStr ''s1''), (''tool_name'', JStr ''file_op''), (''depends_on'', JList [])]]"

definition sample_events :: "event list" where
  "sample_events = map2 mk_event [1, 2, 3, 4, 5, 6, 7]
     [PRun (RunStarted \<lparr> rst_intent = ''read'', rst_current_request = None, rst_context_snapshot = [],
        rst_conversation_id = None, rst_workspace_id = None, rst_intent_raw = None, rst_contracts = [],
        rst_requires_contract_extraction = False \<rparr>),
      PPlan (PlanCreated \<lparr> pc_plan_id = ''p1'', pc_intent = ''read'', pc_steps_summary = [], pc_layer_count = 1,
        pc_steps = sample_blueprint \<rparr>),
      PStep (DagStepStarted \<lparr> dss_plan_id = ''p1'', dss_step_id = ''s1'', dss_tool_name = ''file_op'',
        dss_depends_on = [] \<rparr>),
      PStep (DagStepCompleted \<lparr> dsc_plan_id = ''p1'', dsc_step_id = ''s1'', dsc_output_summary = ''ok'',
        dsc_status = ''completed'', dsc_error = None, dsc_tool_call_id = None \<rparr>),
      PContext (ContextPruned \<lparr> cp_pruned_event_refs = [3], cp_pruned_seq_count = 1, cp_reason = [] \<rparr>),
      PConfirmation (ConfirmationRequested \<lparr> crq_confirmation_id = ''c1'', crq_tool_call_id = ''t1'',
        crq_tool_name = ''file_op'', crq_input = [], crq_idempotency_key = [], crq_risk_level = ''high'',
        crq_step_id = None \<rparr>),
      PRun (RunPaused \<lparr> rp_reason = ''confirm'' \<rparr>)]"

definition sample_state :: run_state where
  "sample_state = projr (fold_events sample_events)"

lemma sample_fold: "fold_events sample_events = Inr sample_state"
  unfolding sample_state_def by code_simp

lemma compression_never_changes_trusted_state_witness:
  "\<exists>st'. fold_events (filter (\<lambda>e. ev_type e \<noteq> CONTEXT) sample_events) = Inr st' \<and> trusted st' = trusted sample_state"
  by (rule compression_never_changes_trusted_state[OF sample_fold]) code_simp

lemma folded_state_wf_witness: "state_wf sample_state"
  by (rule folded_state_wf[OF sample_fold])

lemma folded_status_is_last_run_event_witness: "rs_status sample_state = RS_PAUSED"
  unfolding folded_status_is_last_run_event[OF sample_fold] by code_simp

lemma pending_confirmations_are_unanswered_witness:
  "map crq_confirmation_id (rs_pending_confirmations sample_state) = [''c1'']"
  unfolding pending_confirmations_are_unanswered[OF sample_fold] by code_simp

definition sample_revision :: plan_payload where
  "sample_revision = PlanRevised \<lparr> pr_plan_id = ''p1'', pr_revision_reason = [], pr_intent = [],
     pr_remaining_steps_summary = [], pr_steps = [[(''step_id'', JStr ''s1''), (''tool_name'', JStr ''http'')]],
     pr_step_tasks = [] \<rparr>"

lemma plan_events_keep_step_outcomes_witness:
  "\<exists>ev'. dget (rs_step_evidence (projr (apply_plan 8 sample_revision sample_state))) ''s1'' = Some ev'
     \<and> kept (the (dget (rs_step_evidence sample_state) ''s1'')) ev'"
proof (rule plan_events_keep_step_outcomes)
  show "apply_plan 8 sample_revision sample_state = Inr (projr (apply_plan 8 sample_revision sample_state))"
    by code_simp
  show "dget (rs_step_evidence sample_state) ''s1'' = Some (the (dget (rs_step_evidence sample_state) ''s1''))"
    by code_simp
  show "se_exec_state (the (dget (rs_step_evidence sample_state) ''s1'')) \<in> set finished_states
    \<or> (\<forall>s\<in>set (plan_blueprint sample_revision).
         names_step ''s1'' s \<longrightarrow> names_tool (se_tool_name (the (dget (rs_step_evidence sample_state) ''s1''))) s)"
    by code_simp
qed

end
