(* ===== verification/Event_Store.thy ===== *)
theory Event_Store
  imports Event_Fold "HOL-Library.List_Lexorder" "HOL-Library.Char_ord"
begin

text \<open>
  The append-only event store of \<^verbatim>\<open>src/harness/storage/event_store.py\<close> over the tables of its
  schema, with the workspace and tenant records of \<^verbatim>\<open>src/harness/models/workspace.py\<close>. A table
  is the list of its rows in insertion order; a row whose type left the enumeration is a
  \<open>RowLegacy\<close>. The uniqueness constraints of the schema are checked by the inserts, so the
  \<^verbatim>\<open>IntegrityError\<close> branches of the code are branches here. A method that awaits between its
  first lookup and its write transaction is the composition of two steps, so that another
  coroutine may run between them. The reading of the clock is a parameter \<open>now\<close>. The rows
  handed to the append callbacks are logged in \<open>es_notified\<close>; their exceptions are swallowed.
\<close>

section \<open>Tables\<close>

datatype row_body = RowPayload payload | RowLegacy string

fun row_type :: "row_body \<Rightarrow> string" where
  "row_type (RowPayload p) = event_type_value (payload_type p)"
| "row_type (RowLegacy t) = t"

record event_row =
  er_run_id :: string
  er_tenant_id :: string
  er_workspace_id :: "string option"
  er_seq :: int
  er_body :: row_body
  er_idempotency_key :: "string option"
  er_created_at :: timestamp
  er_conversation_id :: "string option"
  er_is_audit :: bool

record claim_row =
  cl_tenant_id :: string
  cl_conversation_id :: string
  cl_client_request_id :: string
  cl_run_id :: string
  cl_created_at :: timestamp

record conversation_row =
  cv_conversation_id :: string
  cv_tenant_id :: string
  cv_user_id :: string
  cv_title :: string
  cv_status :: string
  cv_created_at :: timestamp
  cv_updated_at :: timestamp
  cv_message_count :: int

datatype execution_target_type = DIRECTORY | SANDBOX | REMOTE

record execution_target =
  et_type :: execution_target_type
  et_filesystem_root :: "string option"
  et_docker_image :: "string option"
  et_host_mount_src :: "string option"
  et_mount_root :: "string option"
  et_host :: "string option"
  et_port :: int
  et_username :: "string option"
  et_private_key_path :: "string option"
  et_remote_root :: "string option"

fun target_type_value :: "execution_target_type \<Rightarrow> string" where
  "target_type_value DIRECTORY = ''directory''"
| "target_type_value SANDBOX = ''sandbox''"
| "target_type_value REMOTE = ''remote''"

text \<open>\<open>validate_target\<close>: the fields the target type requires, by name.\<close>

fun required_fields :: "execution_target_type \<Rightarrow> (string \<times> (execution_target \<Rightarrow> string option)) list" where
  "required_fields DIRECTORY = [(''filesystem_root'', et_filesystem_root)]"
| "required_fields SANDBOX =
     [(''docker_image'', et_docker_image), (''host_mount_src'', et_host_mount_src), (''mount_root'', et_mount_root)]"
| "required_fields REMOTE =
     [(''host'', et_host), (''username'', et_username), (''private_key_path'', et_private_key_path),
      (''remote_root'', et_remote_root)]"

definition validate_target :: "execution_target \<Rightarrow> execution_target result" where
  "validate_target t =
     (if \<not> (1 \<le> et_port t \<and> et_port t \<le> 65535) then Inl (ValueError ''port'')
      else let missing = map fst (filter (\<lambda>(n, f). \<not> opt_truthy (f t)) (required_fields (et_type t)))
           in if missing \<noteq> []
              then Inl (ValueError (target_type_value (et_type t) @ '' target requires: '' @ join '', '' missing))
              else Inr t)"

record workspace_scope =
  wss_target :: execution_target
  wss_allowed_tools :: "string list option"

record workspace =
  ws_workspace_id :: string
  ws_tenant_id :: string
  ws_name :: string
  ws_description :: string
  ws_scope :: workspace_scope
  ws_status :: string
  ws_created_at :: timestamp
  ws_updated_at :: timestamp

record tenant =
  tn_tenant_id :: string
  tn_name :: string
  tn_status :: string
  tn_created_at :: timestamp
  tn_updated_at :: timestamp

text \<open>\<^verbatim>\<open>model_dump(exclude_unset=True)\<close>: each field is unset, set to null, or set.\<close>

record workspace_update =
  wup_name :: "string option option"
  wup_description :: "string option option"
  wup_scope :: "workspace_scope option option"

record store =
  es_events :: "event_row list"
  es_claims :: "claim_row list"
  es_tenants :: "tenant list"
  es_workspaces :: "workspace list"
  es_conversations :: "conversation_row list"
  es_run_to_conv :: "string dict"
  es_run_to_workspace :: "string dict"
  es_notified :: "event list"

definition EventStore0 :: store where
  "EventStore0 = \<lparr> es_events = [], es_claims = [], es_tenants = [], es_workspaces = [],
     es_conversations = [], es_run_to_conv = [], es_run_to_workspace = [], es_notified = [] \<rparr>"

datatype store_error =
    DuplicateIdempotencyKeyError string
  | SequenceConflictError string
  | IntegrityError
  | StoreValueError string

section \<open>Reading\<close>

fun event_from_row :: "event_row \<Rightarrow> event option" where
  "event_from_row r =
     (case er_body r of
        RowLegacy _ \<Rightarrow> None
      | RowPayload p \<Rightarrow> Some \<lparr> ev_run_id = er_run_id r, ev_seq = er_seq r, ev_payload = p,
          ev_idempotency_key = er_idempotency_key r, ev_created_at = er_created_at r,
          ev_tenant_id = er_tenant_id r, ev_workspace_id = er_workspace_id r, ev_is_audit = er_is_audit r \<rparr>)"

definition events_of_rows :: "event_row list \<Rightarrow> event list" where
  "events_of_rows rows = List.map_filter event_from_row rows"

definition run_rows :: "string \<Rightarrow> event_row list \<Rightarrow> event_row list" where
  "run_rows run_id rows = filter (\<lambda>r. er_run_id r = run_id) rows"

definition get_events :: "store \<Rightarrow> string \<Rightarrow> event list" where
  "get_events st run_id = events_of_rows (sort_key er_seq (run_rows run_id (es_events st)))"

definition get_event_range :: "store \<Rightarrow> string \<Rightarrow> int \<Rightarrow> int option \<Rightarrow> event list" where
  "get_event_range st run_id from_seq to_seq =
     events_of_rows (sort_key er_seq (filter (\<lambda>r. from_seq \<le> er_seq r
        \<and> (case to_seq of None \<Rightarrow> True | Some t \<Rightarrow> er_seq r \<le> t)) (run_rows run_id (es_events st))))"

definition max_seq :: "string \<Rightarrow> event_row list \<Rightarrow> int option" where
  "max_seq run_id rows =
     (case map er_seq (run_rows run_id rows) of [] \<Rightarrow> None | x # xs \<Rightarrow> Some (fold max xs x))"

definition get_latest_seq :: "store \<Rightarrow> string \<Rightarrow> int" where
  "get_latest_seq st run_id = (case max_seq run_id (es_events st) of None \<Rightarrow> 0 | Some m \<Rightarrow> m)"

definition event_count :: "store \<Rightarrow> string \<Rightarrow> nat" where
  "event_count st run_id = length (run_rows run_id (es_events st))"

definition key_matches :: "string \<Rightarrow> string \<Rightarrow> string \<Rightarrow> event_row \<Rightarrow> bool" where
  "key_matches run_id et key r \<longleftrightarrow>
     er_run_id r = run_id \<and> row_type (er_body r) = et \<and> er_idempotency_key r = Some key"

definition find_by_idempotency_key :: "store \<Rightarrow> string \<Rightarrow> event_type \<Rightarrow> string \<Rightarrow> event option" where
  "find_by_idempotency_key st run_id et key =
     Option.bind (find (key_matches run_id (event_type_value et) key) (es_events st)) event_from_row"

text \<open>The streams that count as runs: neither a conversation's own stream nor an audit stream.\<close>

definition is_run_row :: "string option \<Rightarrow> string option \<Rightarrow> event_row \<Rightarrow> bool" where
  "is_run_row tenant_id workspace_id r \<longleftrightarrow>
     (er_conversation_id r = None \<or> er_conversation_id r \<noteq> Some (er_run_id r))
     \<and> \<not> er_is_audit r
     \<and> (tenant_id = None \<or> tenant_id = Some (er_tenant_id r))
     \<and> (workspace_id = None \<or> workspace_id = er_workspace_id r)"

definition list_all_run_ids :: "store \<Rightarrow> string option \<Rightarrow> string list" where
  "list_all_run_ids st tenant_id =
     dedup [] (map er_run_id (filter (is_run_row tenant_id None) (es_events st)))"

definition total_run_count :: "store \<Rightarrow> string option \<Rightarrow> string option \<Rightarrow> nat" where
  "total_run_count st tenant_id workspace_id =
     length (dedup [] (map er_run_id (filter (is_run_row tenant_id workspace_id) (es_events st))))"

definition get_events_for_runs :: "store \<Rightarrow> string list \<Rightarrow> string option \<Rightarrow> event list" where
  "get_events_for_runs st run_ids tenant_id =
     (if run_ids = [] then []
      else events_of_rows (sort_key er_run_id (sort_key er_seq
             (filter (\<lambda>r. er_run_id r \<in> set run_ids \<and> (tenant_id = None \<or> tenant_id = Some (er_tenant_id r)))
                (es_events st)))))"

definition get_workspace_events :: "store \<Rightarrow> string \<Rightarrow> string option \<Rightarrow> event list" where
  "get_workspace_events st workspace_id tenant_id =
     events_of_rows (sort_key er_created_at (sort_key er_seq
       (filter (\<lambda>r. er_workspace_id r = Some workspace_id \<and> er_is_audit r
                    \<and> (tenant_id = None \<or> tenant_id = Some (er_tenant_id r))) (es_events st))))"

fun is_received :: "string \<Rightarrow> event \<Rightarrow> bool" where
  "is_received cid e =
     (case ev_payload e of
        PConfirmation (ConfirmationReceived p) \<Rightarrow> crc_confirmation_id p = cid
      | _ \<Rightarrow> False)"

definition find_confirmation_by_id :: "store \<Rightarrow> string \<Rightarrow> string \<Rightarrow> event option" where
  "find_confirmation_by_id st run_id cid =
     find (is_received cid)
       (events_of_rows (filter (\<lambda>r. row_type (er_body r) = event_type_value CONFIRMATION)
          (run_rows run_id (es_events st))))"

definition get_events_for_conversation :: "store \<Rightarrow> string \<Rightarrow> event list" where
  "get_events_for_conversation st cid =
     map (\<lambda>e. e\<lparr>ev_tenant_id := ''default'', ev_workspace_id := None, ev_is_audit := False\<rparr>)
       (events_of_rows (sort_key er_created_at (sort_key er_seq
         (filter (\<lambda>r. er_conversation_id r = Some cid \<or> er_run_id r = cid) (es_events st)))))"

section \<open>Appending\<close>

datatype insert_conflict = IdemConflict | PkConflict

text \<open>The insert under the unique index on (run, type, key) and the primary key (run, seq).\<close>

definition insert_row :: "event_row \<Rightarrow> event_row list \<Rightarrow> insert_conflict + event_row list" where
  "insert_row r rows =
     (if (case er_idempotency_key r of
            None \<Rightarrow> False
          | Some key \<Rightarrow> list_ex (key_matches (er_run_id r) (row_type (er_body r)) key) rows)
      then Inl IdemConflict
      else if list_ex (\<lambda>q. er_run_id q = er_run_id r \<and> er_seq q = er_seq r) rows then Inl PkConflict
      else Inr (rows @ [r]))"

definition next_seq :: "string \<Rightarrow> event_row list \<Rightarrow> int" where
  "next_seq run_id rows = (case max_seq run_id rows of None \<Rightarrow> 0 | Some m \<Rightarrow> m) + 1"

datatype append_outcome = Existing event | Written int "event_row list" | AppendFailed store_error

text \<open>The retry loop inside the write lock; \<open>n\<close> counts the attempts that remain.\<close>

fun append_attempts :: "nat \<Rightarrow> event_row \<Rightarrow> event_row list \<Rightarrow> append_outcome" where
  "append_attempts n r rows =
     (let seq = next_seq (er_run_id r) rows
      in case insert_row (r\<lparr>er_seq := seq\<rparr>) rows of
           Inr rows' \<Rightarrow> Written seq rows'
         | Inl IdemConflict \<Rightarrow>
             (case er_idempotency_key r of
                None \<Rightarrow> AppendFailed IntegrityError
              | Some key \<Rightarrow>
                  (case Option.bind (find (key_matches (er_run_id r) (row_type (er_body r)) key) rows) event_from_row of
                     Some e \<Rightarrow> Existing e
                   | None \<Rightarrow> AppendFailed (DuplicateIdempotencyKeyError
                       (''Duplicate idempotency key '' @ quoted key @ '' for run '' @ quoted (er_run_id r)))))
         | Inl PkConflict \<Rightarrow>
             (case n of
                0 \<Rightarrow> AppendFailed (SequenceConflictError
                       (''PK conflict on (run_id='' @ quoted (er_run_id r)
                         @ '', seq): UNIQUE constraint failed: events.run_id, events.seq''))
              | Suc m \<Rightarrow> append_attempts m r rows))"

declare append_attempts.simps [simp del]

definition MAX_RETRIES :: nat where
  "MAX_RETRIES = 3"

fun payload_conversation_id :: "payload \<Rightarrow> string option" where
  "payload_conversation_id (PRun (RunStarted p)) = rst_conversation_id p"
| "payload_conversation_id (PConversation (ConversationStarted p)) = Some (cst_conversation_id p)"
| "payload_conversation_id (PConversation (ConversationMessage p)) = Some (cms_conversation_id p)"
| "payload_conversation_id _ = None"

text \<open>The column values that are filled from the run-level caches, and the caches after it.\<close>

definition resolve_conversation :: "store \<Rightarrow> string \<Rightarrow> payload \<Rightarrow> string option" where
  "resolve_conversation st run_id p =
     (case payload_conversation_id p of None \<Rightarrow> dget (es_run_to_conv st) run_id | Some c \<Rightarrow> Some c)"

definition resolve_workspace :: "store \<Rightarrow> string \<Rightarrow> string option \<Rightarrow> string option" where
  "resolve_workspace st run_id ws = (case ws of None \<Rightarrow> dget (es_run_to_workspace st) run_id | Some w \<Rightarrow> Some w)"

definition cache_put :: "string \<Rightarrow> string option \<Rightarrow> string dict \<Rightarrow> string dict" where
  "cache_put run_id x d = (case x of Some v \<Rightarrow> if has_key d run_id then d else dset run_id v d | None \<Rightarrow> d)"

definition fill_caches :: "store \<Rightarrow> string \<Rightarrow> payload \<Rightarrow> string option \<Rightarrow> store" where
  "fill_caches st run_id p ws =
     st\<lparr>es_run_to_conv := cache_put run_id (resolve_conversation st run_id p) (es_run_to_conv st),
        es_run_to_workspace := cache_put run_id ws (es_run_to_workspace st)\<rparr>"

definition notify :: "event \<Rightarrow> store \<Rightarrow> store" where
  "notify e st = st\<lparr>es_notified := es_notified st @ [e]\<rparr>"

text \<open>The keyword arguments of \<open>append_event\<close>.\<close>

record append_opts =
  ao_tenant_id :: string
  ao_workspace_id :: "string option"
  ao_idempotency_key :: "string option"
  ao_is_audit :: bool

definition default_opts :: append_opts where
  "default_opts = \<lparr> ao_tenant_id = ''default'', ao_workspace_id = None, ao_idempotency_key = None,
     ao_is_audit = False \<rparr>"

definition new_row :: "store \<Rightarrow> string \<Rightarrow> payload \<Rightarrow> append_opts \<Rightarrow> timestamp \<Rightarrow> event_row" where
  "new_row st run_id p opts now =
     \<lparr> er_run_id = run_id, er_tenant_id = ao_tenant_id opts,
       er_workspace_id = resolve_workspace st run_id (ao_workspace_id opts), er_seq = 0,
       er_body = RowPayload p, er_idempotency_key = ao_idempotency_key opts, er_created_at = now,
       er_conversation_id = resolve_conversation st run_id p, er_is_audit = ao_is_audit opts \<rparr>"

definition row_event :: "event_row \<Rightarrow> payload \<Rightarrow> event" where
  "row_event r p = \<lparr> ev_run_id = er_run_id r, ev_seq = er_seq r, ev_payload = p,
     ev_idempotency_key = er_idempotency_key r, ev_created_at = er_created_at r,
     ev_tenant_id = er_tenant_id r, ev_workspace_id = er_workspace_id r, ev_is_audit = er_is_audit r \<rparr>"

text \<open>Everything after the first lookup: the caches, the locked transaction, the callbacks.\<close>

definition append_commit ::
    "store \<Rightarrow> string \<Rightarrow> payload \<Rightarrow> append_opts \<Rightarrow> timestamp \<Rightarrow> (store_error + event) \<times> store" where
  "append_commit st run_id p opts now =
     (let r = new_row st run_id p opts now;
          st1 = fill_caches st run_id p (ao_workspace_id opts)
      in case append_attempts MAX_RETRIES r (es_events st1) of
           Existing e \<Rightarrow> (Inr e, st1)
         | AppendFailed err \<Rightarrow> (Inl err, st1)
         | Written seq rows \<Rightarrow>
             (let e = row_event (r\<lparr>er_seq := seq\<rparr>) p
              in (Inr e, notify e (st1\<lparr>es_events := rows\<rparr>))))"

definition append_event ::
    "store \<Rightarrow> string \<Rightarrow> payload \<Rightarrow> append_opts \<Rightarrow> timestamp \<Rightarrow> (store_error + event) \<times> store" where
  "append_event st run_id p opts now =
     (case ao_idempotency_key opts of
        Some key \<Rightarrow>
          (case find_by_idempotency_key st run_id (payload_type p) key of
             Some e \<Rightarrow> (Inr e, st)
           | None \<Rightarrow> append_commit st run_id p opts now)
      | None \<Rightarrow> append_commit st run_id p opts now)"

section \<open>Claims\<close>

definition claim_of :: "string \<Rightarrow> string \<Rightarrow> string \<Rightarrow> claim_row \<Rightarrow> bool" where
  "claim_of tenant conv req c \<longleftrightarrow>
     cl_tenant_id c = tenant \<and> cl_conversation_id c = conv \<and> cl_client_request_id c = req"

definition claim_row_for ::
    "string \<Rightarrow> string \<Rightarrow> string \<Rightarrow> run_payload \<Rightarrow> string \<Rightarrow> string option \<Rightarrow> timestamp \<Rightarrow> event_row" where
  "claim_row_for conv req run_id p tenant ws now =
     \<lparr> er_run_id = run_id, er_tenant_id = tenant, er_workspace_id = ws, er_seq = 1,
       er_body = RowPayload (PRun p), er_idempotency_key = Some (''client-request:'' @ conv @ '':'' @ req),
       er_created_at = now, er_conversation_id = Some conv, er_is_audit = False \<rparr>"

text \<open>
  The transaction of \<open>claim_client_request\<close>: the claim and the first event are inserted
  together; a conflict rolls both back and the claim is read again.
\<close>

definition claim_commit ::
    "store \<Rightarrow> string \<Rightarrow> string \<Rightarrow> string \<Rightarrow> run_payload \<Rightarrow> string \<Rightarrow> string option \<Rightarrow> timestamp
      \<Rightarrow> (store_error + string \<times> bool) \<times> store" where
  "claim_commit st conv req run_id p tenant ws now =
     (case find (claim_of tenant conv req) (es_claims st) of
        Some c \<Rightarrow> (Inr (cl_run_id c, False), st)
      | None \<Rightarrow>
          (case insert_row (claim_row_for conv req run_id p tenant ws now) (es_events st) of
             Inl _ \<Rightarrow> (Inl IntegrityError, st)
           | Inr rows \<Rightarrow>
               (let e = row_event (claim_row_for conv req run_id p tenant ws now) (PRun p);
                    st1 = st\<lparr>es_events := rows,
                      es_claims := es_claims st @ [\<lparr> cl_tenant_id = tenant, cl_conversation_id = conv,
                        cl_client_request_id = req, cl_run_id = run_id, cl_created_at = now \<rparr>],
                      es_run_to_conv := dset run_id conv (es_run_to_conv st),
                      es_run_to_workspace := (case ws of None \<Rightarrow> es_run_to_workspace st
                                                | Some w \<Rightarrow> dset run_id w (es_run_to_workspace st))\<rparr>
                in (Inr (run_id, True), notify e st1))))"

definition claim_client_request ::
    "store \<Rightarrow> string \<Rightarrow> string \<Rightarrow> string \<Rightarrow> run_payload \<Rightarrow> string \<Rightarrow> string option \<Rightarrow> timestamp
      \<Rightarrow> (store_error + string \<times> bool) \<times> store" where
  "claim_client_request st conv req run_id p tenant ws now =
     (case find (claim_of tenant conv req) (es_claims st) of
        Some c \<Rightarrow> (Inr (cl_run_id c, False), st)
      | None \<Rightarrow> claim_commit st conv req run_id p tenant ws now)"

section \<open>Caches\<close>

fun prepopulate_row :: "event_row \<Rightarrow> string dict \<Rightarrow> string dict" where
  "prepopulate_row r d =
     (case er_body r of
        RowPayload p \<Rightarrow> if payload_type p = RUN \<and> opt_truthy (payload_conversation_id p)
                        then dset (er_run_id r) (the (payload_conversation_id p)) d else d
      | RowLegacy _ \<Rightarrow> d)"

definition prepopulate_run_to_conv_cache :: "store \<Rightarrow> store" where
  "prepopulate_run_to_conv_cache st =
     st\<lparr>es_run_to_conv := fold prepopulate_row (es_events st) (es_run_to_conv st),
        es_run_to_workspace :=
          fold (\<lambda>r d. case er_workspace_id r of None \<Rightarrow> d | Some w \<Rightarrow> dset (er_run_id r) w d)
            (es_events st) (es_run_to_workspace st)\<rparr>"

definition evict_run_caches :: "store \<Rightarrow> string \<Rightarrow> store" where
  "evict_run_caches st run_id =
     st\<lparr>es_run_to_conv := AList.delete run_id (es_run_to_conv st),
        es_run_to_workspace := AList.delete run_id (es_run_to_workspace st)\<rparr>"

section \<open>Tenants and workspaces\<close>

definition ensure_tenant :: "store \<Rightarrow> string \<Rightarrow> string \<Rightarrow> timestamp \<Rightarrow> tenant \<times> store" where
  "ensure_tenant st tid name now =
     (let t = \<lparr> tn_tenant_id = tid, tn_name = name, tn_status = ''active'', tn_created_at = now, tn_updated_at = now \<rparr>
      in (t, st\<lparr>es_tenants :=
               (if list_ex (\<lambda>u. tn_tenant_id u = tid) (es_tenants st)
                then map (\<lambda>u. if tn_tenant_id u = tid then u\<lparr>tn_updated_at := now\<rparr> else u) (es_tenants st)
                else es_tenants st @ [t])\<rparr>))"

definition get_tenant :: "store \<Rightarrow> string \<Rightarrow> tenant option" where
  "get_tenant st tid = find (\<lambda>u. tn_tenant_id u = tid) (es_tenants st)"

definition get_workspace :: "store \<Rightarrow> string \<Rightarrow> workspace option" where
  "get_workspace st wid = find (\<lambda>w. ws_workspace_id w = wid) (es_workspaces st)"

text \<open>The insert fails on the primary key and on the unique (tenant, name).\<close>

definition workspace_conflict :: "workspace \<Rightarrow> workspace list \<Rightarrow> bool" where
  "workspace_conflict w rows =
     list_ex (\<lambda>v. ws_workspace_id v = ws_workspace_id w
                  \<or> (ws_tenant_id v = ws_tenant_id w \<and> ws_name v = ws_name w)) rows"

definition create_workspace :: "store \<Rightarrow> workspace \<Rightarrow> (store_error + workspace) \<times> store" where
  "create_workspace st w =
     (if workspace_conflict w (es_workspaces st)
      then (case get_workspace st (ws_workspace_id w) of
              None \<Rightarrow> (Inl IntegrityError, st)
            | Some existing \<Rightarrow>
                if ws_tenant_id existing \<noteq> ws_tenant_id w then (Inl IntegrityError, st)
                else (Inr existing, st))
      else (Inr w, st\<lparr>es_workspaces := es_workspaces st @ [w]\<rparr>))"

definition list_workspaces :: "store \<Rightarrow> string option \<Rightarrow> bool \<Rightarrow> workspace list" where
  "list_workspaces st tid include_deleted =
     sort_key ws_created_at (filter (\<lambda>w. (tid = None \<or> tid = Some (ws_tenant_id w))
        \<and> (include_deleted \<or> ws_status w = ''active'')) (es_workspaces st))"

definition map_workspace :: "string \<Rightarrow> (workspace \<Rightarrow> workspace) \<Rightarrow> store \<Rightarrow> store" where
  "map_workspace wid f st =
     st\<lparr>es_workspaces := map (\<lambda>w. if ws_workspace_id w = wid then f w else w) (es_workspaces st)\<rparr>"

text \<open>
  \<open>update_workspace\<close> writes name, description, scope and the time. An explicit null fails the
  validation of the updated record; the new name may collide with another workspace of the
  tenant, which the unique constraint refuses.
\<close>

definition changed :: "'a option option \<Rightarrow> 'a \<Rightarrow> 'a" where
  "changed x old = (case x of Some (Some v) \<Rightarrow> v | _ \<Rightarrow> old)"

definition update_workspace ::
    "store \<Rightarrow> string \<Rightarrow> workspace_update \<Rightarrow> timestamp \<Rightarrow> (store_error + workspace option) \<times> store" where
  "update_workspace st wid up now =
     (case get_workspace st wid of
        None \<Rightarrow> (Inr None, st)
      | Some current \<Rightarrow>
          (let updated = current\<lparr>
                 ws_name := changed (wup_name up) (ws_name current),
                 ws_description := changed (wup_description up) (ws_description current),
                 ws_scope := changed (wup_scope up) (ws_scope current),
                 ws_updated_at := now\<rparr>
           in if wup_name up = Some None \<or> wup_description up = Some None \<or> wup_scope up = Some None
              then (Inl (StoreValueError ''validation''), st)
              else if list_ex (\<lambda>v. ws_workspace_id v \<noteq> wid \<and> ws_tenant_id v = ws_tenant_id updated
                            \<and> ws_name v = ws_name updated) (es_workspaces st)
              then (Inl IntegrityError, st)
              else (Inr (Some updated),
                    map_workspace wid (\<lambda>w. w\<lparr>ws_name := ws_name updated, ws_description := ws_description updated,
                       ws_scope := ws_scope updated, ws_updated_at := ws_updated_at updated\<rparr>) st)))"

definition delete_workspace :: "store \<Rightarrow> string \<Rightarrow> timestamp \<Rightarrow> workspace option \<times> store" where
  "delete_workspace st wid now =
     (case get_workspace st wid of
        None \<Rightarrow> (None, st)
      | Some current \<Rightarrow>
          (Some (current\<lparr>ws_status := ''deleted'', ws_updated_at := now\<rparr>),
           map_workspace wid (\<lambda>w. w\<lparr>ws_status := ''deleted'', ws_updated_at := now\<rparr>) st))"

section \<open>Conversations\<close>

definition get_conversation :: "store \<Rightarrow> string \<Rightarrow> conversation_row option" where
  "get_conversation st cid = find (\<lambda>c. cv_conversation_id c = cid) (es_conversations st)"

definition map_conversation :: "string \<Rightarrow> (conversation_row \<Rightarrow> conversation_row) \<Rightarrow> store \<Rightarrow> store" where
  "map_conversation cid f st =
     st\<lparr>es_conversations := map (\<lambda>c. if cv_conversation_id c = cid then f c else c) (es_conversations st)\<rparr>"

definition upsert_conversation :: "store \<Rightarrow> string \<Rightarrow> string \<Rightarrow> string \<Rightarrow> string \<Rightarrow> timestamp \<Rightarrow> store" where
  "upsert_conversation st cid title user tenant now =
     (if get_conversation st cid \<noteq> None
      then map_conversation cid (\<lambda>c. c\<lparr>cv_title := title, cv_updated_at := now\<rparr>) st
      else st\<lparr>es_conversations := es_conversations st @
             [\<lparr> cv_conversation_id = cid, cv_tenant_id = tenant, cv_user_id = user, cv_title = title,
                cv_status = ''active'', cv_created_at = now, cv_updated_at = now, cv_message_count = 0 \<rparr>]\<rparr>)"

text \<open>An empty or missing user id does not filter.\<close>

definition active_conversation :: "string option \<Rightarrow> string option \<Rightarrow> conversation_row \<Rightarrow> bool" where
  "active_conversation user tenant c \<longleftrightarrow>
     cv_status c = ''active''
     \<and> (\<not> opt_truthy user \<or> user = Some (cv_user_id c))
     \<and> (tenant = None \<or> tenant = Some (cv_tenant_id c))"

definition total_conversation_count :: "store \<Rightarrow> string option \<Rightarrow> string option \<Rightarrow> nat" where
  "total_conversation_count st user tenant =
     length (filter (active_conversation user tenant) (es_conversations st))"

definition delete_conversation :: "store \<Rightarrow> string \<Rightarrow> timestamp \<Rightarrow> store" where
  "delete_conversation st cid now =
     map_conversation cid (\<lambda>c. c\<lparr>cv_status := ''archived'', cv_updated_at := now\<rparr>) st"

definition update_conversation ::
    "store \<Rightarrow> string \<Rightarrow> string option \<Rightarrow> string option \<Rightarrow> timestamp \<Rightarrow> bool \<times> store" where
  "update_conversation st cid title status now =
     (get_conversation st cid \<noteq> None,
      map_conversation cid (\<lambda>c. c\<lparr>cv_updated_at := now,
        cv_title := (case title of None \<Rightarrow> cv_title c | Some t \<Rightarrow> t),
        cv_status := (case status of None \<Rightarrow> cv_status c | Some s \<Rightarrow> s)\<rparr>) st)"

definition increment_message_count :: "store \<Rightarrow> string \<Rightarrow> timestamp \<Rightarrow> store" where
  "increment_message_count st cid now =
     map_conversation cid (\<lambda>c. c\<lparr>cv_message_count := cv_message_count c + 1, cv_updated_at := now\<rparr>) st"

end
