(* ===== verification/Store_Properties.thy ===== *)
theory Store_Properties
  imports Event_Store "HOL-Library.Sublist"
begin

text \<open>
  Correctness of the event store: the invariant \<open>store_wf\<close> of its tables, the log interface that
  the writers of events rely on (\<open>event_log\<close>, interpreted on the store), exactly-once keyed
  appends and claims under interleaving, the store as a step relation with its reachable
  states, and the composition of the store with the fold.
\<close>

section \<open>Rows and events\<close>

lemma event_from_row_eq [simp]: "er_body r = RowPayload p \<Longrightarrow> event_from_row r = Some (row_event r p)"
  by (simp add: row_event_def)

lemma event_from_row_fields:
  "event_from_row r = Some e \<Longrightarrow> ev_seq e = er_seq r \<and> ev_run_id e = er_run_id r \<and> ev_tenant_id e = er_tenant_id r"
  by (auto split: row_body.splits)

declare event_from_row.simps [simp del]

section \<open>Sequence numbers\<close>

definition contiguous :: "event_row list \<Rightarrow> string \<Rightarrow> bool" where
  "contiguous rows run_id \<longleftrightarrow> map er_seq (run_rows run_id rows) = [1..int (length (run_rows run_id rows))]"

definition row_key :: "event_row \<Rightarrow> (string \<times> string \<times> string) option" where
  "row_key r = map_option (\<lambda>k. (er_run_id r, row_type (er_body r), k)) (er_idempotency_key r)"

definition unique_keys :: "event_row list \<Rightarrow> bool" where
  "unique_keys rows \<longleftrightarrow> distinct (List.map_filter row_key rows)"

definition known_row :: "event_row \<Rightarrow> bool" where
  "known_row r \<longleftrightarrow> (case er_body r of RowPayload _ \<Rightarrow> True | RowLegacy t \<Rightarrow> t \<notin> range event_type_value)"

definition rows_wf :: "event_row list \<Rightarrow> bool" where
  "rows_wf rows \<longleftrightarrow> (\<forall>run_id. contiguous rows run_id) \<and> unique_keys rows \<and> list_all known_row rows"

definition store_wf :: "store \<Rightarrow> bool" where
  "store_wf st \<longleftrightarrow> rows_wf (es_events st)
     \<and> distinct (map (\<lambda>c. (cl_tenant_id c, cl_conversation_id c, cl_client_request_id c)) (es_claims st))"

lemma run_rows_simps [simp]:
  "run_rows run_id [] = []"
  "run_rows run_id (xs @ ys) = run_rows run_id xs @ run_rows run_id ys"
  "run_rows run_id [r] = (if er_run_id r = run_id then [r] else [])"
  by (simp_all add: run_rows_def)

lemma map_filter_append [simp]: "List.map_filter f (xs @ ys) = List.map_filter f xs @ List.map_filter f ys"
  by (simp add: map_filter_def)

lemma events_of_rows_Nil [simp]: "events_of_rows [] = []"
  by (simp add: events_of_rows_def map_filter_simps)

lemma events_of_rows_append [simp]: "events_of_rows (xs @ ys) = events_of_rows xs @ events_of_rows ys"
  by (simp add: events_of_rows_def)

lemma upto_snoc: "[1..int n] @ [int n + 1] = [1..int (Suc n)]"
  by (simp add: upto_rec2)

lemma next_seq_contiguous:
  assumes "contiguous rows run_id"
  shows "next_seq run_id rows = int (length (run_rows run_id rows)) + 1"
proof (cases "map er_seq (run_rows run_id rows)")
  case Nil
  then show ?thesis by (simp add: next_seq_def max_seq_def)
next
  case (Cons x xs)
  define n where "n = length (run_rows run_id rows)"
  have n: "0 < n" using Cons by (auto simp: n_def)
  have "set (x # xs) = {1..int n}" using assms Cons by (simp add: contiguous_def n_def)
  then have "Max (set (x # xs)) = int n" using n by (simp only:) (auto intro: Max_eqI)
  then have "fold max xs x = int n" by (simp only: Max.set_eq_fold)
  with Cons show ?thesis by (simp add: next_seq_def max_seq_def n_def)
qed

lemma next_seq_fresh:
  assumes "contiguous rows run_id" "q \<in> set rows" "er_run_id q = run_id"
  shows "er_seq q < next_seq run_id rows"
proof -
  have "er_seq q \<in> set (map er_seq (run_rows run_id rows))"
    using assms(2,3) by (auto simp: run_rows_def)
  with assms(1) have "er_seq q \<in> {1..int (length (run_rows run_id rows))}"
    by (metis contiguous_def set_upto)
  with next_seq_contiguous[OF assms(1)] show ?thesis by simp
qed

text \<open>A duplicate key is the only conflict the insert of an allocated number can meet.\<close>

definition dup_row :: "event_row \<Rightarrow> event_row list \<Rightarrow> event_row option" where
  "dup_row r rows = (case er_idempotency_key r of
     None \<Rightarrow> None | Some key \<Rightarrow> find (key_matches (er_run_id r) (row_type (er_body r)) key) rows)"

lemma list_ex_find: "list_ex P xs \<longleftrightarrow> find P xs \<noteq> None"
  by (auto simp: find_None_iff list_ex_iff)

lemma insert_row_allocated:
  assumes "contiguous rows (er_run_id r)"
  shows "insert_row (r\<lparr>er_seq := next_seq (er_run_id r) rows\<rparr>) rows =
     (if dup_row r rows = None then Inr (rows @ [r\<lparr>er_seq := next_seq (er_run_id r) rows\<rparr>]) else Inl IdemConflict)"
proof -
  have "\<not> list_ex (\<lambda>q. er_run_id q = er_run_id r \<and> er_seq q = next_seq (er_run_id r) rows) rows"
    using next_seq_fresh[OF assms] by (fastforce simp: list_ex_iff)
  then show ?thesis
    by (auto simp: insert_row_def dup_row_def list_ex_find split: option.splits)
qed

lemma event_type_value_inj: "event_type_value a = event_type_value b \<longleftrightarrow> a = b"
  by (cases a; cases b) simp_all

lemma known_row_payload:
  assumes "known_row q" and "row_type (er_body q) = event_type_value t"
  obtains p where "er_body q = RowPayload p" "payload_type p = t"
proof (cases "er_body q")
  case (RowPayload p)
  then show ?thesis using assms that by (simp add: event_type_value_inj)
next
  case (RowLegacy s)
  then show ?thesis using assms by (auto simp: known_row_def)
qed

lemma append_attempts_eq:
  assumes "rows_wf rows" and "er_body r = RowPayload p"
  shows "append_attempts n r rows =
     (case dup_row r rows of
        None \<Rightarrow> (let s = next_seq (er_run_id r) rows in Written s (rows @ [r\<lparr>er_seq := s\<rparr>]))
      | Some q \<Rightarrow> Existing (the (event_from_row q)))"
proof (cases "dup_row r rows")
  case None
  with assms(1) show ?thesis
    by (simp add: append_attempts.simps Let_def insert_row_allocated rows_wf_def)
next
  case (Some q)
  then obtain key where key: "er_idempotency_key r = Some key"
    and q: "find (key_matches (er_run_id r) (row_type (er_body r)) key) rows = Some q"
    by (auto simp: dup_row_def split: option.splits)
  from q have qm: "q \<in> set rows" "key_matches (er_run_id r) (row_type (er_body r)) key q"
    by (auto simp: find_Some_iff)
  have "known_row q" using assms(1) qm(1) by (simp add: rows_wf_def list_all_iff)
  then obtain p' where "er_body q = RowPayload p'"
    using known_row_payload[of q "payload_type p"] qm(2) assms(2) by (auto simp: key_matches_def)
  then show ?thesis
    using assms(1) Some key q
    by (simp add: append_attempts.simps Let_def insert_row_allocated rows_wf_def)
qed

lemma dup_row_None_key:
  "dup_row r rows = None \<Longrightarrow> row_key r = Some k \<Longrightarrow> k \<notin> set (List.map_filter row_key rows)"
  by (auto simp: dup_row_def row_key_def find_None_iff key_matches_def map_filter_def)

lemma rows_wf_append:
  assumes "rows_wf rows" and "er_body r = RowPayload p" and "dup_row r rows = None"
  shows "rows_wf (rows @ [r\<lparr>er_seq := next_seq (er_run_id r) rows\<rparr>])"
proof -
  have "contiguous (rows @ [r\<lparr>er_seq := next_seq (er_run_id r) rows\<rparr>]) run_id" for run_id
  proof -
    have c: "contiguous rows run_id" using assms(1) by (simp add: rows_wf_def)
    show ?thesis
      using c next_seq_contiguous[OF c] upto_snoc[of "length (run_rows run_id rows)"]
      by (auto simp: contiguous_def add.commute)
  qed
  moreover have "row_key (r\<lparr>er_seq := n\<rparr>) = row_key r" for n by (simp add: row_key_def)
  ultimately show ?thesis
    using assms dup_row_None_key[OF assms(3)]
    by (cases "row_key r") (auto simp: rows_wf_def unique_keys_def known_row_def map_filter_simps)
qed

section \<open>The log interface\<close>

text \<open>
  What a writer of events relies on: a write keeps the invariant of the log, is seen at the end
  of the stream it goes to, and is not seen in any other stream.
\<close>

locale event_log =
  fixes inv :: "'s \<Rightarrow> bool"
    and read :: "'s \<Rightarrow> 'r \<Rightarrow> 'e list"
    and wr :: "'r \<Rightarrow> 'p \<Rightarrow> 's \<Rightarrow> 's"
    and content :: "'e \<Rightarrow> 'p"
  assumes inv_write: "inv s \<Longrightarrow> inv (wr r p s)"
    and read_write: "inv s \<Longrightarrow> map content (read (wr r p s) r) = map content (read s r) @ [p]"
    and read_write_prefix: "inv s \<Longrightarrow> take (length (read s r)) (read (wr r p s) r) = read s r"
    and read_write_other: "inv s \<Longrightarrow> r' \<noteq> r \<Longrightarrow> read (wr r p s) r' = read s r'"
begin

lemma inv_writes: "inv s \<Longrightarrow> inv (fold (wr r) ps s)"
  by (induction ps arbitrary: s) (simp_all add: inv_write)

lemma read_writes: "inv s \<Longrightarrow> map content (read (fold (wr r) ps s) r) = map content (read s r) @ ps"
  by (induction ps arbitrary: s) (simp_all add: inv_write read_write)

lemma read_writes_other: "inv s \<Longrightarrow> r' \<noteq> r \<Longrightarrow> read (fold (wr r) ps s) r' = read s r'"
  by (induction ps arbitrary: s) (simp_all add: inv_write read_write_other)

lemma read_write_snoc:
  assumes "inv s"
  obtains e where "read (wr r p s) r = read s r @ [e]" "content e = p"
proof -
  have len: "length (read (wr r p s) r) = Suc (length (read s r))"
    using arg_cong[OF read_write[OF assms, of r p], of length] by simp
  define t where "t = read (wr r p s) r"
  have "t = take (length (read s r)) t @ [last t]"
    using len by (metis append_butlast_last_id butlast_conv_take diff_Suc_1 length_0_conv nat.simps(3) t_def)
  then have t: "t = read s r @ [last t]" using read_write_prefix[OF assms, of r p] by (simp add: t_def)
  moreover have "content (last t) = p"
    using read_write[OF assms, of r p, folded t_def] t by (metis last_snoc list.map(1) list.simps(9) map_append)
  ultimately show ?thesis using that by (simp add: t_def)
qed

end

section \<open>Appending\<close>

lemma sort_contiguous: "contiguous rows run_id \<Longrightarrow> sort_key er_seq (run_rows run_id rows) = run_rows run_id rows"
  by (rule sort_key_id_if_sorted) (simp add: contiguous_def)

lemma get_events_rows: "rows_wf (es_events st) \<Longrightarrow> get_events st run_id = events_of_rows (run_rows run_id (es_events st))"
  by (simp add: get_events_def sort_contiguous rows_wf_def)

lemma events_of_rows_single: "er_body r = RowPayload p \<Longrightarrow> events_of_rows [r] = [row_event r p]"
  by (simp add: events_of_rows_def map_filter_simps)

lemma new_row_simps [simp]:
  "er_run_id (new_row st run_id p opts now) = run_id"
  "er_body (new_row st run_id p opts now) = RowPayload p"
  "er_idempotency_key (new_row st run_id p opts now) = ao_idempotency_key opts"
  "er_tenant_id (new_row st run_id p opts now) = ao_tenant_id opts"
  "er_created_at (new_row st run_id p opts now) = now"
  by (simp_all add: new_row_def)

lemma fill_caches_simps [simp]:
  "es_events (fill_caches st run_id p ws) = es_events st"
  "es_claims (fill_caches st run_id p ws) = es_claims st"
  "es_notified (fill_caches st run_id p ws) = es_notified st"
  "es_workspaces (fill_caches st run_id p ws) = es_workspaces st"
  "es_conversations (fill_caches st run_id p ws) = es_conversations st"
  by (simp_all add: fill_caches_def)

lemma notify_simps [simp]:
  "es_events (notify e st) = es_events st" "es_claims (notify e st) = es_claims st"
  "es_notified (notify e st) = es_notified st @ [e]"
  by (simp_all add: notify_def)

definition allocated_row :: "store \<Rightarrow> string \<Rightarrow> payload \<Rightarrow> append_opts \<Rightarrow> timestamp \<Rightarrow> event_row" where
  "allocated_row st run_id p opts now =
     (new_row st run_id p opts now)\<lparr>er_seq := next_seq run_id (es_events st)\<rparr>"

lemma append_commit_eq:
  assumes "store_wf st"
  shows "append_commit st run_id p opts now =
     (case dup_row (new_row st run_id p opts now) (es_events st) of
        None \<Rightarrow> (let e = row_event (allocated_row st run_id p opts now) p
                in (Inr e, notify e ((fill_caches st run_id p (ao_workspace_id opts))
                     \<lparr>es_events := es_events st @ [allocated_row st run_id p opts now]\<rparr>)))
      | Some q \<Rightarrow> (Inr (the (event_from_row q)), fill_caches st run_id p (ao_workspace_id opts)))"
  using assms append_attempts_eq[of "es_events st" "new_row st run_id p opts now" p MAX_RETRIES]
  by (simp add: append_commit_def store_wf_def Let_def allocated_row_def split: option.split)

lemma append_commit_rows:
  assumes "store_wf st"
  shows "es_events (snd (append_commit st run_id p opts now)) =
     (if dup_row (new_row st run_id p opts now) (es_events st) = None
      then es_events st @ [allocated_row st run_id p opts now] else es_events st)"
  by (simp add: append_commit_eq[OF assms] Let_def split: option.split)

lemma store_wf_append_commit: "store_wf st \<Longrightarrow> store_wf (snd (append_commit st run_id p opts now))"
  using rows_wf_append[of "es_events st" "new_row st run_id p opts now" p]
  by (auto simp: append_commit_eq store_wf_def Let_def allocated_row_def split: option.split)

lemma append_event_commit:
  "append_event st run_id p opts now = append_commit st run_id p opts now
   \<or> (\<exists>key e. ao_idempotency_key opts = Some key \<and> find_by_idempotency_key st run_id (payload_type p) key = Some e
        \<and> append_event st run_id p opts now = (Inr e, st))"
  by (auto simp: append_event_def split: option.splits)

lemma store_wf_append: "store_wf st \<Longrightarrow> store_wf (snd (append_event st run_id p opts now))"
  using append_event_commit[of st run_id p opts now] by (auto simp: store_wf_append_commit)

definition plain_append :: "string \<Rightarrow> payload \<times> timestamp \<Rightarrow> store \<Rightarrow> store" where
  "plain_append run_id pt st = snd (append_event st run_id (fst pt) default_opts (snd pt))"

definition event_content :: "event \<Rightarrow> payload \<times> timestamp" where
  "event_content e = (ev_payload e, ev_created_at e)"

lemma plain_append_rows:
  assumes "store_wf st"
  shows "es_events (plain_append run_id pt st) = es_events st @ [allocated_row st run_id (fst pt) default_opts (snd pt)]"
  using append_commit_rows[OF assms, of run_id "fst pt" default_opts "snd pt"]
  by (simp add: plain_append_def append_event_def default_opts_def dup_row_def)

lemma get_events_snoc:
  assumes "store_wf st" "store_wf st'" "es_events st' = es_events st @ [r]" "er_body r = RowPayload p"
  shows "get_events st' run_id = get_events st run_id @ (if er_run_id r = run_id then [row_event r p] else [])"
  using assms by (simp add: get_events_rows store_wf_def events_of_rows_single)

lemma allocated_row_simps [simp]:
  "er_run_id (allocated_row st run_id p opts now) = run_id"
  "er_body (allocated_row st run_id p opts now) = RowPayload p"
  "er_created_at (allocated_row st run_id p opts now) = now"
  "er_tenant_id (allocated_row st run_id p opts now) = ao_tenant_id opts"
  "er_seq (allocated_row st run_id p opts now) = next_seq run_id (es_events st)"
  by (simp_all add: allocated_row_def)

interpretation store_log: event_log store_wf get_events plain_append event_content
proof
  fix s :: store and r r' :: string and pt :: "payload \<times> timestamp"
  assume wf: "store_wf s"
  show wf': "store_wf (plain_append r pt s)" using wf by (simp add: plain_append_def store_wf_append)
  note * = get_events_snoc[OF wf wf' plain_append_rows[OF wf] allocated_row_simps(2)]
  show "map event_content (get_events (plain_append r pt s) r) = map event_content (get_events s r) @ [pt]"
    by (simp add: * event_content_def row_event_def)
  show "take (length (get_events s r)) (get_events (plain_append r pt s) r) = get_events s r"
    by (simp add: *)
  show "get_events (plain_append r pt s) r' = get_events s r'" if "r' \<noteq> r"
    using that by (simp add: *)
qed

lemma find_by_key_dup:
  assumes "store_wf st" and "ao_idempotency_key opts = Some key"
  shows "find_by_idempotency_key st run_id (payload_type p) key =
     map_option (\<lambda>q. the (event_from_row q)) (dup_row (new_row st run_id p opts now) (es_events st))"
proof (cases "find (key_matches run_id (event_type_value (payload_type p)) key) (es_events st)")
  case None
  then show ?thesis using assms(2) by (simp add: find_by_idempotency_key_def dup_row_def)
next
  case (Some q)
  then have q: "q \<in> set (es_events st)" "key_matches run_id (event_type_value (payload_type p)) key q"
    by (auto simp: find_Some_iff)
  have "known_row q" using assms(1) q(1) by (simp add: store_wf_def rows_wf_def list_all_iff)
  then obtain p' where "er_body q = RowPayload p'"
    using known_row_payload[of q "payload_type p"] q(2) by (auto simp: key_matches_def)
  then show ?thesis using Some assms(2) by (simp add: find_by_idempotency_key_def dup_row_def)
qed

lemma append_event_eq:
  assumes "store_wf st"
  shows "append_event st run_id p opts now =
     (case dup_row (new_row st run_id p opts now) (es_events st) of
        None \<Rightarrow> append_commit st run_id p opts now
      | Some q \<Rightarrow> (Inr (the (event_from_row q)), st))"
  using find_by_key_dup[OF assms, of opts _ run_id p now]
  by (cases "ao_idempotency_key opts") (auto simp: append_event_def dup_row_def split: option.splits)

lemma append_event_result:
  assumes "store_wf st" and "append_event st run_id p opts now = (res, st')"
  shows "\<exists>e. res = Inr e \<and> store_wf st'
     \<and> (if dup_row (new_row st run_id p opts now) (es_events st) = None
        then ev_payload e = p \<and> ev_run_id e = run_id \<and> ev_seq e = int (event_count st run_id) + 1
             \<and> get_events st' run_id = get_events st run_id @ [e] \<and> es_notified st' = es_notified st @ [e]
        else Some e = find_by_idempotency_key st run_id (payload_type p) (the (ao_idempotency_key opts)) \<and> st' = st)
     \<and> (\<forall>other. other \<noteq> run_id \<longrightarrow> get_events st' other = get_events st other)"
proof (cases "dup_row (new_row st run_id p opts now) (es_events st)")
  case None
  have st': "st' = snd (append_commit st run_id p opts now)" and res: "res = fst (append_commit st run_id p opts now)"
    using assms(2) None by (simp_all add: append_event_eq[OF assms(1)])
  have wf': "store_wf st'" using store_wf_append_commit[OF assms(1)] st' by simp
  have rows: "es_events st' = es_events st @ [allocated_row st run_id p opts now]"
    using append_commit_rows[OF assms(1), of run_id p opts now] None st' by simp
  note read = get_events_snoc[OF assms(1) wf' rows allocated_row_simps(2)]
  have seq: "next_seq run_id (es_events st) = int (event_count st run_id) + 1"
    using assms(1) by (simp add: next_seq_contiguous store_wf_def rows_wf_def event_count_def)
  let ?e = "row_event (allocated_row st run_id p opts now) p"
  have "res = Inr ?e" "es_notified st' = es_notified st @ [?e]"
    using None by (simp_all add: res st' append_commit_eq[OF assms(1)] Let_def)
  moreover have "ev_payload ?e = p" "ev_run_id ?e = run_id" "ev_seq ?e = int (event_count st run_id) + 1"
    by (simp_all add: row_event_def seq)
  ultimately show ?thesis using None wf' read by auto
next
  case (Some q)
  then obtain key where key: "ao_idempotency_key opts = Some key"
    by (auto simp: dup_row_def split: option.splits)
  show ?thesis
    using assms Some find_by_key_dup[OF assms(1) key, of run_id p now] key
    by (auto simp: append_event_eq)
qed

text \<open>
  C31: an append to a well-formed store never fails. Unless an event with the same run, type and
  idempotency key is already there, the new event gets the next number of its run, is the last
  event read back from the run, and is handed to the callbacks once; otherwise the stored
  event is returned and nothing is written or notified. Other runs are not affected.
\<close>

theorem append_event_outcome:
  assumes "store_wf st" and "append_event st run_id p opts now = (res, st')"
  shows "\<exists>e. res = Inr e \<and> store_wf st'
     \<and> (if dup_row (new_row st run_id p opts now) (es_events st) = None
        then ev_payload e = p \<and> ev_run_id e = run_id \<and> ev_seq e = int (event_count st run_id) + 1
             \<and> get_events st' run_id = get_events st run_id @ [e] \<and> es_notified st' = es_notified st @ [e]
        else Some e = find_by_idempotency_key st run_id (payload_type p) (the (ao_idempotency_key opts)) \<and> st' = st)
     \<and> (\<forall>other. other \<noteq> run_id \<longrightarrow> get_events st' other = get_events st other)"
  by (rule append_event_result[OF assms])

text \<open>After an append under a key, the key is found and stands for the returned event.\<close>

lemma append_event_key_found:
  assumes "store_wf st" and "ao_idempotency_key opts = Some key"
    and "append_commit st run_id p opts now = (Inr e, st')"
  shows "find_by_idempotency_key st' run_id (payload_type p) key = Some e"
proof (cases "dup_row (new_row st run_id p opts now) (es_events st)")
  case None
  let ?r = "allocated_row st run_id p opts now"
  have e: "e = row_event ?r p" and rows: "es_events st' = es_events st @ [?r]"
    using assms(3) None by (auto simp: append_commit_eq[OF assms(1)] Let_def)
  have "find (key_matches run_id (event_type_value (payload_type p)) key) (es_events st) = None"
    using None assms(2) by (simp add: dup_row_def)
  moreover have "key_matches run_id (event_type_value (payload_type p)) key ?r"
    using assms(2) by (simp add: key_matches_def allocated_row_def new_row_def)
  ultimately have "find (key_matches run_id (event_type_value (payload_type p)) key) (es_events st') = Some ?r"
    by (simp add: rows find_append)
  then show ?thesis by (simp add: find_by_idempotency_key_def e)
next
  case (Some q)
  then have "e = the (event_from_row q)" "es_events st' = es_events st"
    using assms(3) by (auto simp: append_commit_eq[OF assms(1)])
  with Some find_by_key_dup[OF assms(1,2), of run_id p now] show ?thesis
    by (simp add: find_by_idempotency_key_def)
qed


text \<open>
  a keyed append is exactly-once: repeating it, with whatever payload of the same type and at
  whatever time, returns the same event and changes nothing.
\<close>

theorem append_event_idempotent:
  assumes "store_wf st" and "ao_idempotency_key opts = Some key"
    and "append_event st run_id p opts now = (Inr e, st')"
    and "payload_type p' = payload_type p"
  shows "append_event st' run_id p' opts now' = (Inr e, st')"
proof -
  have "find_by_idempotency_key st' run_id (payload_type p) key = Some e"
    using append_event_commit[of st run_id p opts now] append_event_key_found[OF assms(1,2)] assms(2,3)
    by auto
  then show ?thesis using assms(2,4) by (simp add: append_event_def)
qed

text \<open>
  C32: two coroutines that both pass the key lookup before either writes still write one row: the
  second transaction meets the unique index and returns the event of the first.
\<close>

theorem concurrent_appends_write_once:
  assumes "store_wf st" and "ao_idempotency_key opts = Some key"
    and "find_by_idempotency_key st run_id (payload_type p) key = None"
    and "payload_type p' = payload_type p"
    and "append_commit st run_id p opts now = (ra, st1)"
    and "append_commit st1 run_id p' opts now' = (rb, st2)"
  shows "ra = rb \<and> (\<exists>e. ra = Inr e) \<and> length (es_events st1) = Suc (length (es_events st))
     \<and> es_events st2 = es_events st1 \<and> es_notified st2 = es_notified st1"
proof -
  have None: "dup_row (new_row st run_id p opts now) (es_events st) = None"
    using find_by_key_dup[OF assms(1,2), of run_id p now] assms(3) by simp
  obtain e where e: "ra = Inr e" "length (es_events st1) = Suc (length (es_events st))"
    using assms(5) None by (auto simp: append_commit_eq[OF assms(1)] Let_def)
  have wf1: "store_wf st1" using store_wf_append_commit[OF assms(1), of run_id p opts now] assms(5) by simp
  have "find_by_idempotency_key st1 run_id (payload_type p') key = Some e"
    using append_event_key_found[OF assms(1,2)] assms(4,5) e(1) by simp
  then obtain q where "dup_row (new_row st1 run_id p' opts now') (es_events st1) = Some q" "the (event_from_row q) = e"
    using find_by_key_dup[OF wf1 assms(2), of run_id p' now'] by auto
  then show ?thesis using assms(6) e by (auto simp: append_commit_eq[OF wf1])
qed

section \<open>Claims\<close>

lemma contiguous_first:
  assumes "contiguous rows run_id" and "\<not> list_ex (\<lambda>q. er_run_id q = run_id \<and> er_seq q = 1) rows"
  shows "run_rows run_id rows = []"
proof (rule ccontr)
  assume ne: "run_rows run_id rows \<noteq> []"
  then have "1 \<in> set [1..int (length (run_rows run_id rows))]" by (cases "run_rows run_id rows") auto
  then have "1 \<in> set (map er_seq (run_rows run_id rows))" using assms(1) by (simp only: contiguous_def)
  with assms(2) show False by (auto simp: list_ex_iff run_rows_def)
qed

lemma insert_first_row_wf:
  assumes "rows_wf rows" and "insert_row r rows = Inr rows'" and "er_seq r = 1" and "er_body r = RowPayload p"
  shows "rows' = rows @ [r] \<and> rows_wf rows'"
proof -
  have rows': "rows' = rows @ [r]" and dup: "dup_row r rows = None"
    and pk: "\<not> list_ex (\<lambda>q. er_run_id q = er_run_id r \<and> er_seq q = 1) rows"
    using assms(2,3) by (auto simp: insert_row_def dup_row_def list_ex_find split: if_splits option.splits)
  have c: "contiguous rows (er_run_id r)" using assms(1) by (simp add: rows_wf_def)
  have "next_seq (er_run_id r) rows = 1"
    using next_seq_contiguous[OF c] contiguous_first[OF c pk] by simp
  then have "r\<lparr>er_seq := next_seq (er_run_id r) rows\<rparr> = r" using assms(3) by simp
  with rows_wf_append[OF assms(1,4) dup] rows' show ?thesis by simp
qed

lemma claim_row_for_simps [simp]:
  "er_seq (claim_row_for conv req run_id p tenant ws now) = 1"
  "er_body (claim_row_for conv req run_id p tenant ws now) = RowPayload (PRun p)"
  "er_run_id (claim_row_for conv req run_id p tenant ws now) = run_id"
  by (simp_all add: claim_row_for_def)

lemma store_wf_claim_commit:
  assumes "store_wf st"
  shows "store_wf (snd (claim_commit st conv req run_id p tenant ws now))"
proof (cases "insert_row (claim_row_for conv req run_id p tenant ws now) (es_events st)")
  case (Inl c)
  with assms show ?thesis by (auto simp: claim_commit_def split: option.split)
next
  case (Inr rows)
  have "rows_wf rows"
    using insert_first_row_wf[OF _ Inr] assms by (auto simp: store_wf_def)
  with Inr assms show ?thesis
    by (auto simp: claim_commit_def store_wf_def Let_def find_None_iff claim_of_def split: option.split)
qed

text \<open>
  C33: a client request is claimed by one run. Once a claim is created, its run has exactly the
  RunStarted event of the claim, and any later claim of the same request, even one that was
  already past its lookup, gets the first run's id and writes nothing.
\<close>

theorem claim_is_exclusive:
  assumes "store_wf st" and "claim_client_request st conv req run_id p tenant ws now = (Inr (run_id, True), st1)"
  shows "claim_commit st1 conv req run2 p2 tenant ws2 now2 = (Inr (run_id, False), st1)
     \<and> claim_client_request st1 conv req run2 p2 tenant ws2 now2 = (Inr (run_id, False), st1)
     \<and> map ev_payload (get_events st1 run_id) = [PRun p] \<and> store_wf st1"
proof -
  let ?r = "claim_row_for conv req run_id p tenant ws now"
  from assms(2) have none: "find (claim_of tenant conv req) (es_claims st) = None"
    and commit: "claim_commit st conv req run_id p tenant ws now = (Inr (run_id, True), st1)"
    by (auto simp: claim_client_request_def split: option.splits)
  then obtain rows where rows: "insert_row ?r (es_events st) = Inr rows" and ev: "es_events st1 = rows"
    and cl: "\<exists>c. es_claims st1 = es_claims st @ [c] \<and> claim_of tenant conv req c \<and> cl_run_id c = run_id"
    by (auto simp: claim_commit_def Let_def claim_of_def split: sum.splits)
  have wf: "rows_wf (es_events st)" using assms(1) by (simp add: store_wf_def)
  have found: "\<exists>c. find (claim_of tenant conv req) (es_claims st1) = Some c \<and> cl_run_id c = run_id"
    using cl none by (auto simp: find_append)
  have ins: "rows = es_events st @ [?r]" "rows_wf rows"
    using insert_first_row_wf[OF wf rows claim_row_for_simps(1,2)] by auto
  have c: "contiguous (es_events st) run_id" using wf by (simp add: rows_wf_def)
  have "run_rows run_id (es_events st) = []"
    by (rule contiguous_first[OF c]) (use rows in \<open>auto simp: insert_row_def split: if_splits\<close>)
  then have "get_events st1 run_id = [row_event ?r (PRun p)]"
    using ev ins by (simp add: get_events_rows events_of_rows_single)
  then show ?thesis
    using found store_wf_claim_commit[OF assms(1), of conv req run_id p tenant ws now] commit
    by (auto simp: claim_client_request_def claim_commit_def row_event_def)
qed

section \<open>The store as a state machine\<close>

text \<open>One rule per operation that writes; the two halves of an append and of a claim may interleave.\<close>

inductive store_step :: "store \<Rightarrow> store \<Rightarrow> bool" where
  step_append: "store_step st (snd (append_event st run_id p opts now))"
| step_commit: "store_step st (snd (append_commit st run_id p opts now))"
| step_claim: "store_step st (snd (claim_client_request st conv req run_id rp tenant ws now))"
| step_claim_commit: "store_step st (snd (claim_commit st conv req run_id rp tenant ws now))"
| step_prepopulate: "store_step st (prepopulate_run_to_conv_cache st)"
| step_evict: "store_step st (evict_run_caches st run_id)"
| step_tenant: "store_step st (snd (ensure_tenant st tid name now))"
| step_create_ws: "store_step st (snd (create_workspace st w))"
| step_update_ws: "store_step st (snd (update_workspace st wid up now))"
| step_delete_ws: "store_step st (snd (delete_workspace st wid now))"
| step_upsert_conv: "store_step st (upsert_conversation st cid title user tenant now)"
| step_delete_conv: "store_step st (delete_conversation st cid now)"
| step_update_conv: "store_step st (snd (update_conversation st cid title' status' now))"
| step_increment: "store_step st (increment_message_count st cid now)"

lemma other_tables:
  "es_events (prepopulate_run_to_conv_cache st) = es_events st"
  "es_claims (prepopulate_run_to_conv_cache st) = es_claims st"
  "es_events (evict_run_caches st run_id) = es_events st"
  "es_claims (evict_run_caches st run_id) = es_claims st"
  "es_events (snd (ensure_tenant st tid name now)) = es_events st"
  "es_claims (snd (ensure_tenant st tid name now)) = es_claims st"
  "es_events (snd (create_workspace st w)) = es_events st"
  "es_claims (snd (create_workspace st w)) = es_claims st"
  "es_events (snd (update_workspace st wid up now)) = es_events st"
  "es_claims (snd (update_workspace st wid up now)) = es_claims st"
  "es_events (snd (delete_workspace st wid now)) = es_events st"
  "es_claims (snd (delete_workspace st wid now)) = es_claims st"
  "es_events (map_conversation cid f st) = es_events st"
  "es_claims (map_conversation cid f st) = es_claims st"
  "es_events (upsert_conversation st cid title user tenant now) = es_events st"
  "es_claims (upsert_conversation st cid title user tenant now) = es_claims st"
  by (simp_all add: prepopulate_run_to_conv_cache_def evict_run_caches_def ensure_tenant_def Let_def
      create_workspace_def update_workspace_def delete_workspace_def map_workspace_def map_conversation_def
      upsert_conversation_def split: option.split)

lemmas conversation_defs = delete_conversation_def update_conversation_def increment_message_count_def

lemma store_wf_claim: "store_wf st \<Longrightarrow> store_wf (snd (claim_client_request st conv req run_id p tenant ws now))"
  by (auto simp: claim_client_request_def store_wf_claim_commit split: option.split)

lemma store_step_wf: "store_step st st' \<Longrightarrow> store_wf st \<Longrightarrow> store_wf st'"
proof (induction rule: store_step.induct)
  case (step_append st run_id p opts now)
  then show ?case by (rule store_wf_append)
next
  case (step_commit st run_id p opts now)
  then show ?case by (rule store_wf_append_commit)
next
  case (step_claim st conv req run_id rp tenant ws now)
  then show ?case by (rule store_wf_claim)
next
  case (step_claim_commit st conv req run_id rp tenant ws now)
  then show ?case by (rule store_wf_claim_commit)
qed (simp_all add: store_wf_def other_tables conversation_defs)

lemma claim_commit_prefix: "prefix (es_events st) (es_events (snd (claim_commit st conv req run_id p tenant ws now)))"
  by (auto simp: claim_commit_def Let_def insert_row_def split: option.split sum.split if_splits)

lemma append_attempts_prefix: "append_attempts n r rows = Written s rows' \<Longrightarrow> prefix rows rows'"
proof (induction n)
  case 0
  then show ?case by (subst (asm) append_attempts.simps)
      (auto simp: Let_def insert_row_def split: sum.splits insert_conflict.splits option.splits if_splits)
next
  case (Suc n)
  then show ?case by (subst (asm) append_attempts.simps)
      (auto simp: Let_def insert_row_def split: sum.splits insert_conflict.splits option.splits if_splits)
qed

lemma append_commit_prefix: "prefix (es_events st) (es_events (snd (append_commit st run_id p opts now)))"
  by (auto simp: append_commit_def Let_def dest: append_attempts_prefix split: append_outcome.split)

text \<open>
  the event table is append-only: whatever operation of the store runs, from whatever state,
  every row that was in the table stays where it was, unchanged.
\<close>

theorem store_is_append_only: "store_step st st' \<Longrightarrow> prefix (es_events st) (es_events st')"
proof (induction rule: store_step.induct)
  case (step_append st run_id p opts now)
  then show ?case using append_event_commit[of st run_id p opts now] by (auto simp: append_commit_prefix)
next
  case (step_commit st run_id p opts now)
  then show ?case by (rule append_commit_prefix)
next
  case (step_claim st conv req run_id rp tenant ws now)
  then show ?case by (auto simp: claim_client_request_def claim_commit_prefix split: option.split)
next
  case (step_claim_commit st conv req run_id rp tenant ws now)
  then show ?case by (rule claim_commit_prefix)
qed (simp_all add: other_tables conversation_defs)

lemma empty_store_wf: "store_wf EventStore0"
  by (simp add: EventStore0_def store_wf_def rows_wf_def contiguous_def unique_keys_def map_filter_simps)

text \<open>
  C34: in every state the store can reach from the empty database, by any interleaving of its
  operations, the events of each run are numbered 1, 2, 3, ... without gap, no two rows share
  a run, type and idempotency key, and no request is claimed twice.
\<close>

theorem reachable_store_wf: "store_step\<^sup>*\<^sup>* EventStore0 st \<Longrightarrow> store_wf st"
proof (induction rule: rtranclp_induct)
  case base
  show ?case by (rule empty_store_wf)
next
  case (step st st')
  then show ?case by (blast intro: store_step_wf)
qed

section \<open>Ranges and the fold\<close>

lemma events_of_rows_filter:
  "events_of_rows (filter (\<lambda>r. P (er_seq r)) rows) = filter (\<lambda>e. P (ev_seq e)) (events_of_rows rows)"
  by (induction rows)
     (auto simp: events_of_rows_def map_filter_simps
       dest: event_from_row_fields split: option.split)

lemma get_event_range_filter:
  assumes "store_wf st"
  shows "get_event_range st run_id a b =
     filter (\<lambda>e. a \<le> ev_seq e \<and> (case b of None \<Rightarrow> True | Some t \<Rightarrow> ev_seq e \<le> t)) (get_events st run_id)"
proof -
  let ?P = "\<lambda>s. a \<le> s \<and> (case b of None \<Rightarrow> True | Some t \<Rightarrow> s \<le> t)"
  have c: "contiguous (es_events st) run_id" using assms by (simp add: store_wf_def rows_wf_def)
  have "sorted (map er_seq (run_rows run_id (es_events st)))" using c by (simp add: contiguous_def)
  then have "sorted (map er_seq (filter (\<lambda>r. ?P (er_seq r)) (run_rows run_id (es_events st))))"
    by (simp add: sorted_filter)
  then show ?thesis
    using assms by (simp add: get_event_range_def sort_key_id_if_sorted events_of_rows_filter[of ?P] get_events_rows store_wf_def)
qed

lemma sorted_split: "sorted (map f xs) \<Longrightarrow> filter (\<lambda>x. f x \<le> k) xs @ filter (\<lambda>x. \<not> f x \<le> k) xs = xs"
  by (induction xs) (auto simp: filter_empty_conv, metis (mono_tags) append_Nil filter_False filter_True order_trans)

lemma events_of_rows_from:
  "e \<in> set (events_of_rows rows) \<Longrightarrow> \<exists>r\<in>set rows. event_from_row r = Some e"
  by (auto simp: events_of_rows_def map_filter_def)

lemma events_of_rows_Cons:
  "events_of_rows (r # rows) = (case event_from_row r of None \<Rightarrow> events_of_rows rows | Some e \<Rightarrow> e # events_of_rows rows)"
  by (simp add: events_of_rows_def map_filter_simps split: option.split)

lemma sorted_events: "sorted (map er_seq rows) \<Longrightarrow> sorted (map ev_seq (events_of_rows rows))"
proof (induction rows)
  case (Cons r rows)
  have "er_seq r \<le> ev_seq e" if "e \<in> set (events_of_rows rows)" for e
    using events_of_rows_from[OF that] Cons.prems by (auto dest: event_from_row_fields)
  with Cons show ?case
    by (auto simp: events_of_rows_Cons dest!: event_from_row_fields split: option.split)
qed simp

text \<open>
  reading a run in two ranges, up to a checkpoint and after it, gives the whole stream, with
  no event lost or read twice at the boundary.
\<close>

theorem ranges_partition_stream:
  assumes "store_wf st"
  shows "get_event_range st run_id 1 (Some k) @ get_event_range st run_id (k + 1) None = get_events st run_id"
proof -
  have c: "map er_seq (run_rows run_id (es_events st)) = [1..int (length (run_rows run_id (es_events st)))]"
    using assms by (simp add: store_wf_def rows_wf_def contiguous_def)
  have get: "get_events st run_id = events_of_rows (run_rows run_id (es_events st))"
    using assms by (simp add: get_events_rows store_wf_def)
  have "sorted (map er_seq (run_rows run_id (es_events st)))" by (simp add: c)
  from sorted_split[OF sorted_events[OF this], of k] have
    "filter (\<lambda>e. ev_seq e \<le> k) (get_events st run_id) @ filter (\<lambda>e. \<not> ev_seq e \<le> k) (get_events st run_id)
       = get_events st run_id" by (simp only: get)
  moreover have "1 \<le> ev_seq e" if mem: "e \<in> set (get_events st run_id)" for e
  proof -
    obtain r where "r \<in> set (run_rows run_id (es_events st))" "event_from_row r = Some e"
      using events_of_rows_from[OF mem[unfolded get]] by blast
    then have "ev_seq e \<in> set (map er_seq (run_rows run_id (es_events st)))"
      using event_from_row_fields[of r e] by auto
    then show ?thesis by (simp only: c) simp
  qed
  then have "filter (\<lambda>e. 1 \<le> ev_seq e \<and> ev_seq e \<le> k) (get_events st run_id) = filter (\<lambda>e. ev_seq e \<le> k) (get_events st run_id)"
    by (intro filter_cong) auto
  ultimately show ?thesis
    by (simp add: get_event_range_filter[OF assms] not_le add1_zle_eq)
qed

text \<open>
  the state of a run after one more append is the old state advanced by the new event alone:
  folding the stream read back from the store is incremental.
\<close>

theorem fold_after_append:
  assumes "store_wf st" and "get_events st run_id \<noteq> []"
  shows "\<exists>e. event_content e = pt
     \<and> get_events (plain_append run_id pt st) run_id = get_events st run_id @ [e]
     \<and> fold_events (get_events (plain_append run_id pt st) run_id)
         = rbind (fold_events (get_events st run_id)) (apply_event e)"
proof -
  obtain e where e: "get_events (plain_append run_id pt st) run_id = get_events st run_id @ [e]" "event_content e = pt"
    by (rule store_log.read_write_snoc[OF assms(1)])
  have "fold_events (es @ [e]) = rbind (fold_events es) (apply_event e)" if "es \<noteq> []" for es
  proof -
    have "fold_result apply_event [e] s = apply_event e s" for s by (cases "apply_event e s") auto
    then have "fold_result apply_event [e] = apply_event e" by (rule ext)
    with that show ?thesis
      using fold_result_append[of apply_event es "[e]" "RunState0 (ev_run_id (hd es))"]
      by (cases es) (simp_all add: fold_events_def del: fold_result.simps)
  qed
  with e assms(2) show ?thesis by auto
qed

section \<open>Witnesses\<close>

definition sample_run_started :: run_payload where
  "sample_run_started = RunStarted \<lparr> rst_intent = ''read'', rst_current_request = None, rst_context_snapshot = [],
     rst_conversation_id = Some ''c1'', rst_workspace_id = None, rst_intent_raw = None, rst_contracts = [],
     rst_requires_contract_extraction = False \<rparr>"

definition sample_pause :: payload where
  "sample_pause = PRun (RunPaused \<lparr> rp_reason = ''x'' \<rparr>)"

definition keyed_opts :: append_opts where
  "keyed_opts = default_opts\<lparr>ao_idempotency_key := Some ''k''\<rparr>"

definition sample_store :: store where
  "sample_store = snd (claim_client_request EventStore0 ''c1'' ''q1'' ''r1'' sample_run_started ''t'' None 0)"

lemma sample_claim:
  "claim_client_request EventStore0 ''c1'' ''q1'' ''r1'' sample_run_started ''t'' None 0 = (Inr (''r1'', True), sample_store)"
  unfolding sample_store_def by code_simp

lemma sample_store_wf: "store_wf sample_store"
  unfolding sample_store_def by (rule store_wf_claim[OF empty_store_wf])

lemma append_event_outcome_witness:
  "\<exists>e. fst (append_event sample_store ''r1'' sample_pause keyed_opts 1) = Inr e \<and> ev_seq e = 2"
proof -
  have "dup_row (new_row sample_store ''r1'' sample_pause keyed_opts 1) (es_events sample_store) = None"
    "int (event_count sample_store ''r1'') + 1 = 2" by code_simp+
  with append_event_outcome[OF sample_store_wf, of "''r1''" sample_pause keyed_opts 1, OF surjective_pairing]
  show ?thesis by auto
qed

lemma append_event_idempotent_witness:
  "append_event (snd (append_event sample_store ''r1'' sample_pause keyed_opts 1)) ''r1'' sample_pause keyed_opts 2
     = append_event sample_store ''r1'' sample_pause keyed_opts 1"
proof -
  obtain e where e: "fst (append_event sample_store ''r1'' sample_pause keyed_opts 1) = Inr e"
    using append_event_result[OF sample_store_wf surjective_pairing] by blast
  show ?thesis
    by (subst append_event_idempotent[OF sample_store_wf, of keyed_opts "''k''" "''r1''" sample_pause 1 e])
       (use e in \<open>auto simp: keyed_opts_def prod_eq_iff\<close>)
qed

lemma concurrent_appends_write_once_witness:
  "fst (append_commit (snd (append_commit sample_store ''r1'' sample_pause keyed_opts 1)) ''r1'' sample_pause keyed_opts 2)
     = fst (append_commit sample_store ''r1'' sample_pause keyed_opts 1)"
proof -
  have key: "ao_idempotency_key keyed_opts = Some ''k''" by (simp add: keyed_opts_def)
  have "find_by_idempotency_key sample_store ''r1'' (payload_type sample_pause) ''k'' = None" by code_simp
  from concurrent_appends_write_once[OF sample_store_wf key this refl surjective_pairing surjective_pairing]
  show ?thesis by metis
qed

lemma claim_is_exclusive_witness:
  "claim_client_request sample_store ''c1'' ''q1'' ''r2'' sample_run_started ''t'' None 5 = (Inr (''r1'', False), sample_store)"
  using claim_is_exclusive[OF empty_store_wf sample_claim] by blast

lemma store_is_append_only_witness: "prefix (es_events EventStore0) (es_events sample_store)"
  by (rule store_is_append_only) (simp add: sample_store_def store_step.step_claim)

lemma reachable_store_wf_witness: "store_wf (snd (append_event sample_store ''r1'' sample_pause keyed_opts 1))"
proof (rule reachable_store_wf)
  have "store_step EventStore0 sample_store" by (simp add: sample_store_def store_step.step_claim)
  moreover have "store_step sample_store (snd (append_event sample_store ''r1'' sample_pause keyed_opts 1))"
    by (rule store_step.step_append)
  ultimately show "store_step\<^sup>*\<^sup>* EventStore0 (snd (append_event sample_store ''r1'' sample_pause keyed_opts 1))"
    by (rule converse_rtranclp_into_rtranclp[OF _ r_into_rtranclp])
qed

lemma ranges_partition_stream_witness:
  "get_event_range sample_store ''r1'' 1 (Some 1) @ get_event_range sample_store ''r1'' 2 None = get_events sample_store ''r1''"
  using ranges_partition_stream[OF sample_store_wf, of "''r1''" 1] by simp

lemma fold_after_append_witness:
  "\<exists>e. fold_events (get_events (plain_append ''r1'' (sample_pause, 3) sample_store) ''r1'')
     = rbind (fold_events (get_events sample_store ''r1'')) (apply_event e)"
proof -
  have "get_events sample_store ''r1'' \<noteq> []" by code_simp
  from fold_after_append[OF sample_store_wf this, of "(sample_pause, 3)"] show ?thesis by blast
qed

end
