(* ===== verification/Scoped_Store.thy ===== *)
theory Scoped_Store
  imports Store_Properties
begin

text \<open>
  The tenant-scoped facade of \<^verbatim>\<open>src/harness/storage/scoped.py\<close> and the tenant helpers of
  \<^verbatim>\<open>src/harness/core/tenant.py\<close> and \<^verbatim>\<open>src/harness/models/principal.py\<close>. The facade is a pair
  of the shared store and a fixed tenant id; each method is the method of the raw store with
  the tenant filled in or filtered on.
\<close>

section \<open>Principals\<close>

datatype role = VIEWER | OPERATOR_ROLE | ADMIN

fun role_level :: "role \<Rightarrow> nat" where
  "role_level VIEWER = 1"
| "role_level OPERATOR_ROLE = 2"
| "role_level ADMIN = 3"

record principal =
  pp_subject :: string
  pp_tenant_id :: string
  pp_roles :: "role list"

definition has_role :: "principal \<Rightarrow> role \<Rightarrow> bool" where
  "has_role p required =
     (case map role_level (pp_roles p) of
        [] \<Rightarrow> False
      | x # xs \<Rightarrow> role_level required \<le> fold max xs x)"

text \<open>\<open>current_tenant_id\<close>: the context variable holds the principal of the request, if any.\<close>

definition current_tenant_id :: "principal option \<Rightarrow> string result" where
  "current_tenant_id ctx =
     (case ctx of None \<Rightarrow> Inl (RuntimeErr ''No authenticated principal in context'') | Some p \<Rightarrow> Inr (pp_tenant_id p))"

section \<open>Tenant directories\<close>

definition is_tenant_char :: "char \<Rightarrow> bool" where
  "is_tenant_char c \<longleftrightarrow> is_alpha c \<or> is_digit c \<or> c \<in> {CHR ''_'', CHR ''.'', CHR ''-''}"

definition strip_dots :: "string \<Rightarrow> string" where
  "strip_dots s = rstrip_chars (\<lambda>c. c = CHR ''.'') (dropWhile (\<lambda>c. c = CHR ''.'') s)"

definition safe_tenant_dir_component :: "(string \<Rightarrow> string) \<Rightarrow> string \<Rightarrow> string" where
  "safe_tenant_dir_component sha256hex raw =
     (let v1 = map (\<lambda>c. if is_tenant_char c then c else CHR ''_'') raw;
          v2 = strip_dots v1;
          v3 = str_or (strip_dots (str_or (take 64 v2) ''tenant'')) ''tenant''
      in if v3 \<noteq> raw then take 48 v3 @ ''_'' @ take 12 (sha256hex raw) else v3)"

section \<open>The facade\<close>

definition ScopedEventStore :: "store \<Rightarrow> string \<Rightarrow> (store \<times> string) result" where
  "ScopedEventStore st tenant = (if tenant = [] then Inl (ValueError ''tenant_id is required'') else Inr (st, tenant))"

definition scoped_append ::
    "string \<Rightarrow> store \<Rightarrow> string \<Rightarrow> payload \<Rightarrow> string option \<Rightarrow> string option \<Rightarrow> bool \<Rightarrow> timestamp
      \<Rightarrow> (store_error + event) \<times> store" where
  "scoped_append tenant st run_id p key ws audit now =
     append_event st run_id p \<lparr> ao_tenant_id = tenant, ao_workspace_id = ws, ao_idempotency_key = key,
       ao_is_audit = audit \<rparr> now"

definition scoped_claim ::
    "string \<Rightarrow> store \<Rightarrow> string \<Rightarrow> string \<Rightarrow> string \<Rightarrow> run_payload \<Rightarrow> string option \<Rightarrow> timestamp
      \<Rightarrow> (store_error + string \<times> bool) \<times> store" where
  "scoped_claim tenant st conv req run_id p ws now = claim_client_request st conv req run_id p tenant ws now"

definition of_tenant :: "string \<Rightarrow> event list \<Rightarrow> event list" where
  "of_tenant tenant es = filter (\<lambda>e. ev_tenant_id e = tenant) es"

definition event_of_tenant :: "string \<Rightarrow> event option \<Rightarrow> event option" where
  "event_of_tenant tenant x = (case x of Some e \<Rightarrow> if ev_tenant_id e = tenant then Some e else None | None \<Rightarrow> None)"

definition scoped_get_events :: "string \<Rightarrow> store \<Rightarrow> string \<Rightarrow> event list" where
  "scoped_get_events tenant st run_id = of_tenant tenant (get_events st run_id)"

definition scoped_get_event_range :: "string \<Rightarrow> store \<Rightarrow> string \<Rightarrow> int \<Rightarrow> int option \<Rightarrow> event list" where
  "scoped_get_event_range tenant st run_id a b = of_tenant tenant (get_event_range st run_id a b)"

definition scoped_get_events_for_runs :: "string \<Rightarrow> store \<Rightarrow> string list \<Rightarrow> event list" where
  "scoped_get_events_for_runs tenant st run_ids = get_events_for_runs st run_ids (Some tenant)"

definition scoped_get_workspace :: "string \<Rightarrow> store \<Rightarrow> string \<Rightarrow> workspace option" where
  "scoped_get_workspace tenant st wid =
     (case get_workspace st wid of Some w \<Rightarrow> if ws_tenant_id w = tenant then Some w else None | None \<Rightarrow> None)"

definition scoped_get_workspace_events :: "string \<Rightarrow> store \<Rightarrow> string \<Rightarrow> event list" where
  "scoped_get_workspace_events tenant st wid =
     (if scoped_get_workspace tenant st wid = None then [] else get_workspace_events st wid (Some tenant))"

definition scoped_total_run_count :: "string \<Rightarrow> store \<Rightarrow> string option \<Rightarrow> nat" where
  "scoped_total_run_count tenant st ws = total_run_count st (Some tenant) ws"

definition scoped_list_all_run_ids :: "string \<Rightarrow> store \<Rightarrow> string list" where
  "scoped_list_all_run_ids tenant st = list_all_run_ids st (Some tenant)"

definition scoped_find_by_idempotency_key :: "string \<Rightarrow> store \<Rightarrow> string \<Rightarrow> event_type \<Rightarrow> string \<Rightarrow> event option" where
  "scoped_find_by_idempotency_key tenant st run_id et key =
     event_of_tenant tenant (find_by_idempotency_key st run_id et key)"

definition scoped_find_confirmation_by_id :: "string \<Rightarrow> store \<Rightarrow> string \<Rightarrow> string \<Rightarrow> event option" where
  "scoped_find_confirmation_by_id tenant st run_id cid = event_of_tenant tenant (find_confirmation_by_id st run_id cid)"

definition scoped_get_conversation :: "string \<Rightarrow> store \<Rightarrow> string \<Rightarrow> conversation_row option" where
  "scoped_get_conversation tenant st cid =
     (case get_conversation st cid of Some c \<Rightarrow> if cv_tenant_id c = tenant then Some c else None | None \<Rightarrow> None)"

definition scoped_delete_conversation :: "string \<Rightarrow> store \<Rightarrow> string \<Rightarrow> timestamp \<Rightarrow> store" where
  "scoped_delete_conversation tenant st cid now =
     (if scoped_get_conversation tenant st cid \<noteq> None then delete_conversation st cid now else st)"

definition scoped_update_conversation ::
    "string \<Rightarrow> store \<Rightarrow> string \<Rightarrow> string option \<Rightarrow> string option \<Rightarrow> timestamp \<Rightarrow> bool \<times> store" where
  "scoped_update_conversation tenant st cid title status now =
     (if scoped_get_conversation tenant st cid = None then (False, st)
      else update_conversation st cid title status now)"

definition scoped_total_conversation_count :: "string \<Rightarrow> store \<Rightarrow> string option \<Rightarrow> nat" where
  "scoped_total_conversation_count tenant st user = total_conversation_count st user (Some tenant)"

definition scoped_upsert_conversation :: "string \<Rightarrow> store \<Rightarrow> string \<Rightarrow> string \<Rightarrow> string \<Rightarrow> timestamp \<Rightarrow> store" where
  "scoped_upsert_conversation tenant st cid title user now = upsert_conversation st cid title user tenant now"

definition scoped_get_events_for_conversation :: "string \<Rightarrow> store \<Rightarrow> string \<Rightarrow> event list" where
  "scoped_get_events_for_conversation tenant st cid = of_tenant tenant (get_events_for_conversation st cid)"

definition scoped_increment_message_count :: "string \<Rightarrow> store \<Rightarrow> string \<Rightarrow> timestamp \<Rightarrow> store" where
  "scoped_increment_message_count tenant st cid now =
     (if scoped_get_conversation tenant st cid \<noteq> None then increment_message_count st cid now else st)"

definition scoped_list_workspaces :: "string \<Rightarrow> store \<Rightarrow> workspace list" where
  "scoped_list_workspaces tenant st = list_workspaces st (Some tenant) False"

definition scoped_create_workspace :: "string \<Rightarrow> store \<Rightarrow> workspace \<Rightarrow> (store_error + workspace) \<times> store" where
  "scoped_create_workspace tenant st w =
     (if ws_tenant_id w \<noteq> tenant
      then (Inl (StoreValueError ''workspace tenant does not match scoped tenant''), st)
      else case create_workspace st w of
             (Inr created, st') \<Rightarrow>
               if ws_tenant_id created \<noteq> tenant
               then (Inl (StoreValueError ''scoped tenant mismatch on workspace create''), st')
               else (Inr created, st')
           | (Inl err, st') \<Rightarrow> (Inl err, st'))"

definition scoped_update_workspace ::
    "string \<Rightarrow> store \<Rightarrow> string \<Rightarrow> workspace_update \<Rightarrow> timestamp \<Rightarrow> (store_error + workspace option) \<times> store" where
  "scoped_update_workspace tenant st wid up now =
     (if scoped_get_workspace tenant st wid = None then (Inr None, st) else update_workspace st wid up now)"

definition scoped_delete_workspace :: "string \<Rightarrow> store \<Rightarrow> string \<Rightarrow> timestamp \<Rightarrow> workspace option \<times> store" where
  "scoped_delete_workspace tenant st wid now =
     (if scoped_get_workspace tenant st wid = None then (None, st) else delete_workspace st wid now)"

definition scoped_ensure_tenant :: "string \<Rightarrow> store \<Rightarrow> timestamp \<Rightarrow> tenant \<times> store" where
  "scoped_ensure_tenant tenant st now = ensure_tenant st tenant [] now"

definition scoped_get_latest_seq :: "string \<Rightarrow> store \<Rightarrow> string \<Rightarrow> int" where
  "scoped_get_latest_seq tenant st run_id =
     (case map ev_seq (scoped_get_events tenant st run_id) of [] \<Rightarrow> 0 | x # xs \<Rightarrow> fold max xs x)"

section \<open>What belongs to a tenant\<close>

text \<open>The part of a store that belongs to one tenant.\<close>

definition tenant_view :: "string \<Rightarrow> store \<Rightarrow> event_row list \<times> workspace list \<times> conversation_row list \<times> claim_row list" where
  "tenant_view t st =
     (filter (\<lambda>r. er_tenant_id r = t) (es_events st), filter (\<lambda>w. ws_tenant_id w = t) (es_workspaces st),
      filter (\<lambda>c. cv_tenant_id c = t) (es_conversations st), filter (\<lambda>c. cl_tenant_id c = t) (es_claims st))"

text \<open>The primary keys of the workspace and conversation tables.\<close>

definition tables_wf :: "store \<Rightarrow> bool" where
  "tables_wf st \<longleftrightarrow> distinct (map ws_workspace_id (es_workspaces st))
     \<and> distinct (map cv_conversation_id (es_conversations st))"

lemma find_distinct:
  "distinct (map f xs) \<Longrightarrow> find (\<lambda>x. f x = k) xs = Some x \<Longrightarrow> y \<in> set xs \<Longrightarrow> f y = k \<Longrightarrow> y = x"
  by (auto simp: find_Some_iff distinct_map dest!: inj_onD)

lemma filter_map_same:
  "(\<And>x. x \<in> set xs \<Longrightarrow> P (f x) = P x) \<Longrightarrow> (\<And>x. x \<in> set xs \<Longrightarrow> P x \<Longrightarrow> f x = x) \<Longrightarrow> filter P (map f xs) = filter P xs"
  by (induction xs) auto

lemma other_tables2:
  "es_workspaces (prepopulate_run_to_conv_cache st) = es_workspaces st"
  "es_conversations (prepopulate_run_to_conv_cache st) = es_conversations st"
  "es_workspaces (evict_run_caches st run_id) = es_workspaces st"
  "es_conversations (evict_run_caches st run_id) = es_conversations st"
  "es_workspaces (snd (ensure_tenant st tid name now)) = es_workspaces st"
  "es_conversations (snd (ensure_tenant st tid name now)) = es_conversations st"
  "es_conversations (snd (create_workspace st w)) = es_conversations st"
  "es_conversations (snd (update_workspace st wid up now)) = es_conversations st"
  "es_conversations (snd (delete_workspace st wid now)) = es_conversations st"
  "es_workspaces (map_conversation cid f st) = es_workspaces st"
  "es_workspaces (upsert_conversation st cid title user tenant now) = es_workspaces st"
  "es_workspaces (snd (append_commit st run_id p opts now)) = es_workspaces st"
  "es_conversations (snd (append_commit st run_id p opts now)) = es_conversations st"
  "es_workspaces (snd (append_event st run_id p opts now)) = es_workspaces st"
  "es_conversations (snd (append_event st run_id p opts now)) = es_conversations st"
  "es_workspaces (snd (claim_commit st conv req run_id rp tenant ws now)) = es_workspaces st"
  "es_conversations (snd (claim_commit st conv req run_id rp tenant ws now)) = es_conversations st"
  "es_workspaces (snd (claim_client_request st conv req run_id rp tenant ws now)) = es_workspaces st"
  "es_conversations (snd (claim_client_request st conv req run_id rp tenant ws now)) = es_conversations st"
  by (simp_all add: prepopulate_run_to_conv_cache_def evict_run_caches_def ensure_tenant_def Let_def
      create_workspace_def update_workspace_def delete_workspace_def map_workspace_def map_conversation_def
      upsert_conversation_def append_commit_def append_event_def claim_commit_def claim_client_request_def notify_def
      split: option.split append_outcome.split sum.split)

lemma map_workspace_ids:
  "(\<And>w. ws_workspace_id (f w) = ws_workspace_id w) \<Longrightarrow>
   map ws_workspace_id (es_workspaces (map_workspace wid f st)) = map ws_workspace_id (es_workspaces st)"
  by (simp add: map_workspace_def)

lemma map_conversation_ids:
  "(\<And>c. cv_conversation_id (f c) = cv_conversation_id c) \<Longrightarrow>
   map cv_conversation_id (es_conversations (map_conversation cid f st)) = map cv_conversation_id (es_conversations st)"
  by (simp add: map_conversation_def)

lemma map_workspace_tables: "es_conversations (map_workspace wid f st) = es_conversations st"
  by (simp add: map_workspace_def)

lemma store_step_tables: "store_step st st' \<Longrightarrow> tables_wf st \<Longrightarrow> tables_wf st'"
proof (induction rule: store_step.induct)
  case (step_create_ws st w)
  then show ?case
    by (auto simp: create_workspace_def tables_wf_def workspace_conflict_def list_ex_iff split: option.split)
next
  case (step_update_ws st wid up now)
  then show ?case
    by (auto simp: update_workspace_def Let_def tables_wf_def map_workspace_ids map_workspace_tables
        simp del: map_map split: option.split)
next
  case (step_delete_ws st wid now)
  then show ?case
    by (auto simp: delete_workspace_def tables_wf_def map_workspace_ids map_workspace_tables
        simp del: map_map split: option.split)
next
  case (step_upsert_conv st cid title user tenant now)
  then show ?case
    by (auto simp: upsert_conversation_def tables_wf_def map_conversation_ids other_tables2 get_conversation_def
        find_None_iff simp del: map_map)
qed (auto simp: tables_wf_def other_tables2 conversation_defs map_conversation_ids simp del: map_map)

section \<open>Isolation\<close>

text \<open>Every write of the facade, for the tenant it is fixed to.\<close>

inductive scoped_step :: "string \<Rightarrow> store \<Rightarrow> store \<Rightarrow> bool" for tenant where
  sc_append: "scoped_step tenant st (snd (scoped_append tenant st run_id p key ws audit now))"
| sc_claim: "scoped_step tenant st (snd (scoped_claim tenant st conv req run_id rp ws now))"
| sc_delete_conv: "scoped_step tenant st (scoped_delete_conversation tenant st cid now)"
| sc_update_conv: "scoped_step tenant st (snd (scoped_update_conversation tenant st cid title' status' now))"
| sc_upsert_conv: "scoped_step tenant st (scoped_upsert_conversation tenant st cid title user now)"
| sc_increment: "scoped_step tenant st (scoped_increment_message_count tenant st cid now)"
| sc_create_ws: "scoped_step tenant st (snd (scoped_create_workspace tenant st w))"
| sc_update_ws: "scoped_step tenant st (snd (scoped_update_workspace tenant st wid up now))"
| sc_delete_ws: "scoped_step tenant st (snd (scoped_delete_workspace tenant st wid now))"
| sc_ensure: "scoped_step tenant st (snd (scoped_ensure_tenant tenant st now))"
| sc_evict: "scoped_step tenant st (evict_run_caches st run_id)"

lemma append_commit_events:
  "\<exists>new. es_events (snd (append_commit st run_id p opts now)) = es_events st @ new
     \<and> (\<forall>r\<in>set new. er_tenant_id r = ao_tenant_id opts)
     \<and> es_claims (snd (append_commit st run_id p opts now)) = es_claims st"
proof -
  have "\<exists>new. rows' = rows @ new \<and> (\<forall>q\<in>set new. er_tenant_id q = er_tenant_id r)"
    if "append_attempts n r rows = Written s rows'" for n r rows s rows'
    using that
  proof (induction n)
    case 0
    then show ?case by (subst (asm) append_attempts.simps)
        (auto simp: Let_def insert_row_def split: sum.splits insert_conflict.splits option.splits if_splits)
  next
    case (Suc n)
    then show ?case by (subst (asm) append_attempts.simps)
        (auto simp: Let_def insert_row_def split: sum.splits insert_conflict.splits option.splits if_splits)
  qed
  then show ?thesis
    by (fastforce simp: append_commit_def Let_def split: append_outcome.split)
qed

lemma claim_commit_events:
  "\<exists>new newc. es_events (snd (claim_commit st conv req run_id p tenant ws now)) = es_events st @ new
     \<and> es_claims (snd (claim_commit st conv req run_id p tenant ws now)) = es_claims st @ newc
     \<and> (\<forall>r\<in>set new. er_tenant_id r = tenant) \<and> (\<forall>c\<in>set newc. cl_tenant_id c = tenant)"
  by (auto simp: claim_commit_def Let_def insert_row_def claim_row_for_def split: option.split sum.split if_splits)

lemma map_conversation_view:
  assumes "tables_wf st" and "get_conversation st cid = Some c" and "cv_tenant_id c \<noteq> t"
    and "\<And>c. cv_tenant_id (f c) = cv_tenant_id c"
  shows "tenant_view t (map_conversation cid f st) = tenant_view t st"
proof -
  have "cv_tenant_id d \<noteq> t" if "d \<in> set (es_conversations st)" "cv_conversation_id d = cid" for d
    using find_distinct[of cv_conversation_id "es_conversations st" cid c d] that assms(1-3)
    by (auto simp: tables_wf_def get_conversation_def)
  then show ?thesis
    by (simp add: tenant_view_def map_conversation_def, intro filter_map_same) (auto simp: assms(4))
qed

lemma map_workspace_view:
  assumes "tables_wf st" and "get_workspace st wid = Some w" and "ws_tenant_id w \<noteq> t"
    and "\<And>w. ws_tenant_id (f w) = ws_tenant_id w"
  shows "tenant_view t (map_workspace wid f st) = tenant_view t st"
proof -
  have "ws_tenant_id v \<noteq> t" if "v \<in> set (es_workspaces st)" "ws_workspace_id v = wid" for v
    using find_distinct[of ws_workspace_id "es_workspaces st" wid w v] that assms(1-3)
    by (auto simp: tables_wf_def get_workspace_def)
  then show ?thesis
    by (simp add: tenant_view_def map_workspace_def, intro filter_map_same) (auto simp: assms(4))
qed


lemma filter_none: "(\<forall>x\<in>set xs. g x = t') \<Longrightarrow> t \<noteq> t' \<Longrightarrow> filter (\<lambda>x. g x = t) xs = []"
  by (auto simp: filter_empty_conv)

lemma scoped_append_view:
  assumes "tenant \<noteq> t"
  shows "tenant_view t (snd (scoped_append tenant st run_id p key ws audit now)) = tenant_view t st"
proof -
  let ?opts = "\<lparr> ao_tenant_id = tenant, ao_workspace_id = ws, ao_idempotency_key = key, ao_is_audit = audit \<rparr>"
  obtain new where "es_events (snd (append_commit st run_id p ?opts now)) = es_events st @ new"
    "\<forall>r\<in>set new. er_tenant_id r = tenant" "es_claims (snd (append_commit st run_id p ?opts now)) = es_claims st"
    using append_commit_events[of st run_id p ?opts now] by auto
  then have "tenant_view t (snd (append_commit st run_id p ?opts now)) = tenant_view t st"
    using assms by (simp add: tenant_view_def other_tables2 filter_none)
  then show ?thesis
    using append_event_commit[of st run_id p ?opts now] by (auto simp: scoped_append_def)
qed

lemma scoped_claim_view:
  assumes "tenant \<noteq> t"
  shows "tenant_view t (snd (scoped_claim tenant st conv req run_id p ws now)) = tenant_view t st"
proof -
  obtain new newc where "es_events (snd (claim_commit st conv req run_id p tenant ws now)) = es_events st @ new"
    "es_claims (snd (claim_commit st conv req run_id p tenant ws now)) = es_claims st @ newc"
    "\<forall>r\<in>set new. er_tenant_id r = tenant" "\<forall>c\<in>set newc. cl_tenant_id c = tenant"
    using claim_commit_events[of st conv req run_id p tenant ws now] by blast
  then have "tenant_view t (snd (claim_commit st conv req run_id p tenant ws now)) = tenant_view t st"
    using assms by (simp add: tenant_view_def other_tables2 filter_none)
  then show ?thesis
    by (auto simp: scoped_claim_def claim_client_request_def split: option.split)
qed

lemma tenant_view_other [simp]:
  "tenant_view t (snd (ensure_tenant st tid name now)) = tenant_view t st"
  "tenant_view t (evict_run_caches st run_id) = tenant_view t st"
  by (simp_all add: tenant_view_def other_tables other_tables2)

lemma scoped_conversation_Some:
  "scoped_get_conversation tenant st cid = Some c \<Longrightarrow> get_conversation st cid = Some c \<and> cv_tenant_id c = tenant"
  by (auto simp: scoped_get_conversation_def split: option.splits if_splits)

lemma scoped_workspace_Some:
  "scoped_get_workspace tenant st wid = Some w \<Longrightarrow> get_workspace st wid = Some w \<and> ws_tenant_id w = tenant"
  by (auto simp: scoped_get_workspace_def split: option.splits if_splits)

definition retitle :: "string \<Rightarrow> string \<Rightarrow> timestamp \<Rightarrow> conversation_row \<Rightarrow> conversation_row" where
  "retitle cid title now c = (if cv_conversation_id c = cid then c\<lparr>cv_title := title, cv_updated_at := now\<rparr> else c)"

lemma scoped_upsert_view:
  assumes "tables_wf st" "t \<noteq> tenant"
  shows "tenant_view t (scoped_upsert_conversation tenant st cid title user now) = tenant_view t st
    \<or> (\<exists>c. get_conversation st cid = Some c \<and> cv_tenant_id c = t)
      \<and> tenant_view t (scoped_upsert_conversation tenant st cid title user now)
        = (case tenant_view t st of (es, ws, cs, cl) \<Rightarrow> (es, ws, map (retitle cid title now) cs, cl))"
proof (cases "get_conversation st cid")
  case None
  then show ?thesis using assms(2) by (auto simp: scoped_upsert_conversation_def upsert_conversation_def tenant_view_def)
next
  case (Some c)
  then have up: "scoped_upsert_conversation tenant st cid title user now = map_conversation cid (\<lambda>c. c\<lparr>cv_title := title, cv_updated_at := now\<rparr>) st"
    by (simp add: scoped_upsert_conversation_def upsert_conversation_def)
  show ?thesis
  proof (cases "cv_tenant_id c = t")
    case False
    then show ?thesis unfolding up by (intro disjI1 map_conversation_view[OF assms(1) Some]) simp_all
  next
    case True
    have "filter (\<lambda>c. cv_tenant_id c = t) (map (retitle cid title now) cs) = map (retitle cid title now) (filter (\<lambda>c. cv_tenant_id c = t) cs)" for cs
      by (induction cs) (simp_all add: retitle_def)
    then show ?thesis using True Some unfolding up
      by (simp add: tenant_view_def map_conversation_def retitle_def[abs_def])
  qed
qed

text \<open>
  C36: A scoped write leaves what is stored under every other tenant, its events, workspaces, conversations and claims, as it was. The
  one exception is the conversation upsert with the id of a conversation of the other tenant: it changes the title and the time of the
  last update of that row, and nothing else.
\<close>

theorem scoped_writes_are_isolated:
  assumes "scoped_step tenant st st'" and "tables_wf st" and "t \<noteq> tenant"
  shows "tenant_view t st' = tenant_view t st
    \<or> (\<exists>cid title user now c. st' = scoped_upsert_conversation tenant st cid title user now
         \<and> get_conversation st cid = Some c \<and> cv_tenant_id c = t
         \<and> tenant_view t st' = (case tenant_view t st of (es, ws, cs, cl) \<Rightarrow> (es, ws, map (retitle cid title now) cs, cl)))"
  using assms
proof (induction rule: scoped_step.induct)
  case (sc_append st run_id p key ws audit now)
  then show ?case by (simp add: scoped_append_view)
next
  case (sc_claim st conv req run_id rp ws now)
  then show ?case by (simp add: scoped_claim_view)
next
  case (sc_delete_conv st cid now)
  then show ?case
    by (auto simp: scoped_delete_conversation_def delete_conversation_def
        dest!: scoped_conversation_Some intro!: map_conversation_view)
next
  case (sc_update_conv st cid title' status' now)
  then show ?case
    by (auto simp: scoped_update_conversation_def update_conversation_def
        dest!: scoped_conversation_Some intro!: map_conversation_view)
next
  case (sc_upsert_conv st cid title user now)
  then show ?case using scoped_upsert_view[of st t tenant cid title user now] by blast
next
  case (sc_increment st cid now)
  then show ?case
    by (auto simp: scoped_increment_message_count_def increment_message_count_def
        dest!: scoped_conversation_Some intro!: map_conversation_view)
next
  case (sc_create_ws st w)
  then show ?case
    by (auto simp: scoped_create_workspace_def create_workspace_def tenant_view_def split: option.split)
next
  case (sc_update_ws st wid up now)
  then show ?case
    by (auto simp: scoped_update_workspace_def update_workspace_def Let_def
        dest!: scoped_workspace_Some intro!: map_workspace_view)
next
  case (sc_delete_ws st wid now)
  then show ?case
    by (auto simp: scoped_delete_workspace_def delete_workspace_def
        dest!: scoped_workspace_Some intro!: map_workspace_view)
next
  case (sc_ensure st now)
  then show ?case by (simp add: scoped_ensure_tenant_def)
next
  case (sc_evict st run_id)
  then show ?case by simp
qed


text \<open>
  the conversation upsert does not read the tenant of an existing row: whichever tenant calls
  it, the title of another tenant's conversation with that id is overwritten.
\<close>

theorem scoped_upsert_overwrites_any_tenant:
  assumes "get_conversation st cid = Some c"
  shows "get_conversation (scoped_upsert_conversation tenant st cid title user now) cid
     = Some (c\<lparr>cv_title := title, cv_updated_at := now\<rparr>)"
proof -
  have "find (\<lambda>c. cv_conversation_id c = cid)
      (map (\<lambda>c. if cv_conversation_id c = cid then c\<lparr>cv_title := title, cv_updated_at := now\<rparr> else c) cs)
    = map_option (\<lambda>c. c\<lparr>cv_title := title, cv_updated_at := now\<rparr>) (find (\<lambda>c. cv_conversation_id c = cid) cs)" for cs :: "conversation_row list"
    by (induction cs) auto
  with assms show ?thesis
    by (simp add: scoped_upsert_conversation_def upsert_conversation_def map_conversation_def get_conversation_def)
qed

text \<open>
  the scoped timeline of a conversation is blind to the tenant: the query drops the tenant
  column, so a tenant other than the default one never sees an event, and the default tenant
  sees the events of every tenant.
\<close>

theorem scoped_conversation_timeline_is_tenant_blind:
  "(tenant \<noteq> ''default'' \<longrightarrow> scoped_get_events_for_conversation tenant st cid = [])
   \<and> scoped_get_events_for_conversation ''default'' st cid = get_events_for_conversation st cid"
  by (auto simp: scoped_get_events_for_conversation_def of_tenant_def get_events_for_conversation_def
      filter_empty_conv filter_id_conv)

section \<open>Tenant directories\<close>

lemma strip_dots_ends:
  "strip_dots s \<noteq> [] \<Longrightarrow> hd (strip_dots s) \<noteq> CHR ''.'' \<and> last (strip_dots s) \<noteq> CHR ''.''"
proof -
  let ?P = "\<lambda>c. c = CHR ''.''"
  define u where "u = dropWhile ?P s"
  assume ne: "strip_dots s \<noteq> []"
  then have v: "dropWhile ?P (rev u) \<noteq> []" by (simp add: strip_dots_def rstrip_chars_def u_def)
  have lst: "last (strip_dots s) \<noteq> CHR ''.''"
    using hd_dropWhile[OF v] v by (simp add: strip_dots_def rstrip_chars_def u_def last_rev)
  obtain w where w: "rev u = takeWhile ?P (rev u) @ dropWhile ?P (rev u)" by simp
  have "u = rev (dropWhile ?P (rev u)) @ rev (takeWhile ?P (rev u))"
    by (metis rev_append rev_rev_ident takeWhile_dropWhile_id)
  then have "hd u = hd (strip_dots s)"
    using ne by (metis hd_append rstrip_chars_def strip_dots_def u_def)
  moreover have "u \<noteq> []" using v by auto
  ultimately show ?thesis using lst hd_dropWhile[of ?P s] by (auto simp: u_def)
qed

lemma list_all_closed:
  "list_all P s \<Longrightarrow> list_all P t \<Longrightarrow> list_all P (str_or s t)"
  "list_all P s \<Longrightarrow> list_all P (take n s)"
  "list_all P s \<Longrightarrow> list_all P (strip_dots s)"
  by (auto simp: list_all_iff str_or_def strip_dots_def rstrip_chars_def dest!: set_dropWhileD in_set_takeD)

lemma tenant_chars:
  assumes "\<And>s. list_all is_tenant_char (sha256hex s)"
  shows "list_all is_tenant_char (safe_tenant_dir_component sha256hex raw)"
proof -
  have under: "is_tenant_char CHR ''_''" by code_simp
  have tenant: "list_all is_tenant_char ''tenant''" by code_simp
  have v1: "list_all is_tenant_char (map (\<lambda>c. if is_tenant_char c then c else CHR ''_'') raw)"
    using under by (auto simp: list_all_iff)
  have "list_all is_tenant_char (str_or (strip_dots (str_or (take 64 (strip_dots
      (map (\<lambda>c. if is_tenant_char c then c else CHR ''_'') raw))) ''tenant'')) ''tenant'')"
    by (intro list_all_closed v1 tenant)
  then show ?thesis
    by (auto simp: safe_tenant_dir_component_def Let_def under list_all_closed assms)
qed

text \<open>
  the directory name of a tenant is one safe path component: it is not empty, has only
  letters, digits, dots, underscores and hyphens, so no separator, and does not begin with a
  dot, so it is neither the current nor the parent directory.
\<close>

theorem tenant_dir_is_safe_component:
  assumes "\<And>s. list_all is_tenant_char (sha256hex s)"
  shows "safe_tenant_dir_component sha256hex raw \<noteq> []
     \<and> list_all is_tenant_char (safe_tenant_dir_component sha256hex raw)
     \<and> hd (safe_tenant_dir_component sha256hex raw) \<noteq> CHR ''.''
     \<and> CHR ''/'' \<notin> set (safe_tenant_dir_component sha256hex raw)"
proof -
  define w where "w = str_or (take 64 (strip_dots (map (\<lambda>c. if is_tenant_char c then c else CHR ''_'') raw))) ''tenant''"
  define v where "v = str_or (strip_dots w) ''tenant''"
  have v: "v \<noteq> []" "hd v \<noteq> CHR ''.''"
    using strip_dots_ends[of w] by (auto simp: v_def str_or_def)
  have eq: "safe_tenant_dir_component sha256hex raw = (if v \<noteq> raw then take 48 v @ ''_'' @ take 12 (sha256hex raw) else v)"
    by (simp add: safe_tenant_dir_component_def Let_def v_def w_def)
  have "hd (take 48 v @ xs) = hd v" for xs using v(1) by (cases v) auto
  moreover have "\<not> is_tenant_char CHR ''/''" by code_simp
  ultimately show ?thesis using v tenant_chars[of sha256hex raw, OF assms] eq by (auto simp: list_all_iff)
qed


lemma strip_dots_id: "s \<noteq> [] \<Longrightarrow> hd s \<noteq> CHR ''.'' \<Longrightarrow> last s \<noteq> CHR ''.'' \<Longrightarrow> strip_dots s = s"
proof -
  assume *: "s \<noteq> []" "hd s \<noteq> CHR ''.''" "last s \<noteq> CHR ''.''"
  have "dropWhile (\<lambda>c. c = CHR ''.'') s = s" using * by (cases s) auto
  moreover have "dropWhile (\<lambda>c. c = CHR ''.'') (rev s) = rev s"
    using * by (cases "rev s") (auto simp: hd_rev[symmetric])
  ultimately show ?thesis by (simp add: strip_dots_def rstrip_chars_def)
qed

lemma safe_tenant_dir_valid:
  assumes "s \<noteq> []" "list_all is_tenant_char s" "hd s \<noteq> CHR ''.''" "last s \<noteq> CHR ''.''" "length s \<le> 64"
  shows "safe_tenant_dir_component sha256hex s = s"
proof -
  have "map (\<lambda>c. if is_tenant_char c then c else CHR ''_'') s = s"
    using assms(2) by (auto simp: list_all_iff intro: map_idI)
  then show ?thesis
    using assms strip_dots_id[OF assms(1,3,4)] by (simp add: safe_tenant_dir_component_def Let_def str_or_def)
qed

text \<open>
  the directory name is not injective: an id that is rewritten gets a suffix that is itself
  made of valid characters, so the rewritten name of one tenant is the unchanged name of another.
\<close>

theorem tenant_dir_not_injective:
  assumes "\<And>s. length (sha256hex s) = 64" and "\<And>s. list_all (\<lambda>c. is_alpha c \<or> is_digit c) (sha256hex s)"
  shows "\<exists>a b. a \<noteq> b \<and> safe_tenant_dir_component sha256hex a = safe_tenant_dir_component sha256hex b"
proof -
  define h where "h = take 12 (sha256hex ''a/b'')"
  define b where "b = ''a_b_'' @ h"
  have h: "length h = 12" "list_all (\<lambda>c. is_alpha c \<or> is_digit c) h"
    using assms(1,2)[of "''a/b''"] by (auto simp: h_def list_all_iff dest!: in_set_takeD)
  have "map (\<lambda>c. if is_tenant_char c then c else CHR ''_'') ''a/b'' = ''a_b''" by code_simp
  moreover have "strip_dots ''a_b'' = ''a_b''" by code_simp
  ultimately have a: "safe_tenant_dir_component sha256hex ''a/b'' = b"
    by (simp add: safe_tenant_dir_component_def Let_def str_or_def b_def h_def)
  have dot: "\<not> (is_alpha CHR ''.'' \<or> is_digit CHR ''.'')" by code_simp
  have "last h \<noteq> CHR ''.''" using h dot by (cases h rule: rev_cases) auto
  moreover have "h \<noteq> []" using h by auto
  moreover have "list_all is_tenant_char ''a_b_''" by code_simp
  moreover have "list_all is_tenant_char h" using h(2) by (auto simp: list_all_iff is_tenant_char_def)
  ultimately have "safe_tenant_dir_component sha256hex b = b"
    using h(1) by (intro safe_tenant_dir_valid) (auto simp: b_def)
  moreover have "''a/b'' \<noteq> b" by (simp add: b_def)
  ultimately show ?thesis using a by metis
qed

section \<open>Witnesses\<close>

definition two_tenants :: store where
  "two_tenants = upsert_conversation EventStore0 ''c1'' ''mine'' ''u'' ''ta'' 0"

lemma scoped_writes_are_isolated_witness:
  "tenant_view ''ta'' (scoped_delete_conversation ''tb'' two_tenants ''c1'' 5) = tenant_view ''ta'' two_tenants"
proof -
  have wf: "tables_wf two_tenants"
    by (simp add: two_tenants_def tables_wf_def upsert_conversation_def get_conversation_def EventStore0_def)
  have "map cv_title (es_conversations (scoped_delete_conversation ''tb'' two_tenants ''c1'' 5)) = [''mine'']
      \<and> map cv_updated_at (es_conversations (scoped_delete_conversation ''tb'' two_tenants ''c1'' 5)) = [0]" by code_simp
  moreover have "map cv_title (es_conversations two_tenants) = [''mine''] \<and> map cv_updated_at (es_conversations two_tenants) = [0]" by code_simp
  moreover have "retitle cid title now z = z"
    if "cv_title (retitle cid title now z) = cv_title z" "cv_updated_at (retitle cid title now z) = cv_updated_at z" for cid title now z
    using that by (cases z) (auto simp: retitle_def)
  ultimately show ?thesis using scoped_writes_are_isolated[OF scoped_step.sc_delete_conv[of "''tb''" two_tenants "''c1''" 5] wf, of "''ta''"]
    by (fastforce simp: tenant_view_def split: if_splits)
qed

lemma scoped_upsert_overwrites_any_tenant_witness:
  "\<exists>c. cv_tenant_id c = ''ta'' \<and> cv_title c = ''stolen''
     \<and> get_conversation (scoped_upsert_conversation ''tb'' two_tenants ''c1'' ''stolen'' ''u'' 5) ''c1'' = Some c"
proof -
  obtain c where c: "get_conversation two_tenants ''c1'' = Some c" "cv_tenant_id c = ''ta''"
    by (auto simp: two_tenants_def upsert_conversation_def get_conversation_def EventStore0_def)
  from scoped_upsert_overwrites_any_tenant[OF c(1), of "''tb''" "''stolen''" "''u''" 5] c(2) show ?thesis by auto
qed

lemma scoped_conversation_timeline_is_tenant_blind_witness:
  "scoped_get_events_for_conversation ''t'' sample_store ''c1'' = []
   \<and> length (scoped_get_events_for_conversation ''default'' sample_store ''c1'') = 1"
proof -
  have "length (get_events_for_conversation sample_store ''c1'') = 1" by code_simp
  with scoped_conversation_timeline_is_tenant_blind[of "''t''" sample_store "''c1''"] show ?thesis by simp
qed

lemma tenant_dir_is_safe_component_witness:
  "hd (safe_tenant_dir_component (\<lambda>s. replicate 64 CHR ''0'') ''../etc'') \<noteq> CHR ''.''"
proof -
  have zero: "is_tenant_char CHR ''0''" by code_simp
  have "list_all is_tenant_char (replicate 64 CHR ''0'')" using zero by (simp add: list_all_iff)
  from tenant_dir_is_safe_component[of "\<lambda>s. replicate 64 CHR ''0''" "''../etc''", OF this] show ?thesis by blast
qed

lemma tenant_dir_not_injective_witness:
  "\<exists>a b. a \<noteq> b \<and> safe_tenant_dir_component (\<lambda>s. replicate 64 CHR ''0'') a
     = safe_tenant_dir_component (\<lambda>s. replicate 64 CHR ''0'') b"
proof (rule tenant_dir_not_injective)
  have zero: "is_digit CHR ''0''" by code_simp
  show "list_all (\<lambda>c. is_alpha c \<or> is_digit c) (replicate 64 CHR ''0'')" using zero by (simp add: list_all_iff)
qed simp

end
