(* ===== verification/Tool_Model.thy ===== *)
theory Tool_Model
  imports Event_Store
begin

text \<open>
  The tool contracts of \<^verbatim>\<open>src/harness/models/tools.py\<close> and the registry of
  \<^verbatim>\<open>src/harness/tools/registry.py\<close>: field roles, per-operation contracts and the rule by which
  they override the tool-level attributes, the safety rules a tool must satisfy to be
  registered, and registration itself. A tool implementation is a value of a type parameter.
\<close>

section \<open>Contracts\<close>

datatype field_role = DATA | AUTHORITY

definition FIELD_ROLE_KEY :: string where
  "FIELD_ROLE_KEY = ''x-role''"

definition field_role_of :: "json dict \<Rightarrow> string \<Rightarrow> field_role" where
  "field_role_of input_schema field =
     (case dget input_schema ''properties'' of
        Some (JDict props) \<Rightarrow>
          (case dget props field of
             Some (JDict prop) \<Rightarrow>
               if dget prop FIELD_ROLE_KEY = Some (JStr ''data'') then DATA else AUTHORITY
           | _ \<Rightarrow> AUTHORITY)
      | _ \<Rightarrow> AUTHORITY)"

datatype indicator_op = OpEq | OpNe | OpLt | OpLte | OpGt | OpGte | OpIn

record success_indicator =
  si_field :: string
  si_op :: indicator_op
  si_value :: json

datatype side_effect = WRITE | DELETE | EXTERNAL

definition unknown_tool_message :: "string \<Rightarrow> string" where
  "unknown_tool_message name = ''unknown tool '' @ quoted name"

datatype scope_kind = KPath | KDomain | KCommand

record tool_scope_target =
  sct_kind :: scope_kind
  sct_input_field :: string
  sct_config_key :: string

record dependency_constraint =
  dpc_event_type :: string
  dpc_payload_filter :: "json dict"
  dpc_message :: string

record guardrail =
  grl_type :: string
  grl_config :: "json dict"

record retry_policy =
  rtp_max_retries :: int
  rtp_backoff_base_ms :: int
  rtp_retryable_errors :: "string list"

record operation_contract =
  oc_operation :: string
  oc_input_schema :: "json dict"
  oc_output_schema :: "json dict"
  oc_side_effects :: "side_effect list"
  oc_requires_confirmation :: bool
  oc_idempotency_key_fields :: "string list option"
  oc_retry_policy :: "retry_policy option"
  oc_probe_allowed :: bool
  oc_required_input :: "string list"

record tool_definition =
  td_name :: string
  td_description :: string
  td_input_schema :: "json dict"
  td_output_schema :: "json dict"
  td_side_effects :: "side_effect list"
  td_requires_confirmation :: bool
  td_idempotency_key_fields :: "string list option"
  td_retry_policy :: retry_policy
  td_timeout_ms :: int
  td_guardrails :: "guardrail list option"
  td_depends_on :: "dependency_constraint list"
  td_dangerous_with :: "string list"
  td_max_parallel :: int
  td_success_indicator :: "success_indicator option"
  td_operations :: "operation_contract list"
  td_operation_key :: string
  td_default_operation :: "string option"
  td_scope_targets :: "tool_scope_target list"

text \<open>\<^verbatim>\<open>input.get(key)\<close>, with a missing key and an explicit null both read as None.\<close>

definition get_value :: "json dict \<Rightarrow> string \<Rightarrow> json option" where
  "get_value d k = (case dget d k of Some JNull \<Rightarrow> None | x \<Rightarrow> x)"

definition resolve_operation_contract :: "tool_definition \<Rightarrow> json dict \<Rightarrow> operation_contract option" where
  "resolve_operation_contract td inp =
     (if td_operations td = [] then None
      else case get_value inp (td_operation_key td) of
             Some v \<Rightarrow> find (\<lambda>op. JStr (oc_operation op) = v) (td_operations td)
           | None \<Rightarrow>
               (case td_default_operation td of
                  Some d \<Rightarrow> find (\<lambda>op. oc_operation op = d) (td_operations td)
                | None \<Rightarrow> None))"

definition effective_side_effects :: "tool_definition \<Rightarrow> json dict \<Rightarrow> side_effect list" where
  "effective_side_effects td inp =
     (case resolve_operation_contract td inp of Some op \<Rightarrow> oc_side_effects op | None \<Rightarrow> td_side_effects td)"

definition effective_requires_confirmation :: "tool_definition \<Rightarrow> json dict \<Rightarrow> bool" where
  "effective_requires_confirmation td inp =
     (case resolve_operation_contract td inp of
        Some op \<Rightarrow> oc_requires_confirmation op | None \<Rightarrow> td_requires_confirmation td)"

definition effective_idempotency_key_fields :: "tool_definition \<Rightarrow> json dict \<Rightarrow> string list option" where
  "effective_idempotency_key_fields td inp =
     (case resolve_operation_contract td inp of
        Some op \<Rightarrow> (case oc_idempotency_key_fields op of Some fs \<Rightarrow> Some fs | None \<Rightarrow> td_idempotency_key_fields td)
      | None \<Rightarrow> td_idempotency_key_fields td)"

definition ref_allowed :: "tool_definition \<Rightarrow> string \<Rightarrow> bool" where
  "ref_allowed td field = (field_role_of (td_input_schema td) field = DATA)"

section \<open>Registration\<close>

definition declared_guardrails :: "tool_definition \<Rightarrow> string list" where
  "declared_guardrails td = map grl_type (case td_guardrails td of None \<Rightarrow> [] | Some gs \<Rightarrow> gs)"

definition has_delete :: "tool_definition \<Rightarrow> bool" where
  "has_delete td = (DELETE \<in> set (td_side_effects td)
     \<or> list_ex (\<lambda>op. DELETE \<in> set (oc_side_effects op)) (td_operations td))"

definition delete_violation :: "string \<Rightarrow> string" where
  "delete_violation name = ''Tool '' @ quoted name @ '' declares SideEffect.DELETE (tool-level or on an operation) ''
     @ ''but does not attach the '' @ quoted ''destructive'' @ '' guardrail: ''
     @ ''deletions would execute without human confirmation. ''
     @ ''Add Guardrail(guardrail_type='' @ quoted ''destructive'' @ '') to the tool'' @ [CHR 0x27] @ ''s guardrails list.''"

definition scope_violation :: "string \<Rightarrow> string" where
  "scope_violation name = ''Tool '' @ quoted name @ '' declares scope_targets but does not attach the ''
     @ quoted ''scope'' @ '' guardrail: the whitelist would have no enforcer. ''
     @ ''Add Guardrail(guardrail_type='' @ quoted ''scope'' @ '') to the tool'' @ [CHR 0x27] @ ''s guardrails list.''"

definition egress_violation :: "string \<Rightarrow> string" where
  "egress_violation name = ''Tool '' @ quoted name @ '' declares a domain scope_target but does not attach the ''
     @ quoted ''egress'' @ '' guardrail: loopback/private/metadata addresses would remain ''
     @ ''reachable. Add Guardrail(guardrail_type='' @ quoted ''egress'' @ '') to the tool'' @ [CHR 0x27]
     @ ''s guardrails list.''"

definition validate_registration_safety :: "tool_definition \<Rightarrow> string list" where
  "validate_registration_safety td =
     (if has_delete td \<and> ''destructive'' \<notin> set (declared_guardrails td) then [delete_violation (td_name td)] else [])
     @ (if td_scope_targets td \<noteq> [] \<and> ''scope'' \<notin> set (declared_guardrails td)
        then [scope_violation (td_name td)] else [])
     @ (if list_ex (\<lambda>t. sct_kind t = KDomain) (td_scope_targets td) \<and> ''egress'' \<notin> set (declared_guardrails td)
        then [egress_violation (td_name td)] else [])"

text \<open>The two dictionaries of the registry, keyed by tool name.\<close>

record 'fn registry =
  rg_tools :: "tool_definition dict"
  rg_fns :: "'fn dict"

definition ToolRegistry0 :: "'fn registry" where
  "ToolRegistry0 = \<lparr> rg_tools = [], rg_fns = [] \<rparr>"

definition register_raw :: "'fn registry \<Rightarrow> tool_definition \<Rightarrow> 'fn \<Rightarrow> ('fn registry \<times> string) result" where
  "register_raw rg td fn =
     (if has_key (rg_tools rg) (td_name td)
      then Inl (ValueError (''Tool '' @ quoted (td_name td) @ '' is already registered''))
      else Inr (rg\<lparr>rg_tools := dset (td_name td) td (rg_tools rg), rg_fns := dset (td_name td) fn (rg_fns rg)\<rparr>,
                td_name td))"

text \<open>\<open>register_tool\<close>: \<open>td\<close> is the definition the tool synthesises, \<open>fn\<close> its invoker.\<close>

definition register_tool :: "'fn registry \<Rightarrow> tool_definition \<Rightarrow> 'fn \<Rightarrow> ('fn registry \<times> string) result" where
  "register_tool rg td fn =
     (let violations = validate_registration_safety td
      in if violations \<noteq> []
         then Inl (ValueError (''Refusing to register tool '' @ quoted (td_name td)
                @ '' due to safety contract violations:'' @ [CHR 0x0A] @ ''  - ''
                @ join ([CHR 0x0A] @ ''  - '') violations))
         else register_raw rg td fn)"

definition get_tool_def :: "'fn registry \<Rightarrow> string \<Rightarrow> tool_definition option" where
  "get_tool_def rg name = dget (rg_tools rg) name"

definition get_tool_fn :: "'fn registry \<Rightarrow> string \<Rightarrow> 'fn option" where
  "get_tool_fn rg name = dget (rg_fns rg) name"

definition tool_def_or_error :: "'fn registry \<Rightarrow> string \<Rightarrow> tool_definition option \<times> string option" where
  "tool_def_or_error rg name =
     (case get_tool_def rg name of
        None \<Rightarrow> (None, Some (unknown_tool_message name))
      | Some td \<Rightarrow> (Some td, None))"

definition require_tool_def :: "'fn registry \<Rightarrow> string \<Rightarrow> tool_definition result" where
  "require_tool_def rg name =
     (case fst (tool_def_or_error rg name) of
        None \<Rightarrow> Inl (LookupErr (unknown_tool_message name))
      | Some td \<Rightarrow> Inr td)"

definition remove_tool :: "'fn registry \<Rightarrow> string \<Rightarrow> 'fn registry" where
  "remove_tool rg name = rg\<lparr>rg_tools := AList.delete name (rg_tools rg), rg_fns := AList.delete name (rg_fns rg)\<rparr>"

definition tool_names :: "'fn registry \<Rightarrow> string list" where
  "tool_names rg = keys (rg_tools rg)"

section \<open>Registered tools\<close>

text \<open>The invariant of the registry: every stored definition is safe, filed under its name, with a function.\<close>

definition registry_wf :: "'fn registry \<Rightarrow> bool" where
  "registry_wf rg \<longleftrightarrow> distinct (keys (rg_tools rg)) \<and> set (keys (rg_fns rg)) = set (keys (rg_tools rg))
     \<and> list_all (\<lambda>(k, td). td_name td = k \<and> validate_registration_safety td = []) (rg_tools rg)"

lemma list_all_delete: "list_all P d \<Longrightarrow> list_all P (AList.delete k d)"
  by (auto simp: list_all_iff AList.delete_eq)

lemma registry_wf_remove: "registry_wf rg \<Longrightarrow> registry_wf (remove_tool rg name)"
  by (auto simp: registry_wf_def remove_tool_def list_all_delete delete_keys distinct_removeAll)

lemma dset_new: "k \<notin> set (keys d) \<Longrightarrow> dset k v d = d @ [(k, v)]"
  by (induction d) auto

lemma registry_wf_register: "registry_wf rg \<Longrightarrow> register_tool rg td fn = Inr (rg', n) \<Longrightarrow> registry_wf rg'"
proof -
  assume wf: "registry_wf rg" and "register_tool rg td fn = Inr (rg', n)"
  then have new: "validate_registration_safety td = []" "td_name td \<notin> set (keys (rg_tools rg))"
    and rg': "rg' = rg\<lparr>rg_tools := dset (td_name td) td (rg_tools rg), rg_fns := dset (td_name td) fn (rg_fns rg)\<rparr>"
    by (auto simp: register_tool_def register_raw_def Let_def map_of_eq_None_iff split: if_splits)
  have "dset (td_name td) td (rg_tools rg) = rg_tools rg @ [(td_name td, td)]"
    using new(2) by (simp add: dset_new)
  then show ?thesis using wf new rg' by (auto simp: registry_wf_def update_keys)
qed

text \<open>The life of a registry through its public operations.\<close>

inductive registry_step :: "'fn registry \<Rightarrow> 'fn registry \<Rightarrow> bool" where
  step_register: "register_tool rg td fn = Inr (rg', n) \<Longrightarrow> registry_step rg rg'"
| step_remove: "registry_step rg (remove_tool rg name)"

lemma registry_reachable_wf: "registry_step\<^sup>*\<^sup>* ToolRegistry0 rg \<Longrightarrow> registry_wf rg"
proof (induction rule: rtranclp_induct)
  case base
  show ?case by (simp add: registry_wf_def ToolRegistry0_def)
next
  case (step a b)
  from step(2,3) show ?case
    by cases (auto intro: registry_wf_register registry_wf_remove)
qed

text \<open>C38: Every tool a registry built by registering and removing returns is filed under its own name, has an implementation,
  and satisfies the three safety rules; registering a name twice is refused and leaves the registry as it was.\<close>

theorem registered_tools_are_safe:
  assumes "registry_step\<^sup>*\<^sup>* ToolRegistry0 rg" and "get_tool_def rg name = Some td"
  shows "td_name td = name \<and> get_tool_fn rg name \<noteq> None
    \<and> (has_delete td \<longrightarrow> ''destructive'' \<in> set (declared_guardrails td))
    \<and> (td_scope_targets td \<noteq> [] \<longrightarrow> ''scope'' \<in> set (declared_guardrails td))
    \<and> (list_ex (\<lambda>t. sct_kind t = KDomain) (td_scope_targets td) \<longrightarrow> ''egress'' \<in> set (declared_guardrails td))
    \<and> (\<forall>td2 fn. td_name td2 = name \<longrightarrow> (\<exists>e. register_tool rg td2 fn = Inl e))"
proof -
  note wf = registry_reachable_wf[OF assms(1)]
  have mem: "(name, td) \<in> set (rg_tools rg)" using assms(2) by (auto simp: get_tool_def_def dest: map_of_SomeD)
  then have name: "td_name td = name" "validate_registration_safety td = []" using wf by (auto simp: registry_wf_def list_all_iff)
  have "name \<in> set (keys (rg_fns rg))" using wf mem by (force simp: registry_wf_def)
  then have fn: "get_tool_fn rg name \<noteq> None" by (simp add: get_tool_fn_def has_key_iff del: not_None_eq)
  have "\<exists>e. register_tool rg td2 fn = Inl e" if "td_name td2 = name" for td2 fn
    using assms(2) that by (auto simp: register_tool_def register_raw_def Let_def get_tool_def_def)
  with name fn show ?thesis by (auto simp: validate_registration_safety_def split: if_splits)
qed

section \<open>Samples\<close>

definition sample_delete_op :: operation_contract where
  "sample_delete_op = \<lparr> oc_operation = ''delete'', oc_input_schema = [], oc_output_schema = [], oc_side_effects = [DELETE],
     oc_requires_confirmation = False, oc_idempotency_key_fields = None, oc_retry_policy = None, oc_probe_allowed = False,
     oc_required_input = [] \<rparr>"

definition sample_tool :: tool_definition where
  "sample_tool = \<lparr> td_name = ''file_op'', td_description = [], td_input_schema = [], td_output_schema = [], td_side_effects = [DELETE],
     td_requires_confirmation = False, td_idempotency_key_fields = Some [''operation'', ''path''],
     td_retry_policy = \<lparr> rtp_max_retries = 2, rtp_backoff_base_ms = 100, rtp_retryable_errors = [] \<rparr>, td_timeout_ms = 1000,
     td_guardrails = Some [\<lparr> grl_type = ''destructive'', grl_config = [] \<rparr>], td_depends_on = [], td_dangerous_with = [],
     td_max_parallel = 1, td_success_indicator = None, td_operations = [sample_delete_op], td_operation_key = ''operation'',
     td_default_operation = None, td_scope_targets = [] \<rparr>"

definition sample_delete_input :: "json dict" where
  "sample_delete_input = [(''operation'', JStr ''delete''), (''path'', JStr ''a.txt'')]"

definition sample_registry :: "unit registry" where
  "sample_registry = (case register_tool ToolRegistry0 sample_tool () of Inr (rg, _) \<Rightarrow> rg | Inl _ \<Rightarrow> ToolRegistry0)"

lemma registered_tools_are_safe_witness:
  "has_delete sample_tool \<and> ''destructive'' \<in> set (declared_guardrails sample_tool) \<and> get_tool_fn sample_registry ''file_op'' \<noteq> None"
proof -
  have "register_tool ToolRegistry0 sample_tool () = Inr (sample_registry, ''file_op'')"
    and get: "get_tool_def sample_registry ''file_op'' = Some sample_tool" and "has_delete sample_tool"
    unfolding sample_registry_def by code_simp+
  then have "registry_step\<^sup>*\<^sup>* ToolRegistry0 sample_registry" by (blast intro: registry_step.step_register)
  from registered_tools_are_safe[OF this get] \<open>has_delete sample_tool\<close> show ?thesis by blast
qed

end
