(* ===== verification/Guardrails.thy ===== *)
theory Guardrails
  imports Tool_Model
begin

text \<open>
  The guardrails of \<^verbatim>\<open>src/harness/tools/guardrails.py\<close> and the egress policy of
  \<^verbatim>\<open>src/harness/tools/egress.py\<close>. What lies outside the repository is a field of \<open>guard_env\<close>:
  JSON-schema validation, URL splitting, address parsing and DNS, shell-word splitting, the
  dump of a payload to its dictionary, and custom guardrail classes. The rate limiter's
  class-level history is explicit state. A raised exception is the left value.
\<close>

record guardrail_result =
  gr_passed :: bool
  gr_id :: string
  gr_reason :: string
  gr_triggers_confirmation :: bool

definition gr_pass :: "string \<Rightarrow> guardrail_result" where
  "gr_pass gid = \<lparr> gr_passed = True, gr_id = gid, gr_reason = [], gr_triggers_confirmation = False \<rparr>"

definition gr_block :: "string \<Rightarrow> string \<Rightarrow> guardrail_result" where
  "gr_block gid why = \<lparr> gr_passed = False, gr_id = gid, gr_reason = why, gr_triggers_confirmation = False \<rparr>"

text \<open>The attributes of an \<^verbatim>\<open>ipaddress\<close> object that the policy reads.\<close>

datatype ip_address = IP (ip_text: string) (ip_multicast: bool) (ip_reserved: bool) (ip_unspecified: bool)
  (ip_global: bool) (ip_mapped: "ip_address option")

datatype dns_outcome = DnsAddresses "ip_address list" | DnsGaiError | DnsTimeout | DnsOSError

record url_parts =
  url_scheme :: string
  url_username :: "string option"
  url_password :: "string option"
  url_hostname :: "string option"
  url_port :: "int option option"

record guard_env =
  ge_schema_error :: "json dict \<Rightarrow> json dict \<Rightarrow> string option"
  ge_urlsplit :: "string \<Rightarrow> url_parts"
  ge_literal_ip :: "string \<Rightarrow> ip_address option"
  ge_resolve_ips :: "string \<Rightarrow> int \<Rightarrow> dns_outcome"
  ge_shlex_split :: "string \<Rightarrow> string list option"
  ge_dump :: "payload \<Rightarrow> json dict"
  ge_custom :: "string \<Rightarrow> (tool_definition \<Rightarrow> json dict \<Rightarrow> json dict \<Rightarrow> guardrail_result result) option"

section \<open>Schema\<close>

definition schema_check :: "guard_env \<Rightarrow> tool_definition \<Rightarrow> json dict \<Rightarrow> guardrail_result" where
  "schema_check env td inp =
     (case ge_schema_error env (td_input_schema td) inp of
        None \<Rightarrow> gr_pass ''schema''
      | Some msg \<Rightarrow> gr_block ''schema'' msg)"

section \<open>Egress\<close>

primrec is_blocked_ip :: "ip_address \<Rightarrow> bool" where
  "is_blocked_ip (IP txt mc rs un gl mapped) =
     (case map_option is_blocked_ip mapped of
        Some b \<Rightarrow> b
      | None \<Rightarrow> if mc \<or> rs \<or> un then True else \<not> gl)"

text \<open>The end of \<open>validate_egress_url\<close>, on what the resolver answered.\<close>

fun dns_verdict :: "string \<Rightarrow> dns_outcome \<Rightarrow> string option" where
  "dns_verdict host DnsGaiError = None"
| "dns_verdict host DnsTimeout = Some (''Egress target '' @ quoted host @ '' DNS resolution timed out'')"
| "dns_verdict host DnsOSError = Some (''Egress target '' @ quoted host @ '' could not be resolved'')"
| "dns_verdict host (DnsAddresses ips) =
     (case sort (map ip_text (filter is_blocked_ip ips)) of
        [] \<Rightarrow> None
      | b # _ \<Rightarrow> Some (''Egress target '' @ quoted host @ '' resolves to a disallowed address: '' @ b))"

text \<open>\<open>validate_egress_url\<close>: the message of the \<^verbatim>\<open>EgressBlockedError\<close>, or None when it returns.\<close>

definition validate_egress_url :: "guard_env \<Rightarrow> string \<Rightarrow> string option" where
  "validate_egress_url env url =
     (let parts = ge_urlsplit env url
      in if url_scheme parts \<notin> {''http'', ''https''}
         then Some (''Egress target scheme '' @ quoted (str_or (url_scheme parts) ''(missing)'') @ '' is not allowed'')
         else if opt_truthy (url_username parts) \<or> opt_truthy (url_password parts)
         then Some ''Egress target must not embed credentials''
         else case url_hostname parts of
                None \<Rightarrow> Some ''Egress target is missing a hostname''
              | Some host \<Rightarrow>
                  if host = [] then Some ''Egress target is missing a hostname''
                  else case url_port parts of
                         None \<Rightarrow> Some ''Egress target has an invalid port''
                       | Some p \<Rightarrow>
                           (let dflt = (if url_scheme parts = ''https'' then 443 else 80);
                                port = (case p of None \<Rightarrow> dflt | Some n \<Rightarrow> if n = 0 then dflt else n)
                            in case ge_literal_ip env host of
                                 Some ip \<Rightarrow>
                                   if is_blocked_ip ip
                                   then Some (''Egress target address '' @ ip_text ip @ '' is not allowed'') else None
                               | None \<Rightarrow>
                                   dns_verdict host (ge_resolve_ips env host port)))"

definition egress_check :: "guard_env \<Rightarrow> json dict \<Rightarrow> guardrail_result" where
  "egress_check env inp =
     (case dget inp ''url'' of
        Some (JStr url) \<Rightarrow>
          if url = [] then gr_block ''egress'' ''Egress target URL is missing''
          else (case validate_egress_url env url of
                  Some msg \<Rightarrow> gr_block ''egress'' msg
                | None \<Rightarrow> gr_pass ''egress'')
      | _ \<Rightarrow> gr_block ''egress'' ''Egress target URL is missing'')"

section \<open>Scope\<close>

text \<open>\<^verbatim>\<open>posixpath.commonpath([a, b])\<close>; None is its ValueError on mixed absolute and relative paths.\<close>

fun lcp :: "'a list \<Rightarrow> 'a list \<Rightarrow> 'a list" where
  "lcp (x # xs) (y # ys) = (if x = y then x # lcp xs ys else [])"
| "lcp _ _ = []"

definition path_components :: "string \<Rightarrow> string list" where
  "path_components p = filter (\<lambda>c. c \<noteq> [] \<and> c \<noteq> ''.'') (split_on (CHR ''/'') p)"

definition is_abs :: "string \<Rightarrow> bool" where
  "is_abs p = starts_with ''/'' p"

definition commonpath :: "string \<Rightarrow> string \<Rightarrow> string option" where
  "commonpath a b =
     (if is_abs a \<noteq> is_abs b then None
      else Some ((if is_abs a then ''/'' else []) @ join ''/'' (lcp (path_components a) (path_components b))))"

definition to_slashes :: "string \<Rightarrow> string" where
  "to_slashes p = map (\<lambda>c. if c = CHR 0x5C then CHR ''/'' else c) p"

definition path_within :: "string \<Rightarrow> string list \<Rightarrow> bool" where
  "path_within path directories =
     list_ex (\<lambda>d. commonpath (to_slashes path) (to_slashes d) = Some (to_slashes d)) directories"

text \<open>
  A whitelist of the configuration: a list of strings (or a string, whose characters are
  listed); anything else fails when it is used.
\<close>

fun cfg_strings :: "json option \<Rightarrow> string list result" where
  "cfg_strings None = Inr []"
| "cfg_strings (Some (JList xs)) =
     (if list_all is_jstr xs then Inr (map py_str xs) else Inl (TypeErr ''whitelist entry is not a string''))"
| "cfg_strings (Some (JStr s)) = Inr (map (\<lambda>c. [c]) s)"
| "cfg_strings (Some _) = Inl (TypeErr ''object is not iterable'')"

fun default_config_key :: "scope_kind \<Rightarrow> string" where
  "default_config_key KPath = ''allowed_directories''"
| "default_config_key KDomain = ''allowed_domains''"
| "default_config_key KCommand = ''allowed_commands''"

definition show_allowed :: "string list \<Rightarrow> string" where
  "show_allowed allowed = py_repr (JList (map JStr allowed))"

definition or_empty :: "json option \<Rightarrow> string" where
  "or_empty raw = (case raw of Some v \<Rightarrow> if truthy v then py_str v else [] | None \<Rightarrow> [])"

definition shell_tokens :: "string list" where
  "shell_tokens = ['';'', ''&&'', ''||'', ''|'', ''>'', ''<'', [CHR 0x60], ''$'', ''('', '')'']"

definition strip_quotes :: "string \<Rightarrow> string" where
  "strip_quotes s = rstrip_chars (\<lambda>c. c = CHR 0x22 \<or> c = CHR 0x27) (dropWhile (\<lambda>c. c = CHR 0x22 \<or> c = CHR 0x27) s)"

definition command_allowed :: "guard_env \<Rightarrow> string \<Rightarrow> string list \<Rightarrow> bool" where
  "command_allowed env command allowed =
     (let argv = (case ge_shlex_split env command of None \<Rightarrow> [] | Some ws \<Rightarrow> ws);
          executable = (case argv of [] \<Rightarrow> [] | w # _ \<Rightarrow> strip_quotes w)
      in executable \<noteq> [] \<and> \<not> list_ex (\<lambda>t. contains_sub t command) shell_tokens \<and> executable \<in> set allowed)"

definition domain_allowed :: "string \<Rightarrow> string list \<Rightarrow> bool" where
  "domain_allowed domain allowed = list_ex (\<lambda>d. domain = d \<or> ends_with (''.'' @ d) domain) allowed"

definition url_domain :: "guard_env \<Rightarrow> string \<Rightarrow> string" where
  "url_domain env url = (case url_hostname (ge_urlsplit env url) of None \<Rightarrow> [] | Some h \<Rightarrow> h)"

text \<open>One target: None when it is satisfied, the blocking result otherwise.\<close>

definition scope_target_check ::
    "guard_env \<Rightarrow> json dict \<Rightarrow> json dict \<Rightarrow> tool_scope_target \<Rightarrow> guardrail_result option result" where
  "scope_target_check env inp config t =
     rbind (cfg_strings (dget config (str_or (sct_config_key t) (default_config_key (sct_kind t))))) (\<lambda>allowed.
       let raw = get_value inp (sct_input_field t)
       in Inr (case sct_kind t of
            KPath \<Rightarrow>
              (case raw of
                 None \<Rightarrow> None
               | Some v \<Rightarrow>
                   if allowed = [] \<or> path_within (py_str v) allowed then None
                   else Some (gr_block ''scope'' (''Path '' @ quoted (py_str v) @ '' is outside allowed directories: ''
                          @ show_allowed allowed)))
          | KDomain \<Rightarrow>
              (let domain = url_domain env (or_empty raw)
               in if allowed = [] \<or> domain_allowed domain allowed then None
                  else Some (gr_block ''scope'' (''Domain '' @ quoted domain @ '' is not in allowed list: ''
                          @ show_allowed allowed)))
          | KCommand \<Rightarrow>
              if allowed = [] \<or> command_allowed env (or_empty raw) allowed then None
              else Some (gr_block ''scope'' (''Command not in allowed list: '' @ show_allowed allowed))))"

fun scope_targets_check ::
    "guard_env \<Rightarrow> json dict \<Rightarrow> json dict \<Rightarrow> tool_scope_target list \<Rightarrow> guardrail_result result" where
  "scope_targets_check env inp config [] = Inr (gr_pass ''scope'')"
| "scope_targets_check env inp config (t # ts) =
     rbind (scope_target_check env inp config t) (\<lambda>r.
       case r of Some g \<Rightarrow> Inr g | None \<Rightarrow> scope_targets_check env inp config ts)"

definition scope_check :: "guard_env \<Rightarrow> tool_definition \<Rightarrow> json dict \<Rightarrow> json dict \<Rightarrow> guardrail_result result" where
  "scope_check env td inp config = scope_targets_check env inp config (td_scope_targets td)"

text \<open>With a backend, every path target is first resolved by it; \<open>Some msg\<close> is its PermissionError.\<close>

definition scope_check_async ::
    "guard_env \<Rightarrow> (string \<Rightarrow> string option) \<Rightarrow> tool_definition \<Rightarrow> json dict \<Rightarrow> json dict \<Rightarrow> guardrail_result result" where
  "scope_check_async env resolve td inp config =
     (case List.map_filter (\<lambda>t. if sct_kind t = KPath
                                 then Option.bind (get_value inp (sct_input_field t)) (\<lambda>v. resolve (py_str v))
                                 else None) (td_scope_targets td) of
        msg # _ \<Rightarrow> Inr (gr_block ''scope'' msg)
      | [] \<Rightarrow> scope_check env td inp config)"

section \<open>Tool whitelist\<close>

definition whitelist_is_allowed :: "string list \<Rightarrow> string \<Rightarrow> bool" where
  "whitelist_is_allowed allowed name =
     (name \<in> set allowed \<or> list_ex (\<lambda>e. ends_with ''*'' e \<and> starts_with (butlast e) name) allowed)"

definition whitelist_check :: "tool_definition \<Rightarrow> workspace_scope option \<Rightarrow> guardrail_result" where
  "whitelist_check td scope =
     (case Option.bind scope wss_allowed_tools of
        Some allowed \<Rightarrow>
          if whitelist_is_allowed allowed (td_name td) then gr_pass ''tool_whitelist''
          else gr_block ''tool_whitelist'' (''Tool '' @ quoted (td_name td) @ '' not allowed in this workspace'')
      | None \<Rightarrow> gr_pass ''tool_whitelist'')"

section \<open>Rate limit\<close>

type_synonym history = "timestamp list dict"

definition num_rat :: "json \<Rightarrow> rat option" where
  "num_rat v = map_option (\<lambda>s. case decimal_parts s of (m, e) \<Rightarrow>
     if 0 \<le> e then of_int (m * 10 ^ nat e) else of_int m / of_int (10 ^ nat (- e))) (num_text v)"

definition make_key :: "string \<Rightarrow> string \<Rightarrow> json dict \<Rightarrow> string" where
  "make_key scope name config =
     (if scope = ''run'' then ''run:'' @ py_str (dget_or (JStr []) config ''run_id'') @ '':'' @ name
      else ''tool:'' @ name)"

definition rate_limit_check ::
    "history \<Rightarrow> timestamp \<Rightarrow> tool_definition \<Rightarrow> json dict \<Rightarrow> (guardrail_result result) \<times> history" where
  "rate_limit_check hist now td config =
     (let max_calls = dget_or (JInt 10) config ''max_calls'';
          window = dget_or (JInt 60) config ''window_seconds'';
          scope = py_str (dget_or (JStr ''tool'') config ''scope'');
          key = make_key scope (td_name td) config;
          old = dget_or [] hist key
      in case (num_rat window, num_rat max_calls) of
           (Some w, Some m) \<Rightarrow>
             (let recent = filter (\<lambda>t. now - t < w) old;
                  hist1 = (if recent = [] then AList.delete key hist @ [(key, [])] else dset key recent hist)
              in if m \<le> of_nat (length recent)
                 then (Inr (gr_block ''rate_limit'' (''Rate limit exceeded: '' @ py_str max_calls @ '' calls per ''
                         @ py_str window @ ''s (scope='' @ scope @ '')'')), hist1)
                 else (Inr (gr_pass ''rate_limit''), dset key (recent @ [now]) hist1))
         | _ \<Rightarrow> (Inl (TypeErr ''rate limit configuration is not a number''), hist))"

section \<open>Destructive operations\<close>

definition destructive_check :: "tool_definition \<Rightarrow> json dict \<Rightarrow> json dict \<Rightarrow> guardrail_result result" where
  "destructive_check td inp config =
     rbind (py_list_or_empty (dget_or (JList [JStr ''delete'']) config ''destructive_operations'')) (\<lambda>ops.
       let confirm = (\<lambda>why. \<lparr> gr_passed = True, gr_id = ''destructive_op'', gr_reason = why,
                              gr_triggers_confirmation = True \<rparr>);
           value = dget_or JNull inp (td_operation_key td)
       in Inr (if (case resolve_operation_contract td inp of
                     Some op \<Rightarrow> DELETE \<in> set (oc_side_effects op) \<or> oc_requires_confirmation op
                   | None \<Rightarrow> False)
               then confirm ''Destructive operation requires confirmation''
               else if list_ex (py_eq value) ops
               then confirm (''Destructive operation '' @ quoted (py_str value) @ '' requires confirmation'')
               else gr_pass ''destructive_op''))"

section \<open>Dependencies\<close>

definition matches_payload :: "json dict \<Rightarrow> json dict \<Rightarrow> bool" where
  "matches_payload p flt = list_all (\<lambda>(k, v). get_eq (dget p k) v) flt"

definition resolve_constraints :: "tool_definition \<Rightarrow> json dict \<Rightarrow> dependency_constraint list result" where
  "resolve_constraints td config =
     (if td_depends_on td \<noteq> [] then Inr (td_depends_on td)
      else rmap (map (\<lambda>ev. \<lparr> dpc_event_type = ev, dpc_payload_filter = [], dpc_message = [] \<rparr>))
             (cfg_strings (dget config ''required_events'')))"

definition constraint_met :: "guard_env \<Rightarrow> event list \<Rightarrow> dependency_constraint \<Rightarrow> bool" where
  "constraint_met env events c =
     list_ex (\<lambda>e. event_matches (ev_type e) (ev_phase e) (dpc_event_type c)
        \<and> matches_payload (ge_dump env (ev_payload e)) (dpc_payload_filter c)) events"

text \<open>The runner's store is used only through its \<^verbatim>\<open>get_events\<close>.\<close>

type_synonym event_reader = "string \<Rightarrow> event list"

definition dependency_check ::
    "guard_env \<Rightarrow> event_reader option \<Rightarrow> tool_definition \<Rightarrow> json dict \<Rightarrow> string option \<Rightarrow> guardrail_result result" where
  "dependency_check env st td config run_id =
     (case st of
        None \<Rightarrow> Inr ((gr_pass ''dependency'')\<lparr>gr_reason := ''EventStore not available '' @ dash @ '' skipping dependency check''\<rparr>)
      | Some s \<Rightarrow>
          rbind (resolve_constraints td config) (\<lambda>constraints.
            let rid = opt_or run_id (py_str (dget_or (JStr []) config ''run_id''))
            in if constraints = [] \<or> rid = [] then Inr (gr_pass ''dependency'')
               else case find (\<lambda>c. \<not> constraint_met env (s rid) c) constraints of
                      None \<Rightarrow> Inr (gr_pass ''dependency'')
                    | Some c \<Rightarrow> Inr (gr_block ''dependency''
                        (str_or (dpc_message c) (''Prerequisite event '' @ quoted (dpc_event_type c) @ '' not found'')))))"

section \<open>The runner\<close>

text \<open>
  \<open>GuardrailRunner.run\<close>. A custom class registered under a type replaces the built-in one. The
  results are accumulated up to and including the first that does not pass.
\<close>

definition run_one ::
    "guard_env \<Rightarrow> event_reader option \<Rightarrow> (string \<Rightarrow> string option) option \<Rightarrow> tool_definition \<Rightarrow> json dict \<Rightarrow> string option
      \<Rightarrow> timestamp \<Rightarrow> guardrail \<Rightarrow> history \<Rightarrow> guardrail_result result \<times> history" where
  "run_one env st backend td inp run_id now g hist =
     (case (ge_custom env (grl_type g), grl_type g = ''scope'', backend) of
        (_, True, Some resolve) \<Rightarrow> (scope_check_async env resolve td inp (grl_config g), hist)
      | (Some check, _, _) \<Rightarrow> (check td inp (grl_config g), hist)
      | (None, _, _) \<Rightarrow>
          if grl_type g = ''destructive'' then (destructive_check td inp (grl_config g), hist)
          else if grl_type g = ''scope'' then (scope_check env td inp (grl_config g), hist)
          else if grl_type g = ''egress'' then (Inr (egress_check env inp), hist)
          else if grl_type g = ''rate_limit'' then rate_limit_check hist now td (grl_config g)
          else if grl_type g = ''dependency'' then (dependency_check env st td (grl_config g) run_id, hist)
          else (Inr (gr_block (grl_type g) (''Unknown guardrail type: '' @ grl_type g)), hist))"

fun run_declared ::
    "guard_env \<Rightarrow> event_reader option \<Rightarrow> (string \<Rightarrow> string option) option \<Rightarrow> tool_definition \<Rightarrow> json dict \<Rightarrow> string option
      \<Rightarrow> timestamp \<Rightarrow> guardrail list \<Rightarrow> guardrail_result list \<Rightarrow> history \<Rightarrow> guardrail_result list result \<times> history" where
  "run_declared env st backend td inp run_id now [] results hist = (Inr results, hist)"
| "run_declared env st backend td inp run_id now (g # gs) results hist =
     (case run_one env st backend td inp run_id now g hist of
        (Inl err, hist1) \<Rightarrow> (Inl err, hist1)
      | (Inr r, hist1) \<Rightarrow>
          if \<not> gr_passed r then (Inr (results @ [r]), hist1)
          else run_declared env st backend td inp run_id now gs (results @ [r]) hist1)"

definition auto_check_depends_on ::
    "guard_env \<Rightarrow> event_reader option \<Rightarrow> tool_definition \<Rightarrow> string option \<Rightarrow> guardrail_result option result" where
  "auto_check_depends_on env st td run_id =
     (if td_depends_on td = [] then Inr None else rmap Some (dependency_check env st td [] run_id))"

definition run_guardrails ::
    "guard_env \<Rightarrow> event_reader option \<Rightarrow> (string \<Rightarrow> string option) option \<Rightarrow> tool_definition \<Rightarrow> json dict \<Rightarrow> string option
      \<Rightarrow> workspace_scope option \<Rightarrow> timestamp \<Rightarrow> history \<Rightarrow> guardrail_result list result \<times> history" where
  "run_guardrails env st backend td inp run_id scope now hist =
     (let s = schema_check env td inp
      in if \<not> gr_passed s then (Inr [s], hist)
         else let w = whitelist_check td scope
              in if \<not> gr_passed w then (Inr [s, w], hist)
                 else case auto_check_depends_on env st td run_id of
                        Inl err \<Rightarrow> (Inl err, hist)
                      | Inr dep \<Rightarrow>
                          (let results = s # (case dep of None \<Rightarrow> [] | Some d \<Rightarrow> [d])
                           in if (case dep of None \<Rightarrow> False | Some d \<Rightarrow> \<not> gr_passed d) then (Inr results, hist)
                              else run_declared env st backend td inp run_id now
                                     (case td_guardrails td of None \<Rightarrow> [] | Some gs \<Rightarrow> gs) results hist))"

section \<open>Properties of the runner\<close>

lemma run_declared_shape:
  "run_declared env rd be td inp rid now gs rs h = (Inr rs', h') \<Longrightarrow> list_all gr_passed rs \<Longrightarrow>
   (\<exists>new. rs' = rs @ new \<and> list_all gr_passed (butlast new))"
proof (induction gs arbitrary: rs h)
  case Nil
  then show ?case by auto
next
  case (Cons g gs)
  obtain r h1 where r: "run_one env rd be td inp rid now g h = (r, h1)" by fastforce
  show ?case
  proof (cases r)
    case (Inl e)
    then show ?thesis using Cons.prems r by simp
  next
    case (Inr x)
    show ?thesis
    proof (cases "gr_passed x")
      case True
      then obtain new where "rs' = (rs @ [x]) @ new" "list_all gr_passed (butlast new)"
        using Cons.IH[of "rs @ [x]" h1] Cons.prems r Inr by auto
      then show ?thesis using True by (intro exI[of _ "x # new"]) auto
    next
      case False
      then show ?thesis using Cons.prems r Inr by auto
    qed
  qed
qed

text \<open>The runner reports a non-empty list in which only the last result may fail: no check runs after a failed one, so a
  blocked call is reported with the first guardrail that refused it. When the schema check fails, it is the only result.\<close>

theorem guardrails_stop_at_first_failure:
  assumes "run_guardrails env rd be td inp rid scope now h = (Inr rs, h')"
  shows "rs \<noteq> [] \<and> list_all gr_passed (butlast rs)
    \<and> (\<not> gr_passed (schema_check env td inp) \<longrightarrow> rs = [schema_check env td inp] \<and> h' = h)"
proof (cases "gr_passed (schema_check env td inp) \<and> gr_passed (whitelist_check td scope)")
  case False
  then show ?thesis using assms by (auto simp: run_guardrails_def Let_def split: if_splits)
next
  case True
  then obtain dep where dep: "auto_check_depends_on env rd td rid = Inr dep"
    using assms by (auto simp: run_guardrails_def Let_def split: sum.splits)
  let ?rs0 = "schema_check env td inp # (case dep of None \<Rightarrow> [] | Some d \<Rightarrow> [d])"
  show ?thesis
  proof (cases "case dep of None \<Rightarrow> False | Some d \<Rightarrow> \<not> gr_passed d")
    case True': True
    then show ?thesis using True dep assms by (auto simp: run_guardrails_def Let_def split: option.splits)
  next
    case False
    have "run_declared env rd be td inp rid now (case td_guardrails td of None \<Rightarrow> [] | Some gs \<Rightarrow> gs) ?rs0 h = (Inr rs, h')"
      using assms True False dep by (simp add: run_guardrails_def Let_def split: if_splits)
    moreover have "list_all gr_passed ?rs0" using True False by (auto split: option.splits)
    ultimately obtain new where "rs = ?rs0 @ new" "list_all gr_passed (butlast new)"
      by (metis run_declared_shape)
    then show ?thesis using \<open>list_all gr_passed ?rs0\<close> True
      by (auto simp: butlast_append list_all_iff split: if_splits option.splits dest: in_set_butlastD)
  qed
qed

text \<open>A result that a declared guardrail of a passing run returned is among the results.\<close>

lemma run_declared_extends:
  "run_declared env rd be td inp rid now gs rs h = (Inr rs', h') \<Longrightarrow> \<exists>zs. rs' = rs @ zs"
proof (induction gs arbitrary: rs h)
  case (Cons b gs)
  obtain q h2 where q: "run_one env rd be td inp rid now b h = (q, h2)" by fastforce
  with Cons.prems obtain y where y: "q = Inr y" by (cases q) auto
  show ?case
  proof (cases "gr_passed y")
    case True
    then show ?thesis using Cons.IH[of "rs @ [y]" h2] Cons.prems q y by auto
  qed (use Cons.prems q y in auto)
qed simp

lemma run_declared_member:
  "run_declared env rd be td inp rid now gs rs h = (Inr rs', h') \<Longrightarrow> list_all gr_passed rs' \<Longrightarrow> g \<in> set gs \<Longrightarrow>
   \<exists>h1 h2 r. run_one env rd be td inp rid now g h1 = (Inr r, h2) \<and> r \<in> set rs'"
proof (induction gs arbitrary: rs h)
  case Nil
  then show ?case by simp
next
  case (Cons a gs)
  obtain r h1 where r: "run_one env rd be td inp rid now a h = (r, h1)" by fastforce
  with Cons.prems obtain x where x: "r = Inr x" by (cases r) auto
  have passed: "gr_passed x"
    using Cons.prems r x by (auto split: if_splits)
  then have rest: "run_declared env rd be td inp rid now gs (rs @ [x]) h1 = (Inr rs', h')"
    using Cons.prems r x by simp
  have "x \<in> set rs'" using run_declared_extends[OF rest] by auto
  show ?case
  proof (cases "g = a")
    case True
    then show ?thesis using r x \<open>x \<in> set rs'\<close> by blast
  next
    case False
    then show ?thesis using Cons.IH[OF rest Cons.prems(2)] Cons.prems(3) by simp
  qed
qed

lemma run_guardrails_member:
  assumes "run_guardrails env rd be td inp rid scope now h = (Inr rs, h')" "list_all gr_passed rs"
    and "td_guardrails td = Some gs" "g \<in> set gs"
  shows "\<exists>h1 h2 r. run_one env rd be td inp rid now g h1 = (Inr r, h2) \<and> r \<in> set rs"
proof -
  have "\<exists>rs0. run_declared env rd be td inp rid now gs rs0 h = (Inr rs, h')"
    using assms by (auto simp: run_guardrails_def Let_def split: if_splits option.splits sum.splits)
  then show ?thesis using run_declared_member assms by metis
qed

section \<open>Deletions\<close>

lemma declared_guardrail:
  assumes "ty \<in> set (declared_guardrails td)"
  obtains gs g where "td_guardrails td = Some gs" "g \<in> set gs" "grl_type g = ty"
  using assms by (cases "td_guardrails td") (auto simp: declared_guardrails_def)

lemma destructive_triggers:
  assumes "resolve_operation_contract td inp = Some op" "DELETE \<in> set (oc_side_effects op)"
    and "destructive_check td inp config = Inr r"
  shows "gr_triggers_confirmation r"
  using assms by (auto simp: destructive_check_def rbind_Inr_iff Let_def)

lemma deletion_triggers_confirmation:
  assumes "validate_registration_safety td = []" and "ge_custom env ''destructive'' = None"
    and "resolve_operation_contract td inp = Some op" "DELETE \<in> set (oc_side_effects op)"
    and "run_guardrails env rd be td inp rid scope now h = (Inr rs, h')" "list_all gr_passed rs"
  shows "list_ex gr_triggers_confirmation rs"
proof -
  have "op \<in> set (td_operations td)"
    using assms(3) by (auto simp: resolve_operation_contract_def find_Some_iff split: if_splits option.splits)
  then have "has_delete td" using assms(4) by (auto simp: has_delete_def list_ex_iff)
  then have "''destructive'' \<in> set (declared_guardrails td)"
    using assms(1) by (auto simp: validate_registration_safety_def split: if_splits)
  then obtain gs g where g: "td_guardrails td = Some gs" "g \<in> set gs" "grl_type g = ''destructive''"
    by (rule declared_guardrail)
  from run_guardrails_member[OF assms(5,6) g(1,2)] obtain h1 h2 r
    where r: "run_one env rd be td inp rid now g h1 = (Inr r, h2)" "r \<in> set rs" by blast
  then have "destructive_check td inp (grl_config g) = Inr r"
    using g(3) assms(2) by (auto simp: run_one_def)
  from destructive_triggers[OF assms(3,4) this] r(2) show ?thesis by (auto simp: list_ex_iff)
qed

text \<open>A tool that passed the registration rules cannot delete unasked: when the call resolves to an operation that declares a
  deletion and every guardrail passes, some result demands the operator's confirmation (the built-in destructive check in force).\<close>

theorem registered_deletions_demand_confirmation:
  assumes "validate_registration_safety td = []" and "ge_custom env ''destructive'' = None"
    and "resolve_operation_contract td inp = Some op" "DELETE \<in> set (oc_side_effects op)"
    and "run_guardrails env rd be td inp rid scope now h = (Inr rs, h')" "list_all gr_passed rs"
  shows "list_ex gr_triggers_confirmation rs"
  using assms by (rule deletion_triggers_confirmation)

section \<open>Rate limit\<close>

definition in_window :: "timestamp \<Rightarrow> rat \<Rightarrow> timestamp list \<Rightarrow> nat" where
  "in_window now w ts = length (filter (\<lambda>t. now - t < w) ts)"

lemma dget_or_delete_snoc: "dget_or [] (AList.delete key hist @ [(key, [])]) k = (if k = key then [] else dget_or [] hist k)"
  "k \<noteq> key \<Longrightarrow> dget (AList.delete key hist @ [(key, [])]) k = dget hist k"
  by (auto simp: dget_or_def delete_conv' map_add_def split: option.splits)

text \<open>The rate limiter never lets more than \<open>max_calls\<close> calls of a key into one window: after every check, passed or refused,
  at most that many recorded calls lie within the window that ends now (when the bound held before, a refusal leaves it as it was).
  A check passes exactly when fewer than \<open>max_calls\<close> recorded calls lie in the window.\<close>

theorem rate_limit_bounds_window:
  assumes "num_rat (dget_or (JInt 10) config ''max_calls'') = Some m"
    and "num_rat (dget_or (JInt 60) config ''window_seconds'') = Some w"
    and "key = make_key (py_str (dget_or (JStr ''tool'') config ''scope'')) (td_name td) config"
    and "rate_limit_check hist now td config = (Inr r, hist')"
  shows "(gr_passed r \<longleftrightarrow> of_nat (in_window now w (dget_or [] hist key)) < m)
    \<and> (gr_passed r \<longrightarrow> of_nat (in_window now w (dget_or [] hist' key)) < m + 1 \<and> last (dget_or [] hist' key) = now)
    \<and> (\<not> gr_passed r \<longrightarrow> in_window now w (dget_or [] hist' key) = in_window now w (dget_or [] hist key))
    \<and> (\<forall>k. k \<noteq> key \<longrightarrow> dget hist' k = dget hist k)"
proof -
  define recent where "recent = filter (\<lambda>t. now - t < w) (dget_or [] hist key)"
  define hist1 where "hist1 = (if recent = [] then AList.delete key hist @ [(key, [])] else dset key recent hist)"
  have h1: "dget_or [] hist1 key = recent" "k \<noteq> key \<Longrightarrow> dget hist1 k = dget hist k" for k
    by (auto simp: hist1_def dget_or_delete_snoc dict_simps map_add_def delete_conv' split: option.splits)
  have len: "length recent = in_window now w (dget_or [] hist key)" "in_window now w recent = length recent"
    by (simp_all add: recent_def in_window_def)
  have eq: "rate_limit_check hist now td config =
      (if m \<le> of_nat (length recent) then (Inr r, hist1) else (Inr (gr_pass ''rate_limit''), dset key (recent @ [now]) hist1))
    \<and> (m \<le> of_nat (length recent) \<longrightarrow> \<not> gr_passed r)"
    using assms by (auto simp: rate_limit_check_def Let_def recent_def hist1_def gr_block_def split: if_splits)
  show ?thesis
  proof (cases "m \<le> of_nat (length recent)")
    case True
    then have "hist' = hist1" "\<not> gr_passed r" using eq assms(4) by auto
    then show ?thesis using True h1 len by auto
  next
    case False
    then have *: "hist' = dset key (recent @ [now]) hist1" "gr_passed r" using eq assms(4) by (auto simp: gr_pass_def)
    have "in_window now w (recent @ [now]) \<le> length recent + 1" by (simp add: in_window_def le_SucI)
    then have "(of_nat (in_window now w (recent @ [now])) :: rat) \<le> of_nat (length recent) + 1"
      by (metis of_nat_1 of_nat_add of_nat_le_iff)
    then show ?thesis using False * h1 len by (auto simp: dict_simps)
  qed
qed

section \<open>What the checks let through\<close>

text \<open>The address checks of the egress guardrail bind only names that resolve: a URL with an allowed scheme, no credentials
  and a valid port passes whenever the resolver reports that the name is unknown, whatever the client resolves later.\<close>

theorem egress_passes_unresolvable_hosts:
  assumes "dget inp ''url'' = Some (JStr url)" "url \<noteq> []"
    and "ge_urlsplit env url = \<lparr> url_scheme = ''https'', url_username = None, url_password = None,
           url_hostname = Some host, url_port = Some p \<rparr>" "host \<noteq> []"
    and "ge_literal_ip env host = None" "\<And>n. ge_resolve_ips env host n = DnsGaiError"
  shows "egress_check env inp = gr_pass ''egress''"
  using assms by (simp add: egress_check_def validate_egress_url_def opt_truthy_def Let_def)

text \<open>A literal address that is not global is refused, and so is a name with any such address among those it resolves to.\<close>

theorem egress_blocks_private_addresses:
  assumes "dget inp ''url'' = Some (JStr url)" "url \<noteq> []"
    and "url_hostname (ge_urlsplit env url) = Some host" "host \<noteq> []"
    and "case ge_literal_ip env host of
           Some ip \<Rightarrow> is_blocked_ip ip
         | None \<Rightarrow> \<forall>n. \<exists>ips. ge_resolve_ips env host n = DnsAddresses ips \<and> list_ex is_blocked_ip ips"
  shows "\<not> gr_passed (egress_check env inp)"
proof -
  have dns: "\<exists>msg. dns_verdict host (DnsAddresses ips) = Some msg" if "list_ex is_blocked_ip ips" for ips
  proof -
    have "sort (map ip_text (filter is_blocked_ip ips)) \<noteq> []"
      using that by (auto simp: list_ex_iff filter_empty_conv simp flip: length_greater_0_conv)
    then show ?thesis by (auto split: list.splits)
  qed
  have "\<exists>msg. validate_egress_url env url = Some msg"
  proof (cases "ge_literal_ip env host")
    case (Some ip)
    then show ?thesis using assms(3-5) by (simp add: validate_egress_url_def Let_def split: option.splits)
  next
    case None
    have "\<exists>msg. dns_verdict host (ge_resolve_ips env host n) = Some msg" for n
    proof -
      obtain ips where "ge_resolve_ips env host n = DnsAddresses ips" "list_ex is_blocked_ip ips" using assms(5) None by auto
      then show ?thesis using dns by simp
    qed
    with None assms(3,4) show ?thesis by (simp add: validate_egress_url_def Let_def split: option.splits)
  qed
  then show ?thesis using assms(1,2) by (auto simp: egress_check_def gr_block_def)
qed

text \<open>The directory whitelist compares path components and does not interpret \<^verbatim>\<open>..\<close>: a path below an allowed directory
  that climbs out of it is accepted.\<close>

theorem path_whitelist_accepts_parent_escape:
  "path_within ''/srv/data/../../etc/passwd'' [''/srv/data''] \<and> \<not> path_within ''/etc/passwd'' [''/srv/data'']"
  by code_simp

text \<open>The registration rule for deletions does not reach every deletion: for a tool without operation contracts whose input names
  no operation, the destructive guardrail passes without asking, even when the tool declares a deletion on the tool level.\<close>

theorem tool_level_deletions_pass_unasked:
  assumes "td_operations td = []" "dget inp (td_operation_key td) = None"
  shows "destructive_check td inp [] = Inr (gr_pass ''destructive_op'')"
  using assms by (simp add: destructive_check_def resolve_operation_contract_def dget_or_def py_list_or_empty.simps py_eq.simps)

section \<open>Samples\<close>

definition sample_guard_env :: guard_env where
  "sample_guard_env = \<lparr> ge_schema_error = (\<lambda>_ _. None),
     ge_urlsplit = (\<lambda>u. \<lparr> url_scheme = ''https'', url_username = None, url_password = None, url_hostname = Some u, url_port = Some None \<rparr>),
     ge_literal_ip = (\<lambda>_. None),
     ge_resolve_ips = (\<lambda>h _. if h = ''nowhere'' then DnsGaiError else DnsAddresses [IP ''10.0.0.1'' False False False False None]),
     ge_shlex_split = (\<lambda>s. Some [s]), ge_dump = (\<lambda>_. []), ge_custom = (\<lambda>_. None) \<rparr>"

definition sample_run_guardrails :: "guardrail_result list result \<times> history" where
  "sample_run_guardrails = run_guardrails sample_guard_env None None sample_tool sample_delete_input None None 0 []"

lemma sample_run_guardrails_eq:
  "sample_run_guardrails = (Inr [gr_pass ''schema'', \<lparr> gr_passed = True, gr_id = ''destructive_op'',
     gr_reason = ''Destructive operation requires confirmation'', gr_triggers_confirmation = True \<rparr>], [])"
  by code_simp

lemma guardrails_stop_at_first_failure_witness:
  "\<exists>rs. sample_run_guardrails = (Inr rs, []) \<and> rs \<noteq> [] \<and> list_all gr_passed (butlast rs)"
  using guardrails_stop_at_first_failure[OF sample_run_guardrails_eq[unfolded sample_run_guardrails_def]]
  by (auto simp: sample_run_guardrails_eq)

lemma registered_deletions_demand_confirmation_witness:
  "\<exists>rs. sample_run_guardrails = (Inr rs, []) \<and> list_ex gr_triggers_confirmation rs"
proof -
  have "validate_registration_safety sample_tool = []" "resolve_operation_contract sample_tool sample_delete_input = Some sample_delete_op"
    "DELETE \<in> set (oc_side_effects sample_delete_op)" "ge_custom sample_guard_env ''destructive'' = None" by code_simp+
  note H = this
  show ?thesis unfolding sample_run_guardrails_eq
    by (rule exI, rule conjI[OF refl], rule registered_deletions_demand_confirmation
      [OF H(1,4,2,3) sample_run_guardrails_eq[unfolded sample_run_guardrails_def]]) (simp add: gr_pass_def)
qed

lemma rate_limit_bounds_window_witness:
  "fst (rate_limit_check [(''tool:file_op'', [0, 1])] 2 sample_tool [(''max_calls'', JInt 3)]) = Inr (gr_pass ''rate_limit'')
   \<and> (of_nat (in_window 2 60 (dget_or [] (snd (rate_limit_check [(''tool:file_op'', [0, 1])] 2 sample_tool [(''max_calls'', JInt 3)]))
        ''tool:file_op'')) :: rat) < 3 + 1"
proof -
  have m: "num_rat (dget_or (JInt 10) [(''max_calls'', JInt 3)] ''max_calls'') = Some 3"
    "num_rat (dget_or (JInt 60) [(''max_calls'', JInt 3)] ''window_seconds'') = Some 60"
    "''tool:file_op'' = make_key (py_str (dget_or (JStr ''tool'') [(''max_calls'', JInt 3)] ''scope'')) (td_name sample_tool) [(''max_calls'', JInt 3)]"
    by code_simp+
  have r: "fst (rate_limit_check [(''tool:file_op'', [0, 1])] 2 sample_tool [(''max_calls'', JInt 3)]) = Inr (gr_pass ''rate_limit'')"
    by code_simp
  then have "rate_limit_check [(''tool:file_op'', [0, 1])] 2 sample_tool [(''max_calls'', JInt 3)] = (Inr (gr_pass ''rate_limit''),
      snd (rate_limit_check [(''tool:file_op'', [0, 1])] 2 sample_tool [(''max_calls'', JInt 3)]))" by (simp add: prod_eq_iff)
  from rate_limit_bounds_window[OF m this]
  show ?thesis by (simp add: r gr_pass_def)
qed

lemma egress_passes_unresolvable_hosts_witness:
  "egress_check sample_guard_env [(''url'', JStr ''nowhere'')] = gr_pass ''egress''"
  by (rule egress_passes_unresolvable_hosts) (auto simp: sample_guard_env_def)

lemma egress_blocks_private_addresses_witness:
  "\<not> gr_passed (egress_check sample_guard_env [(''url'', JStr ''intranet'')])"
  by (rule egress_blocks_private_addresses) (auto simp: sample_guard_env_def)

lemma tool_level_deletions_pass_unasked_witness:
  "validate_registration_safety (sample_tool\<lparr>td_operations := []\<rparr>) = [] \<and> has_delete (sample_tool\<lparr>td_operations := []\<rparr>)
   \<and> destructive_check (sample_tool\<lparr>td_operations := []\<rparr>) [(''path'', JStr ''a.txt'')] [] = Inr (gr_pass ''destructive_op'')"
proof (intro conjI)
  show "validate_registration_safety (sample_tool\<lparr>td_operations := []\<rparr>) = []" "has_delete (sample_tool\<lparr>td_operations := []\<rparr>)"
    by code_simp+
  show "destructive_check (sample_tool\<lparr>td_operations := []\<rparr>) [(''path'', JStr ''a.txt'')] [] = Inr (gr_pass ''destructive_op'')"
    by (rule tool_level_deletions_pass_unasked) (simp_all add: sample_tool_def)
qed

end
