(* ===== verification/Recovery.thy ===== *)
theory Recovery
  imports Event_Fold
begin

text \<open>
  The recovery core of \<^verbatim>\<open>src/harness/core/recovery.py\<close>: rebuilding the results map from the
  folded evidence, the classification of failures by their message, the coverage of known-bad
  steps by a revision, and the bounds on step-local repair. The pattern of transient errors is
  matched case-insensitively, one predicate per alternative of the regular expression.
\<close>

section \<open>Rebuilding results\<close>

definition evidence_state_map :: "exec_state dict" where
  "evidence_state_map =
     [(''completed'', COMPLETED), (''idempotent'', IDEMPOTENT), (''unsuccessful'', UNSUCCESSFUL),
      (''failed'', FAILED), (''skipped'', SKIPPED), (''cancelled'', CANCELLED), (''running'', PENDING),
      (''pending'', PENDING), ([], PENDING)]"

definition rebuild_result :: "string \<Rightarrow> step_evidence \<Rightarrow> step_result" where
  "rebuild_result sid ev = (StepResult0 sid)\<lparr>
     sr_exec_state := dget_or PENDING evidence_state_map (se_exec_state ev),
     sr_output := se_output ev, sr_summary := se_output_summary ev, sr_error := se_error ev,
     sr_tool_call_id := se_tool_call_id ev, sr_probe := se_probe ev\<rparr>"

definition rebuild_results_from_evidence :: "step_evidence dict \<Rightarrow> step_result dict" where
  "rebuild_results_from_evidence evidence =
     fold (\<lambda>(sid, ev) results. dset sid (rebuild_result sid ev) results) evidence []"

section \<open>Transient errors\<close>

text \<open>Search: some suffix of the text satisfies a prefix test; \<open>prev\<close> is the character before it.\<close>

fun search_from :: "(char option \<Rightarrow> string \<Rightarrow> bool) \<Rightarrow> char option \<Rightarrow> string \<Rightarrow> bool" where
  "search_from p prev [] = p prev []"
| "search_from p prev (c # cs) = (p prev (c # cs) \<or> search_from p (Some c) cs)"

definition search :: "(char option \<Rightarrow> string \<Rightarrow> bool) \<Rightarrow> string \<Rightarrow> bool" where
  "search p s = search_from p None s"

definition lit :: "string \<Rightarrow> char option \<Rightarrow> string \<Rightarrow> bool" where
  "lit w prev s = starts_with w s"

definition not_newline :: "char \<Rightarrow> bool" where
  "not_newline c \<longleftrightarrow> c \<noteq> CHR 0x0A"

text \<open>\<^verbatim>\<open>connection\s*(error|reset|refused|aborted)\<close>\<close>

definition connection_pattern :: "char option \<Rightarrow> string \<Rightarrow> bool" where
  "connection_pattern prev s =
     (starts_with ''connection'' s
      \<and> list_ex (\<lambda>w. starts_with w (dropWhile is_space (drop 10 s))) [''error'', ''reset'', ''refused'', ''aborted''])"

definition is_5xx :: "string \<Rightarrow> bool" where
  "is_5xx s = (case s of a # b # c # _ \<Rightarrow> a = CHR ''5'' \<and> is_digit b \<and> is_digit c | _ \<Rightarrow> False)"

text \<open>\<^verbatim>\<open>5\d{2}\s*(status|error)\<close> and \<^verbatim>\<open>\b5\d{2}\b\<close>\<close>

definition status_pattern :: "char option \<Rightarrow> string \<Rightarrow> bool" where
  "status_pattern prev s =
     (is_5xx s \<and> list_ex (\<lambda>w. starts_with w (dropWhile is_space (drop 3 s))) [''status'', ''error''])"

definition bare_5xx_pattern :: "char option \<Rightarrow> string \<Rightarrow> bool" where
  "bare_5xx_pattern prev s =
     ((case prev of None \<Rightarrow> True | Some c \<Rightarrow> \<not> is_word c) \<and> is_5xx s
      \<and> (case drop 3 s of [] \<Rightarrow> True | c # _ \<Rightarrow> \<not> is_word c))"

text \<open>\<^verbatim>\<open>rate.?limit\<close> and \<^verbatim>\<open>unavailable.*retry\<close>\<close>

definition rate_limit_pattern :: "char option \<Rightarrow> string \<Rightarrow> bool" where
  "rate_limit_pattern prev s =
     (starts_with ''rate'' s
      \<and> (starts_with ''limit'' (drop 4 s)
         \<or> (case drop 4 s of c # rest \<Rightarrow> not_newline c \<and> starts_with ''limit'' rest | [] \<Rightarrow> False)))"

definition unavailable_pattern :: "char option \<Rightarrow> string \<Rightarrow> bool" where
  "unavailable_pattern prev s =
     (starts_with ''unavailable'' s \<and> contains_sub ''retry'' (takeWhile not_newline (drop 11 s)))"

definition transient_text :: "string \<Rightarrow> bool" where
  "transient_text s =
     list_ex (\<lambda>p. search p (lower s))
       [lit ''timeout'', lit ''timed out'', connection_pattern, lit ''temporar'', status_pattern,
        rate_limit_pattern, unavailable_pattern, lit ''econnreset'', lit ''etimedout'', bare_5xx_pattern]"

definition is_transient :: "string option \<Rightarrow> bool" where
  "is_transient error = (case error of None \<Rightarrow> False | Some s \<Rightarrow> s \<noteq> [] \<and> transient_text s)"

definition classify_failure_tier :: "string option \<Rightarrow> bool \<Rightarrow> string" where
  "classify_failure_tier error retryable =
     (if retryable \<or> is_transient error then ''tool_retry'' else ''step_repair'')"

section \<open>Coverage of known-bad steps\<close>

text \<open>\<^verbatim>\<open>{str(s.get("step_id")): s for s in patch_steps if s.get("step_id")}\<close>\<close>

definition patch_by_id :: "json dict list \<Rightarrow> json dict dict" where
  "patch_by_id patch_steps =
     fold (\<lambda>s d. dset (py_str (dget_or JNull s ''step_id'')) s d)
       (filter (\<lambda>s. truthy (dget_or JNull s ''step_id'')) patch_steps) []"

definition patched_tool :: "json dict \<Rightarrow> string" where
  "patched_tool patch = (let v = dget_or JNull patch ''tool_name'' in if truthy v then py_str v else [])"

text \<open>Whether the patch changes the action of the failed step.\<close>

definition addressed :: "json dict \<Rightarrow> string \<Rightarrow> json dict option \<Rightarrow> bool" where
  "addressed patch old_tool orig_input =
     (patched_tool patch \<noteq> [] \<and>
       (patched_tool patch \<noteq> old_tool
        \<or> (case orig_input of
             None \<Rightarrow> False
           | Some inp \<Rightarrow> action_input_signature (dget_or JNull patch ''input'') \<noteq> action_input_signature (JDict inp))))"

definition known_bad :: "step_evidence \<Rightarrow> bool" where
  "known_bad ev \<longleftrightarrow> se_exec_state ev \<in> {''unsuccessful'', ''failed''} \<and> \<not> is_transient (se_error ev)"

definition unresolved_known_bad_steps :: "step_evidence dict \<Rightarrow> json dict list \<Rightarrow> json dict dict \<Rightarrow> string list" where
  "unresolved_known_bad_steps prev_evidence patch_steps original_inputs =
     sort (map fst (filter (\<lambda>(sid, ev). known_bad ev \<and>
        (case dget (patch_by_id patch_steps) sid of
           None \<Rightarrow> True
         | Some patch \<Rightarrow> \<not> addressed patch (se_tool_name ev) (dget original_inputs sid))) prev_evidence))"

section \<open>Step-local repair\<close>

definition upper_char :: "char \<Rightarrow> char" where
  "upper_char c = (let n = of_char c :: nat in if 97 \<le> n \<and> n \<le> 122 then char_of (n - 32) else c)"

definition upper :: "string \<Rightarrow> string" where
  "upper s = map upper_char s"

definition read_only_tools :: "string list" where
  "read_only_tools = [''fetch_output'']"

definition read_only_operations :: "string list dict" where
  "read_only_operations =
     [(''http_request'', [''GET'', ''HEAD'', ''get'', ''head'', []]), (''file_op'', [''read'', ''list''])]"

definition is_read_only_action_with :: "string \<Rightarrow> json dict \<Rightarrow> bool dict \<Rightarrow> bool" where
  "is_read_only_action_with tool inp explicit =
     (case dget explicit tool of
        Some b \<Rightarrow> b
      | None \<Rightarrow>
          if tool \<in> set read_only_tools then True
          else case dget read_only_operations tool of
                 None \<Rightarrow> False
               | Some ops \<Rightarrow>
                   if tool = ''http_request''
                   then upper (py_str (dget_or (JStr ''GET'') inp ''method'')) \<in> {''GET'', ''HEAD''}
                   else py_str (dget_or (JStr []) inp ''operation'') \<in> set ops)"

definition is_read_only_action :: "string \<Rightarrow> json dict \<Rightarrow> bool" where
  "is_read_only_action tool inp = is_read_only_action_with tool inp []"

record recovery_budget =
  rb_max_repair_rounds :: int
  rb_allowed_tools :: "string list"

record local_repair_proposal =
  lrp_step_id :: string
  lrp_tool_name :: string
  lrp_input :: "json dict"

record repair_decision =
  rd_allowed :: bool
  rd_reason :: string

definition repair_denied :: "string \<Rightarrow> repair_decision" where
  "repair_denied why = \<lparr> rd_allowed = False, rd_reason = why \<rparr>"

definition validate_local_repair ::
    "local_repair_proposal \<Rightarrow> int \<Rightarrow> recovery_budget \<Rightarrow> bool dict \<Rightarrow> string \<times> string \<Rightarrow> repair_decision" where
  "validate_local_repair prop round_used budget step_tools_read_only original_signature =
     (if round_used > rb_max_repair_rounds budget
      then repair_denied (''local repair budget exhausted (round '' @ show_int round_used @ '' > ''
             @ show_int (rb_max_repair_rounds budget) @ '')'')
      else if lrp_tool_name prop = [] then repair_denied ''empty repair proposal (no tool)''
      else if lrp_tool_name prop \<notin> set (rb_allowed_tools budget)
      then repair_denied (''tool '' @ quoted (lrp_tool_name prop) @ '' not in local-repair whitelist'')
      else if \<not> is_read_only_action_with (lrp_tool_name prop) (lrp_input prop) step_tools_read_only
      then repair_denied (''local repair action '' @ quoted (lrp_tool_name prop) @ '' is mutating/side-effecting'')
      else if action_signature (lrp_tool_name prop) (JDict (lrp_input prop)) = original_signature
      then repair_denied (''repair repeats the failed step'' @ [CHR 0x27] @ ''s identical action '' @ dash @ '' escalate'')
      else \<lparr> rd_allowed = True, rd_reason = [] \<rparr>)"

section \<open>Lemmas\<close>

lemma rebuild_state_cases:
  "sr_exec_state (rebuild_result sid ev) =
     (if se_exec_state ev = ''completed'' then COMPLETED else if se_exec_state ev = ''idempotent'' then IDEMPOTENT
      else if se_exec_state ev = ''unsuccessful'' then UNSUCCESSFUL else if se_exec_state ev = ''failed'' then FAILED
      else if se_exec_state ev = ''skipped'' then SKIPPED else if se_exec_state ev = ''cancelled'' then CANCELLED
      else PENDING)"
  by (auto simp: rebuild_result_def dget_or_def evidence_state_map_def StepResult0_def)

lemma dget_rebuild:
  "distinct (keys evs) \<Longrightarrow>
   dget (rebuild_results_from_evidence evs) sid = map_option (rebuild_result sid) (dget evs sid)"
proof -
  have "dget (fold (\<lambda>(sid, ev) results. dset sid (rebuild_result sid ev) results) evs rs) sid
      = (case dget evs sid of None \<Rightarrow> dget rs sid | Some ev \<Rightarrow> Some (rebuild_result sid ev))"
    if "distinct (keys evs)" for rs
    using that
  proof (induction evs arbitrary: rs)
    case (Cons kv evs)
    then show ?case by (cases kv) (auto simp: update_conv' map_of_eq_None_iff[symmetric] split: option.split)
  qed simp
  then show "distinct (keys evs) \<Longrightarrow> ?thesis"
    by (auto simp: rebuild_results_from_evidence_def split: option.split)
qed

section \<open>Properties\<close>

text \<open>
  a resumed run trusts exactly what the folded evidence supports: the rebuilt result of a step
  is normal iff its evidence is, it is never re-run iff the evidence is finished, and its
  output, error and probe flag are those of the evidence.
\<close>

theorem rebuilt_results_match_evidence:
  assumes "fold_events es = Inr st" and "dget (rs_step_evidence st) sid = Some ev"
  shows "\<exists>r. dget (rebuild_results_from_evidence (rs_step_evidence st)) sid = Some r
     \<and> sr_step_id r = sid \<and> step_normal r = evidence_normal ev
     \<and> should_not_rerun r = (se_exec_state ev \<in> set finished_states)
     \<and> sr_output r = se_output ev \<and> sr_error r = se_error ev"
proof -
  have "evidence_wf (rs_step_evidence st)"
    using fold_machine.fold_inv[OF state_wf_init] assms(1) by (auto simp: fold_events_Inr state_wf_def)
  then have "distinct (keys (rs_step_evidence st))" by (simp add: evidence_wf_def)
  then have r: "dget (rebuild_results_from_evidence (rs_step_evidence st)) sid = Some (rebuild_result sid ev)"
    using assms(2) by (simp add: dget_rebuild)
  have "step_normal (rebuild_result sid ev) = evidence_normal ev"
    by (auto simp: step_normal_iff rebuild_state_cases evidence_normal_def exec_state_is_normal_def)
       (auto simp: rebuild_result_def StepResult0_def)
  moreover have "should_not_rerun (rebuild_result sid ev) = (se_exec_state ev \<in> set finished_states)"
    by (auto simp: should_not_rerun_def rebuild_state_cases finished_states_def)
  ultimately show ?thesis using r by (auto simp: rebuild_result_def StepResult0_def)
qed

lemma rebuilt_results_match_evidence_witness:
  "\<exists>r. dget (rebuild_results_from_evidence (rs_step_evidence sample_state)) ''s1'' = Some r \<and> should_not_rerun r"
proof -
  have "dget (rs_step_evidence sample_state) ''s1'' = Some (the (dget (rs_step_evidence sample_state) ''s1''))"
    "se_exec_state (the (dget (rs_step_evidence sample_state) ''s1'')) \<in> set finished_states" by code_simp+
  from rebuilt_results_match_evidence[OF sample_fold this(1)] this(2) show ?thesis by blast
qed

lemma dget_patch_by_id:
  "dget (patch_by_id patch) sid = find (\<lambda>s. py_str (dget_or JNull s ''step_id'') = sid)
     (rev (filter (\<lambda>s. truthy (dget_or JNull s ''step_id'')) patch))"
proof -
  have "dget (fold (\<lambda>s d. dset (g s) s d) xs []) sid = find (\<lambda>s. g s = sid) (rev xs)" for g and xs :: "json dict list"
    by (induction xs rule: rev_induct) (auto simp: update_conv')
  then show ?thesis by (simp add: patch_by_id_def)
qed

definition replays :: "json dict list \<Rightarrow> json dict dict \<Rightarrow> string \<Rightarrow> step_evidence \<Rightarrow> bool" where
  "replays patch inputs sid ev \<longleftrightarrow>
     (\<forall>s. find (\<lambda>s. py_str (dget_or JNull s ''step_id'') = sid)
            (rev (filter (\<lambda>s. truthy (dget_or JNull s ''step_id'')) patch)) = Some s
         \<longrightarrow> patched_tool s = []
            \<or> (patched_tool s = se_tool_name ev
               \<and> (\<forall>inp. dget inputs sid = Some inp \<longrightarrow>
                    action_input_signature (dget_or JNull s ''input'') = action_input_signature (JDict inp))))"

lemma replays_iff:
  "replays patch inputs sid ev \<longleftrightarrow>
     (case dget (patch_by_id patch) sid of
        None \<Rightarrow> True | Some p \<Rightarrow> \<not> addressed p (se_tool_name ev) (dget inputs sid))"
  unfolding replays_def dget_patch_by_id
  by (cases "find (\<lambda>s. py_str (dget_or JNull s ''step_id'') = sid)
         (rev (filter (\<lambda>s. truthy (dget_or JNull s ''step_id'')) patch))"; cases "dget inputs sid")
     (auto simp: addressed_def)

text \<open>
  a revision is reported as unresolved exactly for the steps that failed for a non-transient
  reason and whose last patch entry is missing or repeats the same tool without a proven input
  change; the report is sorted.
\<close>

theorem unresolved_steps_are_exactly_the_replays:
  "(sid \<in> set (unresolved_known_bad_steps evs patch inputs) \<longleftrightarrow>
      (\<exists>ev. (sid, ev) \<in> set evs \<and> known_bad ev \<and> replays patch inputs sid ev))
   \<and> sorted (unresolved_known_bad_steps evs patch inputs)"
  unfolding unresolved_known_bad_steps_def replays_iff[symmetric] by force

end
