(* ===== verification/Tool_Executor.thy ===== *)
theory Tool_Executor
  imports Guardrails Recovery Scoped_Store
begin

text \<open>
  The tool layer: the retry loop of \<^verbatim>\<open>src/harness/tools/retry.py\<close>, idempotency keys
  (\<^verbatim>\<open>idempotency.py\<close>), semantic evaluation (\<^verbatim>\<open>semantic.py\<close>), the output blobs
  (\<^verbatim>\<open>output_store.py\<close>) and \<open>ToolExecutor.execute\<close> of \<^verbatim>\<open>src/harness/tools/executor.py\<close>.

  The tool itself is a function from the number of the invocation to its outcome, so that a
  retried call may behave differently each time. Fresh identifiers, the measured duration and
  the clock are parameters; the clock is read as a function of the number of stored rows, which
  lets every append have its own reading. One execution is one uninterrupted action on the state; what a tool
  function itself changes is outside the model. Logging and tracing are left out.
\<close>

section \<open>Retry\<close>

datatype exc_kind = ExTimeout | ExConfirm string | ExOther

record py_exc =
  ex_kind :: exc_kind
  ex_class :: string
  ex_msg :: string

datatype call_outcome = Returned json | Raised py_exc

definition should_retry :: "int \<Rightarrow> string \<Rightarrow> retry_policy \<Rightarrow> bool" where
  "should_retry attempt error policy =
     (if attempt > rtp_max_retries policy then False
      else if rtp_retryable_errors policy \<noteq> [] \<and> \<not> list_ex (\<lambda>c. contains_sub c error) (rtp_retryable_errors policy)
      then False else True)"

text \<open>\<open>_backoff_ms\<close>; \<open>r\<close> is the value of \<^verbatim>\<open>random.random()\<close>, and \<^verbatim>\<open>int\<close> truncates towards zero.\<close>

definition trunc :: "rat \<Rightarrow> int" where
  "trunc x = (if x < 0 then - floor (- x) else floor x)"

definition backoff_ms :: "nat \<Rightarrow> retry_policy \<Rightarrow> rat \<Rightarrow> int" where
  "backoff_ms attempt policy r =
     (let base = rtp_backoff_base_ms policy * 2 ^ (attempt - 1);
          jitter = trunc (of_int base * (1 / 4) * (r * 2 - 1))
      in max 0 (base + jitter))"

definition no_error_to_raise :: py_exc where
  "no_error_to_raise = \<lparr> ex_kind = ExOther, ex_class = ''TypeError'',
     ex_msg = ''exceptions must derive from BaseException'' \<rparr>"

text \<open>
  The loop over the attempt numbers. \<open>call k\<close> is the outcome of the k-th invocation, \<open>chk\<close> the
  semantic check, which may itself raise; the last component counts the invocations made.
\<close>

fun retry_loop ::
    "retry_policy \<Rightarrow> (json \<Rightarrow> py_exc + string option) \<Rightarrow> (nat \<Rightarrow> call_outcome) \<Rightarrow> nat \<Rightarrow> int list \<Rightarrow> py_exc option \<Rightarrow> nat
      \<Rightarrow> (py_exc + json \<times> nat) \<times> nat" where
  "retry_loop policy chk call k [] last_error rc =
     (Inl (case last_error of Some e \<Rightarrow> e | None \<Rightarrow> no_error_to_raise), k)"
| "retry_loop policy chk call k (a # as) last_error rc =
     (case call k of
        Raised e \<Rightarrow>
          if \<not> should_retry a (ex_msg e) policy then (Inl e, Suc k)
          else retry_loop policy chk call (Suc k) as (Some e) (Suc rc)
      | Returned v \<Rightarrow>
          (case chk v of
             Inl e \<Rightarrow> (Inl e, Suc k)
           | Inr None \<Rightarrow> (Inr (v, rc), Suc k)
           | Inr (Some reason) \<Rightarrow>
               if a > rtp_max_retries policy then (Inr (v, rc), Suc k)
               else retry_loop policy chk call (Suc k) as last_error (Suc rc)))"

definition execute_with_retry ::
    "retry_policy \<Rightarrow> (json \<Rightarrow> py_exc + string option) \<Rightarrow> (nat \<Rightarrow> call_outcome) \<Rightarrow> (py_exc + json \<times> nat) \<times> nat" where
  "execute_with_retry policy chk call =
     retry_loop policy chk call 0 [1..rtp_max_retries policy + 1] None 0"

section \<open>Idempotency keys\<close>

definition idem_subset :: "string list \<Rightarrow> json dict \<Rightarrow> json dict" where
  "idem_subset names inp =
     fold (\<lambda>k d. case dget inp k of Some v \<Rightarrow> dset k v d | None \<Rightarrow> d) names []"

definition idem_compute :: "(string \<Rightarrow> string) \<Rightarrow> tool_definition \<Rightarrow> json dict \<Rightarrow> string list option \<Rightarrow> string option" where
  "idem_compute sha256hex td inp key_fields =
     (case (case key_fields of None \<Rightarrow> td_idempotency_key_fields td | Some fs \<Rightarrow> Some fs) of
        None \<Rightarrow> None
      | Some names \<Rightarrow>
          Some (sha256hex (td_name td @ '':'' @ json_dumps_sep '','' '':'' True (JDict (idem_subset names inp)))))"

section \<open>Semantic evaluation\<close>

definition type_error :: py_exc where
  "type_error = \<lparr> ex_kind = ExOther, ex_class = ''TypeError'', ex_msg = ''unsupported operand types'' \<rparr>"

fun py_in :: "json \<Rightarrow> json \<Rightarrow> bool option" where
  "py_in x (JList ys) = Some (list_ex (py_eq x) ys)"
| "py_in (JStr s) (JStr t) = Some (contains_sub s t)"
| "py_in x (JDict d) = (case x of JStr s \<Rightarrow> Some (has_key d s) | JList _ \<Rightarrow> None | JDict _ \<Rightarrow> None | _ \<Rightarrow> Some False)"
| "py_in _ _ = None"

fun indicator_ok :: "indicator_op \<Rightarrow> json \<Rightarrow> json \<Rightarrow> bool option" where
  "indicator_ok OpEq a v = Some (py_eq a v)"
| "indicator_ok OpNe a v = Some (\<not> py_eq a v)"
| "indicator_ok OpLt a v = py_cmp CLt a v"
| "indicator_ok OpLte a v = py_cmp CLe a v"
| "indicator_ok OpGt a v = py_cmp CGt a v"
| "indicator_ok OpGte a v = py_cmp CGe a v"
| "indicator_ok OpIn a v = py_in a v"

fun indicator_op_text :: "indicator_op \<Rightarrow> string" where
  "indicator_op_text OpEq = ''eq''"
| "indicator_op_text OpNe = ''ne''"
| "indicator_op_text OpLt = ''lt''"
| "indicator_op_text OpLte = ''lte''"
| "indicator_op_text OpGt = ''gt''"
| "indicator_op_text OpGte = ''gte''"
| "indicator_op_text OpIn = ''in''"

definition semantic_error_text :: "success_indicator \<Rightarrow> json dict \<Rightarrow> json \<Rightarrow> string" where
  "semantic_error_text ind d actual =
     (if truthy (dget_or JNull d ''error'') then py_str (dget_or JNull d ''error'')
      else if truthy (dget_or JNull d ''message'') then py_str (dget_or JNull d ''message'')
      else si_field ind @ ''='' @ py_str actual @ '' (op='' @ indicator_op_text (si_op ind) @ '', value=''
           @ py_str (si_value ind) @ '')'')"

definition sem_evaluate :: "json \<Rightarrow> tool_definition \<Rightarrow> py_exc + tool_result_type \<times> string option" where
  "sem_evaluate out td =
     (case (td_success_indicator td, out) of
        (Some ind, JDict d) \<Rightarrow>
          (case get_value d (si_field ind) of
             None \<Rightarrow> Inr (TR_SUCCESS, None)
           | Some actual \<Rightarrow>
               (case indicator_ok (si_op ind) actual (si_value ind) of
                  None \<Rightarrow> Inl type_error
                | Some True \<Rightarrow> Inr (TR_SUCCESS, None)
                | Some False \<Rightarrow> Inr (TR_UNSUCCESSFUL, Some (semantic_error_text ind d actual))))
      | _ \<Rightarrow> Inr (TR_SUCCESS, None))"

text \<open>\<open>_semantic_retry_reason\<close> of \<open>execute\<close>.\<close>

definition semantic_retry_reason :: "tool_definition \<Rightarrow> string \<Rightarrow> json dict \<Rightarrow> json \<Rightarrow> py_exc + string option" where
  "semantic_retry_reason td tool inp out =
     (case sem_evaluate out td of
        Inl e \<Rightarrow> Inl e
      | Inr (rt, err) \<Rightarrow>
          Inr (if rt \<noteq> TR_UNSUCCESSFUL \<or> \<not> opt_truthy err then None
               else if classify_failure_tier err False \<noteq> ''tool_retry'' then None
               else if rtp_retryable_errors (td_retry_policy td) \<noteq> []
                       \<and> \<not> list_ex (\<lambda>c. contains_sub c (the err)) (rtp_retryable_errors (td_retry_policy td)) then None
               else if \<not> is_read_only_action tool inp then None
               else err))"

section \<open>Output blobs\<close>

definition is_hex_char :: "char \<Rightarrow> bool" where
  "is_hex_char c \<longleftrightarrow> is_digit c \<or> (let n = of_char c :: nat in 97 \<le> n \<and> n \<le> 102)"

text \<open>\<^verbatim>\<open>^[0-9a-f]{64}\.json$\<close>: the final \<^verbatim>\<open>$\<close> also matches before a trailing newline.\<close>

definition is_valid_blob_ref :: "string \<Rightarrow> bool" where
  "is_valid_blob_ref ref \<longleftrightarrow>
     (\<exists>tl\<in>{[], [CHR 0x0A]}. length (take 64 ref) = 64 \<and> list_all is_hex_char (take 64 ref) \<and> drop 64 ref = ''.json'' @ tl)"

definition BLOB_NAMESPACE :: string where
  "BLOB_NAMESPACE = ''.harness_outputs''"

definition SUMMARY_MAX_CHARS :: int where
  "SUMMARY_MAX_CHARS = 120"

definition serialize_output :: "json \<Rightarrow> string" where
  "serialize_output out = json_dumps True out"

definition summarize_output :: "json \<Rightarrow> int \<Rightarrow> string" where
  "summarize_output out max_chars =
     (let txt = map (\<lambda>c. if c = CHR 0x0A then CHR '' '' else c) (serialize_output out)
      in if int (length txt) \<le> max_chars then txt else take (nat max_chars) txt @ ''...(truncated)'')"

definition build_ref_placeholder :: "output_blob_stored_payload \<Rightarrow> json" where
  "build_ref_placeholder blob =
     JDict [(''truncated'', JBool (obs_truncated blob)), (''ref'', JStr (obs_ref blob)),
            (''sha256'', JStr (obs_sha256 blob)), (''bytes'', JInt (obs_bytes blob)),
            (''summary'', JStr (take 300 (obs_summary blob))),
            (''note'', JStr ''full output offloaded to blob; use fetch_output(ref) to retrieve'')]"

text \<open>A backend: its path check (the message of a PermissionError) and whether a write raises.\<close>

record backend =
  be_resolve :: "string \<Rightarrow> string option"
  be_write_fails :: "string \<Rightarrow> string \<Rightarrow> bool"

text \<open>\<open>OutputBlobStore.store\<close>: None keeps the output inline, also when the write raises.\<close>

definition blob_store ::
    "(string \<Rightarrow> string) \<Rightarrow> int \<Rightarrow> backend option \<Rightarrow> json \<Rightarrow> string \<Rightarrow> string \<Rightarrow> string option \<Rightarrow> string option
      \<Rightarrow> string dict \<Rightarrow> output_blob_stored_payload option \<times> string dict" where
  "blob_store sha256hex inline_max be out call_id tool step_id ws blobs =
     (case be of
        None \<Rightarrow> (None, blobs)
      | Some b \<Rightarrow>
          (let s = serialize_output out; digest = sha256hex s; ref = digest @ ''.json'';
               path = BLOB_NAMESPACE @ ''/'' @ ref
           in if int (length s) \<le> inline_max then (None, blobs)
              else if be_write_fails b path s then (None, blobs)
              else (Some \<lparr> obs_tool_call_id = call_id, obs_tool_name = tool, obs_ref = ref, obs_sha256 = digest,
                      obs_bytes = int (length s), obs_summary = summarize_output out (min inline_max SUMMARY_MAX_CHARS),
                      obs_truncated = True, obs_step_id = step_id, obs_workspace_id = ws \<rparr>,
                    dset path s blobs)))"

text \<open>\<open>OutputBlobStore.fetch\<close>; \<open>loads\<close> stands for \<^verbatim>\<open>json.loads\<close>.\<close>

definition blob_fetch :: "(string \<Rightarrow> json option) \<Rightarrow> string dict \<Rightarrow> string \<Rightarrow> json result" where
  "blob_fetch loads blobs ref =
     (if \<not> is_valid_blob_ref ref then Inl (ValueError (''invalid output blob ref: '' @ repr_str ref))
      else case dget blobs (BLOB_NAMESPACE @ ''/'' @ ref) of
             None \<Rightarrow> Inl (ValueError (''blob not found: '' @ ref))
           | Some content \<Rightarrow>
               (case loads content of None \<Rightarrow> Inl (ValueError ''invalid JSON'') | Some v \<Rightarrow> Inr v))"

section \<open>Actions\<close>

text \<open>
  What an execution changes: the event log, the rate limiter's history, the blobs of the
  workspace; \<open>xc_calls\<close> records every invocation of a tool function (run, step, tool, input), so that
  theorems can speak about it. An action returns a value or raises, and always has a state.
\<close>

record exec_ctx =
  xc_store :: store
  xc_history :: history
  xc_blobs :: "string dict"
  xc_calls :: "(string \<times> string option \<times> string \<times> json dict) list"

type_synonym 'a action = "exec_ctx \<Rightarrow> (py_exc + 'a) \<times> exec_ctx"

definition act_return :: "'a \<Rightarrow> 'a action" where
  "act_return x c = (Inr x, c)"

definition act_raise :: "py_exc \<Rightarrow> 'a action" where
  "act_raise e c = (Inl e, c)"

definition act_bind :: "'a action \<Rightarrow> ('a \<Rightarrow> 'b action) \<Rightarrow> 'b action" where
  "act_bind m f c = (case m c of (Inl e, c1) \<Rightarrow> (Inl e, c1) | (Inr x, c1) \<Rightarrow> f x c1)"

definition act_then :: "'a action \<Rightarrow> 'b action \<Rightarrow> 'b action" where
  "act_then m k = act_bind m (\<lambda>_. k)"

text \<open>\<^verbatim>\<open>try: m except Exception as e: h(e)\<close>\<close>

definition act_try :: "'a action \<Rightarrow> (py_exc \<Rightarrow> 'a action) \<Rightarrow> 'a action" where
  "act_try m h c = (case m c of (Inl e, c1) \<Rightarrow> h e c1 | (Inr x, c1) \<Rightarrow> (Inr x, c1))"

definition other_exc :: "string \<Rightarrow> string \<Rightarrow> py_exc" where
  "other_exc cls msg = \<lparr> ex_kind = ExOther, ex_class = cls, ex_msg = msg \<rparr>"

fun exc_of_error :: "py_error \<Rightarrow> py_exc" where
  "exc_of_error (ValueError m) = other_exc ''ValueError'' m"
| "exc_of_error (KeyError m) = other_exc ''KeyError'' m"
| "exc_of_error (TypeErr m) = other_exc ''TypeError'' m"
| "exc_of_error (RuntimeErr m) = other_exc ''RuntimeError'' m"
| "exc_of_error (PermissionErr m) = other_exc ''PermissionError'' m"
| "exc_of_error (LookupErr m) = other_exc ''LookupError'' m"

fun exc_of_store_error :: "store_error \<Rightarrow> py_exc" where
  "exc_of_store_error (DuplicateIdempotencyKeyError m) = other_exc ''DuplicateIdempotencyKeyError'' m"
| "exc_of_store_error (SequenceConflictError m) = other_exc ''SequenceConflictError'' m"
| "exc_of_store_error IntegrityError = other_exc ''IntegrityError'' ''UNIQUE constraint failed''"
| "exc_of_store_error (StoreValueError m) = other_exc ''ValueError'' m"

section \<open>The executor\<close>

datatype schema_verdict = SchemaValid | SchemaInvalid | SchemaRaised py_exc

text \<open>
  The collaborators of a \<open>ToolExecutor\<close>. \<open>xe_tenant\<close> is None over a raw store and the fixed
  tenant over the scoped facade.
\<close>

record exec_env =
  xe_guard :: guard_env
  xe_sha256hex :: "string \<Rightarrow> string"
  xe_output_schema :: "json dict \<Rightarrow> json \<Rightarrow> schema_verdict"
  xe_clock :: "nat \<Rightarrow> timestamp"
  xe_inline_max :: int
  xe_tenant :: "string option"

text \<open>The arguments of \<open>execute\<close>, and what one execution draws from outside.\<close>

record tool_call =
  tl_run_id :: string
  tl_tool_name :: string
  tl_input :: "json dict"
  tl_override_id :: "string option"
  tl_step_id :: "string option"
  tl_scope :: "workspace_scope option"
  tl_backend :: "backend option"
  tl_workspace_id :: "string option"

record exec_draw =
  dr_uuid :: string
  dr_confirm_uuid :: string
  dr_duration :: int
  dr_call :: "nat \<Rightarrow> call_outcome"

datatype execution_status = X_COMPLETED | X_FAILED | X_TIMEOUT | X_GUARDRAIL_BLOCKED | X_CONFIRMATION_NEEDED | X_IDEMPOTENCY_HIT

fun execution_status_value :: "execution_status \<Rightarrow> string" where
  "execution_status_value X_COMPLETED = ''completed''"
| "execution_status_value X_FAILED = ''failed''"
| "execution_status_value X_TIMEOUT = ''timeout''"
| "execution_status_value X_GUARDRAIL_BLOCKED = ''guardrail_blocked''"
| "execution_status_value X_CONFIRMATION_NEEDED = ''confirmation_needed''"
| "execution_status_value X_IDEMPOTENCY_HIT = ''idempotency_hit''"

record tool_execution_result =
  ter_status :: execution_status
  ter_tool_call_id :: string
  ter_tool_name :: string
  ter_idempotency_key :: "string option"
  ter_output :: json
  ter_duration_ms :: int
  ter_error :: "string option"
  ter_retryable :: bool
  ter_timeout_ms :: int
  ter_guardrail_id :: "string option"
  ter_guardrail_reason :: "string option"
  ter_confirmation_id :: "string option"
  ter_cached :: bool
  ter_retry_attempts :: nat
  ter_has_semantic_error :: bool

definition ToolExecutionResult0 :: "execution_status \<Rightarrow> string \<Rightarrow> string \<Rightarrow> string option \<Rightarrow> tool_execution_result" where
  "ToolExecutionResult0 status call_id tool ik =
     \<lparr> ter_status = status, ter_tool_call_id = call_id, ter_tool_name = tool, ter_idempotency_key = ik,
       ter_output = JNull, ter_duration_ms = 0, ter_error = None, ter_retryable = False, ter_timeout_ms = 0,
       ter_guardrail_id = None, ter_guardrail_reason = None, ter_confirmation_id = None, ter_cached = False,
       ter_retry_attempts = 0, ter_has_semantic_error = False \<rparr>"

text \<open>The store as the executor uses it, raw or scoped.\<close>

definition log_append :: "exec_env \<Rightarrow> string \<Rightarrow> payload \<Rightarrow> string option \<Rightarrow> unit action" where
  "log_append env run_id p key c =
     (let st = xc_store c; now = xe_clock env (length (es_events st))
      in case (case xe_tenant env of
                 None \<Rightarrow> append_event st run_id p (default_opts\<lparr>ao_idempotency_key := key\<rparr>) now
               | Some t \<Rightarrow> scoped_append t st run_id p key None False now) of
           (Inl err, st') \<Rightarrow> (Inl (exc_of_store_error err), c\<lparr>xc_store := st'\<rparr>)
         | (Inr _, st') \<Rightarrow> (Inr (), c\<lparr>xc_store := st'\<rparr>))"

definition log_find_key :: "exec_env \<Rightarrow> store \<Rightarrow> string \<Rightarrow> event_type \<Rightarrow> string \<Rightarrow> event option" where
  "log_find_key env st run_id et key =
     (case xe_tenant env of
        None \<Rightarrow> find_by_idempotency_key st run_id et key
      | Some t \<Rightarrow> scoped_find_by_idempotency_key t st run_id et key)"

definition find_confirmation_received :: "exec_env \<Rightarrow> store \<Rightarrow> string \<Rightarrow> string \<Rightarrow> event option" where
  "find_confirmation_received env st run_id cid =
     (case xe_tenant env of
        None \<Rightarrow> find_confirmation_by_id st run_id cid
      | Some t \<Rightarrow> scoped_find_confirmation_by_id t st run_id cid)"

definition log_reader :: "exec_env \<Rightarrow> store \<Rightarrow> string \<Rightarrow> event list" where
  "log_reader env st run_id =
     (case xe_tenant env of None \<Rightarrow> get_events st run_id | Some t \<Rightarrow> scoped_get_events t st run_id)"

definition run_checks :: "exec_env \<Rightarrow> tool_definition \<Rightarrow> tool_call \<Rightarrow> guardrail_result list action" where
  "run_checks env td call c =
     (case run_guardrails (xe_guard env) (Some (log_reader env (xc_store c))) (map_option be_resolve (tl_backend call)) td
             (tl_input call) (Some (tl_run_id call)) (tl_scope call) (xe_clock env (length (es_events (xc_store c)))) (xc_history c) of
        (Inl err, h) \<Rightarrow> (Inl (exc_of_error err), c\<lparr>xc_history := h\<rparr>)
      | (Inr rs, h) \<Rightarrow> (Inr rs, c\<lparr>xc_history := h\<rparr>))"

text \<open>The invocations of the tool under the retry policy, each recorded.\<close>

definition invoke_tool :: "tool_definition \<Rightarrow> tool_call \<Rightarrow> exec_draw \<Rightarrow> (json \<times> nat) action" where
  "invoke_tool td call dr c =
     (case execute_with_retry (td_retry_policy td) (semantic_retry_reason td (tl_tool_name call) (tl_input call)) (dr_call dr) of
        (r, n) \<Rightarrow> (r, c\<lparr>xc_calls := xc_calls c @ replicate n (tl_run_id call, tl_step_id call, tl_tool_name call, tl_input call)\<rparr>))"

definition put_blob ::
    "exec_env \<Rightarrow> tool_call \<Rightarrow> string \<Rightarrow> json \<Rightarrow> output_blob_stored_payload option action" where
  "put_blob env call call_id out c =
     (case blob_store (xe_sha256hex env) (xe_inline_max env) (tl_backend call) out call_id (tl_tool_name call)
             (tl_step_id call) (tl_workspace_id call) (xc_blobs c) of
        (stored, bs) \<Rightarrow> (Inr stored, c\<lparr>xc_blobs := bs\<rparr>))"

definition offload_if_large :: "exec_env \<Rightarrow> tool_call \<Rightarrow> string \<Rightarrow> json \<Rightarrow> json action" where
  "offload_if_large env call call_id out =
     act_bind (put_blob env call call_id out) (\<lambda>stored.
       case stored of
         None \<Rightarrow> act_return out
       | Some blob \<Rightarrow>
           act_then (log_append env (tl_run_id call) (PTool (OutputBlobStored blob)) None)
             (act_return (build_ref_placeholder blob)))"

fun structurally_usable :: "json \<Rightarrow> bool" where
  "structurally_usable (JDict _) = True"
| "structurally_usable (JList _) = True"
| "structurally_usable _ = False"

fun type_name :: "json \<Rightarrow> string" where
  "type_name JNull = ''NoneType''"
| "type_name (JBool _) = ''bool''"
| "type_name (JInt _) = ''int''"
| "type_name (JFloat _) = ''float''"
| "type_name (JStr _) = ''str''"
| "type_name (JList _) = ''list''"
| "type_name (JDict _) = ''dict''"

text \<open>A \<open>ToolFailed\<close> event and the failed result.\<close>

definition fail_call ::
    "exec_env \<Rightarrow> tool_call \<Rightarrow> string \<Rightarrow> string option \<Rightarrow> string \<Rightarrow> bool \<Rightarrow> int \<Rightarrow> tool_execution_result action" where
  "fail_call env call call_id ik err retryable duration =
     act_then
       (log_append env (tl_run_id call) (PTool (ToolFailed \<lparr> tf_tool_call_id = call_id, tf_tool_name = tl_tool_name call,
          tf_error = err, tf_retryable = retryable, tf_step_id = tl_step_id call \<rparr>)) None)
       (act_return ((ToolExecutionResult0 X_FAILED call_id (tl_tool_name call) ik)\<lparr>ter_error := Some err,
          ter_retryable := retryable, ter_duration_ms := duration\<rparr>))"

definition completed_payload ::
    "tool_call \<Rightarrow> string \<Rightarrow> json \<Rightarrow> int \<Rightarrow> tool_result_type \<Rightarrow> string option \<Rightarrow> payload" where
  "completed_payload call call_id out duration rt err =
     PTool (ToolCompleted \<lparr> tco_tool_call_id = call_id, tco_tool_name = tl_tool_name call, tco_output = out,
       tco_duration_ms = duration, tco_result_type = rt, tco_error = err, tco_step_id = tl_step_id call \<rparr>)"

text \<open>The body of the \<^verbatim>\<open>try\<close> of step 7: invoke, evaluate, check the output schema, offload, record.\<close>

definition finish_success ::
    "exec_env \<Rightarrow> tool_call \<Rightarrow> string \<Rightarrow> string option \<Rightarrow> int \<Rightarrow> json \<Rightarrow> nat \<Rightarrow> tool_execution_result action" where
  "finish_success env call call_id ik duration out retries =
     act_bind (offload_if_large env call call_id out) (\<lambda>persisted.
       act_then (log_append env (tl_run_id call) (completed_payload call call_id persisted duration TR_SUCCESS None) ik)
         (act_return ((ToolExecutionResult0 X_COMPLETED call_id (tl_tool_name call) ik)\<lparr>ter_output := out,
            ter_duration_ms := duration, ter_retry_attempts := retries\<rparr>)))"

definition finish_call ::
    "exec_env \<Rightarrow> tool_definition \<Rightarrow> tool_call \<Rightarrow> string \<Rightarrow> string option \<Rightarrow> int \<Rightarrow> json \<Rightarrow> nat \<Rightarrow> tool_execution_result action" where
  "finish_call env td call call_id ik duration out retries =
     (case sem_evaluate out td of
        Inl e \<Rightarrow> act_raise e
      | Inr (TR_UNSUCCESSFUL, err) \<Rightarrow>
          act_then (log_append env (tl_run_id call) (completed_payload call call_id out duration TR_UNSUCCESSFUL err) None)
            (act_return ((ToolExecutionResult0 X_COMPLETED call_id (tl_tool_name call) ik)\<lparr>ter_output := out,
               ter_duration_ms := duration, ter_retry_attempts := retries, ter_has_semantic_error := True, ter_error := err\<rparr>))
      | Inr (TR_SUCCESS, _) \<Rightarrow>
          (case (if td_output_schema td = [] then SchemaValid else xe_output_schema env (td_output_schema td) out) of
             SchemaRaised e \<Rightarrow> act_raise e
           | SchemaValid \<Rightarrow> finish_success env call call_id ik duration out retries
           | SchemaInvalid \<Rightarrow>
               if structurally_usable out then finish_success env call call_id ik duration out retries
               else fail_call env call call_id ik
                      (''Output schema validation failed: expected structured data, got '' @ type_name out) False duration))"

text \<open>The \<^verbatim>\<open>except\<close> clauses, in order.\<close>

definition handle_exc ::
    "exec_env \<Rightarrow> tool_definition \<Rightarrow> tool_call \<Rightarrow> string \<Rightarrow> string option \<Rightarrow> int \<Rightarrow> py_exc \<Rightarrow> tool_execution_result action" where
  "handle_exc env td call call_id ik duration e =
     (case ex_kind e of
        ExTimeout \<Rightarrow>
          act_then
            (log_append env (tl_run_id call) (PTool (ToolTimeout \<lparr> tt_tool_call_id = call_id, tt_tool_name = tl_tool_name call,
               tt_timeout_ms = td_timeout_ms td, tt_step_id = tl_step_id call \<rparr>)) None)
            (act_return ((ToolExecutionResult0 X_TIMEOUT call_id (tl_tool_name call) ik)\<lparr>ter_timeout_ms := td_timeout_ms td,
               ter_duration_ms := duration, ter_error := Some (''Tool timed out after '' @ show_int duration @ ''ms'')\<rparr>))
      | ExConfirm cid \<Rightarrow>
          act_return ((ToolExecutionResult0 X_CONFIRMATION_NEEDED call_id (tl_tool_name call) ik)\<lparr>
            ter_confirmation_id := Some cid, ter_duration_ms := duration\<rparr>)
      | ExOther \<Rightarrow>
          fail_call env call call_id ik (ex_msg e)
            (list_ex (\<lambda>c. contains_sub c (ex_msg e) \<or> contains_sub c (ex_class e)) (rtp_retryable_errors (td_retry_policy td)))
            duration)"

definition perform_call ::
    "exec_env \<Rightarrow> tool_definition \<Rightarrow> tool_call \<Rightarrow> exec_draw \<Rightarrow> string \<Rightarrow> string option \<Rightarrow> tool_execution_result action" where
  "perform_call env td call dr call_id ik =
     act_then
       (log_append env (tl_run_id call) (PTool (ToolCalled \<lparr> tc_tool_call_id = call_id, tc_tool_name = tl_tool_name call,
          tc_input = tl_input call, tc_idempotency_key = ik, tc_step_id = tl_step_id call \<rparr>)) None)
       (act_try
          (act_bind (invoke_tool td call dr) (\<lambda>(out, retries). finish_call env td call call_id ik (dr_duration dr) out retries))
          (handle_exc env td call call_id ik (dr_duration dr)))"

text \<open>Step 5. \<open>k\<close> is the rest of the execution, given the tool call id to use.\<close>

definition confirm_key :: "string option \<Rightarrow> string \<Rightarrow> string" where
  "confirm_key ik tool = opt_or ik (''_noik_'' @ tool)"

definition confirmation_wait :: "tool_call \<Rightarrow> string \<Rightarrow> string option \<Rightarrow> string \<Rightarrow> tool_execution_result action" where
  "confirmation_wait call call_id ik cid =
     act_return ((ToolExecutionResult0 X_CONFIRMATION_NEEDED call_id (tl_tool_name call) ik)\<lparr>ter_confirmation_id := Some cid\<rparr>)"

definition request_confirmation ::
    "exec_env \<Rightarrow> tool_call \<Rightarrow> exec_draw \<Rightarrow> string \<Rightarrow> string option \<Rightarrow> tool_execution_result action" where
  "request_confirmation env call dr call_id ik =
     (let key = confirm_key ik (tl_tool_name call); cid = dr_confirm_uuid dr
      in act_then
           (log_append env (tl_run_id call) (PConfirmation (ConfirmationRequested \<lparr> crq_confirmation_id = cid,
              crq_tool_call_id = call_id, crq_tool_name = tl_tool_name call, crq_input = tl_input call,
              crq_idempotency_key = key, crq_risk_level = ''medium'', crq_step_id = tl_step_id call \<rparr>)) (Some key))
           (confirmation_wait call call_id ik cid))"

definition invalid_payload :: "string \<Rightarrow> py_exc" where
  "invalid_payload cls = other_exc ''ValidationError'' (''validation error for '' @ cls)"

definition confirmation_gate ::
    "exec_env \<Rightarrow> tool_call \<Rightarrow> exec_draw \<Rightarrow> string \<Rightarrow> string option \<Rightarrow> (string \<Rightarrow> tool_execution_result action)
      \<Rightarrow> tool_execution_result action" where
  "confirmation_gate env call dr call_id ik k c =
     (case log_find_key env (xc_store c) (tl_run_id call) CONFIRMATION (confirm_key ik (tl_tool_name call)) of
        None \<Rightarrow> request_confirmation env call dr call_id ik c
      | Some req \<Rightarrow>
          (case ev_payload req of
             PConfirmation (ConfirmationRequested rq) \<Rightarrow>
               (case find_confirmation_received env (xc_store c) (tl_run_id call) (crq_confirmation_id rq) of
                  None \<Rightarrow> confirmation_wait call call_id ik (crq_confirmation_id rq) c
                | Some e \<Rightarrow>
                    (case ev_payload e of
                       PConfirmation (ConfirmationReceived cr) \<Rightarrow>
                         if crc_confirmed cr then k (crq_tool_call_id rq) c
                         else fail_call env call call_id ik ''Confirmation denied by operator'' False 0 c
                     | _ \<Rightarrow> act_raise (invalid_payload ''ConfirmationReceivedPayload'') c))
           | _ \<Rightarrow> act_raise (invalid_payload ''ConfirmationRequestedPayload'') c))"

text \<open>Step 3: the cached result, if there is one.\<close>

definition cached_result :: "tool_call \<Rightarrow> string option \<Rightarrow> tool_completed_payload \<Rightarrow> tool_execution_result" where
  "cached_result call ik p =
     (let se = (tco_result_type p = TR_UNSUCCESSFUL)
      in (ToolExecutionResult0 X_IDEMPOTENCY_HIT (tco_tool_call_id p) (tl_tool_name call) ik)\<lparr>ter_output := tco_output p,
           ter_duration_ms := tco_duration_ms p, ter_cached := True, ter_has_semantic_error := se,
           ter_error := (if se then tco_error p else None)\<rparr>)"

definition idempotency_gate ::
    "exec_env \<Rightarrow> tool_call \<Rightarrow> string option \<Rightarrow> tool_execution_result action \<Rightarrow> tool_execution_result action" where
  "idempotency_gate env call ik k c =
     (case Option.bind ik (log_find_key env (xc_store c) (tl_run_id call) TOOL) of
        None \<Rightarrow> k c
      | Some e \<Rightarrow>
          (case ev_payload e of
             PTool (ToolCompleted p) \<Rightarrow> act_return (cached_result call ik p) c
           | _ \<Rightarrow> act_raise (invalid_payload ''ToolCompletedPayload'') c))"

definition block_call ::
    "exec_env \<Rightarrow> tool_call \<Rightarrow> string \<Rightarrow> string option \<Rightarrow> guardrail_result \<Rightarrow> tool_execution_result action" where
  "block_call env call call_id ik g =
     act_then
       (log_append env (tl_run_id call) (PTool (GuardrailTriggered \<lparr> gt_tool_call_id = call_id, gt_tool_name = tl_tool_name call,
          gt_guardrail_id = gr_id g, gt_reason = gr_reason g, gt_step_id = tl_step_id call,
          gt_workspace_id = tl_workspace_id call \<rparr>)) None)
       (act_return ((ToolExecutionResult0 X_GUARDRAIL_BLOCKED call_id (tl_tool_name call) ik)\<lparr>
          ter_guardrail_id := Some (gr_id g), ter_guardrail_reason := Some (gr_reason g)\<rparr>))"

definition execute :: "exec_env \<Rightarrow> tool_definition \<Rightarrow> tool_call \<Rightarrow> exec_draw \<Rightarrow> tool_execution_result action" where
  "execute env td call dr =
     (let call_id = opt_or (tl_override_id call) (dr_uuid dr);
          ik = idem_compute (xe_sha256hex env) td (tl_input call) (effective_idempotency_key_fields td (tl_input call))
      in act_bind (run_checks env td call) (\<lambda>results.
           case find (\<lambda>g. \<not> gr_passed g) results of
             Some g \<Rightarrow> block_call env call call_id ik g
           | None \<Rightarrow>
               idempotency_gate env call ik
                 (if effective_requires_confirmation td (tl_input call) \<or> list_ex gr_triggers_confirmation results
                  then confirmation_gate env call dr call_id ik (\<lambda>cid. perform_call env td call dr cid ik)
                  else perform_call env td call dr call_id ik)))"

end
