(* ===== verification/Delivery.thy ===== *)
theory Delivery
  imports Tool_Executor Dag_Types
begin

text \<open>
  Delivery contracts: the validation of a contract's input (models/intent.py), the verdict
  on the deliverables of a finished plan (core/scheduler/completion.py) and the invariants a
  revised plan keeps of the contract (core/planner/revision_invariants.py). The completion
  gate and the revision check are characterised exactly, and composed: a revision that
  passes the check and completes normally meets its contract.
\<close>

section \<open>Validation of contract inputs\<close>

text \<open>\<^verbatim>\<open>list(v)\<close> of a schema entry.\<close>

fun py_list :: "json \<Rightarrow> json list result" where
  "py_list (JList xs) = Inr xs"
| "py_list (JStr s) = Inr (map (\<lambda>c. JStr [c]) s)"
| "py_list (JDict d) = Inr (map (\<lambda>kv. JStr (fst kv)) d)"
| "py_list _ = Inl (TypeErr ''object is not iterable'')"

text \<open>A required field of the schema is missing from the input, or empty.\<close>

fun field_missing :: "json dict \<Rightarrow> json \<Rightarrow> bool result" where
  "field_missing inp (JStr f) = Inr (case dget inp f of None \<Rightarrow> True | Some v \<Rightarrow> v = JNull \<or> v = JStr [])"
| "field_missing inp (JList _) = Inl (TypeErr ''unhashable type'')"
| "field_missing inp (JDict _) = Inl (TypeErr ''unhashable type'')"
| "field_missing inp _ = Inr True"

fun missing_errors :: "string \<Rightarrow> json dict \<Rightarrow> json list \<Rightarrow> string list result" where
  "missing_errors tool inp [] = Inr []"
| "missing_errors tool inp (f # fs) =
     rbind (field_missing inp f) (\<lambda>miss.
     rmap (\<lambda>es. (if miss then [tool @ ''.input.'' @ py_str f @ '' is required''] else []) @ es)
       (missing_errors tool inp fs))"

definition add_required :: "string list \<Rightarrow> json list \<Rightarrow> json list" where
  "add_required fs required = fold (\<lambda>f rs. if JStr f \<in> set rs then rs else rs @ [JStr f]) fs required"

text \<open>One entry of \<^verbatim>\<open>properties\<close> against a present value.\<close>

definition property_errors :: "string \<Rightarrow> string \<Rightarrow> json dict \<Rightarrow> json \<Rightarrow> string list result" where
  "property_errors tool field definition0 v =
     rbind (case dget definition0 ''enum'' of
              None \<Rightarrow> Inr []
            | Some enum \<Rightarrow>
                (case py_in v enum of
                   None \<Rightarrow> Inl (TypeErr ''argument is not a container'')
                 | Some b \<Rightarrow> Inr (if b then [] else [tool @ ''.input.'' @ field @ '' must be one of '' @ py_str enum])))
       (\<lambda>es. Inr (es
         @ (if dget definition0 ''type'' = Some (JStr ''string'') \<and> \<not> is_jstr v
            then [tool @ ''.input.'' @ field @ '' must be a string''] else [])
         @ (if dget definition0 ''type'' = Some (JStr ''object'') \<and> \<not> is_jdict v
            then [tool @ ''.input.'' @ field @ '' must be an object''] else [])))"

fun properties_errors :: "string \<Rightarrow> json dict \<Rightarrow> (string \<times> json) list \<Rightarrow> string list result" where
  "properties_errors tool inp [] = Inr []"
| "properties_errors tool inp ((field, def0) # rest) =
     rbind (case dget inp field of
              None \<Rightarrow> Inr []
            | Some v \<Rightarrow>
                (case def0 of
                   JDict d \<Rightarrow> property_errors tool field d v
                 | _ \<Rightarrow> Inl (TypeErr ''definition is not a mapping'')))
       (\<lambda>es. rmap (\<lambda>es2. es @ es2) (properties_errors tool inp rest))"

definition content_errors :: "tool_definition \<Rightarrow> operation_contract option \<Rightarrow> json dict \<Rightarrow> string list" where
  "content_errors td op inp =
     (if td_name td = ''file_op''
       \<and> (case op of Some c \<Rightarrow> oc_operation c \<in> {''write'', ''append''} | None \<Rightarrow> False)
       \<and> (case dget inp ''content'' of Some v \<Rightarrow> \<not> is_jstr v | None \<Rightarrow> False)
      then [''file_op.input.content must be a string''] else [])"

definition validate_delivery_contract_input :: "string \<Rightarrow> json \<Rightarrow> tool_definition option \<Rightarrow> string list result" where
  "validate_delivery_contract_input tool op_input tool_def =
     (case tool_def of
        None \<Rightarrow> Inr [unknown_tool_message tool]
      | Some td \<Rightarrow>
          (case op_input of
             JDict inp \<Rightarrow>
               if inp = [] then Inr [''input must be a non-empty object'']
               else
                 (let op = resolve_operation_contract td inp
                  in rbind (py_list (dget_or (JList []) (td_input_schema td) ''required'')) (\<lambda>req0.
                     let req1 = (if td_operations td \<noteq> [] then req0 @ [JStr (td_operation_key td)] else req0);
                         required = (case op of Some c \<Rightarrow> add_required (oc_required_input c) req1 | None \<Rightarrow> req1)
                     in rbind (missing_errors tool inp required) (\<lambda>e1.
                        rbind (case dget_or (JDict []) (td_input_schema td) ''properties'' of
                                 JDict props \<Rightarrow> properties_errors tool inp props
                               | _ \<Rightarrow> Inl (TypeErr ''properties is not a mapping'')) (\<lambda>e2.
                        let errors = e1 @ e2 @ content_errors td op inp
                        in if errors \<noteq> [] then Inr errors
                           else Inr (if td_operations td \<noteq> []
                                  \<and> \<not> list_ex (\<lambda>c. dget inp (td_operation_key td) = Some (JStr (oc_operation c))) (td_operations td)
                                then [tool @ '' has no declared operation ''
                                  @ quoted (py_str (dget_or JNull inp (td_operation_key td)))]
                                else [])))))
           | _ \<Rightarrow> Inr [''input must be a non-empty object'']))"

section \<open>The completion gate\<close>

record deliverable_verdict =
  dv_contract_id :: string
  dv_status :: string
  dv_matched_step_ids :: "string list"

record completion_verdict =
  cv_mechanical_complete :: bool
  cv_unmet_step_ids :: "string list"
  cv_deliverables :: "deliverable_verdict list"
  cv_deliverable_status :: string

definition deliverable_met :: "completion_verdict \<Rightarrow> bool" where
  "deliverable_met cv \<longleftrightarrow> cv_deliverable_status cv = ''met''"

text \<open>A contract is matched like a declared operation: only its tool and its input are read.\<close>

definition contract_op :: "delivery_contract \<Rightarrow> required_operation" where
  "contract_op c = \<lparr> ro_tool = dc_tool c, ro_input = dc_input c \<rparr>"

definition normal_at :: "step_result dict \<Rightarrow> string dict \<Rightarrow> string \<Rightarrow> bool" where
  "normal_at results aliases sid =
     (case dget results (dget_or sid aliases sid) of Some r \<Rightarrow> step_normal r | None \<Rightarrow> False)"

definition op_covered :: "dag_plan \<Rightarrow> step_result dict \<Rightarrow> string dict \<Rightarrow> required_operation \<Rightarrow> bool" where
  "op_covered plan results aliases req =
     list_ex (\<lambda>s. step_satisfies s req \<and> normal_at results aliases (ds_id s)) (dp_steps plan)"

definition declared_op_text :: "nat \<Rightarrow> required_operation \<Rightarrow> string" where
  "declared_op_text i req =
     ''declared_op#'' @ show_nat i @ '':'' @ ro_tool req @ '' '' @ py_repr (JDict (ro_input req))"

definition verify_deliverables ::
    "delivery_contract list \<Rightarrow> dag_plan \<Rightarrow> step_result dict \<Rightarrow> string dict \<Rightarrow> deliverable_verdict list" where
  "verify_deliverables contracts plan results aliases =
     map (\<lambda>c. let matched = map ds_id (filter (\<lambda>s. step_satisfies s (contract_op c) \<and> normal_at results aliases (ds_id s)) (dp_steps plan))
              in \<lparr> dv_contract_id = dc_contract_id c, dv_status = (if matched \<noteq> [] then ''met'' else ''unmet''),
                   dv_matched_step_ids = matched \<rparr>) contracts"

definition compute_verdict ::
    "dag_plan \<Rightarrow> step_result dict \<Rightarrow> string dict \<Rightarrow> delivery_contract list \<Rightarrow> completion_verdict" where
  "compute_verdict plan results aliases contracts =
     (let unmet = filter (\<lambda>sid. \<not> normal_at results aliases sid) (step_ids (dp_steps plan))
            @ map (\<lambda>(i, req). declared_op_text i req)
                (filter (\<lambda>(i, req). \<not> op_covered plan results aliases req) (enumerate 0 (dp_declared_operations plan)));
          deliverables = verify_deliverables contracts plan results aliases
      in \<lparr> cv_mechanical_complete = (unmet = []), cv_unmet_step_ids = unmet, cv_deliverables = deliverables,
           cv_deliverable_status =
             (if contracts = [] then ''unverified''
              else if deliverables \<noteq> [] \<and> list_all (\<lambda>v. dv_status v = ''met'') deliverables then ''met'' else ''failed'') \<rparr>)"

definition completion_gate ::
    "dag_plan \<Rightarrow> step_result dict \<Rightarrow> string dict \<Rightarrow> delivery_contract list \<Rightarrow> completion_verdict" where
  "completion_gate plan results aliases contracts = compute_verdict plan results aliases contracts"

section \<open>Revision invariants\<close>

definition step_is_mutating :: "dag_step \<Rightarrow> 'fn registry \<Rightarrow> bool" where
  "step_is_mutating step rg =
     (case fst (tool_def_or_error rg (ds_tool step)) of
        None \<Rightarrow> True
      | Some td \<Rightarrow> effective_side_effects td (ds_input step) \<noteq> [])"

definition repr_opt :: "json option \<Rightarrow> string" where
  "repr_opt x = py_repr (case x of None \<Rightarrow> JNull | Some v \<Rightarrow> v)"

definition removed_error :: "delivery_contract \<Rightarrow> string" where
  "removed_error c = ''Revision removed required operation: '' @ dc_tool c @ '' '' @ py_repr (JDict (dc_input c))
     @ '' (contract '' @ dc_contract_id c @ '') '' @ dash @ '' the user'' @ [CHR 0x27] @ ''s hard deliverable must be preserved''"

definition changed_errors :: "delivery_contract \<Rightarrow> dag_step \<Rightarrow> string list" where
  "changed_errors c step =
     map (\<lambda>(key, v). ''Revision changed '' @ quoted key @ '' for caller contract '' @ dc_contract_id c
            @ '': expected '' @ py_repr v @ '', got '' @ repr_opt (dget (ds_input step) key))
       (filter (\<lambda>(key, v). \<not> get_eq (dget (ds_input step) key) v) (dc_input c))"

definition contract_errors :: "dag_plan \<Rightarrow> delivery_contract \<Rightarrow> string list" where
  "contract_errors revised c =
     (let matching = filter (\<lambda>s. step_satisfies s (contract_op c)) (dp_steps revised)
      in if matching = [] then [removed_error c]
         else if dc_source c = CALLER then concat (map (changed_errors c) matching) else [])"

definition uncovered_error :: "dag_step \<Rightarrow> string" where
  "uncovered_error s = ''Revision introduced un-declared mutating step '' @ quoted (ds_id s) @ '' ('' @ ds_tool s @ '' ''
     @ py_repr (JDict (ds_input s)) @ '') not covered by any delivery contract''"

definition validate_revision_invariants ::
    "delivery_contract list \<Rightarrow> dag_plan \<Rightarrow> 'fn registry option \<Rightarrow> string list" where
  "validate_revision_invariants root_contracts revised rg =
     concat (map (contract_errors revised) root_contracts)
     @ (case rg of
          None \<Rightarrow> []
        | Some reg \<Rightarrow>
            if root_contracts = [] then []
            else map uncovered_error
                   (filter (\<lambda>s. step_is_mutating s reg \<and> \<not> list_ex (\<lambda>c. step_satisfies s (contract_op c)) root_contracts)
                     (dp_steps revised)))"

definition revision_invariant_feedback :: "string list \<Rightarrow> string" where
  "revision_invariant_feedback errors =
     (if errors = [] then []
      else [CHR 0x0A] @ ''[SYSTEM REJECTION] The previous revision violated delivery invariants:'' @ [CHR 0x0A]
        @ join [CHR 0x0A] (map (\<lambda>e. ''  - '' @ e) errors)
        @ [CHR 0x0A] @ ''Restore the user'' @ [CHR 0x27] @ ''s hard deliverable operations (same tool, operation, and path). ''
        @ ''You may add helper steps, but you must NOT remove, weaken, or rewrite them.'')"

section \<open>Properties\<close>

lemma normal_at_iff: "normal_at results aliases sid \<longleftrightarrow> (\<exists>r. dget results (dget_or sid aliases sid) = Some r \<and> step_normal r)"
  by (auto simp: normal_at_def split: option.splits)

lemma verify_deliverables_met:
  "list_all (\<lambda>v. dv_status v = ''met'') (verify_deliverables contracts plan results aliases)
   \<longleftrightarrow> (\<forall>c\<in>set contracts. op_covered plan results aliases (contract_op c))"
  by (auto simp: verify_deliverables_def list_all_iff op_covered_def list_ex_iff Let_def filter_empty_conv split: if_splits)

lemma filter_enumerate_empty: "filter (\<lambda>(i, x). \<not> P x) (enumerate n xs) = [] \<longleftrightarrow> (\<forall>x\<in>set xs. P x)"
  by (induction xs arbitrary: n) auto

lemma compute_verdict_facts:
  "cv_mechanical_complete (compute_verdict plan results aliases contracts) \<longleftrightarrow>
     (\<forall>s\<in>set (dp_steps plan). normal_at results aliases (ds_id s))
     \<and> (\<forall>req\<in>set (dp_declared_operations plan). op_covered plan results aliases req)"
  "deliverable_met (compute_verdict plan results aliases contracts) \<longleftrightarrow>
     contracts \<noteq> [] \<and> (\<forall>c\<in>set contracts. op_covered plan results aliases (contract_op c))"
  "cv_deliverable_status (compute_verdict plan results aliases contracts) = ''unverified'' \<longleftrightarrow> contracts = []"
proof -
  show "cv_mechanical_complete (compute_verdict plan results aliases contracts) \<longleftrightarrow>
     (\<forall>s\<in>set (dp_steps plan). normal_at results aliases (ds_id s))
     \<and> (\<forall>req\<in>set (dp_declared_operations plan). op_covered plan results aliases req)"
    by (simp add: compute_verdict_def Let_def filter_enumerate_empty filter_empty_conv[of _ "step_ids _"])
  show "deliverable_met (compute_verdict plan results aliases contracts) \<longleftrightarrow>
     contracts \<noteq> [] \<and> (\<forall>c\<in>set contracts. op_covered plan results aliases (contract_op c))"
    by (auto simp: deliverable_met_def compute_verdict_def Let_def verify_deliverables_met) (simp_all add: verify_deliverables_def)
  show "cv_deliverable_status (compute_verdict plan results aliases contracts) = ''unverified'' \<longleftrightarrow> contracts = []"
    by (simp add: compute_verdict_def Let_def)
qed

text \<open>The completion gate is exact in both dimensions. A plan is mechanically complete exactly when every step's result, read
  through the aliases, is normal and every declared operation is met by a normal step. Delivery is claimed exactly when there are
  contracts and each is met by a normal step; with no contract the verdict is always unverified, never a claim.\<close>

theorem completion_gate_exact:
  "(cv_mechanical_complete (completion_gate plan results aliases contracts) \<longleftrightarrow>
      (\<forall>s\<in>set (dp_steps plan). normal_at results aliases (ds_id s))
      \<and> (\<forall>req\<in>set (dp_declared_operations plan).
           \<exists>s\<in>set (dp_steps plan). step_satisfies s req \<and> normal_at results aliases (ds_id s)))
   \<and> (deliverable_met (completion_gate plan results aliases contracts) \<longleftrightarrow>
      contracts \<noteq> [] \<and> (\<forall>c\<in>set contracts.
           \<exists>s\<in>set (dp_steps plan). step_satisfies s (contract_op c) \<and> normal_at results aliases (ds_id s)))
   \<and> (cv_deliverable_status (completion_gate plan results aliases contracts) = ''unverified'' \<longleftrightarrow> contracts = [])"
  using compute_verdict_facts[of plan results aliases contracts]
  by (simp add: completion_gate_def op_covered_def list_ex_iff)

text \<open>The operations the model declares decide completion too: a plan all of whose steps ended normally is not complete when the model
  declared an operation that no step performs, whatever the contracts say.\<close>

lemma declared_operations_decide_completion:
  assumes "\<forall>s\<in>set (dp_steps plan). normal_at results aliases (ds_id s)"
    and "req \<in> set (dp_declared_operations plan)" "\<forall>s\<in>set (dp_steps plan). \<not> step_satisfies s req"
  shows "\<not> cv_mechanical_complete (completion_gate plan results aliases contracts)"
  using assms by (auto simp: completion_gate_def compute_verdict_facts op_covered_def list_ex_iff)

lemma contract_errors_empty:
  "contract_errors revised c = [] \<longleftrightarrow>
     (\<exists>s\<in>set (dp_steps revised). step_satisfies s (contract_op c))
     \<and> (dc_source c = CALLER \<longrightarrow> (\<forall>s\<in>set (dp_steps revised). step_satisfies s (contract_op c) \<longrightarrow>
          (\<forall>(key, v)\<in>set (dc_input c). get_eq (dget (ds_input s) key) v)))"
  by (auto simp: contract_errors_def changed_errors_def Let_def filter_empty_conv split: if_splits)

lemma revision_invariants_iff:
  "validate_revision_invariants contracts revised rg = [] \<longleftrightarrow>
     (\<forall>c\<in>set contracts. contract_errors revised c = [])
     \<and> (contracts \<noteq> [] \<longrightarrow> (\<forall>reg. rg = Some reg \<longrightarrow>
          (\<forall>s\<in>set (dp_steps revised). step_is_mutating s reg \<longrightarrow> (\<exists>c\<in>set contracts. step_satisfies s (contract_op c)))))"
  by (auto simp: validate_revision_invariants_def filter_empty_conv list_ex_iff split: option.splits)

text \<open>A revision passes the delivery invariants exactly when every contract still has a matching step, every step matching a
  contract of the caller agrees with it on all its keys, and, under contracts, each step that may have side effects (a step with
  an unregistered tool counts as one) is covered by some contract.\<close>

theorem revision_invariants_exact:
  "validate_revision_invariants contracts revised (Some rg) = [] \<longleftrightarrow>
     (\<forall>c\<in>set contracts. (\<exists>s\<in>set (dp_steps revised). step_satisfies s (contract_op c))
        \<and> (dc_source c = CALLER \<longrightarrow> (\<forall>s\<in>set (dp_steps revised). step_satisfies s (contract_op c) \<longrightarrow>
             (\<forall>(key, v)\<in>set (dc_input c). get_eq (dget (ds_input s) key) v))))
     \<and> (contracts \<noteq> [] \<longrightarrow> (\<forall>s\<in>set (dp_steps revised).
          (case get_tool_def rg (ds_tool s) of None \<Rightarrow> True | Some td \<Rightarrow> effective_side_effects td (ds_input s) \<noteq> []) \<longrightarrow>
          (\<exists>c\<in>set contracts. step_satisfies s (contract_op c))))"
proof -
  have "step_is_mutating s rg \<longleftrightarrow>
      (case get_tool_def rg (ds_tool s) of None \<Rightarrow> True | Some td \<Rightarrow> effective_side_effects td (ds_input s) \<noteq> [])" for s
    by (simp add: step_is_mutating_def tool_def_or_error_def split: option.split)
  then show ?thesis unfolding revision_invariants_iff contract_errors_empty by simp
qed

text \<open>C19: The two guards compose: if a revised plan passes the delivery invariants of a non-empty list of contracts and the
  completion gate finds it mechanically complete, then the gate reports the delivery as met.\<close>

theorem completed_revision_delivers:
  assumes "validate_revision_invariants contracts plan rg = []" "contracts \<noteq> []"
    and "cv_mechanical_complete (completion_gate plan results aliases contracts)"
  shows "deliverable_met (completion_gate plan results aliases contracts)"
  using assms compute_verdict_facts[of plan results aliases contracts]
  by (fastforce simp: completion_gate_def revision_invariants_iff contract_errors_empty op_covered_def list_ex_iff)

section \<open>Samples\<close>

definition sample_contract :: delivery_contract where
  "sample_contract = \<lparr> dc_contract_id = ''k1'', dc_source = CALLER, dc_tool = ''file_op'',
     dc_input = [(''operation'', JStr ''delete''), (''path'', JStr ''a.txt'')] \<rparr>"

definition sample_delivery_plan :: dag_plan where
  "sample_delivery_plan = DagPlan0\<lparr>dp_steps := [DagStep0\<lparr>ds_id := ''s1'', ds_tool := ''file_op'', ds_input := sample_delete_input\<rparr>],
     dp_declared_operations := [\<lparr> ro_tool = ''file_op'', ro_input = [(''operation'', JStr ''delete'')] \<rparr>]\<rparr>"

definition sample_delivery_results :: "step_result dict" where
  "sample_delivery_results = [(''s1b'', (StepResult0 ''s1b'')\<lparr>sr_exec_state := COMPLETED\<rparr>)]"

lemma completion_gate_exact_witness:
  "list_all (\<lambda>s. normal_at sample_delivery_results [(''s1'', ''s1b'')] (ds_id s)) (dp_steps sample_delivery_plan)
   \<and> (\<exists>s\<in>set (dp_steps sample_delivery_plan). step_satisfies s (contract_op sample_contract)
        \<and> normal_at sample_delivery_results [(''s1'', ''s1b'')] (ds_id s))
   \<and> cv_deliverable_status (completion_gate sample_delivery_plan sample_delivery_results [] []) = ''unverified''"
proof -
  have "cv_mechanical_complete (completion_gate sample_delivery_plan sample_delivery_results [(''s1'', ''s1b'')] [sample_contract])"
    "deliverable_met (completion_gate sample_delivery_plan sample_delivery_results [(''s1'', ''s1b'')] [sample_contract])"
    by code_simp+
  then show ?thesis using completion_gate_exact[of sample_delivery_plan sample_delivery_results "[(''s1'', ''s1b'')]" "[sample_contract]"]
    completion_gate_exact[of sample_delivery_plan sample_delivery_results "[]" "[]"] by (simp add: list_all_iff)
qed

lemma revision_invariants_exact_witness:
  "(\<forall>s\<in>set (dp_steps sample_delivery_plan). step_satisfies s (contract_op sample_contract) \<longrightarrow>
      (\<forall>(key, v)\<in>set (dc_input sample_contract). get_eq (dget (ds_input s) key) v))
   \<and> validate_revision_invariants [sample_contract] (sample_delivery_plan\<lparr>dp_steps := []\<rparr>) (Some sample_registry) \<noteq> []"
proof -
  have "validate_revision_invariants [sample_contract] sample_delivery_plan (Some sample_registry) = []"
    "dc_source sample_contract = CALLER"
    unfolding sample_registry_def by code_simp+
  then show ?thesis using revision_invariants_exact[of "[sample_contract]" sample_delivery_plan sample_registry]
    revision_invariants_exact[of "[sample_contract]" "sample_delivery_plan\<lparr>dp_steps := []\<rparr>" sample_registry] by simp
qed

lemma completed_revision_delivers_witness:
  "deliverable_met (completion_gate sample_delivery_plan sample_delivery_results [(''s1'', ''s1b'')] [sample_contract])"
  by (rule completed_revision_delivers[where rg = "Some sample_registry"])
     (unfold sample_registry_def, code_simp+)

end
