(* ===== verification/Plan_Guard.thy ===== *)
theory Plan_Guard
  imports Delivery Plan_Check Dag_Vars
begin

text \<open>
  The plan guardrail (core/planner/guardrail.py) and the static check of output references
  (core/planner/output_refs.py). What an accepted plan satisfies, that fields that carry
  authority are never substituted, and that the order of a reference and its source is
  not checked.
\<close>

section \<open>Static validation of references\<close>

definition is_plausible_step_id :: "string \<Rightarrow> bool" where
  "is_plausible_step_id sid \<longleftrightarrow> sid \<noteq> [] \<and> \<not> list_all is_digit sid"

definition schema_has_field :: "json dict \<Rightarrow> string \<Rightarrow> bool result" where
  "schema_has_field schema field_path =
     (if truthy (dget_or JNull schema ''additionalProperties'') then Inr True
      else (let props = dget_or JNull schema ''properties''
            in if \<not> truthy props then Inr True
               else case py_in (JStr ''*'') props of
                      None \<Rightarrow> Inl (TypeErr ''argument is not iterable'')
                    | Some True \<Rightarrow> Inr True
                    | Some False \<Rightarrow>
                        if field_path = [] then Inr True
                        else (case py_in (JStr (takeWhile (\<lambda>c. c \<noteq> CHR ''.'') field_path)) props of
                                None \<Rightarrow> Inl (TypeErr ''argument is not iterable'')
                              | Some b \<Rightarrow> Inr b)))"

definition mk_ref :: "string \<Rightarrow> string option \<Rightarrow> output_ref" where
  "mk_ref name path = \<lparr> or_step_id = name, or_field_path = (case path of None \<Rightarrow> [] | Some p \<Rightarrow> p) \<rparr>"

text \<open>\<^verbatim>\<open>_REF_INLINE_PATTERN.finditer\<close>: the references of a text from left to right.\<close>

function inline_refs :: "string \<Rightarrow> (string \<times> string option) list" where
  "inline_refs txt =
     (case txt of
        [] \<Rightarrow> []
      | c # cs \<Rightarrow>
          (case (if c = CHR ''$'' then parse_ref cs else None) of
             None \<Rightarrow> inline_refs cs
           | Some (name, path, rest) \<Rightarrow> (name, path) # inline_refs rest))"
  by pat_completeness auto
termination
  by (relation "measure length") (auto dest: parse_ref_rest_length split: if_splits)

declare inline_refs.simps [simp del]

definition string_refs :: "string \<Rightarrow> (output_ref \<times> bool) list" where
  "string_refs s =
     (let inline = map (\<lambda>(n, p). (mk_ref n p, False)) (filter (\<lambda>(n, p). is_plausible_step_id n) (inline_refs s))
      in case pure_ref s of
           Some (n, p) \<Rightarrow> if is_plausible_step_id n then [(mk_ref n p, True)] else inline
         | None \<Rightarrow> inline)"

function (sequential) collect_refs :: "json \<Rightarrow> (output_ref \<times> bool) list" where
  "collect_refs (JDict d) = concat (map (\<lambda>kv. collect_refs (snd kv)) d)"
| "collect_refs (JList xs) = concat (map collect_refs xs)"
| "collect_refs (JStr s) = string_refs s"
| "collect_refs v = []"
  by pat_completeness auto
termination
  by (relation "measure size") (auto simp: json_size_snd json_size_list simp del: json.size(13,14))

text \<open>The references of a step input with the top-level field they are in.\<close>

definition collect_input_refs :: "json dict \<Rightarrow> (string \<times> output_ref \<times> bool) list" where
  "collect_input_refs inp = concat (map (\<lambda>(k, v). map (\<lambda>r. (k, r)) (collect_refs v)) inp)"

definition unknown_ref_error :: "string \<Rightarrow> output_ref \<Rightarrow> string" where
  "unknown_ref_error sid ref = ''Step '' @ quoted sid @ '': reference '' @ quoted (''$'' @ or_step_id ref)
     @ '' targets unknown step '' @ quoted (or_step_id ref) @ '' (not in plan, completed, or available)''"

definition ref_denied_error :: "string \<Rightarrow> string \<Rightarrow> string" where
  "ref_denied_error sid field = ''Step '' @ quoted sid @ '': input field '' @ quoted field
     @ '' does not allow $step.output references (ref_allowed=False)''"

definition ref_field_error :: "string \<Rightarrow> output_ref \<Rightarrow> string \<Rightarrow> string" where
  "ref_field_error sid ref label = ''Step '' @ quoted sid @ '': reference ''
     @ quoted (''$'' @ or_step_id ref @ ''.'' @ or_field_path ref) @ '' '' @ dash
     @ '' field '' @ quoted (or_field_path ref) @ '' not in operation '' @ label @ '' output_schema''"

definition source_field_errors :: "'fn registry \<Rightarrow> string \<Rightarrow> dag_step \<Rightarrow> output_ref \<Rightarrow> string list result" where
  "source_field_errors rg sid src ref =
     (case get_tool_def rg (ds_tool src) of
        None \<Rightarrow> Inr []
      | Some td \<Rightarrow>
          (let (schema, label) =
             (case resolve_operation_contract td (ds_input src) of
                Some op \<Rightarrow> (oc_output_schema op, quoted (oc_operation op))
              | None \<Rightarrow> (td_output_schema td, ''tool '' @ quoted (td_name td)))
           in rmap (\<lambda>b. if b then [] else [ref_field_error sid ref label]) (schema_has_field schema (or_field_path ref))))"

definition check_ref :: "'fn registry \<Rightarrow> dag_step dict \<Rightarrow> string set \<Rightarrow> dag_step \<Rightarrow> string \<times> output_ref \<times> bool \<Rightarrow> string list result" where
  "check_ref rg steps valid step x =
     (case x of (field, ref, pure) \<Rightarrow>
        if or_step_id ref \<notin> valid then Inr [unknown_ref_error (ds_id step) ref]
        else if (case get_tool_def rg (ds_tool step) of Some td \<Rightarrow> \<not> ref_allowed td field | None \<Rightarrow> False)
        then Inr [ref_denied_error (ds_id step) field]
        else if pure \<and> or_field_path ref \<noteq> []
        then (case dget steps (or_step_id ref) of
                Some src \<Rightarrow> source_field_errors rg (ds_id step) src ref
              | None \<Rightarrow> Inr [])
        else Inr [])"

fun collect_results :: "('a \<Rightarrow> 'b list result) \<Rightarrow> 'a list \<Rightarrow> 'b list result" where
  "collect_results f [] = Inr []"
| "collect_results f (x # xs) = rbind (f x) (\<lambda>a. rmap (\<lambda>b. a @ b) (collect_results f xs))"

definition parse_output_refs :: "'fn registry \<Rightarrow> dag_plan \<Rightarrow> string set \<Rightarrow> string set \<Rightarrow> string list result" where
  "parse_output_refs rg plan completed available =
     (let steps = step_map (dp_steps plan); valid = set (keys steps) \<union> completed \<union> available
      in collect_results (\<lambda>step. collect_results (check_ref rg steps valid step) (collect_input_refs (ds_input step))) (dp_steps plan))"

section \<open>The plan guardrail\<close>

fun side_effect_value :: "side_effect \<Rightarrow> string" where
  "side_effect_value WRITE = ''write''"
| "side_effect_value DELETE = ''delete''"
| "side_effect_value EXTERNAL = ''external''"

definition probe_error :: "dag_step \<Rightarrow> side_effect list \<Rightarrow> string \<Rightarrow> string" where
  "probe_error step effects declared_for = ''Step '' @ quoted (ds_id step)
     @ '': probe declaration is only allowed for side-effect-free (read-only/query) operations; '' @ declared_for
     @ '' declares side_effects='' @ py_repr (JList (map (\<lambda>s. JStr (side_effect_value s)) effects))"

definition probe_errors :: "dag_step \<Rightarrow> tool_definition \<Rightarrow> string list" where
  "probe_errors step td =
     (if \<not> ds_probe step then []
      else case resolve_operation_contract td (ds_input step) of
             Some op \<Rightarrow>
               if oc_side_effects op \<noteq> [] \<or> \<not> oc_probe_allowed op
               then [probe_error step (oc_side_effects op) (''operation '' @ quoted (oc_operation op))] else []
           | None \<Rightarrow>
               if td_side_effects td \<noteq> []
               then [probe_error step (td_side_effects td) (''tool '' @ quoted (ds_tool step))] else [])"

definition step_errors :: "'fn registry \<Rightarrow> nat \<times> dag_step \<Rightarrow> string list" where
  "step_errors rg istep =
     (case istep of (i, step) \<Rightarrow>
        if ds_id step = [] then [''Step '' @ show_nat i @ '' is missing '' @ quoted ''id'' @ '' field'']
        else case tool_def_or_error rg (ds_tool step) of
               (None, err) \<Rightarrow> [''Step '' @ quoted (ds_id step) @ '': '' @ opt_or err ''None'']
             | (Some td, _) \<Rightarrow> probe_errors step td)"

definition declared_errors :: "dag_plan \<Rightarrow> string list" where
  "declared_errors plan =
     map (\<lambda>(i, req). ''Declared operation #'' @ show_nat i @ '' ('' @ ro_tool req @ '' '' @ py_repr (JDict (ro_input req))
            @ '') has no matching step in the plan. This is a self-check declaration '' @ dash @ '' keep the plan self-consistent.'')
       (filter (\<lambda>(i, req). \<not> list_ex (\<lambda>s. step_satisfies s req) (dp_steps plan)) (enumerate 0 (dp_declared_operations plan)))"

definition check_dangerous_combinations :: "'fn registry \<Rightarrow> dag_plan \<Rightarrow> string list" where
  "check_dangerous_combinations rg plan =
     concat (map (\<lambda>step. case get_tool_def rg (ds_tool step) of
          None \<Rightarrow> []
        | Some td \<Rightarrow>
            map (\<lambda>d. ''Dangerous combination: '' @ quoted (ds_tool step) @ '' and '' @ quoted d
                  @ '' cannot appear in the same plan'')
              (filter (\<lambda>d. d \<in> ds_tool ` set (dp_steps plan)) (td_dangerous_with td))) (dp_steps plan))"

text \<open>The check of \<^verbatim>\<open>max_parallel\<close> only logs: the executor's semaphores enforce the limit.\<close>

definition check_max_parallel :: "dag_plan \<Rightarrow> string list" where
  "check_max_parallel plan = []"

definition validate_plan :: "'fn registry \<Rightarrow> dag_plan \<Rightarrow> string set \<Rightarrow> string set \<Rightarrow> string list result" where
  "validate_plan rg plan completed available =
     (if dp_steps plan = [] then Inr []
      else let e1 = concat (map (step_errors rg) (enumerate 0 (dp_steps plan)))
           in if e1 \<noteq> [] then Inr e1
              else let e2 = validate_dag_structure plan completed available
                   in if e2 \<noteq> [] then Inr e2
                      else rbind (parse_output_refs rg plan completed available) (\<lambda>e3.
                        if e3 \<noteq> [] then Inr e3
                        else let e4 = declared_errors plan
                             in if e4 \<noteq> [] then Inr e4
                                else Inr (check_dangerous_combinations rg plan @ check_max_parallel plan)))"

section \<open>References and substitution\<close>

lemma parse_ref_plausible: "parse_ref cs = Some (n, p, rest) \<Longrightarrow> is_plausible_step_id n"
proof -
  assume a: "parse_ref cs = Some (n, p, rest)"
  then obtain c cs' where c: "cs = c # cs'" "is_name_start c" by (cases cs) (auto split: if_splits)
  have "n = c # takeWhile is_name_char cs'" using a c by (auto simp: Let_def split: if_splits list.splits)
  moreover have "\<not> is_digit c" using c(2) by (auto simp: is_name_start_def is_alpha_def is_digit_def Let_def)
  ultimately show ?thesis by (simp add: is_plausible_step_id_def)
qed

lemma inline_refs_plausible: "(n, p) \<in> set (inline_refs s) \<Longrightarrow> is_plausible_step_id n"
proof (induction s rule: inline_refs.induct)
  case (1 s)
  show ?case
  proof (cases s)
    case Nil
    then show ?thesis using 1(3) by (simp add: inline_refs.simps)
  next
    case (Cons c cs)
    show ?thesis
    proof (cases "if c = CHR ''$'' then parse_ref cs else None")
      case None
      then show ?thesis using 1(1)[OF Cons None] 1(3) Cons by (subst (asm) inline_refs.simps) simp
    next
      case (Some m)
      obtain a b r where m: "m = (a, b, r)" by (cases m) auto
      have "parse_ref cs = Some (a, b, r)" using Some m by (auto split: if_splits)
      then show ?thesis using 1(2)[OF Cons Some m[symmetric] refl] 1(3) Cons Some m parse_ref_plausible
        by (subst (asm) inline_refs.simps) auto
    qed
  qed
qed

lemma no_inline_refs_substitute: "inline_refs s = [] \<Longrightarrow> substitute_vars loads s upstream = Inr s"
proof (induction s rule: inline_refs.induct)
  case (1 s)
  show ?case
  proof (cases s)
    case (Cons c cs)
    have none: "(if c = CHR ''$'' then parse_ref cs else None) = None"
      using 1(3) Cons by (subst (asm) inline_refs.simps) (auto split: option.splits if_splits)
    have "inline_refs cs = []" using 1(3) Cons none by (subst (asm) inline_refs.simps) simp
    from 1(1)[OF Cons none this] show ?thesis using Cons none by (subst substitute_vars.simps) simp
  qed (simp add: substitute_vars.simps)
qed

lemma pure_ref_inline: "pure_ref s = Some (n, p) \<Longrightarrow> inline_refs s \<noteq> []"
  by (subst inline_refs.simps, cases s) (auto simp: pure_ref_def split: if_splits option.splits)

lemma string_refs_Nil: "string_refs s = [] \<longleftrightarrow> inline_refs s = []"
proof -
  have all: "filter (\<lambda>(n, p). is_plausible_step_id n) (inline_refs s) = inline_refs s"
    using inline_refs_plausible by (auto simp: filter_id_conv)
  show ?thesis
  proof (cases "pure_ref s")
    case (Some np)
    obtain n p where np: "np = (n, p)" by fastforce
    then have "inline_refs s \<noteq> []" using Some pure_ref_inline by simp
    then show ?thesis using Some np by (simp add: string_refs_def Let_def all)
  qed (simp add: string_refs_def Let_def all)
qed

lemma no_refs_resolve:
  "collect_refs v = [] \<Longrightarrow> resolve_value loads upstream v = Inr v"
  "\<forall>kv\<in>set d. collect_refs (snd kv) = [] \<Longrightarrow> resolve_items loads upstream d = Inr d"
  "\<forall>x\<in>set xs. collect_refs x = [] \<Longrightarrow> resolve_elems loads upstream xs = Inr xs"
proof (induction loads upstream v and loads upstream d and loads upstream xs
    rule: resolve_value_resolve_items_resolve_elems.induct)
  case (1 loads upstream s)
  then have none: "inline_refs s = []" by (simp add: string_refs_Nil)
  then have "pure_ref s = None" using pure_ref_inline[of s] by (cases "pure_ref s") auto
  then show ?case by (simp add: resolve_string_def no_inline_refs_substitute[OF none])
next
  case (8 loads upstream x xs)
  have "(case x of JStr s \<Rightarrow> (case substitute_vars loads s upstream of Inl e \<Rightarrow> Inl e | Inr t \<Rightarrow> Inr (JStr t))
      | JDict d \<Rightarrow> (case resolve_items loads upstream d of Inl e \<Rightarrow> Inl e | Inr d' \<Rightarrow> Inr (JDict d')) | _ \<Rightarrow> Inr x) = Inr x"
    using 8 by (cases x) (auto simp: string_refs_Nil no_inline_refs_substitute)
  then show ?case using 8 by simp
qed auto

lemma resolve_items_field:
  "resolve_items loads upstream d = Inr d' \<Longrightarrow> \<forall>v. (f, v) \<in> set d \<longrightarrow> collect_refs v = [] \<Longrightarrow> dget d' f = dget d f"
proof (induction d arbitrary: d')
  case (Cons kv d)
  obtain k v where kv: "kv = (k, v)" by fastforce
  with Cons.prems(1) obtain v' r where r: "resolve_value loads upstream v = Inr v'" "resolve_items loads upstream d = Inr r"
    "d' = (k, v') # r" by (auto split: sum.splits)
  have "k = f \<Longrightarrow> v' = v" using no_refs_resolve(1)[of v loads upstream] Cons.prems(2) kv r(1) by auto
  then show ?case using Cons.IH[OF r(2)] Cons.prems(2) kv r(3) by auto
qed simp

section \<open>Accepted plans\<close>

lemma collect_results_Nil: "collect_results f xs = Inr [] \<longleftrightarrow> (\<forall>x\<in>set xs. f x = Inr [])"
proof (induction xs)
  case (Cons x xs)
  show ?case
  proof (cases "f x")
    case (Inr a)
    then show ?thesis using Cons.IH by (cases "collect_results f xs") auto
  qed simp
qed simp

lemma validate_plan_Nil:
  assumes "validate_plan rg plan completed available = Inr []"
  shows "concat (map (step_errors rg) (enumerate 0 (dp_steps plan))) = []"
    and "validate_dag_structure plan completed available = []"
    and "parse_output_refs rg plan completed available = Inr []"
    and "dp_steps plan \<noteq> [] \<Longrightarrow> declared_errors plan = [] \<and> check_dangerous_combinations rg plan = []"
proof -
  have "dp_steps plan = [] \<Longrightarrow> validate_dag_structure plan completed available = [] \<and> parse_output_refs rg plan completed available = Inr []"
    by (simp add: validate_dag_structure_def parse_output_refs_def Let_def)
  moreover have "dp_steps plan \<noteq> [] \<Longrightarrow> concat (map (step_errors rg) (enumerate 0 (dp_steps plan))) = []
      \<and> validate_dag_structure plan completed available = [] \<and> parse_output_refs rg plan completed available = Inr []
      \<and> declared_errors plan = [] \<and> check_dangerous_combinations rg plan = []"
    using assms unfolding validate_plan_def Let_def
    by (cases "parse_output_refs rg plan completed available") (auto split: if_splits simp del: concat_eq_Nil_conv)
  ultimately show "concat (map (step_errors rg) (enumerate 0 (dp_steps plan))) = []"
    "validate_dag_structure plan completed available = []" "parse_output_refs rg plan completed available = Inr []"
    "dp_steps plan \<noteq> [] \<Longrightarrow> declared_errors plan = [] \<and> check_dangerous_combinations rg plan = []"
    by (cases "dp_steps plan = []"; simp)+
qed

lemma declared_errors_Nil:
  "declared_errors plan = [] \<longleftrightarrow> (\<forall>req\<in>set (dp_declared_operations plan). \<exists>s\<in>set (dp_steps plan). step_satisfies s req)"
  by (simp add: declared_errors_def filter_enumerate_empty) (simp add: list_ex_iff)

lemma in_enumerate: "x \<in> set xs \<Longrightarrow> \<exists>i. (i, x) \<in> set (enumerate n xs)"
  by (induction xs arbitrary: n) auto

lemma step_errors_Nil:
  assumes "concat (map (step_errors rg) (enumerate n steps)) = []" "s \<in> set steps"
  obtains td where "ds_id s \<noteq> []" "get_tool_def rg (ds_tool s) = Some td" "probe_errors s td = []"
proof -
  obtain i where "(i, s) \<in> set (enumerate n steps)" using in_enumerate[OF assms(2)] by blast
  then have "step_errors rg (i, s) = []" using assms(1) by auto
  then show ?thesis using that by (auto simp: step_errors_def tool_def_or_error_def split: if_splits option.splits)
qed

lemma accepted_refs:
  assumes "parse_output_refs rg plan completed available = Inr []" "s \<in> set (dp_steps plan)" "(f, ref, pure) \<in> set (collect_input_refs (ds_input s))"
  shows "or_step_id ref \<in> set (step_ids (dp_steps plan)) \<union> completed \<union> available"
    and "get_tool_def rg (ds_tool s) = Some td \<Longrightarrow> ref_allowed td f"
proof -
  have "check_ref rg (step_map (dp_steps plan)) (set (keys (step_map (dp_steps plan))) \<union> completed \<union> available) s (f, ref, pure) = Inr []"
    using assms by (auto simp: parse_output_refs_def Let_def collect_results_Nil)
  then show "or_step_id ref \<in> set (step_ids (dp_steps plan)) \<union> completed \<union> available"
    "get_tool_def rg (ds_tool s) = Some td \<Longrightarrow> ref_allowed td f"
    unfolding check_ref_def by (auto simp: keys_step_map simp del: set_map split: if_splits option.splits)
qed

text \<open>C21: A plan the guardrail accepts is safe to hand to the executor: every step has an id and a registered tool, a probe has no
  side effect, every reference names a step of the plan or a finished one and sits in a field that allows references, the
  dependencies can be layered, every declared operation has a matching step, and no two tools of the plan are declared dangerous
  together.\<close>

theorem accepted_plans_are_sound:
  assumes "validate_plan rg plan completed available = Inr []"
  shows "(\<forall>s\<in>set (dp_steps plan). ds_id s \<noteq> []
      \<and> (\<exists>td. get_tool_def rg (ds_tool s) = Some td \<and> (ds_probe s \<longrightarrow> effective_side_effects td (ds_input s) = [])
           \<and> (\<forall>(f, ref, pure)\<in>set (collect_input_refs (ds_input s)). ref_allowed td f
                \<and> or_step_id ref \<in> set (step_ids (dp_steps plan)) \<union> completed \<union> available)
           \<and> (\<forall>s2\<in>set (dp_steps plan). ds_tool s2 \<notin> set (td_dangerous_with td))))
    \<and> (\<exists>layers. topological_sort plan completed available = Inr layers)
    \<and> (dp_steps plan \<noteq> [] \<longrightarrow> (\<forall>req\<in>set (dp_declared_operations plan). \<exists>s\<in>set (dp_steps plan). step_satisfies s req))"
proof -
  note ok = validate_plan_Nil[OF assms]
  have step: "ds_id s \<noteq> [] \<and> (\<exists>td. get_tool_def rg (ds_tool s) = Some td \<and> (ds_probe s \<longrightarrow> effective_side_effects td (ds_input s) = [])
           \<and> (\<forall>(f, ref, pure)\<in>set (collect_input_refs (ds_input s)). ref_allowed td f
                \<and> or_step_id ref \<in> set (step_ids (dp_steps plan)) \<union> completed \<union> available)
           \<and> (\<forall>s2\<in>set (dp_steps plan). ds_tool s2 \<notin> set (td_dangerous_with td)))" if s: "s \<in> set (dp_steps plan)" for s
  proof -
    obtain td where td: "ds_id s \<noteq> []" "get_tool_def rg (ds_tool s) = Some td" "probe_errors s td = []"
      by (rule step_errors_Nil[OF ok(1) s])
    have "ds_probe s \<longrightarrow> effective_side_effects td (ds_input s) = []"
      using td(3) by (auto simp: probe_errors_def effective_side_effects_def split: option.splits if_splits)
    moreover have "\<forall>(f, ref, pure)\<in>set (collect_input_refs (ds_input s)). ref_allowed td f
                \<and> or_step_id ref \<in> set (step_ids (dp_steps plan)) \<union> completed \<union> available"
      using accepted_refs[OF ok(3) s] td(2) by blast
    moreover have "check_dangerous_combinations rg plan = []" using ok(4) s by force
    then have "\<forall>d\<in>set (td_dangerous_with td). d \<notin> ds_tool ` set (dp_steps plan)"
      using s td(2) by (fastforce simp: check_dangerous_combinations_def filter_empty_conv)
    ultimately show ?thesis using td(1,2) by blast
  qed
  moreover have "\<exists>layers. topological_sort plan completed available = Inr layers" by (rule validate_nil_schedulable[OF ok(2)])
  moreover have "dp_steps plan \<noteq> [] \<longrightarrow> (\<forall>req\<in>set (dp_declared_operations plan). \<exists>s\<in>set (dp_steps plan). step_satisfies s req)"
    using ok(4) by (simp add: declared_errors_Nil)
  ultimately show ?thesis by blast
qed

text \<open>C22: Authority fields are never computed: in a plan the guardrail accepts, resolving the references of a step leaves every
  input field that its tool does not mark as data exactly as the plan wrote it, whatever the upstream outputs are.\<close>

theorem authority_fields_are_never_substituted:
  assumes "validate_plan rg plan completed available = Inr []" and "s \<in> set (dp_steps plan)"
    and "get_tool_def rg (ds_tool s) = Some td" and "\<not> ref_allowed td f"
    and "resolve_variables_in_input loads (ds_input s) upstream = Inr inp"
  shows "dget inp f = dget (ds_input s) f"
proof -
  have "collect_refs v = []" if v: "(f, v) \<in> set (ds_input s)" for v
  proof (rule ccontr)
    assume "collect_refs v \<noteq> []"
    then obtain ref pure where "(ref, pure) \<in> set (collect_refs v)" by (metis list.set_intros(1) neq_Nil_conv surj_pair)
    then have "(f, ref, pure) \<in> set (collect_input_refs (ds_input s))" using v by (force simp: collect_input_refs_def)
    from accepted_refs(2)[OF validate_plan_Nil(3)[OF assms(1)] assms(2) this assms(3)] assms(4) show False by blast
  qed
  then show ?thesis by (intro resolve_items_field[of loads upstream]) (use assms(5) in \<open>auto simp: resolve_variables_in_input_def\<close>)
qed

section \<open>Samples\<close>

text \<open>A tool that writes a text: the field \<open>content\<close> is data, the field \<open>path\<close> is not marked.\<close>

definition note_tool :: tool_definition where
  "note_tool = sample_tool\<lparr>td_name := ''note'', td_side_effects := [], td_guardrails := None, td_operations := [],
     td_input_schema := [(''properties'', JDict [(''content'', JDict [(''x-role'', JStr ''data'')])])],
     td_output_schema := [(''properties'', JDict [(''text'', JDict [])])]\<rparr>"

definition note_registry :: "unit registry" where
  "note_registry = (case register_tool ToolRegistry0 note_tool () of Inr (rg, _) \<Rightarrow> rg | Inl _ \<Rightarrow> ToolRegistry0)"

definition note_step :: "string \<Rightarrow> string \<Rightarrow> string list \<Rightarrow> dag_step" where
  "note_step sid content deps = DagStep0\<lparr>ds_id := sid, ds_tool := ''note'', ds_depends_on := deps, ds_probe := True,
     ds_input := [(''path'', JStr ''n.txt''), (''content'', JStr content)]\<rparr>"

definition note_plan :: dag_plan where
  "note_plan = DagPlan0\<lparr>dp_steps := [note_step ''s1'' ''hello'' [], note_step ''s2'' ''$s1.text'' [''s1'']]\<rparr>"

definition note_outputs :: "json dict" where
  "note_outputs = [(''s1'', JDict [(''text'', JStr ''out'')])]"

lemma accepted_plans_are_sound_witness:
  "validate_plan note_registry note_plan {} {} = Inr [] \<and> (\<exists>layers. topological_sort note_plan {} {} = Inr layers)
   \<and> list_all (\<lambda>s. \<exists>td. get_tool_def note_registry (ds_tool s) = Some td) (dp_steps note_plan)"
proof -
  have ok: "validate_plan note_registry note_plan {} {} = Inr []" unfolding note_registry_def by code_simp
  from accepted_plans_are_sound[OF ok] ok show ?thesis unfolding list_all_iff by blast
qed

lemma authority_fields_are_never_substituted_witness:
  "\<exists>inp. resolve_variables_in_input (\<lambda>_. None) (ds_input (note_step ''s2'' ''$s1.text'' [''s1''])) note_outputs = Inr inp
    \<and> dget inp ''path'' = Some (JStr ''n.txt'') \<and> dget inp ''content'' = Some (JStr ''out'')"
proof -
  have ok: "validate_plan note_registry note_plan {} {} = Inr []" and td: "get_tool_def note_registry ''note'' = Some note_tool"
    and f: "\<not> ref_allowed note_tool ''path''"
    and r: "resolve_variables_in_input (\<lambda>_. None) (ds_input (note_step ''s2'' ''$s1.text'' [''s1''])) note_outputs
      = Inr [(''path'', JStr ''n.txt''), (''content'', JStr ''out'')]"
    unfolding note_registry_def by code_simp+
  have "note_step ''s2'' ''$s1.text'' [''s1''] \<in> set (dp_steps note_plan)" by (simp add: note_plan_def)
  from authority_fields_are_never_substituted[OF ok this _ f r] td have
    "dget [(''path'', JStr ''n.txt''), (''content'', JStr ''out'')] ''path'' = dget (ds_input (note_step ''s2'' ''$s1.text'' [''s1''])) ''path''"
    by (simp add: note_step_def)
  with r show ?thesis by (simp add: note_step_def)
qed

text \<open>The guardrail does not check that a referenced step comes first. A plan whose first step refers to the output of the second,
  without depending on it, is accepted; when the first layer runs there is no such output yet, so the reference resolves to
  itself and the tool receives the literal text of the reference.\<close>

theorem unordered_reference_is_accepted:
  "\<exists>plan s out. validate_plan note_registry plan {} {} = Inr [] \<and> s \<in> set (dp_steps plan)
    \<and> topological_sort plan {} {} = Inr [[''s1'', ''s2'']] \<and> ds_id s = ''s1''
    \<and> dget (ds_input s) ''content'' = Some (JStr ''$s2.text'')
    \<and> resolve_variables_in_input (\<lambda>_. None) (ds_input s) [] = Inr out \<and> dget out ''content'' = Some (JStr ''$s2.text'')"
proof -
  let ?s = "note_step ''s1'' ''$s2.text'' []"
  let ?plan = "DagPlan0\<lparr>dp_steps := [?s, note_step ''s2'' ''hello'' []]\<rparr>"
  have "validate_plan note_registry ?plan {} {} = Inr []" "topological_sort ?plan {} {} = Inr [[''s1'', ''s2'']]"
    "resolve_variables_in_input (\<lambda>_. None) (ds_input ?s) [] = Inr (ds_input ?s)" "dget (ds_input ?s) ''content'' = Some (JStr ''$s2.text'')"
    "ds_id ?s = ''s1''"
    unfolding note_registry_def by code_simp+
  moreover have "?s \<in> set (dp_steps ?plan)" by simp
  ultimately show ?thesis by blast
qed

end
