(* ===== verification/Executor_Properties.thy ===== *)
theory Executor_Properties
  imports Tool_Executor "HOL-Library.Sublist"
begin

text \<open>
  What the tool executor guarantees: a small weakest-precondition calculus for actions, the rows
  an execution appends (\<open>wrote\<close>), the bounds of the retry loop, the trace left by every branch of
  \<open>execute\<close>, the authorisation a tool invocation needs, the replay of cached results, and the
  round trip of offloaded outputs.
\<close>

section \<open>Reasoning about actions\<close>

text \<open>Every outcome of an action from a state satisfies \<open>Q\<close>; the rules push \<open>Q\<close> backwards through the combinators.\<close>

definition ensures :: "'a action \<Rightarrow> exec_ctx \<Rightarrow> (py_exc + 'a \<Rightarrow> exec_ctx \<Rightarrow> bool) \<Rightarrow> bool" where
  "ensures m c Q \<longleftrightarrow> (case m c of (r, c') \<Rightarrow> Q r c')"

named_theorems action_wp \<open>weakest preconditions of actions\<close>

lemma ensures_return [action_wp]: "ensures (act_return x) c Q \<longleftrightarrow> Q (Inr x) c"
  by (simp add: ensures_def act_return_def)

lemma ensures_raise [action_wp]: "ensures (act_raise e) c Q \<longleftrightarrow> Q (Inl e) c"
  by (simp add: ensures_def act_raise_def)

lemma ensures_bind [action_wp]:
  "ensures (act_bind m f) c Q \<longleftrightarrow>
     ensures m c (\<lambda>r c'. case r of Inl e \<Rightarrow> Q (Inl e) c' | Inr x \<Rightarrow> ensures (f x) c' Q)"
  by (auto simp: ensures_def act_bind_def split: prod.splits sum.splits)

lemma ensures_then [action_wp]:
  "ensures (act_then m k) c Q \<longleftrightarrow>
     ensures m c (\<lambda>r c'. case r of Inl e \<Rightarrow> Q (Inl e) c' | Inr _ \<Rightarrow> ensures k c' Q)"
  by (simp add: act_then_def ensures_bind)

lemma ensures_try [action_wp]:
  "ensures (act_try m h) c Q \<longleftrightarrow>
     ensures m c (\<lambda>r c'. case r of Inl e \<Rightarrow> ensures (h e) c' Q | Inr x \<Rightarrow> Q (Inr x) c')"
  by (auto simp: ensures_def act_try_def split: prod.splits sum.splits)

lemma ensures_mono: "ensures m c P \<Longrightarrow> (\<And>r c'. P r c' \<Longrightarrow> Q r c') \<Longrightarrow> ensures m c Q"
  by (auto simp: ensures_def)

lemma ensuresD: "ensures m c Q \<Longrightarrow> m c = (r, c') \<Longrightarrow> Q r c'"
  by (simp add: ensures_def)

section \<open>Writing events\<close>

definition log_opts :: "exec_env \<Rightarrow> string option \<Rightarrow> append_opts" where
  "log_opts env key = \<lparr> ao_tenant_id = (case xe_tenant env of None \<Rightarrow> ''default'' | Some t \<Rightarrow> t), ao_workspace_id = None,
     ao_idempotency_key = key, ao_is_audit = False \<rparr>"

lemma log_append_eq:
  "log_append env run_id p key c =
     (case append_event (xc_store c) run_id p (log_opts env key) (xe_clock env (length (es_events (xc_store c)))) of
        (Inl err, st') \<Rightarrow> (Inl (exc_of_store_error err), c\<lparr>xc_store := st'\<rparr>)
      | (Inr _, st') \<Rightarrow> (Inr (), c\<lparr>xc_store := st'\<rparr>))"
  by (simp add: log_append_def Let_def scoped_append_def log_opts_def default_opts_def split: option.splits)

text \<open>\<open>wrote env run c ps c'\<close>: the rows of the log at \<open>c'\<close> are those at \<open>c\<close> and, at the end, one per element of \<open>ps\<close>.\<close>

definition row_facts :: "event_row \<Rightarrow> string \<times> string \<times> row_body \<times> string option" where
  "row_facts r = (er_run_id r, er_tenant_id r, er_body r, er_idempotency_key r)"

definition wrote :: "exec_env \<Rightarrow> string \<Rightarrow> exec_ctx \<Rightarrow> (payload \<times> string option) list \<Rightarrow> exec_ctx \<Rightarrow> bool" where
  "wrote env run_id c ps c' \<longleftrightarrow> store_wf (xc_store c')
     \<and> (\<exists>rows. es_events (xc_store c') = es_events (xc_store c) @ rows
          \<and> map row_facts rows = map (\<lambda>(p, k). (run_id, ao_tenant_id (log_opts env k), RowPayload p, k)) ps)"

lemma wrote_Nil: "store_wf (xc_store c) \<Longrightarrow> es_events (xc_store c') = es_events (xc_store c) \<Longrightarrow> store_wf (xc_store c')
   \<Longrightarrow> wrote env run_id c [] c'"
  by (simp add: wrote_def)

lemma wrote_trans: "wrote env run_id a ps b \<Longrightarrow> wrote env run_id b qs c \<Longrightarrow> wrote env run_id a (ps @ qs) c"
  by (fastforce simp: wrote_def)

lemma wrote_wf: "wrote env run_id c ps c' \<Longrightarrow> store_wf (xc_store c')"
  by (simp add: wrote_def)

text \<open>An append whose key is free.\<close>

definition key_free :: "store \<Rightarrow> string \<Rightarrow> event_type \<Rightarrow> string option \<Rightarrow> bool" where
  "key_free st run_id et key \<longleftrightarrow> (case key of None \<Rightarrow> True | Some k \<Rightarrow> find_by_idempotency_key st run_id et k = None)"

lemma ensures_log_append:
  assumes "store_wf (xc_store c)" "key_free (xc_store c) run_id (payload_type p) key"
    and "\<And>c'. wrote env run_id c [(p, key)] c' \<Longrightarrow> xc_calls c' = xc_calls c \<Longrightarrow> xc_history c' = xc_history c \<Longrightarrow> xc_blobs c' = xc_blobs c
      \<Longrightarrow> Q (Inr ()) c'"
  shows "ensures (log_append env run_id p key) c Q"
proof -
  define now where "now = xe_clock env (length (es_events (xc_store c)))"
  define opts where "opts = log_opts env key"
  have key: "ao_idempotency_key opts = key" by (simp add: opts_def log_opts_def)
  have dup: "dup_row (new_row (xc_store c) run_id p opts now) (es_events (xc_store c)) = None"
    using assms(2) find_by_key_dup[OF assms(1), of opts _ run_id p now]
    by (cases key) (auto simp: key key_free_def dup_row_def)
  define st' where "st' = snd (append_commit (xc_store c) run_id p opts now)"
  have wf': "store_wf st'" unfolding st'_def by (rule store_wf_append_commit[OF assms(1)])
  have rows: "es_events st' = es_events (xc_store c) @ [allocated_row (xc_store c) run_id p opts now]"
    using dup append_commit_rows[OF assms(1), of run_id p opts now] by (simp add: st'_def)
  have "append_event (xc_store c) run_id p opts now = (Inr (row_event (allocated_row (xc_store c) run_id p opts now) p), st')"
    using dup append_event_eq[OF assms(1), of run_id p opts now] append_commit_eq[OF assms(1), of run_id p opts now]
    by (simp add: st'_def Let_def)
  moreover have "wrote env run_id c [(p, key)] (c\<lparr>xc_store := st'\<rparr>)"
    using wf' rows by (simp add: wrote_def row_facts_def key opts_def log_opts_def allocated_row_def)
  ultimately show ?thesis using assms(3)[of "c\<lparr>xc_store := st'\<rparr>"]
    by (simp add: ensures_def log_append_eq flip: opts_def now_def)
qed

lemma find_by_key_append:
  "es_events st' = es_events st @ rows \<Longrightarrow>
   find_by_idempotency_key st' run_id et key =
     (case find (key_matches run_id (event_type_value et) key) (es_events st) of
        Some r \<Rightarrow> event_from_row r
      | None \<Rightarrow> Option.bind (find (key_matches run_id (event_type_value et) key) rows) event_from_row)"
  by (simp add: find_by_idempotency_key_def find_append split: option.splits)

lemma wrote_unkeyed_find:
  assumes "wrote env run_id c ps c'" "list_all (\<lambda>(p, k). k = None) ps"
  shows "find_by_idempotency_key (xc_store c') rid et key = find_by_idempotency_key (xc_store c) rid et key"
proof -
  obtain rows where rows: "es_events (xc_store c') = es_events (xc_store c) @ rows"
    and facts: "map row_facts rows = map (\<lambda>(p, k). (run_id, ao_tenant_id (log_opts env k), RowPayload p, k)) ps"
    using assms(1) by (auto simp: wrote_def)
  have "er_idempotency_key r = None" if "r \<in> set rows" for r
  proof -
    have "row_facts r \<in> set (map row_facts rows)" using that by simp
    then show ?thesis using assms(2) unfolding facts by (auto simp: row_facts_def list_all_iff)
  qed
  then have "find (key_matches rid (event_type_value et) key) rows = None"
    by (auto simp: find_None_iff key_matches_def)
  then show ?thesis by (simp add: find_by_idempotency_key_def rows find_append split: option.splits)
qed

lemma wrote_unkeyed_free:
  "wrote env run_id c ps c' \<Longrightarrow> list_all (\<lambda>(p, k). k = None) ps \<Longrightarrow> key_free (xc_store c) rid et key
   \<Longrightarrow> key_free (xc_store c') rid et key"
  by (auto simp: key_free_def wrote_unkeyed_find split: option.splits)

text \<open>All events of the run belong to the tenant of the executor's store.\<close>

definition single_tenant :: "exec_env \<Rightarrow> store \<Rightarrow> string \<Rightarrow> bool" where
  "single_tenant env st run_id \<longleftrightarrow>
     (case xe_tenant env of None \<Rightarrow> True | Some t \<Rightarrow> list_all (\<lambda>r. er_tenant_id r = t) (run_rows run_id (es_events st)))"

lemma log_find_key_raw:
  assumes "single_tenant env st run_id"
  shows "log_find_key env st run_id et key = find_by_idempotency_key st run_id et key"
proof (cases "xe_tenant env")
  case None
  then show ?thesis by (simp add: log_find_key_def)
next
  case (Some t)
  show ?thesis
  proof (cases "find_by_idempotency_key st run_id et key")
    case None
    then show ?thesis using Some by (simp add: log_find_key_def scoped_find_by_idempotency_key_def event_of_tenant_def)
  next
    case e: (Some e)
    then obtain r where r: "find (key_matches run_id (event_type_value et) key) (es_events st) = Some r" "event_from_row r = Some e"
      by (auto simp: find_by_idempotency_key_def bind_eq_Some_conv)
    then have "r \<in> set (run_rows run_id (es_events st))" by (auto simp: find_Some_iff key_matches_def run_rows_def)
    then have "ev_tenant_id e = t" using assms Some event_from_row_fields[OF r(2)] by (auto simp: single_tenant_def list_all_iff)
    then show ?thesis using Some e by (simp add: log_find_key_def scoped_find_by_idempotency_key_def event_of_tenant_def)
  qed
qed

section \<open>Retry bounds\<close>

lemma retry_loop_bounds:
  "retry_loop policy chk call k as le rc = (r, n) \<Longrightarrow> k = rc \<Longrightarrow> as = [int k + 1..rtp_max_retries policy + 1] \<Longrightarrow>
   int k \<le> rtp_max_retries policy \<or> as \<noteq> [] \<Longrightarrow> 0 \<le> rtp_max_retries policy \<Longrightarrow>
   k < n \<and> int n \<le> rtp_max_retries policy + 1
   \<and> (\<forall>v m. r = Inr (v, m) \<longrightarrow> n = Suc m \<and> call m = Returned v)
   \<and> (\<forall>e. r = Inl e \<longrightarrow> call (n - 1) = Raised e \<or> (\<exists>v. call (n - 1) = Returned v \<and> chk v = Inl e))"
proof (induction policy chk call k as le rc rule: retry_loop.induct)
  case (1 policy chk call k le rc)
  then show ?case by simp
next
  case (2 policy chk call k a as le rc)
  have a: "a = int k + 1" "as = [int (Suc k) + 1..rtp_max_retries policy + 1]" "int k \<le> rtp_max_retries policy"
    using "2.prems"(3) upto_rec1[of "int k + 1" "rtp_max_retries policy + 1"] by (cases "int k \<le> rtp_max_retries policy"; simp)+
  have rest: "int (Suc k) \<le> rtp_max_retries policy" if "\<not> a > rtp_max_retries policy" using that a by simp
  show ?case
  proof (cases "call k")
    case (Raised e)
    show ?thesis
    proof (cases "should_retry a (ex_msg e) policy")
      case True
      then have "\<not> a > rtp_max_retries policy" by (auto simp: should_retry_def split: if_splits)
      note more = rest[OF this]
      have "retry_loop policy chk call (Suc k) as (Some e) (Suc rc) = (r, n)" using "2.prems"(1) Raised True by simp
      from "2.IH"(2)[OF Raised _ this _ a(2)] True more "2.prems"(2,5) show ?thesis by simp
    next
      case False
      then show ?thesis using "2.prems"(1,2) Raised a by auto
    qed
  next
    case (Returned v)
    show ?thesis
    proof (cases "chk v")
      case (Inl e)
      then show ?thesis using "2.prems"(1,2) Returned a by auto
    next
      case (Inr reason)
      show ?thesis
      proof (cases "reason = None \<or> a > rtp_max_retries policy")
        case True
        then show ?thesis using "2.prems"(1,2) Returned Inr a by (cases reason) auto
      next
        case False
        then obtain w where w: "reason = Some w" "\<not> a > rtp_max_retries policy" by auto
        have "retry_loop policy chk call (Suc k) as le (Suc rc) = (r, n)" using "2.prems"(1) Returned Inr w by simp
        from "2.IH"(1)[OF Returned Inr w this _ a(2)] rest[OF w(2)] "2.prems"(2,5) show ?thesis by simp
      qed
    qed
  qed
qed

lemma execute_with_retry_bounds:
  assumes "0 \<le> rtp_max_retries policy" and "execute_with_retry policy chk call = (r, n)"
  shows "1 \<le> n \<and> int n \<le> rtp_max_retries policy + 1
   \<and> (\<forall>v m. r = Inr (v, m) \<longrightarrow> n = Suc m \<and> call m = Returned v)
   \<and> (\<forall>e. r = Inl e \<longrightarrow> call (n - 1) = Raised e \<or> (\<exists>v. call (n - 1) = Returned v \<and> chk v = Inl e))"
proof -
  have "retry_loop policy chk call 0 [int 0 + 1..rtp_max_retries policy + 1] None 0 = (r, n)"
    using assms(2) by (simp add: execute_with_retry_def)
  moreover have "int 0 \<le> rtp_max_retries policy \<or> [int 0 + 1..rtp_max_retries policy + 1] \<noteq> []" using assms(1) by simp
  ultimately show ?thesis
    using retry_loop_bounds[OF _ refl refl _ assms(1), of chk call 0 None r n] unfolding Suc_le_eq One_nat_def by blast
qed

text \<open>C10: The retry budget is exact. With a policy of \<open>max_retries\<close> non-negative, the tool function is invoked at least once and at
  most \<open>max_retries + 1\<close> times; a returned value is the result of the last invocation and the reported retry count is the
  number of invocations before it; an exception is the one the last invocation (or its semantic check) raised.\<close>

theorem retries_are_bounded:
  assumes "0 \<le> rtp_max_retries policy" and "execute_with_retry policy chk call = (r, n)"
  shows "1 \<le> n \<and> int n \<le> rtp_max_retries policy + 1
   \<and> (\<forall>v m. r = Inr (v, m) \<longrightarrow> n = Suc m \<and> call m = Returned v)
   \<and> (\<forall>e. r = Inl e \<longrightarrow> call (n - 1) = Raised e \<or> (\<exists>v. call (n - 1) = Returned v \<and> chk v = Inl e))"
  using assms by (rule execute_with_retry_bounds)

text \<open>The wait before a retry doubles with each attempt within a quarter of jitter: for a non-negative base and a random draw in
  the unit interval it lies between three quarters and five quarters of the nominal wait.\<close>

theorem backoff_within_jitter:
  assumes "0 \<le> rtp_backoff_base_ms policy" and "0 \<le> r" "r < 1"
  shows "3 * (rtp_backoff_base_ms policy * 2 ^ (attempt - 1)) \<le> 4 * backoff_ms attempt policy r
    \<and> 4 * backoff_ms attempt policy r \<le> 5 * (rtp_backoff_base_ms policy * 2 ^ (attempt - 1))"
proof -
  define base where "base = rtp_backoff_base_ms policy * 2 ^ (attempt - 1)"
  define x where "x = of_int base * (1 / 4) * (r * 2 - 1)"
  have base: "0 \<le> base" using assms(1) by (simp add: base_def)
  have "\<bar>r * 2 - 1\<bar> \<le> 1" using assms(2,3) by (simp add: abs_le_iff)
  then have "of_int base * \<bar>r * 2 - 1\<bar> \<le> of_int base * 1"
    using base by (intro mult_left_mono) simp_all
  then have x: "\<bar>4 * x\<bar> \<le> of_int base" using base by (simp add: x_def abs_mult)
  have tr: "\<bar>of_int (trunc x)\<bar> \<le> \<bar>x\<bar>"
    using of_int_floor_le[of x] of_int_floor_le[of "- x"] zero_le_floor[of x] zero_le_floor[of "- x"]
    by (cases "x < 0") (simp_all add: trunc_def abs_of_nonneg)
  have "\<bar>4 * (of_int (trunc x) :: rat)\<bar> \<le> of_int base" using tr x by (simp add: abs_mult)
  then have "\<bar>4 * trunc x\<bar> \<le> base" by (metis of_int_abs of_int_le_iff of_int_mult of_int_numeral)
  then have "- base \<le> 4 * trunc x" "4 * trunc x \<le> base" by auto
  moreover have "backoff_ms attempt policy r = max 0 (base + trunc x)"
    by (simp add: backoff_ms_def Let_def base_def x_def)
  ultimately show ?thesis using base unfolding base_def[symmetric] by linarith
qed

section \<open>The trace of an execution\<close>

fun payload_call_id :: "payload \<Rightarrow> string option" where
  "payload_call_id (PTool (ToolCalled p)) = Some (tc_tool_call_id p)"
| "payload_call_id (PTool (ToolCompleted p)) = Some (tco_tool_call_id p)"
| "payload_call_id (PTool (ToolFailed p)) = Some (tf_tool_call_id p)"
| "payload_call_id (PTool (ToolTimeout p)) = Some (tt_tool_call_id p)"
| "payload_call_id (PTool (GuardrailTriggered p)) = Some (gt_tool_call_id p)"
| "payload_call_id (PTool (OutputBlobStored p)) = Some (obs_tool_call_id p)"
| "payload_call_id (PConfirmation (ConfirmationRequested p)) = Some (crq_tool_call_id p)"
| "payload_call_id _ = None"

text \<open>What may be stored under an idempotency key: a successful completion, or a request for confirmation.\<close>

fun cacheable :: "payload \<Rightarrow> bool" where
  "cacheable (PTool (ToolCompleted p)) = (tco_result_type p = TR_SUCCESS)"
| "cacheable (PConfirmation (ConfirmationRequested _)) = True"
| "cacheable _ = False"

definition well_marked :: "string \<Rightarrow> payload \<times> string option \<Rightarrow> bool" where
  "well_marked cid pk \<longleftrightarrow> payload_call_id (fst pk) = Some cid \<and> (snd pk \<noteq> None \<longrightarrow> cacheable (fst pk))"

definition phases :: "(payload \<times> string option) list \<Rightarrow> string list" where
  "phases ps = map (\<lambda>pk. the (payload_phase (fst pk))) ps"

text \<open>The result is one of \<open>alts\<close> (status and phases written), all events carry its call id, nothing is invoked.\<close>

definition tail_ok ::
    "exec_env \<Rightarrow> string \<Rightarrow> exec_ctx \<Rightarrow> string \<Rightarrow> (execution_status \<times> string list) list
      \<Rightarrow> py_exc + tool_execution_result \<Rightarrow> exec_ctx \<Rightarrow> bool" where
  "tail_ok env run_id c cid alts r c' \<longleftrightarrow>
     (\<exists>x ps. r = Inr x \<and> ter_tool_call_id x = cid \<and> wrote env run_id c ps c' \<and> (ter_status x, phases ps) \<in> set alts
        \<and> list_all (well_marked cid) ps \<and> xc_calls c' = xc_calls c)"

lemma tail_okI:
  "wrote env run_id c ps c' \<Longrightarrow> ter_tool_call_id x = cid \<Longrightarrow> (ter_status x, phases ps) \<in> set alts \<Longrightarrow> list_all (well_marked cid) ps
   \<Longrightarrow> xc_calls c' = xc_calls c \<Longrightarrow> tail_ok env run_id c cid alts (Inr x) c'"
  by (auto simp: tail_ok_def)

lemma tail_ok_Inl [simp]: "\<not> tail_ok env run_id c cid alts (Inl e) c'"
  by (simp add: tail_ok_def)

lemmas trace_defs = well_marked_def phases_def ToolExecutionResult0_def

text \<open>One more event, then the result.\<close>

lemma ensures_record_after:
  assumes w: "wrote env run_id c0 ps c" and "xc_calls c = xc_calls c0" "list_all (well_marked cid) ps"
    and "key_free (xc_store c) run_id (payload_type p) key" "payload_call_id p = Some cid" "key \<noteq> None \<Longrightarrow> cacheable p"
    and "ter_tool_call_id x = cid" "(ter_status x, phases ps @ [the (payload_phase p)]) \<in> set alts"
  shows "ensures (act_then (log_append env run_id p key) (act_return x)) c (tail_ok env run_id c0 cid alts)"
  unfolding ensures_then
proof (rule ensures_log_append[OF wrote_wf[OF w]])
  fix c' assume "wrote env run_id c [(p, key)] c'" and "xc_calls c' = xc_calls c"
  then show "case Inr () of Inl e \<Rightarrow> tail_ok env run_id c0 cid alts (Inl e) c'
      | Inr _ \<Rightarrow> ensures (act_return x) c' (tail_ok env run_id c0 cid alts)"
    using assms wrote_trans[OF w]
    by (auto simp: ensures_return well_marked_def phases_def intro!: tail_okI[where ps = "ps @ [(p, key)]"])
qed (use assms in auto)

lemma ensures_record:
  assumes "store_wf (xc_store c)" "payload_call_id p = Some cid" "ter_tool_call_id x = cid"
    and "(ter_status x, [the (payload_phase p)]) \<in> set alts"
  shows "ensures (act_then (log_append env run_id p None) (act_return x)) c (tail_ok env run_id c cid alts)"
  by (rule ensures_record_after[OF wrote_Nil[OF assms(1) refl assms(1)]]) (use assms in \<open>simp_all add: key_free_def phases_def\<close>)

lemma fail_call_tail:
  assumes "store_wf (xc_store c)" "(X_FAILED, [''failed'']) \<in> set alts"
  shows "ensures (fail_call env call cid ik err rt d) c (tail_ok env (tl_run_id call) c cid alts)"
  unfolding fail_call_def by (rule ensures_record[OF assms(1)]) (use assms in \<open>simp_all add: ToolExecutionResult0_def\<close>)

lemma put_blob_eq:
  "put_blob env call cid out c = (Inr (fst (blob_store (xe_sha256hex env) (xe_inline_max env) (tl_backend call) out cid
      (tl_tool_name call) (tl_step_id call) (tl_workspace_id call) (xc_blobs c))), c\<lparr>xc_blobs := snd (blob_store (xe_sha256hex env)
      (xe_inline_max env) (tl_backend call) out cid (tl_tool_name call) (tl_step_id call) (tl_workspace_id call) (xc_blobs c))\<rparr>)"
  by (simp add: put_blob_def split: prod.splits)

lemma blob_store_call_id:
  "blob_store sha im be out cid tool sid ws bs = (Some b, bs') \<Longrightarrow> obs_tool_call_id b = cid"
  by (auto simp: blob_store_def Let_def split: option.splits if_splits)

lemma ensures_offload:
  assumes wf: "store_wf (xc_store c)"
    and inline: "\<And>c'. es_events (xc_store c') = es_events (xc_store c) \<Longrightarrow> store_wf (xc_store c') \<Longrightarrow> xc_calls c' = xc_calls c \<Longrightarrow> Q (Inr out) c'"
    and blob: "\<And>b c'. wrote env (tl_run_id call) c [(PTool (OutputBlobStored b), None)] c' \<Longrightarrow> xc_calls c' = xc_calls c
      \<Longrightarrow> obs_tool_call_id b = cid \<Longrightarrow> Q (Inr (build_ref_placeholder b)) c'"
  shows "ensures (offload_if_large env call cid out) c Q"
proof -
  obtain stored bs where st: "blob_store (xe_sha256hex env) (xe_inline_max env) (tl_backend call) out cid
      (tl_tool_name call) (tl_step_id call) (tl_workspace_id call) (xc_blobs c) = (stored, bs)" by fastforce
  let ?c = "c\<lparr>xc_blobs := bs\<rparr>"
  have put: "ensures (put_blob env call cid out) c P \<longleftrightarrow> P (Inr stored) ?c" for P
    by (simp add: ensures_def put_blob_eq st)
  show ?thesis
  proof (cases stored)
    case None
    then show ?thesis using inline[of ?c] wf by (simp add: offload_if_large_def ensures_bind put action_wp)
  next
    case (Some b)
    have "ensures (log_append env (tl_run_id call) (PTool (OutputBlobStored b)) None) ?c
        (\<lambda>r c'. case r of Inl e \<Rightarrow> Q (Inl e) c' | Inr _ \<Rightarrow> ensures (act_return (build_ref_placeholder b)) c' Q)"
    proof (rule ensures_log_append)
      fix c' assume "wrote env (tl_run_id call) ?c [(PTool (OutputBlobStored b), None)] c'" "xc_calls c' = xc_calls ?c"
      then have "wrote env (tl_run_id call) c [(PTool (OutputBlobStored b), None)] c'" "xc_calls c' = xc_calls c"
        by (simp_all add: wrote_def)
      from blob[OF this] blob_store_call_id[OF st[unfolded Some]]
      show "case Inr () of Inl e \<Rightarrow> Q (Inl e) c' | Inr _ \<Rightarrow> ensures (act_return (build_ref_placeholder b)) c' Q"
        by (simp add: action_wp)
    qed (use wf in \<open>simp_all add: key_free_def\<close>)
    then show ?thesis by (simp add: offload_if_large_def ensures_bind put Some ensures_then)
  qed
qed

lemma completed_payload_simps [simp]:
  "payload_type (completed_payload call cid out d rt err) = TOOL"
  "payload_phase (completed_payload call cid out d rt err) = Some ''completed''"
  "payload_call_id (completed_payload call cid out d rt err) = Some cid"
  "cacheable (completed_payload call cid out d rt err) \<longleftrightarrow> rt = TR_SUCCESS"
  by (simp_all add: completed_payload_def)

lemma wrote_cong: "es_events (xc_store b) = es_events (xc_store a) \<Longrightarrow> wrote env run_id b ps c \<longleftrightarrow> wrote env run_id a ps c"
  by (simp add: wrote_def)

lemma finish_success_tail:
  assumes "store_wf (xc_store c)" "key_free (xc_store c) (tl_run_id call) TOOL ik"
  shows "ensures (finish_success env call cid ik d out n) c
    (tail_ok env (tl_run_id call) c cid [(X_COMPLETED, [''completed'']), (X_COMPLETED, [''output_stored'', ''completed''])])"
  unfolding finish_success_def ensures_bind
proof (rule ensures_offload[OF assms(1)], goal_cases)
  case (1 c1)
  have "key_free (xc_store c1) (tl_run_id call) TOOL ik"
    using assms(2) 1 by (cases ik) (simp_all add: key_free_def find_by_idempotency_key_def)
  then show ?case unfolding sum.case
    by (intro ensures_record_after[OF wrote_Nil[OF assms(1) 1(1,2)]]) (simp_all add: 1 phases_def ToolExecutionResult0_def)
next
  case (2 b c1)
  have "key_free (xc_store c1) (tl_run_id call) TOOL ik" by (rule wrote_unkeyed_free[OF 2(1) _ assms(2)]) simp
  then show ?case unfolding sum.case
    by (intro ensures_record_after[OF 2(1)]) (simp_all add: 2 phases_def well_marked_def ToolExecutionResult0_def)
qed

lemma tail_ok_mono: "tail_ok env run_id c cid alts r c' \<Longrightarrow> set alts \<subseteq> set alts' \<Longrightarrow> tail_ok env run_id c cid alts' r c'"
  by (auto simp: tail_ok_def)

definition finish_alts :: "(execution_status \<times> string list) list" where
  "finish_alts = [(X_COMPLETED, [''completed'']), (X_COMPLETED, [''output_stored'', ''completed'']), (X_FAILED, [''failed''])]"

lemma finish_call_tail:
  assumes "store_wf (xc_store c)" "key_free (xc_store c) (tl_run_id call) TOOL ik"
  shows "ensures (finish_call env td call cid ik d out n) c
    (\<lambda>r c'. (\<exists>e. r = Inl e \<and> c' = c) \<or> tail_ok env (tl_run_id call) c cid finish_alts r c')" (is "ensures _ c ?Q")
proof -
  have succ: "ensures (finish_success env call cid ik d out n) c ?Q"
    by (rule ensures_mono[OF finish_success_tail[OF assms]]) (auto simp: finish_alts_def intro: tail_ok_mono)
  have fl: "ensures (fail_call env call cid ik err rt d) c ?Q" for err rt
    by (rule ensures_mono[OF fail_call_tail[OF assms(1), of finish_alts]]) (auto simp: finish_alts_def)
  have uns: "ensures (act_then (log_append env (tl_run_id call) (completed_payload call cid out d TR_UNSUCCESSFUL err) None)
      (act_return ((ToolExecutionResult0 X_COMPLETED cid (tl_tool_name call) ik)\<lparr>ter_output := out,
               ter_duration_ms := d, ter_retry_attempts := n, ter_has_semantic_error := True, ter_error := err\<rparr>))) c ?Q" for err
    by (rule ensures_mono[OF ensures_record[OF assms(1), of _ cid _ finish_alts]])
       (auto simp: finish_alts_def ToolExecutionResult0_def)
  show ?thesis
  proof (cases "sem_evaluate out td")
    case (Inl e)
    then show ?thesis by (simp add: finish_call_def action_wp)
  next
    case (Inr re)
    then show ?thesis using succ fl uns
      by (cases re; cases "fst re") (simp_all add: finish_call_def split: schema_verdict.split, simp add: ensures_raise)
  qed
qed

definition exc_alts :: "(execution_status \<times> string list) list" where
  "exc_alts = [(X_TIMEOUT, [''timeout'']), (X_CONFIRMATION_NEEDED, []), (X_FAILED, [''failed''])]"

lemma handle_exc_tail:
  assumes "store_wf (xc_store c)"
  shows "ensures (handle_exc env td call cid ik d e) c (tail_ok env (tl_run_id call) c cid exc_alts)"
proof (cases "ex_kind e")
  case ExTimeout
  show ?thesis unfolding handle_exc_def ExTimeout exc_kind.case
    by (rule ensures_record[OF assms]) (simp_all add: exc_alts_def ToolExecutionResult0_def)
next
  case (ExConfirm x)
  have "wrote env (tl_run_id call) c [] c" by (rule wrote_Nil) (use assms in auto)
  then show ?thesis using ExConfirm by (auto simp: handle_exc_def ensures_return trace_defs exc_alts_def intro: tail_okI)
next
  case ExOther
  show ?thesis unfolding handle_exc_def ExOther exc_kind.case
    by (rule fail_call_tail[OF assms]) (simp add: exc_alts_def)
qed

definition execution_alts :: "(execution_status \<times> string list) list" where
  "execution_alts = [(X_GUARDRAIL_BLOCKED, [''blocked'']), (X_IDEMPOTENCY_HIT, []), (X_CONFIRMATION_NEEDED, []),
     (X_CONFIRMATION_NEEDED, [''requested'']), (X_FAILED, [''failed''])]
     @ map (\<lambda>(s, ts). (s, ''called'' # ts)) (finish_alts @ exc_alts)"

definition traced ::
    "exec_env \<Rightarrow> tool_definition \<Rightarrow> tool_call \<Rightarrow> exec_ctx \<Rightarrow> py_exc + tool_execution_result \<Rightarrow> exec_ctx \<Rightarrow> bool" where
  "traced env td call c r c' \<longleftrightarrow>
     (case r of
        Inl e \<Rightarrow> wrote env (tl_run_id call) c [] c' \<and> xc_calls c' = xc_calls c
      | Inr x \<Rightarrow>
          (\<exists>ps n. wrote env (tl_run_id call) c ps c' \<and> (ter_status x, phases ps) \<in> set execution_alts
             \<and> list_all (well_marked (ter_tool_call_id x)) ps
             \<and> xc_calls c' = xc_calls c @ replicate n (tl_run_id call, tl_step_id call, tl_tool_name call, tl_input call)
             \<and> (if ''called'' \<in> set (phases ps) then 1 \<le> n \<and> int n \<le> rtp_max_retries (td_retry_policy td) + 1 else n = 0)))"

lemma raise_traced: "store_wf (xc_store c) \<Longrightarrow> ensures (act_raise e) c (traced env td call c)"
  by (simp add: ensures_raise traced_def wrote_Nil)

lemma invoke_tool_eq:
  "ensures (invoke_tool td call dr) c Q \<longleftrightarrow>
     (let rn = execute_with_retry (td_retry_policy td) (semantic_retry_reason td (tl_tool_name call) (tl_input call)) (dr_call dr)
      in Q (fst rn) (c\<lparr>xc_calls := xc_calls c @ replicate (snd rn) (tl_run_id call, tl_step_id call, tl_tool_name call, tl_input call)\<rparr>))"
  by (simp add: ensures_def invoke_tool_def Let_def split: prod.splits)

lemma tail_traced:
  assumes "tail_ok env (tl_run_id call) c1 cid (finish_alts @ exc_alts) r c'"
    and "wrote env (tl_run_id call) c [(p, None)] c1" "payload_call_id p = Some cid" "payload_phase p = Some ''called''"
    and "xc_calls c1 = xc_calls c @ replicate n (tl_run_id call, tl_step_id call, tl_tool_name call, tl_input call)"
    and "1 \<le> n" "int n \<le> rtp_max_retries (td_retry_policy td) + 1"
  shows "traced env td call c r c'"
proof -
  obtain x ps where x: "r = Inr x" "ter_tool_call_id x = cid" "wrote env (tl_run_id call) c1 ps c'"
    "(ter_status x, phases ps) \<in> set (finish_alts @ exc_alts)" "list_all (well_marked cid) ps" "xc_calls c' = xc_calls c1"
    using assms(1) by (auto simp: tail_ok_def)
  let ?ps = "[(p, None)] @ ps"
  have ph: "phases ?ps = ''called'' # phases ps" using assms(4) by (simp add: phases_def)
  have "(ter_status x, phases ?ps) \<in> set execution_alts"
    unfolding ph execution_alts_def set_append set_map using x(4) by force
  then show ?thesis
    unfolding traced_def using wrote_trans[OF assms(2) x(3)] x assms(3,5-7) ph
    by (auto simp: well_marked_def intro!: exI[of _ ?ps] exI[of _ n])
qed

lemma perform_call_traced:
  assumes wf: "store_wf (xc_store c)" and free: "key_free (xc_store c) (tl_run_id call) TOOL ik"
    and "0 \<le> rtp_max_retries (td_retry_policy td)"
  shows "ensures (perform_call env td call dr cid ik) c (traced env td call c)"
proof -
  let ?p = "PTool (ToolCalled \<lparr> tc_tool_call_id = cid, tc_tool_name = tl_tool_name call,
          tc_input = tl_input call, tc_idempotency_key = ik, tc_step_id = tl_step_id call \<rparr>)"
  obtain r n where rn: "execute_with_retry (td_retry_policy td) (semantic_retry_reason td (tl_tool_name call) (tl_input call)) (dr_call dr)
      = (r, n)" by fastforce
  note bounds = execute_with_retry_bounds[OF assms(3) rn]
  show ?thesis unfolding perform_call_def ensures_then
  proof (rule ensures_log_append[OF wf])
    fix c1 assume c1: "wrote env (tl_run_id call) c [(?p, None)] c1" "xc_calls c1 = xc_calls c"
    let ?c2 = "c1\<lparr>xc_calls := xc_calls c1 @ replicate n (tl_run_id call, tl_step_id call, tl_tool_name call, tl_input call)\<rparr>"
    have w2: "wrote env (tl_run_id call) c [(?p, None)] ?c2" using c1(1) by (simp add: wrote_def)
    have wf2: "store_wf (xc_store ?c2)" by (rule wrote_wf[OF w2])
    have free2: "key_free (xc_store ?c2) (tl_run_id call) TOOL ik" by (rule wrote_unkeyed_free[OF w2 _ free]) simp
    have ok: "traced env td call c r' c'" if "tail_ok env (tl_run_id call) ?c2 cid alts r' c'"
      and "set alts \<subseteq> set (finish_alts @ exc_alts)" for r' c' alts
      by (rule tail_traced[OF tail_ok_mono[OF that] w2]) (use c1 bounds in auto)
    have exc: "ensures (handle_exc env td call cid ik (dr_duration dr) e) ?c2 (traced env td call c)" for e
      by (rule ensures_mono[OF handle_exc_tail[OF wf2]]) (rule ok, auto)
    have fin: "ensures (finish_call env td call cid ik (dr_duration dr) out m) ?c2 (\<lambda>r c'. case r of
        Inl e \<Rightarrow> ensures (handle_exc env td call cid ik (dr_duration dr) e) c' (traced env td call c) | Inr x \<Rightarrow> traced env td call c (Inr x) c')"
      for out m
      by (rule ensures_mono[OF finish_call_tail[OF wf2 free2]]) (auto simp: exc split: sum.splits intro: ok dest: tail_ok_mono)
    have "ensures (act_try (act_bind (invoke_tool td call dr) (\<lambda>(out, m). finish_call env td call cid ik (dr_duration dr) out m))
        (handle_exc env td call cid ik (dr_duration dr))) c1 (traced env td call c)"
      unfolding ensures_try ensures_bind invoke_tool_eq rn Let_def fst_conv snd_conv
      using exc fin by (auto split: sum.split)
    then show "case Inr () of Inl e \<Rightarrow> traced env td call c (Inl e) c1 | Inr _ \<Rightarrow> ensures (act_try (act_bind (invoke_tool td call dr)
        (\<lambda>(out, m). finish_call env td call cid ik (dr_duration dr) out m)) (handle_exc env td call cid ik (dr_duration dr))) c1 (traced env td call c)"
      by simp
  qed (simp add: key_free_def)
qed

lemma quiet_traced:
  assumes "tail_ok env (tl_run_id call) c cid alts r c'" "set alts \<subseteq> set execution_alts"
    and "\<And>s ts. (s, ts) \<in> set alts \<Longrightarrow> ''called'' \<notin> set ts"
  shows "traced env td call c r c'"
  using assms unfolding traced_def tail_ok_def
  by (clarsimp, rename_tac x ps) (rule_tac x = ps in exI, auto intro: exI[of _ "0::nat"])

lemma not_found_key_free:
  assumes "single_tenant env st run_id" "Option.bind ik (log_find_key env st run_id et) = None"
  shows "key_free st run_id et ik"
  using assms(2) by (cases ik) (auto simp: key_free_def log_find_key_raw[OF assms(1)])

lemma confirmation_gate_traced:
  assumes wf: "store_wf (xc_store c)" and tenant: "single_tenant env (xc_store c) (tl_run_id call)"
    and k: "\<And>cid. ensures (k cid) c (traced env td call c)"
  shows "ensures (confirmation_gate env call dr cid ik k) c (traced env td call c)"
proof -
  have wait: "ensures (confirmation_wait call cid ik x) c (traced env td call c)" for x
    unfolding confirmation_wait_def ensures_return
    by (rule quiet_traced[where alts = "[(X_CONFIRMATION_NEEDED, [])]", OF tail_okI[OF wrote_Nil[OF wf refl wf] refl]])
       (auto simp: phases_def ToolExecutionResult0_def execution_alts_def)
  have fail: "ensures (fail_call env call cid ik err False 0) c (traced env td call c)" for err
    by (rule ensures_mono[OF fail_call_tail[OF wf, of "[(X_FAILED, [''failed''])]"]])
       (auto simp: execution_alts_def intro: quiet_traced)
  have req: "ensures (request_confirmation env call dr cid ik) c (traced env td call c)"
    if none: "log_find_key env (xc_store c) (tl_run_id call) CONFIRMATION (confirm_key ik (tl_tool_name call)) = None"
  proof -
    have "key_free (xc_store c) (tl_run_id call) CONFIRMATION (Some (confirm_key ik (tl_tool_name call)))"
      using none by (simp add: key_free_def log_find_key_raw[OF tenant])
    then have "ensures (request_confirmation env call dr cid ik) c
        (tail_ok env (tl_run_id call) c cid [(X_CONFIRMATION_NEEDED, [''requested''])])"
      unfolding request_confirmation_def Let_def confirmation_wait_def
      by (intro ensures_record_after[OF wrote_Nil[OF wf refl wf]]) (auto simp: phases_def ToolExecutionResult0_def)
    then show ?thesis by (rule ensures_mono) (auto simp: execution_alts_def intro: quiet_traced)
  qed
  note raise = raise_traced[OF wf]
  show ?thesis
    unfolding ensures_def confirmation_gate_def
    by (auto simp: wait[unfolded ensures_def] fail[unfolded ensures_def] req[unfolded ensures_def] k[unfolded ensures_def]
        raise[unfolded ensures_def] split: option.split payload.split confirmation_payload.split)
qed

lemma idempotency_gate_traced:
  assumes wf: "store_wf (xc_store c)"
    and k: "Option.bind ik (log_find_key env (xc_store c) (tl_run_id call) TOOL) = None \<Longrightarrow> ensures k c (traced env td call c)"
  shows "ensures (idempotency_gate env call ik k) c (traced env td call c)"
proof (cases "Option.bind ik (log_find_key env (xc_store c) (tl_run_id call) TOOL)")
  case None
  then show ?thesis using k by (simp add: idempotency_gate_def ensures_def)
next
  case (Some e)
  note raise = raise_traced[OF wf]
  have hit: "ensures (act_return (cached_result call ik p)) c (traced env td call c)" for p
    unfolding ensures_return
    by (rule quiet_traced[where alts = "[(X_IDEMPOTENCY_HIT, [])]", OF tail_okI[OF wrote_Nil[OF wf refl wf] refl]])
       (auto simp: phases_def ToolExecutionResult0_def execution_alts_def cached_result_def Let_def)
  show ?thesis unfolding ensures_def idempotency_gate_def Some option.case
    by (auto simp: raise[unfolded ensures_def] hit[unfolded ensures_def] split: payload.split tool_payload.split)
qed

lemma traced_cong:
  "es_events (xc_store b) = es_events (xc_store a) \<Longrightarrow> xc_calls b = xc_calls a \<Longrightarrow> traced env td call b r c' \<longleftrightarrow> traced env td call a r c'"
  by (cases r) (simp_all add: traced_def wrote_cong[of b a])

lemma run_checks_eq:
  "run_checks env td call c =
     (case run_guardrails (xe_guard env) (Some (log_reader env (xc_store c))) (map_option be_resolve (tl_backend call)) td
             (tl_input call) (Some (tl_run_id call)) (tl_scope call) (xe_clock env (length (es_events (xc_store c)))) (xc_history c) of
        (r, h) \<Rightarrow> (case r of Inl e \<Rightarrow> Inl (exc_of_error e) | Inr rs \<Rightarrow> Inr rs, c\<lparr>xc_history := h\<rparr>))"
  by (simp add: run_checks_def split: prod.split sum.split)

lemma execute_traced:
  assumes wf: "store_wf (xc_store c)" and tenant: "single_tenant env (xc_store c) (tl_run_id call)"
    and retries: "0 \<le> rtp_max_retries (td_retry_policy td)"
  shows "ensures (execute env td call dr) c (traced env td call c)"
proof -
  define cid where "cid = opt_or (tl_override_id call) (dr_uuid dr)"
  define ik where "ik = idem_compute (xe_sha256hex env) td (tl_input call) (effective_idempotency_key_fields td (tl_input call))"
  obtain r h where rh: "run_guardrails (xe_guard env) (Some (log_reader env (xc_store c))) (map_option be_resolve (tl_backend call)) td
      (tl_input call) (Some (tl_run_id call)) (tl_scope call) (xe_clock env (length (es_events (xc_store c)))) (xc_history c) = (r, h)"
    by fastforce
  let ?c = "c\<lparr>xc_history := h\<rparr>"
  have wf1: "store_wf (xc_store ?c)" and t1: "single_tenant env (xc_store ?c) (tl_run_id call)" using wf tenant by simp_all
  have block: "ensures (block_call env call cid ik g) ?c (traced env td call ?c)" for g
    unfolding block_call_def
    by (rule ensures_mono[OF ensures_record[OF wf1, of _ cid _ "[(X_GUARDRAIL_BLOCKED, [''blocked''])]"]])
       (auto simp: ToolExecutionResult0_def execution_alts_def intro: quiet_traced)
  have perf: "ensures (perform_call env td call dr cid' ik) ?c (traced env td call ?c)"
    if "Option.bind ik (log_find_key env (xc_store ?c) (tl_run_id call) TOOL) = None" for cid'
    by (rule perform_call_traced[OF wf1 not_found_key_free[OF t1 that] retries])
  have gate: "ensures (idempotency_gate env call ik (if b then confirmation_gate env call dr cid ik (\<lambda>cid. perform_call env td call dr cid ik)
      else perform_call env td call dr cid ik)) ?c (traced env td call ?c)" for b
    by (rule idempotency_gate_traced[OF wf1]) (simp add: perf confirmation_gate_traced[OF wf1 t1])
  have "ensures (execute env td call dr) c (traced env td call ?c)"
    unfolding execute_def Let_def ensures_bind cid_def[symmetric] ik_def[symmetric]
    using block gate[of True] gate[of False] by (cases r) (simp_all add: ensures_def[of "run_checks env td call"] run_checks_eq rh traced_def[of _ _ _ _ "Inl _"] wrote_Nil wf
      split: option.split)
  then show ?thesis by (rule ensures_mono) (simp add: traced_cong[of ?c c])
qed

text \<open>C11: What one tool execution leaves behind. On a well-formed log, an execution that returns has written, at the end of its run
  and nowhere else, one of a fixed list of phase sequences determined by its status; every event carries the call id of the result; only
  a successful completion or a request for confirmation is stored under an idempotency key, so a failed or unsuccessful result is
  never cached; and the tool function was invoked exactly when a ToolCalled event was written, at most \<open>max_retries + 1\<close> times.
  An execution that raises has written and invoked nothing.\<close>

theorem execution_leaves_a_trace:
  assumes "store_wf (xc_store c)" "single_tenant env (xc_store c) (tl_run_id call)" "0 \<le> rtp_max_retries (td_retry_policy td)"
    and "execute env td call dr c = (r, c')"
  shows "case r of
      Inl e \<Rightarrow> wrote env (tl_run_id call) c [] c' \<and> xc_calls c' = xc_calls c
    | Inr x \<Rightarrow>
        (\<exists>ps n. wrote env (tl_run_id call) c ps c' \<and> (ter_status x, phases ps) \<in> set execution_alts
           \<and> list_all (well_marked (ter_tool_call_id x)) ps
           \<and> xc_calls c' = xc_calls c @ replicate n (tl_run_id call, tl_step_id call, tl_tool_name call, tl_input call)
           \<and> (if ''called'' \<in> set (phases ps) then 1 \<le> n \<and> int n \<le> rtp_max_retries (td_retry_policy td) + 1 else n = 0))"
  using ensuresD[OF execute_traced[OF assms(1-3)] assms(4)] by (simp only: traced_def)

section \<open>Authorisation\<close>

text \<open>The operator has answered yes to the request stored under the key.\<close>

definition confirmed_by_operator :: "exec_env \<Rightarrow> store \<Rightarrow> string \<Rightarrow> string \<Rightarrow> bool" where
  "confirmed_by_operator env st run_id key \<longleftrightarrow>
     (\<exists>req rq e cr. log_find_key env st run_id CONFIRMATION key = Some req
        \<and> ev_payload req = PConfirmation (ConfirmationRequested rq)
        \<and> find_confirmation_received env st run_id (crq_confirmation_id rq) = Some e
        \<and> ev_payload e = PConfirmation (ConfirmationReceived cr) \<and> crc_confirmed cr)"

definition call_key :: "exec_env \<Rightarrow> tool_definition \<Rightarrow> tool_call \<Rightarrow> string option" where
  "call_key env td call =
     idem_compute (xe_sha256hex env) td (tl_input call) (effective_idempotency_key_fields td (tl_input call))"

definition guard_results :: "exec_env \<Rightarrow> tool_definition \<Rightarrow> tool_call \<Rightarrow> exec_ctx \<Rightarrow> guardrail_result list result \<times> history" where
  "guard_results env td call c =
     run_guardrails (xe_guard env) (Some (log_reader env (xc_store c))) (map_option be_resolve (tl_backend call)) td
       (tl_input call) (Some (tl_run_id call)) (tl_scope call) (xe_clock env (length (es_events (xc_store c)))) (xc_history c)"

definition authorised :: "exec_env \<Rightarrow> tool_definition \<Rightarrow> tool_call \<Rightarrow> exec_ctx \<Rightarrow> bool" where
  "authorised env td call c \<longleftrightarrow>
     (\<exists>rs h. guard_results env td call c = (Inr rs, h) \<and> list_all gr_passed rs
        \<and> Option.bind (call_key env td call) (log_find_key env (xc_store c) (tl_run_id call) TOOL) = None
        \<and> (effective_requires_confirmation td (tl_input call) \<or> list_ex gr_triggers_confirmation rs \<longrightarrow>
             confirmed_by_operator env (xc_store c) (tl_run_id call) (confirm_key (call_key env td call) (tl_tool_name call))))"

text \<open>An action that invokes no tool.\<close>

definition silent :: "'a action \<Rightarrow> bool" where
  "silent m \<longleftrightarrow> (\<forall>c. xc_calls (snd (m c)) = xc_calls c)"

lemma silent_log_append: "silent (log_append env run_id p key)"
  by (auto simp: silent_def log_append_eq split: prod.split sum.split)

lemma silent_return: "silent (act_return x)" and silent_raise: "silent (act_raise e)"
  by (simp_all add: silent_def act_return_def act_raise_def)

lemma silent_then: "silent m \<Longrightarrow> silent k \<Longrightarrow> silent (act_then m k)"
  by (auto simp: silent_def act_then_def act_bind_def split: prod.split sum.split) (metis snd_conv)+

lemmas silent_rules = silent_log_append silent_return silent_raise silent_then

lemma silent_ends:
  "silent (block_call env call cid ik g)" "silent (fail_call env call cid ik err rt d)"
  "silent (confirmation_wait call cid ik x)" "silent (request_confirmation env call dr cid ik)"
  by (simp_all add: block_call_def fail_call_def confirmation_wait_def request_confirmation_def Let_def silent_rules)

lemma silentD: "silent m \<Longrightarrow> m c = (r, c') \<Longrightarrow> xc_calls c' = xc_calls c"
  by (metis silent_def snd_conv)

lemma confirmation_gate_cases:
  assumes "confirmation_gate env call dr cid ik k c = (r, c')"
  shows "xc_calls c' = xc_calls c \<or> confirmed_by_operator env (xc_store c) (tl_run_id call) (confirm_key ik (tl_tool_name call))"
  using assms unfolding confirmation_gate_def confirmed_by_operator_def
  by (auto split: option.splits payload.splits confirmation_payload.splits if_splits
      dest: silentD[OF silent_raise] silentD[OF silent_ends(2)] silentD[OF silent_ends(3)] silentD[OF silent_ends(4)])

lemma run_checks_guard: "run_checks env td call c = (r, c1) \<Longrightarrow>
   c1 = c\<lparr>xc_history := snd (guard_results env td call c)\<rparr> \<and> (\<forall>rs. r = Inr rs \<longrightarrow> fst (guard_results env td call c) = Inr rs)"
  by (auto simp: run_checks_eq guard_results_def split: prod.splits sum.splits)

lemma find_None_list_all: "find (\<lambda>g. \<not> P g) xs = None \<longleftrightarrow> list_all P xs"
  by (auto simp: find_None_iff list_all_iff)

lemma execute_authorised:
  assumes "execute env td call dr c = (r, c')" "xc_calls c' \<noteq> xc_calls c"
  shows "authorised env td call c"
proof -
  obtain r1 c1 where r1: "run_checks env td call c = (r1, c1)" by fastforce
  note c1 = run_checks_guard[OF r1]
  let ?ik = "call_key env td call"
  let ?cid = "opt_or (tl_override_id call) (dr_uuid dr)"
  have calls: "xc_calls c1 = xc_calls c" "xc_store c1 = xc_store c" using c1 by simp_all
  obtain rs where rs: "r1 = Inr rs"
    using assms r1 calls by (cases r1) (auto simp: execute_def Let_def act_bind_def)
  have passed: "list_all gr_passed rs"
  proof (cases "find (\<lambda>g. \<not> gr_passed g) rs")
    case None
    then show ?thesis by (simp add: find_None_list_all)
  next
    case (Some g)
    then have "block_call env call ?cid ?ik g c1 = (r, c')"
      using assms(1) r1 rs by (simp add: execute_def Let_def act_bind_def call_key_def)
    then show ?thesis using assms(2) calls silentD[OF silent_ends(1)] by fastforce
  qed
  define need where "need \<longleftrightarrow> effective_requires_confirmation td (tl_input call) \<or> list_ex gr_triggers_confirmation rs"
  have gate: "idempotency_gate env call ?ik (if need then confirmation_gate env call dr ?cid ?ik (\<lambda>cid. perform_call env td call dr cid ?ik)
      else perform_call env td call dr ?cid ?ik) c1 = (r, c')"
    using assms(1) r1 rs passed unfolding call_key_def need_def
    by (simp add: execute_def Let_def act_bind_def find_None_list_all[symmetric] split del: if_split)
  have miss: "Option.bind ?ik (log_find_key env (xc_store c) (tl_run_id call) TOOL) = None"
    using gate assms(2) calls
    by (auto simp: idempotency_gate_def act_return_def act_raise_def split: option.splits payload.splits tool_payload.splits)
  have "need \<longrightarrow> confirmed_by_operator env (xc_store c) (tl_run_id call) (confirm_key ?ik (tl_tool_name call))"
    using gate miss assms(2) calls confirmation_gate_cases[of env call dr ?cid ?ik _ c1 r c'] by (auto simp: idempotency_gate_def)
  moreover have "guard_results env td call c = (Inr rs, snd (guard_results env td call c))"
    using c1 rs by (metis prod.collapse)
  ultimately show ?thesis unfolding authorised_def need_def using passed miss by blast
qed

text \<open>C8: A tool function runs only when it is authorised: if an execution invoked it, then on the state it started from every guardrail
  ran and passed, the run held no completed result for the same idempotency key, and, where the contract or a guardrail demands
  confirmation, the log held a request under the call's key that an operator had answered with yes.\<close>

theorem tools_run_only_when_authorised:
  assumes "execute env td call dr c = (r, c')" "xc_calls c' \<noteq> xc_calls c"
  shows "authorised env td call c"
  using assms by (rule execute_authorised)

text \<open>C18: Registration, guardrails and the executor together: a registered tool whose resolved operation declares a deletion is never
  invoked unless an operator confirmed the request stored under the call's key (the built-in destructive check in force).\<close>

theorem registered_deletions_run_only_confirmed:
  assumes "registry_step\<^sup>*\<^sup>* ToolRegistry0 rg" "get_tool_def rg (tl_tool_name call) = Some td"
    and "ge_custom (xe_guard env) ''destructive'' = None"
    and "resolve_operation_contract td (tl_input call) = Some op" "DELETE \<in> set (oc_side_effects op)"
    and "execute env td call dr c = (r, c')" "xc_calls c' \<noteq> xc_calls c"
  shows "confirmed_by_operator env (xc_store c) (tl_run_id call) (confirm_key (call_key env td call) (tl_tool_name call))"
proof -
  have "(tl_tool_name call, td) \<in> set (rg_tools rg)" using assms(2) by (auto simp: get_tool_def_def dest: map_of_SomeD)
  then have safe: "validate_registration_safety td = []"
    using registry_reachable_wf[OF assms(1)] by (auto simp: registry_wf_def list_all_iff)
  obtain rs h where rs: "guard_results env td call c = (Inr rs, h)" "list_all gr_passed rs"
    and conf: "effective_requires_confirmation td (tl_input call) \<or> list_ex gr_triggers_confirmation rs \<longrightarrow>
      confirmed_by_operator env (xc_store c) (tl_run_id call) (confirm_key (call_key env td call) (tl_tool_name call))"
    using execute_authorised[OF assms(6,7)] by (auto simp: authorised_def)
  from deletion_triggers_confirmation[OF safe assms(3-5) rs(1)[unfolded guard_results_def] rs(2)] conf show ?thesis by blast
qed

section \<open>Replay of cached results\<close>

text \<open>What a result that completed without semantic error guarantees about the log.\<close>

definition cached_as :: "tool_call \<Rightarrow> string option \<Rightarrow> py_exc + tool_execution_result \<Rightarrow> exec_ctx \<Rightarrow> bool" where
  "cached_as call ik r c' \<longleftrightarrow> (\<forall>x key. r = Inr x \<and> ik = Some key \<and> ter_status x = X_COMPLETED \<and> \<not> ter_has_semantic_error x \<longrightarrow>
     (\<exists>e q. find_by_idempotency_key (xc_store c') (tl_run_id call) TOOL key = Some e \<and> ev_payload e = PTool (ToolCompleted q)
        \<and> tco_tool_call_id q = ter_tool_call_id x \<and> tco_result_type q = TR_SUCCESS
        \<and> (tl_backend call = None \<longrightarrow> tco_output q = ter_output x)))"

lemma cached_as_Inl [simp]: "cached_as call ik (Inl e) c'"
  by (simp add: cached_as_def)

lemma ensures_trivial:
  "(\<And>c'. Q (Inr x) c') \<Longrightarrow> (\<And>e c'. Q (Inl e) c') \<Longrightarrow> ensures (act_then m (act_return x)) c Q"
  by (auto simp: ensures_def act_then_def act_bind_def act_return_def split: prod.splits sum.splits)

lemma wrote_key_found:
  assumes w: "wrote env run_id c [(p, Some key)] c'" and free: "key_free (xc_store c) run_id (payload_type p) (Some key)"
    and wf: "store_wf (xc_store c)"
  shows "\<exists>e. find_by_idempotency_key (xc_store c') run_id (payload_type p) key = Some e \<and> ev_payload e = p"
proof -
  obtain r where r: "es_events (xc_store c') = es_events (xc_store c) @ [r]" "er_run_id r = run_id" "er_body r = RowPayload p"
    "er_idempotency_key r = Some key" using w by (auto simp: wrote_def row_facts_def)
  let ?o = "log_opts env (Some key)"
  have "dup_row (new_row (xc_store c) run_id p ?o 0) (es_events (xc_store c)) = None"
    using free find_by_key_dup[OF wf, of ?o key run_id p 0] by (simp add: key_free_def log_opts_def)
  then have "find (key_matches run_id (event_type_value (payload_type p)) key) (es_events (xc_store c)) = None"
    by (simp add: dup_row_def log_opts_def)
  moreover have "key_matches run_id (event_type_value (payload_type p)) key r" using r by (simp add: key_matches_def)
  ultimately show ?thesis using r(3) by (simp add: find_by_idempotency_key_def r(1) find_append row_event_def)
qed

lemma finish_success_cached:
  assumes "store_wf (xc_store c)" "key_free (xc_store c) (tl_run_id call) TOOL ik"
  shows "ensures (finish_success env call cid ik d out n) c (cached_as call ik)"
proof -
  have rec: "ensures (act_then (log_append env (tl_run_id call) (completed_payload call cid out' d TR_SUCCESS None) ik)
      (act_return ((ToolExecutionResult0 X_COMPLETED cid (tl_tool_name call) ik)\<lparr>ter_output := out, ter_duration_ms := d,
         ter_retry_attempts := n\<rparr>))) c1 (cached_as call ik)"
    if wf: "store_wf (xc_store c1)" and free: "key_free (xc_store c1) (tl_run_id call) TOOL ik"
      and out: "tl_backend call = None \<longrightarrow> out' = out" for out' c1
    unfolding ensures_then
  proof (rule ensures_log_append[OF wf], goal_cases)
    case 1
    then show ?case using free by simp
  next
    case (2 c2)
    show ?case unfolding sum.case ensures_return cached_as_def
    proof (intro allI impI, goal_cases)
      case (1 x key)
      have "\<exists>e. find_by_idempotency_key (xc_store c2) (tl_run_id call) TOOL key = Some e
          \<and> ev_payload e = completed_payload call cid out' d TR_SUCCESS None"
        using wrote_key_found[of env "tl_run_id call" c1 "completed_payload call cid out' d TR_SUCCESS None" key c2] 1 2(1) free wf by simp
      then show ?case using 1 out by (auto simp: completed_payload_def ToolExecutionResult0_def)
    qed
  qed
  show ?thesis unfolding finish_success_def ensures_bind
  proof (cases "tl_backend call")
    case None
    then have "offload_if_large env call cid out c = (Inr out, c)"
      by (simp add: offload_if_large_def act_bind_def put_blob_def blob_store_def act_return_def)
    then show "ensures (offload_if_large env call cid out) c (\<lambda>r c'. case r of Inl e \<Rightarrow> cached_as call ik (Inl e) c' | Inr x \<Rightarrow>
        ensures (act_then (log_append env (tl_run_id call) (completed_payload call cid x d TR_SUCCESS None) ik) (act_return
          ((ToolExecutionResult0 X_COMPLETED cid (tl_tool_name call) ik)\<lparr>ter_output := out, ter_duration_ms := d, ter_retry_attempts := n\<rparr>)))
        c' (cached_as call ik))" using rec[OF assms] by (simp add: ensures_def[of "offload_if_large env call cid out"])
  next
    case (Some be)
    show "ensures (offload_if_large env call cid out) c (\<lambda>r c'. case r of Inl e \<Rightarrow> cached_as call ik (Inl e) c' | Inr x \<Rightarrow>
        ensures (act_then (log_append env (tl_run_id call) (completed_payload call cid x d TR_SUCCESS None) ik) (act_return
          ((ToolExecutionResult0 X_COMPLETED cid (tl_tool_name call) ik)\<lparr>ter_output := out, ter_duration_ms := d, ter_retry_attempts := n\<rparr>)))
        c' (cached_as call ik))"
    proof (rule ensures_offload[OF assms(1)], goal_cases)
      case (1 c1)
      have "key_free (xc_store c1) (tl_run_id call) TOOL ik"
        using assms(2) 1 by (cases ik) (simp_all add: key_free_def find_by_idempotency_key_def)
      then show ?case using rec[OF 1(2)] by simp
    next
      case (2 b c1)
      have "key_free (xc_store c1) (tl_run_id call) TOOL ik" by (rule wrote_unkeyed_free[OF 2(1) _ assms(2)]) simp
      then show ?case using rec[OF wrote_wf[OF 2(1)]] Some by simp
    qed
  qed
qed

lemma not_completed_cached:
  "ter_status x \<noteq> X_COMPLETED \<or> ter_has_semantic_error x \<Longrightarrow> cached_as call ik (Inr x) c'"
  by (auto simp: cached_as_def)

lemma fail_call_cached: "ensures (fail_call env call cid ik err rt d) c (cached_as call ik)"
  unfolding fail_call_def by (rule ensures_trivial) (simp_all add: not_completed_cached ToolExecutionResult0_def)

lemma finish_call_cached:
  assumes "store_wf (xc_store c)" "key_free (xc_store c) (tl_run_id call) TOOL ik"
  shows "ensures (finish_call env td call cid ik d out n) c (cached_as call ik)"
proof (cases "sem_evaluate out td")
  case (Inl e)
  then show ?thesis by (simp add: finish_call_def ensures_raise)
next
  case (Inr re)
  have "ensures (act_then m (act_return ((ToolExecutionResult0 X_COMPLETED cid (tl_tool_name call) ik)\<lparr>ter_output := out,
      ter_duration_ms := d, ter_retry_attempts := n, ter_has_semantic_error := True, ter_error := err\<rparr>))) c (cached_as call ik)" for m err
    by (rule ensures_trivial) (simp_all add: not_completed_cached ToolExecutionResult0_def)
  then show ?thesis using Inr finish_success_cached[OF assms] fail_call_cached
    by (cases re; cases "fst re") (simp_all add: finish_call_def split: schema_verdict.split, simp add: ensures_raise)
qed

lemma handle_exc_cached: "ensures (handle_exc env td call cid ik d e) c (cached_as call ik)"
proof (cases "ex_kind e")
  case ExTimeout
  show ?thesis unfolding handle_exc_def ExTimeout exc_kind.case
    by (rule ensures_trivial) (simp_all add: not_completed_cached ToolExecutionResult0_def)
next
  case (ExConfirm x)
  then show ?thesis by (simp add: handle_exc_def ensures_return not_completed_cached ToolExecutionResult0_def)
next
  case ExOther
  then show ?thesis by (simp add: handle_exc_def fail_call_cached)
qed

lemma perform_call_cached:
  assumes wf: "store_wf (xc_store c)" and free: "key_free (xc_store c) (tl_run_id call) TOOL ik"
  shows "ensures (perform_call env td call dr cid ik) c (cached_as call ik)"
  unfolding perform_call_def ensures_then
proof (rule ensures_log_append[OF wf], goal_cases)
  case 1
  then show ?case by (simp add: key_free_def)
next
  case (2 c1)
  have wf1: "store_wf (xc_store c1)" by (rule wrote_wf[OF 2(1)])
  have free1: "key_free (xc_store c1) (tl_run_id call) TOOL ik" by (rule wrote_unkeyed_free[OF 2(1) _ free]) simp
  have fin: "ensures (finish_call env td call cid ik d out m) (c1\<lparr>xc_calls := cs\<rparr>) (\<lambda>r c'. case r of
      Inl e \<Rightarrow> ensures (handle_exc env td call cid ik d e) c' (cached_as call ik) | Inr x \<Rightarrow> cached_as call ik (Inr x) c')" for out m d cs
    by (rule ensures_mono[OF finish_call_cached]) (use wf1 free1 in \<open>auto simp: handle_exc_cached split: sum.split\<close>)
  then show ?case
    unfolding sum.case ensures_try ensures_bind invoke_tool_eq Let_def
    by (auto simp: handle_exc_cached split: sum.split)
qed

lemma confirmation_gate_cached:
  assumes "\<And>cid. ensures (k cid) c (cached_as call ik)"
  shows "ensures (confirmation_gate env call dr cid ik k) c (cached_as call ik)"
proof -
  have wait: "ensures (confirmation_wait call cid ik x) c (cached_as call ik)" for x
    by (simp add: confirmation_wait_def ensures_return not_completed_cached ToolExecutionResult0_def)
  have req: "ensures (request_confirmation env call dr cid ik) c (cached_as call ik)"
    unfolding request_confirmation_def Let_def confirmation_wait_def
    by (rule ensures_trivial) (simp_all add: not_completed_cached ToolExecutionResult0_def)
  have raise: "ensures (act_raise e) c (cached_as call ik)" for e by (simp add: ensures_raise)
  show ?thesis
    unfolding ensures_def confirmation_gate_def
    by (auto simp: wait[unfolded ensures_def] fail_call_cached[unfolded ensures_def] req[unfolded ensures_def]
        assms[unfolded ensures_def] raise[unfolded ensures_def] split: option.split payload.split confirmation_payload.split)
qed

lemma execute_eq:
  "execute env td call dr =
     act_bind (run_checks env td call) (\<lambda>results.
       case find (\<lambda>g. \<not> gr_passed g) results of
         Some g \<Rightarrow> block_call env call (opt_or (tl_override_id call) (dr_uuid dr)) (call_key env td call) g
       | None \<Rightarrow>
           idempotency_gate env call (call_key env td call)
             (if effective_requires_confirmation td (tl_input call) \<or> list_ex gr_triggers_confirmation results
              then confirmation_gate env call dr (opt_or (tl_override_id call) (dr_uuid dr)) (call_key env td call)
                     (\<lambda>cid. perform_call env td call dr cid (call_key env td call))
              else perform_call env td call dr (opt_or (tl_override_id call) (dr_uuid dr)) (call_key env td call)))"
  unfolding execute_def Let_def call_key_def ..

lemma ensures_run_checks:
  "ensures (run_checks env td call) c Q \<longleftrightarrow>
     Q (case fst (guard_results env td call c) of Inl e \<Rightarrow> Inl (exc_of_error e) | Inr rs \<Rightarrow> Inr rs)
       (c\<lparr>xc_history := snd (guard_results env td call c)\<rparr>)"
  by (simp add: ensures_def run_checks_eq guard_results_def split: prod.split)

lemma execute_cached:
  assumes wf: "store_wf (xc_store c)" and tenant: "single_tenant env (xc_store c) (tl_run_id call)"
  shows "ensures (execute env td call dr) c (cached_as call (call_key env td call))"
proof -
  let ?ik = "call_key env td call"
  define c1 where "c1 = c\<lparr>xc_history := snd (guard_results env td call c)\<rparr>"
  have wf1: "store_wf (xc_store c1)" and t1: "single_tenant env (xc_store c1) (tl_run_id call)" using wf tenant by (simp_all add: c1_def)
  have block: "ensures (block_call env call cid ?ik g) c1 (cached_as call ?ik)" for cid g
    unfolding block_call_def by (rule ensures_trivial) (simp_all add: not_completed_cached ToolExecutionResult0_def)
  have perf: "ensures (perform_call env td call dr cid ?ik) c1 (cached_as call ?ik)"
    if "Option.bind ?ik (log_find_key env (xc_store c1) (tl_run_id call) TOOL) = None" for cid
    by (rule perform_call_cached[OF wf1 not_found_key_free[OF t1 that]])
  have gate: "ensures (idempotency_gate env call ?ik k) c1 (cached_as call ?ik)"
    if k: "Option.bind ?ik (log_find_key env (xc_store c1) (tl_run_id call) TOOL) = None \<Longrightarrow> ensures k c1 (cached_as call ?ik)" for k
  proof (cases "Option.bind ?ik (log_find_key env (xc_store c1) (tl_run_id call) TOOL)")
    case None
    then show ?thesis using k by (simp add: idempotency_gate_def ensures_def)
  next
    case (Some e)
    have hit: "ensures (act_return (cached_result call ?ik p)) c1 (cached_as call ?ik)" for p
      by (simp add: ensures_return not_completed_cached ToolExecutionResult0_def cached_result_def Let_def)
    have raise: "ensures (act_raise e) c1 (cached_as call ?ik)" for e by (simp add: ensures_raise)
    show ?thesis unfolding ensures_def idempotency_gate_def Some option.case
      by (auto simp: raise[unfolded ensures_def] hit[unfolded ensures_def] split: payload.split tool_payload.split)
  qed
  have both: "ensures (if b then confirmation_gate env call dr cid ?ik (\<lambda>cid. perform_call env td call dr cid ?ik)
      else perform_call env td call dr cid ?ik) c1 (cached_as call ?ik)"
    if "Option.bind ?ik (log_find_key env (xc_store c1) (tl_run_id call) TOOL) = None" for b cid
    using perf[OF that] confirmation_gate_cached[OF perf[OF that]] by simp
  show ?thesis unfolding execute_eq ensures_bind ensures_run_checks c1_def[symmetric]
    using block gate[OF both] by (auto split: sum.split option.split split del: if_split)
qed

lemma find_key_stable:
  assumes "prefix (es_events st) (es_events st')" "find_by_idempotency_key st run_id et key = Some e"
  shows "find_by_idempotency_key st' run_id et key = Some e"
  using assms by (auto simp: find_by_idempotency_key_def prefix_def find_append split: option.splits)

text \<open>C9: At most one effective execution per key. Once a call under an idempotency key has completed without a semantic error, every
  later call of the run with the same key whose guardrails pass, on any extension of the log, is answered from the log: the tool
  is not invoked, nothing is written, and the answer carries the original call id (and, when no blob backend is attached, the
  original output).\<close>

theorem completed_call_is_replayed:
  assumes "store_wf (xc_store c)" "single_tenant env (xc_store c) (tl_run_id call)"
    and "execute env td call dr c = (Inr x, c')" "ter_status x = X_COMPLETED" "\<not> ter_has_semantic_error x"
    and "call_key env td call = Some key"
    and "prefix (es_events (xc_store c')) (es_events (xc_store c2))" "single_tenant env (xc_store c2) (tl_run_id call)"
    and "tl_run_id call2 = tl_run_id call" "call_key env td call2 = Some key"
    and "guard_results env td call2 c2 = (Inr rs, h)" "list_all gr_passed rs"
  shows "\<exists>y. execute env td call2 dr2 c2 = (Inr y, c2\<lparr>xc_history := h\<rparr>) \<and> ter_status y = X_IDEMPOTENCY_HIT
    \<and> ter_tool_call_id y = ter_tool_call_id x \<and> \<not> ter_has_semantic_error y
    \<and> (tl_backend call = None \<longrightarrow> ter_output y = ter_output x)"
proof -
  obtain e q where e: "find_by_idempotency_key (xc_store c') (tl_run_id call) TOOL key = Some e" "ev_payload e = PTool (ToolCompleted q)"
    and q: "tco_tool_call_id q = ter_tool_call_id x" "tco_result_type q = TR_SUCCESS" "tl_backend call = None \<longrightarrow> tco_output q = ter_output x"
    using ensuresD[OF execute_cached[OF assms(1,2)] assms(3)] assms(4-6) by (auto simp: cached_as_def)
  have found: "log_find_key env (xc_store c2) (tl_run_id call2) TOOL key = Some e"
    using find_key_stable[OF assms(7) e(1)] log_find_key_raw[OF assms(8)] assms(9) by simp
  have "run_checks env td call2 c2 = (Inr rs, c2\<lparr>xc_history := h\<rparr>)"
    using assms(11) by (simp add: run_checks_eq guard_results_def)
  moreover have "find (\<lambda>g. \<not> gr_passed g) rs = None" using assms(12) by (simp only: find_None_list_all)
  ultimately have "execute env td call2 dr2 c2 = (Inr (cached_result call2 (Some key) q), c2\<lparr>xc_history := h\<rparr>)"
    using assms(10) found e(2)
    by (simp add: execute_eq act_bind_def idempotency_gate_def act_return_def split del: if_split)
  then show ?thesis using q by (simp add: cached_result_def Let_def ToolExecutionResult0_def)
qed

section \<open>Blobs\<close>

text \<open>An offloaded output can be fetched back: when the digest is 64 hexadecimal digits and the JSON reader inverts the
  serialiser on this output, the reference stored in the event is valid and fetching it returns the output; smaller outputs and
  outputs without a backend leave the blobs as they were.\<close>

theorem blob_round_trip:
  assumes "\<And>s. length (sha s) = 64 \<and> list_all is_hex_char (sha s)" and "loads (serialize_output out) = Some out"
    and "blob_store sha im be out cid tool sid ws bs = (stored, bs')"
  shows "case stored of
      Some b \<Rightarrow> is_valid_blob_ref (obs_ref b) \<and> blob_fetch loads bs' (obs_ref b) = Inr out \<and> int (length (serialize_output out)) = obs_bytes b
        \<and> im < obs_bytes b
    | None \<Rightarrow> bs' = bs"
proof (cases stored)
  case None
  then show ?thesis using assms(3) by (auto simp: blob_store_def Let_def split: option.splits if_splits)
next
  case (Some b)
  let ?s = "serialize_output out"
  have b: "obs_ref b = sha ?s @ ''.json''" "bs' = dset (BLOB_NAMESPACE @ ''/'' @ obs_ref b) ?s bs" "obs_bytes b = int (length ?s)" "im < obs_bytes b"
    using assms(3) Some by (auto simp: blob_store_def Let_def split: option.splits if_splits)
  have valid: "is_valid_blob_ref (obs_ref b)" using assms(1)[of ?s] by (simp add: is_valid_blob_ref_def b(1))
  then have "blob_fetch loads bs' (obs_ref b) = Inr out" using assms(2) by (simp add: blob_fetch_def b(2) dict_simps)
  then show ?thesis using Some b valid by simp
qed

section \<open>Samples\<close>

definition sample_env :: exec_env where
  "sample_env = \<lparr> xe_guard = sample_guard_env, xe_sha256hex = (\<lambda>_. replicate 64 (CHR ''a'')), xe_output_schema = (\<lambda>_ _. SchemaValid),
     xe_clock = of_nat, xe_inline_max = 8000, xe_tenant = None \<rparr>"

definition sample_ctx :: exec_ctx where
  "sample_ctx = \<lparr> xc_store = sample_store, xc_history = [], xc_blobs = [], xc_calls = [] \<rparr>"

definition sample_call :: tool_call where
  "sample_call = \<lparr> tl_run_id = ''r1'', tl_tool_name = ''file_op'', tl_input = sample_delete_input, tl_override_id = None,
     tl_step_id = None, tl_scope = None, tl_backend = None, tl_workspace_id = None \<rparr>"

text \<open>The first invocation fails, the second returns.\<close>

definition sample_draw :: exec_draw where
  "sample_draw = \<lparr> dr_uuid = ''u'', dr_confirm_uuid = ''q'', dr_duration = 5,
     dr_call = (\<lambda>n. if n = 0 then Raised (other_exc ''OSError'' ''busy'') else Returned (JDict [(''ok'', JBool True)])) \<rparr>"

definition sample_requested :: "(py_exc + tool_execution_result) \<times> exec_ctx" where
  "sample_requested = execute sample_env sample_tool sample_call sample_draw sample_ctx"

definition sample_yes :: payload where
  "sample_yes = PConfirmation (ConfirmationReceived \<lparr> crc_confirmation_id = ''q'', crc_confirmed = True, crc_operator_id = ''op'',
     crc_step_id = None \<rparr>)"

definition sample_confirmed :: exec_ctx where
  "sample_confirmed = (snd sample_requested)\<lparr>xc_store := snd (append_event (xc_store (snd sample_requested)) ''r1'' sample_yes default_opts 9)\<rparr>"

definition sample_done :: "(py_exc + tool_execution_result) \<times> exec_ctx" where
  "sample_done = execute sample_env sample_tool sample_call sample_draw sample_confirmed"

lemma sample_tenant: "single_tenant sample_env st run_id"
  by (simp add: single_tenant_def sample_env_def)

lemma sample_retries: "0 \<le> rtp_max_retries (td_retry_policy sample_tool)"
  by (simp add: sample_tool_def)

lemma sample_requested_wf: "store_wf (xc_store (snd sample_requested))"
proof -
  have r: "map_sum (\<lambda>_. ()) ter_status (fst sample_requested) = Inr X_CONFIRMATION_NEEDED" by code_simp
  then obtain x where "fst sample_requested = Inr x" by (cases "fst sample_requested") auto
  then have "execute sample_env sample_tool sample_call sample_draw sample_ctx = (Inr x, snd sample_requested)"
    unfolding sample_requested_def by (simp add: prod_eq_iff)
  from ensuresD[OF execute_traced[OF _ sample_tenant sample_retries] this] sample_store_wf show ?thesis
    by (auto simp: traced_def sample_ctx_def dest: wrote_wf)
qed

lemma sample_confirmed_wf: "store_wf (xc_store sample_confirmed)"
  by (simp add: sample_confirmed_def store_wf_append[OF sample_requested_wf])

lemma sample_done_result:
  obtains x where "execute sample_env sample_tool sample_call sample_draw sample_confirmed = (Inr x, snd sample_done)"
    "ter_status x = X_COMPLETED" "\<not> ter_has_semantic_error x" "ter_tool_call_id x = ''u''"
proof -
  have r: "map_sum (\<lambda>_. ()) (\<lambda>x. (ter_status x, ter_has_semantic_error x, ter_tool_call_id x)) (fst sample_done)
      = Inr (X_COMPLETED, False, ''u'')" by code_simp
  then obtain x where "fst sample_done = Inr x" by (cases "fst sample_done") auto
  with r that[of x] show ?thesis unfolding sample_done_def by (simp add: prod_eq_iff)
qed

lemma sample_invoked: "xc_calls (snd sample_done) = replicate 2 (''r1'', None, ''file_op'', sample_delete_input)" "xc_calls sample_confirmed = []"
  by code_simp+

lemma retries_are_bounded_witness:
  "1 \<le> snd (execute_with_retry (td_retry_policy sample_tool) (\<lambda>_. Inr None) (dr_call sample_draw))
   \<and> int (snd (execute_with_retry (td_retry_policy sample_tool) (\<lambda>_. Inr None) (dr_call sample_draw))) \<le> 2 + 1"
  using retries_are_bounded[OF sample_retries surjective_pairing, of "\<lambda>_. Inr None" "dr_call sample_draw"] by (simp add: sample_tool_def)

lemma backoff_within_jitter_witness:
  "3 * (100 * 2 ^ 2) \<le> 4 * backoff_ms 3 (td_retry_policy sample_tool) (1 / 3)"
  using backoff_within_jitter[of "td_retry_policy sample_tool" "1 / 3" 3] by (simp add: sample_tool_def)

lemma execution_leaves_a_trace_witness:
  "\<exists>ps. wrote sample_env ''r1'' sample_confirmed ps (snd sample_done) \<and> phases ps \<in> {[''called'', ''completed''], [''called'', ''output_stored'', ''completed'']}"
proof -
  obtain x where x: "execute sample_env sample_tool sample_call sample_draw sample_confirmed = (Inr x, snd sample_done)"
    "ter_status x = X_COMPLETED" by (rule sample_done_result)
  have "tl_run_id sample_call = ''r1''" by (simp add: sample_call_def)
  then show ?thesis using execution_leaves_a_trace[OF sample_confirmed_wf sample_tenant sample_retries x(1)] x(2)
    by (auto simp: execution_alts_def finish_alts_def exc_alts_def)
qed

lemma tools_run_only_when_authorised_witness: "authorised sample_env sample_tool sample_call sample_confirmed"
  by (rule sample_done_result, rule tools_run_only_when_authorised, assumption) (simp add: sample_invoked)

lemma registered_deletions_run_only_confirmed_witness:
  "confirmed_by_operator sample_env (xc_store sample_confirmed) ''r1'' (confirm_key (call_key sample_env sample_tool sample_call) ''file_op'')"
proof -
  have "register_tool ToolRegistry0 sample_tool () = Inr (sample_registry, ''file_op'')"
    unfolding sample_registry_def by code_simp
  then have reach: "registry_step\<^sup>*\<^sup>* ToolRegistry0 sample_registry" by (blast intro: registry_step.step_register)
  have get: "get_tool_def sample_registry (tl_tool_name sample_call) = Some sample_tool"
    and cust: "ge_custom (xe_guard sample_env) ''destructive'' = None"
    and op: "resolve_operation_contract sample_tool (tl_input sample_call) = Some sample_delete_op" "DELETE \<in> set (oc_side_effects sample_delete_op)"
    unfolding sample_registry_def by code_simp+
  obtain x where x: "execute sample_env sample_tool sample_call sample_draw sample_confirmed = (Inr x, snd sample_done)" by (rule sample_done_result)
  have "tl_run_id sample_call = ''r1''" "tl_tool_name sample_call = ''file_op''" by (simp_all add: sample_call_def)
  then show ?thesis using registered_deletions_run_only_confirmed[OF reach get cust op x] by (simp add: sample_invoked)
qed

lemma completed_call_is_replayed_witness:
  "\<exists>y. fst (execute sample_env sample_tool sample_call sample_draw (snd sample_done)) = Inr y \<and> ter_status y = X_IDEMPOTENCY_HIT"
proof -
  obtain x where x: "execute sample_env sample_tool sample_call sample_draw sample_confirmed = (Inr x, snd sample_done)"
    "ter_status x = X_COMPLETED" "\<not> ter_has_semantic_error x" by (rule sample_done_result)
  have key: "call_key sample_env sample_tool sample_call = Some (replicate 64 (CHR ''a''))" by code_simp
  have "map_sum (\<lambda>_. ()) (list_all gr_passed) (fst (guard_results sample_env sample_tool sample_call (snd sample_done))) = Inr True" by code_simp
  then obtain rs where rs: "guard_results sample_env sample_tool sample_call (snd sample_done) =
      (Inr rs, snd (guard_results sample_env sample_tool sample_call (snd sample_done)))" "list_all gr_passed rs"
    by (cases "guard_results sample_env sample_tool sample_call (snd sample_done)";
        cases "fst (guard_results sample_env sample_tool sample_call (snd sample_done))") auto
  show ?thesis
    using completed_call_is_replayed[OF sample_confirmed_wf sample_tenant x key prefix_order.order_refl sample_tenant refl key rs, of sample_draw] by auto
qed

lemma blob_round_trip_witness:
  "is_valid_blob_ref (replicate 64 (CHR ''a'') @ ''.json'')
   \<and> blob_fetch (\<lambda>_. Some (JStr ''long'')) (snd (blob_store (\<lambda>_. replicate 64 (CHR ''a'')) 3 (Some \<lparr> be_resolve = Map.empty, be_write_fails = (\<lambda>_ _. False) \<rparr>)
        (JStr ''long'') [] [] None None [])) (replicate 64 (CHR ''a'') @ ''.json'') = Inr (JStr ''long'')"
proof -
  let ?st = "blob_store (\<lambda>_. replicate 64 (CHR ''a'')) 3 (Some \<lparr> be_resolve = Map.empty, be_write_fails = (\<lambda>_ _. False) \<rparr>)
      (JStr ''long'') [] [] None None []"
  have hex: "is_hex_char (CHR ''a'')" by code_simp
  then have sha: "length (replicate 64 (CHR ''a'')) = 64 \<and> list_all is_hex_char (replicate 64 (CHR ''a''))" by (simp add: list_all_iff)
  have r: "map_option obs_ref (fst ?st) = Some (replicate 64 (CHR ''a'') @ ''.json'')" by code_simp
  then obtain b where b: "?st = (Some b, snd ?st)" "obs_ref b = replicate 64 (CHR ''a'') @ ''.json''" by (cases ?st) auto
  show ?thesis using blob_round_trip[of "\<lambda>_. replicate 64 (CHR ''a'')" "\<lambda>_. Some (JStr ''long'')" "JStr ''long''", OF sha refl b(1)] b(2) by simp
qed

section \<open>Confirmations without a key\<close>

definition unkeyed_tool :: tool_definition where
  "unkeyed_tool = sample_tool\<lparr>td_idempotency_key_fields := None\<rparr>"

definition other_input :: "json dict" where
  "other_input = [(''operation'', JStr ''delete''), (''path'', JStr ''b.txt'')]"

text \<open>The state after a deletion of \<^verbatim>\<open>a.txt\<close> was requested and confirmed.\<close>

definition unkeyed_confirmed :: exec_ctx where
  "unkeyed_confirmed =
     (let c = snd (execute sample_env unkeyed_tool sample_call sample_draw sample_ctx)
      in c\<lparr>xc_store := snd (append_event (xc_store c) ''r1'' sample_yes default_opts 9)\<rparr>)"

text \<open>Without an idempotency key the confirmation is per tool, not per call: after an operator confirmed the deletion of one file, the
  same run deletes another file with the same tool without asking again.\<close>

theorem unkeyed_confirmation_covers_other_inputs:
  "xc_calls unkeyed_confirmed = [] \<and> tl_input sample_call \<noteq> other_input
   \<and> xc_calls (snd (execute sample_env unkeyed_tool (sample_call\<lparr>tl_input := other_input\<rparr>) sample_draw unkeyed_confirmed))
     = replicate 2 (''r1'', None, ''file_op'', other_input)"
  by (intro conjI) code_simp+

end
