(* ===== verification/Dag_Executor.thy ===== *)
theory Dag_Executor
  imports Executor_Properties Dag_Vars Plan_Check
begin

text \<open>
  The DAG executor (\<^verbatim>\<open>core/dag_executor.py\<close>): the gate on upstream results, one step from variable
  resolution through the tool executor to a step result, a layer in its phases, and the status
  text shown to the planner. Tracing, logging and cancellation are left out; the interleaving of
  the steps of a layer is the order \<open>de_order\<close>, one whole step after another.
\<close>

section \<open>Plans as event payloads\<close>

definition plan_steps_to_payload :: "dag_plan \<Rightarrow> json dict list" where
  "plan_steps_to_payload plan =
     map (\<lambda>s. [(''step_id'', JStr (ds_id s)), (''tool_name'', JStr (ds_tool s)), (''input'', JDict (ds_input s)),
                (''depends_on'', JList (map JStr (ds_depends_on s))), (''description'', JStr (ds_description s)),
                (''probe'', JBool (ds_probe s))]) (dp_steps plan)"

section \<open>One step\<close>

text \<open>
  The collaborators of a \<open>DagExecutor\<close>. A tool function maps the input and the number of the
  invocation to an outcome; \<open>de_order\<close> is the order in which the steps of a layer get to run.
\<close>

type_synonym tool_fn = "json dict \<Rightarrow> nat \<Rightarrow> call_outcome"

record dag_env =
  de_exec :: exec_env
  de_registry :: "tool_fn registry"
  de_workspace :: "workspace option"
  de_backend :: "backend option"
  de_loads :: "string \<Rightarrow> json option"
  de_draw :: "string \<Rightarrow> exec_draw"
  de_order :: "string list \<Rightarrow> string list"

definition not_normal_reason :: "string \<Rightarrow> step_result \<Rightarrow> string" where
  "not_normal_reason dep r = ''dep '' @ quoted dep @ '' not normal (exec_state='' @ exec_state_value (sr_exec_state r) @ '')''"

fun gate_deps :: "step_result dict \<Rightarrow> string list \<Rightarrow> string option" where
  "gate_deps results [] = None"
| "gate_deps results (dep # deps) =
     (case dget results dep of
        Some r \<Rightarrow> if \<not> step_normal r then Some (not_normal_reason dep r) else gate_deps results deps
      | None \<Rightarrow> gate_deps results deps)"

definition gate_skip_reason :: "dag_step \<Rightarrow> step_result dict \<Rightarrow> string option" where
  "gate_skip_reason step results = gate_deps results (ds_depends_on step)"

definition normal_outputs :: "step_result dict \<Rightarrow> json dict" where
  "normal_outputs results = fold (\<lambda>(sid, r) up. if step_normal r then dset sid (sr_output r) up else up) results []"

definition legacy_key :: "string \<Rightarrow> string" where
  "legacy_key dep = dep @ ''_result''"

definition add_legacy_key :: "string \<Rightarrow> json dict \<Rightarrow> json dict" where
  "add_legacy_key dep up =
     (case (dget up (legacy_key dep), dget up dep) of (None, Some v) \<Rightarrow> dset (legacy_key dep) v up | _ \<Rightarrow> up)"

definition step_upstream :: "dag_step \<Rightarrow> step_result dict \<Rightarrow> json dict" where
  "step_upstream step results = fold add_legacy_key (ds_depends_on step) (normal_outputs results)"

definition failed_result :: "string \<Rightarrow> string \<Rightarrow> step_result" where
  "failed_result sid err = (StepResult0 sid)\<lparr>sr_exec_state := FAILED, sr_error := Some err\<rparr>"

definition skipped_result :: "dag_step \<Rightarrow> string \<Rightarrow> string \<Rightarrow> step_result" where
  "skipped_result step sid why = (StepResult0 sid)\<lparr>sr_exec_state := SKIPPED, sr_error := Some why, sr_probe := ds_probe step\<rparr>"

text \<open>The dispatch on the status of the tool execution.\<close>

definition dispatch_result :: "dag_step \<Rightarrow> string \<Rightarrow> tool_execution_result \<Rightarrow> step_result" where
  "dispatch_result step sid res =
     (let base = (StepResult0 sid)\<lparr>sr_output := ter_output res, sr_summary := truncate_output (ter_output res) OUTPUT_SUMMARY_MAX_CHARS,
                   sr_probe := ds_probe step, sr_tool_call_id := Some (ter_tool_call_id res)\<rparr>;
          unsuccessful = base\<lparr>sr_exec_state := UNSUCCESSFUL, sr_error := ter_error res\<rparr>
      in case ter_status res of
           X_COMPLETED \<Rightarrow> if ter_has_semantic_error res then unsuccessful else base\<lparr>sr_exec_state := COMPLETED\<rparr>
         | X_IDEMPOTENCY_HIT \<Rightarrow> if ter_has_semantic_error res then unsuccessful else base\<lparr>sr_exec_state := IDEMPOTENT\<rparr>
         | X_CONFIRMATION_NEEDED \<Rightarrow>
             (StepResult0 sid)\<lparr>sr_exec_state := PENDING, sr_confirmation_id := ter_confirmation_id res, sr_probe := ds_probe step\<rparr>
         | _ \<Rightarrow>
             (failed_result sid (opt_or (ter_error res) (''Step failed with status '' @ execution_status_value (ter_status res))))
               \<lparr>sr_retryable := ter_retryable res, sr_tool_call_id := Some (ter_tool_call_id res)\<rparr>)"

definition step_call :: "dag_env \<Rightarrow> string \<Rightarrow> dag_step \<Rightarrow> string \<Rightarrow> json dict \<Rightarrow> tool_call" where
  "step_call env run_id step sid inp =
     \<lparr> tl_run_id = run_id, tl_tool_name = ds_tool step, tl_input = inp, tl_override_id = None, tl_step_id = Some sid,
       tl_scope = map_option ws_scope (de_workspace env), tl_backend = de_backend env,
       tl_workspace_id = map_option ws_workspace_id (de_workspace env) \<rparr>"

definition run_tool_step :: "dag_env \<Rightarrow> string \<Rightarrow> dag_step \<Rightarrow> string \<Rightarrow> json dict \<Rightarrow> step_result action" where
  "run_tool_step env run_id step sid inp =
     (case (tool_def_or_error (de_registry env) (ds_tool step), get_tool_fn (de_registry env) (ds_tool step)) of
        ((Some td, _), Some fn) \<Rightarrow>
          act_bind (execute (de_exec env) td (step_call env run_id step sid inp) ((de_draw env sid)\<lparr>dr_call := fn inp\<rparr>))
            (\<lambda>res. act_return (dispatch_result step sid res))
      | ((_, err), _) \<Rightarrow>
          act_return (failed_result sid (''step execution: '' @ opt_or err (unknown_tool_message (ds_tool step)))))"

definition execute_step :: "dag_env \<Rightarrow> string \<Rightarrow> dag_plan \<Rightarrow> step_result dict \<Rightarrow> string \<Rightarrow> step_result action" where
  "execute_step env run_id plan results sid =
     (case find (\<lambda>s. ds_id s = sid) (dp_steps plan) of
        None \<Rightarrow> act_return (failed_result sid (''Step '' @ quoted sid @ '' not found in plan''))
      | Some step \<Rightarrow>
          (case gate_skip_reason step results of
             Some why \<Rightarrow> act_return (skipped_result step sid why)
           | None \<Rightarrow>
               (case resolve_variables_in_input (de_loads env) (ds_input step) (step_upstream step results) of
                  Inl e \<Rightarrow> act_return (failed_result sid (var_error_str e))
                | Inr inp \<Rightarrow> run_tool_step env run_id step sid inp)))"

definition retry_step :: "dag_env \<Rightarrow> string \<Rightarrow> dag_plan \<Rightarrow> string \<Rightarrow> step_result dict \<Rightarrow> step_result action" where
  "retry_step env run_id plan sid results = execute_step env run_id plan results sid"

section \<open>One layer\<close>

text \<open>How a layer ends: all done (\<open>LayerDone True\<close>), some step failed, suspended for confirmations, or an exception of the store.\<close>

datatype layer_outcome = LayerDone bool | LayerSuspended "(string \<times> string) list" | LayerRaised py_exc

text \<open>The dictionary of results is shared with the caller and keeps its entries also when the layer raises.\<close>

type_synonym 'a layer_action = "step_result dict \<Rightarrow> exec_ctx \<Rightarrow> (py_exc + 'a) \<times> step_result dict \<times> exec_ctx"

definition write_step :: "dag_env \<Rightarrow> string \<Rightarrow> step_payload \<Rightarrow> unit action" where
  "write_step env run_id p = log_append (de_exec env) run_id (PStep p) None"

text \<open>Phase 1: the gate. Returns the steps to skip.\<close>

fun skip_phase :: "dag_env \<Rightarrow> string \<Rightarrow> string \<Rightarrow> dag_step dict \<Rightarrow> string list \<Rightarrow> string list layer_action" where
  "skip_phase env run_id plan_id steps [] results c = (Inr [], results, c)"
| "skip_phase env run_id plan_id steps (sid # sids) results c =
     (case dget steps sid of
        None \<Rightarrow> skip_phase env run_id plan_id steps sids results c
      | Some step \<Rightarrow>
          (case gate_skip_reason step results of
             None \<Rightarrow> skip_phase env run_id plan_id steps sids results c
           | Some why \<Rightarrow>
               (case write_step env run_id (DagStepSkipped \<lparr> dsk_plan_id = plan_id, dsk_step_id = sid, dsk_reason = why,
                       dsk_tool_name = ds_tool step \<rparr>) c of
                  (Inl e, c1) \<Rightarrow> (Inl e, results, c1)
                | (Inr _, c1) \<Rightarrow>
                    (case skip_phase env run_id plan_id steps sids (dset sid (skipped_result step sid why) results) c1 of
                       (Inl e, results2, c2) \<Rightarrow> (Inl e, results2, c2)
                     | (Inr skipped, results2, c2) \<Rightarrow> (Inr (sid # skipped), results2, c2)))))"

text \<open>Phase 1.5: the started events, in the order of the layer.\<close>

fun start_phase :: "dag_env \<Rightarrow> string \<Rightarrow> string \<Rightarrow> dag_step dict \<Rightarrow> string list \<Rightarrow> unit action" where
  "start_phase env run_id plan_id steps [] = act_return ()"
| "start_phase env run_id plan_id steps (sid # sids) =
     (case dget steps sid of
        None \<Rightarrow> start_phase env run_id plan_id steps sids
      | Some step \<Rightarrow>
          act_then (write_step env run_id (DagStepStarted \<lparr> dss_plan_id = plan_id, dss_step_id = sid,
                      dss_tool_name = ds_tool step, dss_depends_on = ds_depends_on step \<rparr>))
            (start_phase env run_id plan_id steps sids))"

text \<open>Phase 2: \<^verbatim>\<open>gather(..., return_exceptions=True)\<close>: a step that raises yields its exception.\<close>

fun gather_phase :: "dag_env \<Rightarrow> string \<Rightarrow> dag_plan \<Rightarrow> step_result dict \<Rightarrow> string list \<Rightarrow> exec_ctx
      \<Rightarrow> (py_exc + step_result) dict \<times> exec_ctx" where
  "gather_phase env run_id plan results [] c = ([], c)"
| "gather_phase env run_id plan results (sid # sids) c =
     (let (raw, c1) = execute_step env run_id plan results sid c; (raws, c2) = gather_phase env run_id plan results sids c1
      in ((sid, raw) # raws, c2))"

text \<open>Phase 3, one step: the event to write (none for a pending confirmation), the stored result, and its effect on the two accumulators.\<close>

definition step_tool :: "dag_step dict \<Rightarrow> string \<Rightarrow> string" where
  "step_tool steps sid = (case dget steps sid of Some s \<Rightarrow> ds_tool s | None \<Rightarrow> ds_tool DagStep0)"

definition completed_event :: "string \<Rightarrow> string \<Rightarrow> step_result \<Rightarrow> string \<Rightarrow> string option \<Rightarrow> step_payload" where
  "completed_event plan_id sid r status err =
     DagStepCompleted \<lparr> dsc_plan_id = plan_id, dsc_step_id = sid, dsc_output_summary = sr_summary r, dsc_status = status,
       dsc_error = err, dsc_tool_call_id = sr_tool_call_id r \<rparr>"

definition layer_error :: "nat \<Rightarrow> py_exc \<Rightarrow> string" where
  "layer_error idx e = ''DagExecutor layer '' @ show_nat idx @ '': '' @ ex_msg e"

definition stored_result :: "nat \<Rightarrow> string \<Rightarrow> py_exc + step_result \<Rightarrow> step_result" where
  "stored_result idx sid raw = (case raw of Inl e \<Rightarrow> failed_result sid (layer_error idx e) | Inr r \<Rightarrow> r)"

definition finish_event :: "string \<Rightarrow> nat \<Rightarrow> dag_step dict \<Rightarrow> string \<Rightarrow> py_exc + step_result \<Rightarrow> step_payload option" where
  "finish_event plan_id idx steps sid raw =
     (case raw of
        Inl e \<Rightarrow> Some (DagStepFailed \<lparr> dsf_plan_id = plan_id, dsf_step_id = sid, dsf_error = layer_error idx e, dsf_retryable = False,
                  dsf_tool_name = step_tool steps sid, dsf_tool_call_id = None \<rparr>)
      | Inr r \<Rightarrow>
          if is_completed r then Some (completed_event plan_id sid r ''completed'' None)
          else if sr_exec_state r = IDEMPOTENT then Some (completed_event plan_id sid r ''idempotent'' None)
          else if is_unsuccessful r then Some (completed_event plan_id sid r ''unsuccessful'' (sr_error r))
          else if sr_confirmation_id r \<noteq> None then None
          else if sr_exec_state r = SKIPPED
          then Some (DagStepSkipped \<lparr> dsk_plan_id = plan_id, dsk_step_id = sid, dsk_reason = opt_or (sr_error r) ''dep_not_normal'',
                  dsk_tool_name = step_tool steps sid \<rparr>)
          else Some (DagStepFailed \<lparr> dsf_plan_id = plan_id, dsf_step_id = sid, dsf_error = opt_or (sr_error r) ''unknown'',
                  dsf_retryable = sr_retryable r, dsf_tool_name = step_tool steps sid, dsf_tool_call_id = sr_tool_call_id r \<rparr>))"

definition pending_of :: "string \<Rightarrow> py_exc + step_result \<Rightarrow> (string \<times> string) list" where
  "pending_of sid raw =
     (case raw of
        Inl _ \<Rightarrow> []
      | Inr r \<Rightarrow>
          if is_completed r \<or> sr_exec_state r = IDEMPOTENT \<or> is_unsuccessful r then []
          else case sr_confirmation_id r of Some cid \<Rightarrow> [(sid, cid)] | None \<Rightarrow> [])"

definition counts_as_failed :: "py_exc + step_result \<Rightarrow> bool" where
  "counts_as_failed raw =
     (case raw of
        Inl _ \<Rightarrow> True
      | Inr r \<Rightarrow> \<not> (is_completed r \<or> sr_exec_state r = IDEMPOTENT \<or> is_unsuccessful r)
                \<and> sr_confirmation_id r = None \<and> sr_exec_state r \<noteq> SKIPPED)"

text \<open>
  Phase 3, the loop. A completed or unsuccessful result is stored before its event is written, an
  exception's after it; the two orders differ only when the write raises.
\<close>

fun finish_phase :: "dag_env \<Rightarrow> string \<Rightarrow> string \<Rightarrow> nat \<Rightarrow> dag_step dict \<Rightarrow> (string \<times> (py_exc + step_result)) list
      \<Rightarrow> ((string \<times> string) list \<times> bool) layer_action" where
  "finish_phase env run_id plan_id idx steps [] results c = (Inr ([], False), results, c)"
| "finish_phase env run_id plan_id idx steps ((sid, raw) # raws) results c =
     (let results1 = dset sid (stored_result idx sid raw) results;
          on_error = (case raw of Inl _ \<Rightarrow> results | Inr _ \<Rightarrow> results1);
          (w, c1) = (case finish_event plan_id idx steps sid raw of
                       None \<Rightarrow> act_return () c
                     | Some p \<Rightarrow> write_step env run_id p c)
      in case w of
           Inl e \<Rightarrow> (Inl e, on_error, c1)
         | Inr _ \<Rightarrow>
             (case finish_phase env run_id plan_id idx steps raws results1 c1 of
                (Inl e, results2, c2) \<Rightarrow> (Inl e, results2, c2)
              | (Inr (pending, failed), results2, c2) \<Rightarrow>
                  (Inr (pending_of sid raw @ pending, counts_as_failed raw \<or> failed), results2, c2)))"

definition missing_outcome :: "string \<Rightarrow> py_exc" where
  "missing_outcome sid = other_exc ''KeyError'' sid"

definition execute_layer ::
    "dag_env \<Rightarrow> string \<Rightarrow> dag_plan \<Rightarrow> string \<Rightarrow> string list \<Rightarrow> nat \<Rightarrow> step_result dict \<Rightarrow> exec_ctx
      \<Rightarrow> layer_outcome \<times> step_result dict \<times> exec_ctx" where
  "execute_layer env run_id plan plan_id layer idx results c =
     (let steps = step_map (dp_steps plan)
      in case skip_phase env run_id plan_id steps layer results c of
           (Inl e, results1, c1) \<Rightarrow> (LayerRaised e, results1, c1)
         | (Inr skipped, results1, c1) \<Rightarrow>
             (let exec_sids = filter (\<lambda>sid. sid \<notin> set skipped) layer
              in case start_phase env run_id plan_id steps exec_sids c1 of
                   (Inl e, c2) \<Rightarrow> (LayerRaised e, results1, c2)
                 | (Inr _, c2) \<Rightarrow>
                     (let (outcomes, c3) = gather_phase env run_id plan results1 (de_order env exec_sids) c2;
                          raws = map (\<lambda>sid. (sid, dget_or (Inl (missing_outcome sid)) outcomes sid)) exec_sids
                      in case finish_phase env run_id plan_id idx steps raws results1 c3 of
                           (Inl e, results2, c4) \<Rightarrow> (LayerRaised e, results2, c4)
                         | (Inr (pending, failed), results2, c4) \<Rightarrow>
                             (if pending \<noteq> [] then LayerSuspended pending else LayerDone (\<not> failed), results2, c4))))"

section \<open>Status text\<close>

text \<open>The marker line and the arrow are written as their UTF-8 bytes.\<close>

definition status_marker :: string where
  "status_marker = [CHR 0xE3, CHR 0x80, CHR 0x90, CHR 0xE7, CHR 0xB3, CHR 0xBB, CHR 0xE7, CHR 0xBB, CHR 0x9F, CHR 0xE7, CHR 0x8A, CHR 0xB6, CHR 0xE6, CHR 0x80, CHR 0x81, CHR 0x20, CHR 0x2D, CHR 0x20, CHR 0xE4, CHR 0xB8, CHR 0x8D, CHR 0xE5, CHR 0x8F, CHR 0xAF, CHR 0xE6, CHR 0x8A, CHR 0x98, CHR 0xE5, CHR 0x8F, CHR 0xA0, CHR 0xE3, CHR 0x80, CHR 0x91]"

definition arrow :: string where
  "arrow = [CHR 0xE2, CHR 0x86, CHR 0x92]"

definition summary_detail :: "step_result \<Rightarrow> string \<Rightarrow> string" where
  "summary_detail r dflt =
     (if sr_summary r \<noteq> [] then ''Summary: '' @ take 80 (sr_summary r) else dflt)
     @ (case sr_output r of
          JDict d \<Rightarrow> if d \<noteq> [] then '' '' @ arrow @ '' outputs: '' @ py_repr (JList (map JStr (keys d))) else []
        | _ \<Rightarrow> [])"

definition rerun_tag :: "step_result \<Rightarrow> string" where
  "rerun_tag r = (if should_not_rerun r then ''replan=NO'' else ''replan=MAYBE'')"

definition exec_tag :: "step_result \<Rightarrow> string" where
  "exec_tag r = ''exec='' @ exec_state_value (sr_exec_state r)"

text \<open>Status tag, detail, execution tag and rerun tag of a step with a result.\<close>

definition step_tags :: "step_result \<Rightarrow> string \<Rightarrow> string \<times> string \<times> string \<times> string" where
  "step_tags r input_str =
     (if is_completed r then (''[done]'', summary_detail r ''OK'', exec_tag r, rerun_tag r)
      else if is_unsuccessful r
      then (if step_normal r then ''[probe-normal]'' else ''[unsuccessful]'',
            (if sr_summary r \<noteq> [] then ''Summary: '' @ take 80 (sr_summary r) @ '' | Error: '' @ opt_or (sr_error r) ''?''
             else ''Error: '' @ opt_or (sr_error r) ''?''),
            exec_tag r, rerun_tag r)
      else if sr_exec_state r = SKIPPED
      then (''[skipped]'', ''Reason: '' @ opt_or (sr_error r) ''dep_not_normal'', ''exec=skipped'', [])
      else if needs_confirmation r
      then (''[confirming]'', ''Input: '' @ input_str @ '' | Awaiting confirmation'', ''exec=pending'', [])
      else if sr_exec_state r = IDEMPOTENT
      then (''[cached]'', summary_detail r ''OK (from cache)'', exec_tag r, rerun_tag r)
      else (''[failed]'', ''Input: '' @ input_str @ '' | Error: '' @ opt_or (sr_error r) ''unknown'', exec_tag r, rerun_tag r))"

definition tagged :: "string \<Rightarrow> string" where
  "tagged t = (if t \<noteq> [] then '' | '' @ t else [])"

definition step_lines :: "step_result dict \<Rightarrow> dag_step \<Rightarrow> string list" where
  "step_lines results step =
     (let input_str = take 200 (json_dumps False (JDict (ds_input step)));
          task_desc = take 80 (strip (ds_description step));
          (status, detail, etag, rtag, ttag) =
            (case dget results (ds_id step) of
               None \<Rightarrow> (''[pending]'', ''Input: '' @ input_str, ''exec=pending'', [], [])
             | Some r \<Rightarrow> (case step_tags r input_str of (s, d, e, rr) \<Rightarrow> (s, d, e, rr, ''task='' @ task_state_value (sr_task_state r))));
          deps = (if ds_depends_on step \<noteq> [] then '' | Depends: '' @ join '','' (ds_depends_on step) else [])
      in [''  - '' @ ds_id step @ ''('' @ ds_tool step @ ''): '' @ status @ deps @ tagged etag @ tagged rtag @ tagged ttag]
         @ (if task_desc \<noteq> [] then [''    Task: '' @ task_desc] else [])
         @ [''    '' @ detail])"

definition build_dag_status_text :: "dag_plan \<Rightarrow> step_result dict \<Rightarrow> int \<Rightarrow> string" where
  "build_dag_status_text plan results current_layer =
     (let layers = (case topological_sort plan {} {} of Inr ls \<Rightarrow> ls | Inl _ \<Rightarrow> []);
          n = show_nat (length layers)
      in join [CHR 0x0A]
           ([status_marker, ''Plan: '' @ take 60 (dp_intent plan),
             ''Total layers: '' @ n @ '' | Current layer: '' @ show_int (current_layer + 1) @ ''/'' @ n,
             ''Total steps: '' @ show_nat (length (dp_steps plan)) @ '' | Executed: ''
               @ show_nat (length (filter (\<lambda>kv. should_not_rerun (snd kv)) results)), []]
            @ concat (map (step_lines results) (dp_steps plan))))"

end
