(* ===== verification/Dag_Properties.thy ===== *)
theory Dag_Properties
  imports Dag_Executor
begin

text \<open>
  What a layer guarantees: its effect on the event log, that no step with a dependency whose
  result is not normal reaches a tool, that its outcome is determined by the results it stores, and that the
  results can be rebuilt from the events it wrote.
\<close>

section \<open>Effects on the log\<close>

definition log_ok :: "exec_env \<Rightarrow> string \<Rightarrow> exec_ctx \<Rightarrow> bool" where
  "log_ok env run_id c \<longleftrightarrow> store_wf (xc_store c) \<and> single_tenant env (xc_store c) run_id"

lemma wrote_log_ok:
  assumes "log_ok env run_id c" "wrote env run_id c ps c'"
  shows "log_ok env run_id c'"
proof -
  obtain rows where rows: "es_events (xc_store c') = es_events (xc_store c) @ rows"
    and facts: "map row_facts rows = map (\<lambda>(p, k). (run_id, ao_tenant_id (log_opts env k), RowPayload p, k)) ps"
    using assms(2) by (auto simp: wrote_def)
  have "er_tenant_id r = ao_tenant_id (log_opts env k)" if "r \<in> set rows" for r k
  proof -
    have "row_facts r \<in> set (map row_facts rows)" using that by simp
    then show ?thesis unfolding facts by (auto simp: row_facts_def log_opts_def)
  qed
  then have "\<forall>r\<in>set rows. \<forall>t. xe_tenant env = Some t \<longrightarrow> er_tenant_id r = t" by (simp add: log_opts_def)
  then have "single_tenant env (xc_store c') run_id"
    using assms(1) unfolding log_ok_def single_tenant_def run_rows_def rows
    by (cases "xe_tenant env") (auto simp: list_all_iff rows)
  then show ?thesis using wrote_wf[OF assms(2)] by (simp add: log_ok_def)
qed

text \<open>
  The frame of a computation on the executor's state: whatever relation is reflexive and transitive is kept by a loop
  when each of its steps keeps it.
\<close>

locale ctx_frame =
  fixes R :: "exec_ctx \<Rightarrow> exec_ctx \<Rightarrow> bool"
  assumes R_refl: "R c c" and R_trans: "R a b \<Longrightarrow> R b c \<Longrightarrow> R a c"
begin

lemma gather_phase_frame:
  assumes "\<And>sid c r c'. sid \<in> set sids \<Longrightarrow> execute_step env run_id plan results sid c = (r, c') \<Longrightarrow> R c c'"
  shows "gather_phase env run_id plan results sids c = (rs, c') \<Longrightarrow> R c c'"
  using assms
proof (induction sids arbitrary: c rs c')
  case Nil
  then show ?case by (simp add: R_refl)
next
  case (Cons sid sids)
  obtain r c1 where r: "execute_step env run_id plan results sid c = (r, c1)" by fastforce
  obtain rs2 c2 where rs2: "gather_phase env run_id plan results sids c1 = (rs2, c2)" by fastforce
  have "R c1 c2" by (rule Cons.IH[OF rs2]) (use Cons.prems(2) in auto)
  moreover have "R c c1" using Cons.prems(2)[OF _ r] by simp
  ultimately show ?case using Cons.prems(1) r rs2 by (auto intro: R_trans)
qed

end

text \<open>Every new invocation is made for a step of \<open>P\<close>.\<close>

definition calls_for :: "(string \<Rightarrow> bool) \<Rightarrow> exec_ctx \<Rightarrow> exec_ctx \<Rightarrow> bool" where
  "calls_for P c c' \<longleftrightarrow> (\<exists>new. xc_calls c' = xc_calls c @ new \<and> (\<forall>x\<in>set new. \<exists>sid. fst (snd x) = Some sid \<and> P sid))"

lemma calls_for_trans: "calls_for P a b \<Longrightarrow> calls_for P b c \<Longrightarrow> calls_for P a c"
  unfolding calls_for_def
  by (elim exE conjE, rename_tac m n, rule_tac x = "m @ n" in exI) auto

definition progress :: "exec_env \<Rightarrow> string \<Rightarrow> (string \<Rightarrow> bool) \<Rightarrow> exec_ctx \<Rightarrow> exec_ctx \<Rightarrow> bool" where
  "progress env run_id P c c' \<longleftrightarrow> (log_ok env run_id c \<longrightarrow> (\<exists>ps. wrote env run_id c ps c') \<and> calls_for P c c')"

interpretation layer_frame: ctx_frame "progress env run_id P" for env run_id P
proof
  show "progress env run_id P c c" for c
    by (auto simp: progress_def calls_for_def log_ok_def intro!: exI[of _ "[]"] wrote_Nil)
  show "progress env run_id P a c" if ab: "progress env run_id P a b" and bc: "progress env run_id P b c" for a b c
    unfolding progress_def
  proof
    assume ok: "log_ok env run_id a"
    then obtain ps where ps: "wrote env run_id a ps b" and "calls_for P a b" using ab by (auto simp: progress_def)
    moreover obtain qs where "wrote env run_id b qs c" "calls_for P b c"
      using bc wrote_log_ok[OF ok ps] by (auto simp: progress_def)
    ultimately show "(\<exists>ps. wrote env run_id a ps c) \<and> calls_for P a c" using wrote_trans calls_for_trans by blast
  qed
qed

section \<open>One step\<close>

definition retries_ok :: "dag_env \<Rightarrow> bool" where
  "retries_ok env \<longleftrightarrow> (\<forall>td\<in>snd ` set (rg_tools (de_registry env)). 0 \<le> rtp_max_retries (td_retry_policy td))"

definition ungated :: "dag_plan \<Rightarrow> step_result dict \<Rightarrow> string \<Rightarrow> bool" where
  "ungated plan results sid \<longleftrightarrow>
     (\<exists>step. find (\<lambda>s. ds_id s = sid) (dp_steps plan) = Some step \<and> gate_skip_reason step results = None)"

lemma dispatch_result_id [simp]: "sr_step_id (dispatch_result step sid res) = sid"
  by (simp add: dispatch_result_def failed_result_def StepResult0_def Let_def split: execution_status.split)

lemma step_result_ids [simp]:
  "sr_step_id (failed_result sid err) = sid" "sr_step_id (skipped_result step sid why) = sid"
  "sr_exec_state (failed_result sid err) = FAILED" "sr_exec_state (skipped_result step sid why) = SKIPPED"
  by (simp_all add: failed_result_def skipped_result_def StepResult0_def)

lemma run_tool_step_cases:
  assumes "run_tool_step env run_id step sid inp c = (r, c')"
  shows "(\<exists>err. r = Inr (failed_result sid err) \<and> c' = c)
    \<or> (\<exists>td dr x. td \<in> snd ` set (rg_tools (de_registry env))
         \<and> execute (de_exec env) td (step_call env run_id step sid inp) dr c = (x, c')
         \<and> r = (case x of Inl e \<Rightarrow> Inl e | Inr res \<Rightarrow> Inr (dispatch_result step sid res)))"
proof (cases "get_tool_def (de_registry env) (ds_tool step)")
  case None
  then show ?thesis using assms by (auto simp: run_tool_step_def tool_def_or_error_def act_return_def)
next
  case (Some td)
  have td: "td \<in> snd ` set (rg_tools (de_registry env))" using Some by (force simp: get_tool_def_def dest: map_of_SomeD)
  show ?thesis
  proof (cases "get_tool_fn (de_registry env) (ds_tool step)")
    case None
    then show ?thesis using assms Some by (auto simp: run_tool_step_def tool_def_or_error_def act_return_def)
  next
    case fn: (Some fn)
    obtain x c1 where x: "execute (de_exec env) td (step_call env run_id step sid inp) ((de_draw env sid)\<lparr>dr_call := fn inp\<rparr>) c = (x, c1)"
      by fastforce
    then have "c' = c1 \<and> r = (case x of Inl e \<Rightarrow> Inl e | Inr res \<Rightarrow> Inr (dispatch_result step sid res))"
      using assms Some fn
      by (auto simp: run_tool_step_def tool_def_or_error_def act_bind_def act_return_def split: sum.splits)
    then show ?thesis using x td by blast
  qed
qed

text \<open>A step either runs the tool layer once, ungated, or changes nothing.\<close>

lemma execute_step_cases:
  assumes "execute_step env run_id plan results sid c = (r, c')"
  shows "(c' = c \<and> (\<exists>y. r = Inr y \<and> sr_step_id y = sid \<and> sr_exec_state y \<in> {FAILED, SKIPPED}))
    \<or> (ungated plan results sid \<and> (\<exists>step inp td dr x. td \<in> snd ` set (rg_tools (de_registry env))
         \<and> execute (de_exec env) td (step_call env run_id step sid inp) dr c = (x, c')
         \<and> r = (case x of Inl e \<Rightarrow> Inl e | Inr res \<Rightarrow> Inr (dispatch_result step sid res))))"
proof (cases "find (\<lambda>s. ds_id s = sid) (dp_steps plan)")
  case None
  then show ?thesis using assms by (auto simp: execute_step_def act_return_def)
next
  case (Some step)
  show ?thesis
  proof (cases "gate_skip_reason step results")
    case why: (Some why)
    then show ?thesis using assms Some by (auto simp: execute_step_def act_return_def)
  next
    case None
    then have un: "ungated plan results sid" using Some by (simp add: ungated_def)
    show ?thesis
    proof (cases "resolve_variables_in_input (de_loads env) (ds_input step) (step_upstream step results)")
      case (Inl e)
      then show ?thesis using assms Some None by (auto simp: execute_step_def act_return_def)
    next
      case (Inr inp)
      then have "run_tool_step env run_id step sid inp c = (r, c')" using assms Some None by (simp add: execute_step_def)
      from run_tool_step_cases[OF this] show ?thesis using un
      proof (elim disjE exE conjE)
        fix err assume "r = Inr (failed_result sid err)" "c' = c"
        then show ?thesis by simp
      qed blast
    qed
  qed
qed

lemma execute_step_effect:
  assumes "execute_step env run_id plan results sid c = (r, c')" and "retries_ok env" "log_ok (de_exec env) run_id c"
  shows "(\<exists>ps. wrote (de_exec env) run_id c ps c') \<and> calls_for (\<lambda>s. s = sid \<and> ungated plan results sid) c c'
    \<and> (\<forall>y. r = Inr y \<longrightarrow> sr_step_id y = sid)"
  using execute_step_cases[OF assms(1)]
proof (elim disjE conjE exE)
  fix y assume "c' = c" "r = Inr y" "sr_step_id y = sid"
  moreover have "wrote (de_exec env) run_id c [] c" by (rule wrote_Nil) (use assms(3) in \<open>simp_all add: log_ok_def\<close>)
  ultimately show ?thesis by (auto simp: calls_for_def)
next
  fix step inp td dr x
  assume td: "td \<in> snd ` set (rg_tools (de_registry env))" and un: "ungated plan results sid"
    and x: "execute (de_exec env) td (step_call env run_id step sid inp) dr c = (x, c')"
    and r: "r = (case x of Inl e \<Rightarrow> Inl e | Inr res \<Rightarrow> Inr (dispatch_result step sid res))"
  have "traced (de_exec env) td (step_call env run_id step sid inp) c x c'"
    by (rule ensuresD[OF execute_traced x]) (use assms(2,3) td in \<open>auto simp: log_ok_def retries_ok_def step_call_def\<close>)
  moreover have "tl_run_id (step_call env run_id step sid inp) = run_id" "tl_step_id (step_call env run_id step sid inp) = Some sid"
    by (simp_all add: step_call_def)
  ultimately have "(\<exists>ps. wrote (de_exec env) run_id c ps c') \<and> calls_for (\<lambda>s. s = sid \<and> ungated plan results sid) c c'"
    unfolding traced_def calls_for_def using un by (auto split: sum.splits)
  then show ?thesis using r by (auto split: sum.splits)
qed

section \<open>The phases of a layer\<close>

lemma write_step_ok:
  assumes "log_ok (de_exec env) run_id c"
  shows "\<exists>c'. write_step env run_id p c = (Inr (), c') \<and> wrote (de_exec env) run_id c [(PStep p, None)] c' \<and> xc_calls c' = xc_calls c"
proof -
  have "ensures (log_append (de_exec env) run_id (PStep p) None) c
      (\<lambda>r c'. r = Inr () \<and> wrote (de_exec env) run_id c [(PStep p, None)] c' \<and> xc_calls c' = xc_calls c)"
    by (rule ensures_log_append) (use assms in \<open>auto simp: log_ok_def key_free_def\<close>)
  then show ?thesis by (auto simp: ensures_def write_step_def split: prod.splits)
qed

definition step_rows :: "step_payload list \<Rightarrow> (payload \<times> string option) list" where
  "step_rows ps = map (\<lambda>p. (PStep p, None)) ps"

lemma step_rows_simps [simp]: "step_rows [] = []" "step_rows (p # ps) = (PStep p, None) # step_rows ps"
  "step_rows (ps @ qs) = step_rows ps @ step_rows qs"
  by (simp_all add: step_rows_def)

definition finish_events :: "string \<Rightarrow> nat \<Rightarrow> dag_step dict \<Rightarrow> (string \<times> (py_exc + step_result)) list \<Rightarrow> step_payload list" where
  "finish_events plan_id idx steps raws = List.map_filter (\<lambda>(sid, raw). finish_event plan_id idx steps sid raw) raws"

definition store_results :: "nat \<Rightarrow> (string \<times> (py_exc + step_result)) list \<Rightarrow> step_result dict \<Rightarrow> step_result dict" where
  "store_results idx raws results = fold (\<lambda>(sid, raw). dset sid (stored_result idx sid raw)) raws results"

lemma finish_phase_ok:
  "log_ok (de_exec env) run_id c \<Longrightarrow>
   \<exists>c'. finish_phase env run_id plan_id idx steps raws results c
       = (Inr (concat (map (\<lambda>(sid, raw). pending_of sid raw) raws), list_ex (\<lambda>(sid, raw). counts_as_failed raw) raws),
          store_results idx raws results, c')
     \<and> wrote (de_exec env) run_id c (step_rows (finish_events plan_id idx steps raws)) c' \<and> xc_calls c' = xc_calls c"
proof (induction raws arbitrary: results c)
  case Nil
  then show ?case by (simp add: store_results_def finish_events_def map_filter_simps log_ok_def wrote_Nil)
next
  case (Cons sr raws)
  obtain sid raw where sr: "sr = (sid, raw)" by fastforce
  let ?ev = "finish_event plan_id idx steps sid raw"
  obtain c1 where c1: "(case ?ev of None \<Rightarrow> act_return () c | Some p \<Rightarrow> write_step env run_id p c) = (Inr (), c1)"
      "wrote (de_exec env) run_id c (step_rows (case ?ev of None \<Rightarrow> [] | Some p \<Rightarrow> [p])) c1" "xc_calls c1 = xc_calls c"
    using write_step_ok[OF Cons.prems] Cons.prems
    by (cases ?ev) (auto simp: act_return_def log_ok_def intro!: wrote_Nil)
  have ok1: "log_ok (de_exec env) run_id c1" by (rule wrote_log_ok[OF Cons.prems c1(2)])
  from Cons.IH[OF ok1, of "dset sid (stored_result idx sid raw) results"] obtain c2 where
    c2: "finish_phase env run_id plan_id idx steps raws (dset sid (stored_result idx sid raw) results) c1
       = (Inr (concat (map (\<lambda>(sid, raw). pending_of sid raw) raws), list_ex (\<lambda>(sid, raw). counts_as_failed raw) raws),
          store_results idx raws (dset sid (stored_result idx sid raw) results), c2)"
      "wrote (de_exec env) run_id c1 (step_rows (finish_events plan_id idx steps raws)) c2" "xc_calls c2 = xc_calls c1" by blast
  have "finish_events plan_id idx steps (sr # raws) = (case ?ev of None \<Rightarrow> [] | Some p \<Rightarrow> [p]) @ finish_events plan_id idx steps raws"
    by (simp add: finish_events_def sr map_filter_simps split: option.split)
  then have "wrote (de_exec env) run_id c (step_rows (finish_events plan_id idx steps (sr # raws))) c2"
    using wrote_trans[OF c1(2) c2(2)] by simp
  then show ?case using c1 c2 by (simp add: sr Let_def store_results_def)
qed

fun skip_rows :: "string \<Rightarrow> dag_step dict \<Rightarrow> step_result dict \<Rightarrow> string list \<Rightarrow> (string \<times> string \<times> dag_step) list" where
  "skip_rows plan_id steps results [] = []"
| "skip_rows plan_id steps results (sid # sids) =
     (case dget steps sid of
        None \<Rightarrow> skip_rows plan_id steps results sids
      | Some step \<Rightarrow>
          (case gate_skip_reason step results of
             None \<Rightarrow> skip_rows plan_id steps results sids
           | Some why \<Rightarrow> (sid, why, step) # skip_rows plan_id steps (dset sid (skipped_result step sid why) results) sids))"

definition skip_results :: "(string \<times> string \<times> dag_step) list \<Rightarrow> step_result dict \<Rightarrow> step_result dict" where
  "skip_results sks results = fold (\<lambda>(sid, why, step). dset sid (skipped_result step sid why)) sks results"

definition skip_events :: "string \<Rightarrow> (string \<times> string \<times> dag_step) list \<Rightarrow> step_payload list" where
  "skip_events plan_id sks = map (\<lambda>(sid, why, step). DagStepSkipped \<lparr> dsk_plan_id = plan_id, dsk_step_id = sid, dsk_reason = why,
     dsk_tool_name = ds_tool step \<rparr>) sks"

lemma skip_phase_ok:
  "log_ok (de_exec env) run_id c \<Longrightarrow>
   \<exists>c'. skip_phase env run_id plan_id steps sids results c
       = (Inr (map fst (skip_rows plan_id steps results sids)), skip_results (skip_rows plan_id steps results sids) results, c')
     \<and> wrote (de_exec env) run_id c (step_rows (skip_events plan_id (skip_rows plan_id steps results sids))) c' \<and> xc_calls c' = xc_calls c"
proof (induction sids arbitrary: results c)
  case Nil
  then show ?case by (simp add: skip_results_def skip_events_def log_ok_def wrote_Nil)
next
  case (Cons sid sids)
  show ?case
  proof (cases "Option.bind (dget steps sid) (\<lambda>step. map_option (Pair step) (gate_skip_reason step results))")
    case None
    then show ?thesis using Cons.IH[OF Cons.prems, of results]
      by (cases "dget steps sid"; cases "gate_skip_reason (the (dget steps sid)) results") auto
  next
    case (Some sw)
    then obtain step why where st: "dget steps sid = Some step" "gate_skip_reason step results = Some why"
      by (cases "dget steps sid") auto
    let ?p = "DagStepSkipped \<lparr> dsk_plan_id = plan_id, dsk_step_id = sid, dsk_reason = why, dsk_tool_name = ds_tool step \<rparr>"
    obtain c1 where c1: "write_step env run_id ?p c = (Inr (), c1)" "wrote (de_exec env) run_id c [(PStep ?p, None)] c1"
        "xc_calls c1 = xc_calls c" using write_step_ok[OF Cons.prems] by blast
    have ok1: "log_ok (de_exec env) run_id c1" by (rule wrote_log_ok[OF Cons.prems c1(2)])
    let ?res = "dset sid (skipped_result step sid why) results"
    from Cons.IH[OF ok1, of ?res] obtain c2 where c2: "skip_phase env run_id plan_id steps sids ?res c1
       = (Inr (map fst (skip_rows plan_id steps ?res sids)), skip_results (skip_rows plan_id steps ?res sids) ?res, c2)"
      "wrote (de_exec env) run_id c1 (step_rows (skip_events plan_id (skip_rows plan_id steps ?res sids))) c2" "xc_calls c2 = xc_calls c1"
      by blast
    show ?thesis using c1 c2 st wrote_trans[OF c1(2) c2(2)] by (simp add: skip_results_def skip_events_def)
  qed
qed

definition start_events :: "string \<Rightarrow> dag_step dict \<Rightarrow> string list \<Rightarrow> step_payload list" where
  "start_events plan_id steps sids = List.map_filter (\<lambda>sid. map_option (\<lambda>step. DagStepStarted \<lparr> dss_plan_id = plan_id, dss_step_id = sid,
     dss_tool_name = ds_tool step, dss_depends_on = ds_depends_on step \<rparr>) (dget steps sid)) sids"

lemma start_phase_ok:
  "log_ok (de_exec env) run_id c \<Longrightarrow>
   \<exists>c'. start_phase env run_id plan_id steps sids c = (Inr (), c')
     \<and> wrote (de_exec env) run_id c (step_rows (start_events plan_id steps sids)) c' \<and> xc_calls c' = xc_calls c"
proof (induction sids arbitrary: c)
  case Nil
  then show ?case by (simp add: act_return_def start_events_def map_filter_simps log_ok_def wrote_Nil)
next
  case (Cons sid sids)
  show ?case
  proof (cases "dget steps sid")
    case None
    then show ?thesis using Cons.IH[OF Cons.prems] by (simp add: start_events_def map_filter_simps)
  next
    case (Some step)
    let ?p = "DagStepStarted \<lparr> dss_plan_id = plan_id, dss_step_id = sid, dss_tool_name = ds_tool step, dss_depends_on = ds_depends_on step \<rparr>"
    obtain c1 where c1: "write_step env run_id ?p c = (Inr (), c1)" "wrote (de_exec env) run_id c [(PStep ?p, None)] c1"
        "xc_calls c1 = xc_calls c" using write_step_ok[OF Cons.prems] by blast
    have ok1: "log_ok (de_exec env) run_id c1" by (rule wrote_log_ok[OF Cons.prems c1(2)])
    from Cons.IH[OF ok1] obtain c2 where "start_phase env run_id plan_id steps sids c1 = (Inr (), c2)"
      "wrote (de_exec env) run_id c1 (step_rows (start_events plan_id steps sids)) c2" "xc_calls c2 = xc_calls c1" by blast
    then show ?thesis using c1 Some wrote_trans[OF c1(2)]
      by (auto simp: act_then_def act_bind_def start_events_def map_filter_simps)
  qed
qed

lemma gather_phase_outcomes:
  "gather_phase env run_id plan results sids c = (outs, c') \<Longrightarrow> map fst outs = sids"
  by (induction sids arbitrary: c outs c') (auto simp: Let_def split: prod.splits)

lemma gather_phase_progress:
  assumes "gather_phase env run_id plan results sids c = (outs, c')" "retries_ok env"
  shows "progress (de_exec env) run_id (\<lambda>s. s \<in> set sids \<and> ungated plan results s) c c'"
proof (rule layer_frame.gather_phase_frame[OF _ assms(1)])
  fix sid c r c'
  assume "sid \<in> set sids" and e: "execute_step env run_id plan results sid c = (r, c')"
  then show "progress (de_exec env) run_id (\<lambda>s. s \<in> set sids \<and> ungated plan results s) c c'"
    using execute_step_effect[OF e assms(2)] unfolding progress_def calls_for_def by blast
qed

section \<open>One layer\<close>

lemma execute_layer_ok:
  assumes ok: "log_ok (de_exec env) run_id c" and ret: "retries_ok env"
    and layer: "execute_layer env run_id plan plan_id layer idx results c = (out, results', c')"
  obtains sks raws c3 where
    "sks = skip_rows plan_id (step_map (dp_steps plan)) results layer"
    "map fst raws = filter (\<lambda>sid. sid \<notin> set (map fst sks)) layer"
    "results' = store_results idx raws (skip_results sks results)"
    "out = (let pending = concat (map (\<lambda>(sid, raw). pending_of sid raw) raws)
            in if pending \<noteq> [] then LayerSuspended pending else LayerDone (\<not> list_ex (\<lambda>(sid, raw). counts_as_failed raw) raws))"
    "log_ok (de_exec env) run_id c3"
    "wrote (de_exec env) run_id c3 (step_rows (finish_events plan_id idx (step_map (dp_steps plan)) raws)) c'"
    "\<exists>ps. wrote (de_exec env) run_id c ps c'"
    "calls_for (\<lambda>s. s \<in> set (de_order env (map fst raws)) \<and> ungated plan (skip_results sks results) s) c c'"
proof -
  define steps where "steps = step_map (dp_steps plan)"
  define sks where "sks = skip_rows plan_id steps results layer"
  define results1 where "results1 = skip_results sks results"
  define sids where "sids = filter (\<lambda>sid. sid \<notin> set (map fst sks)) layer"
  from skip_phase_ok[OF ok, of plan_id steps layer results] obtain c1 where c1:
    "skip_phase env run_id plan_id steps layer results c = (Inr (map fst sks), results1, c1)"
    "wrote (de_exec env) run_id c (step_rows (skip_events plan_id sks)) c1" "xc_calls c1 = xc_calls c"
    unfolding sks_def results1_def by blast
  note ok1 = wrote_log_ok[OF ok c1(2)]
  from start_phase_ok[OF ok1, of plan_id steps sids] obtain c2 where c2:
    "start_phase env run_id plan_id steps sids c1 = (Inr (), c2)"
    "wrote (de_exec env) run_id c1 (step_rows (start_events plan_id steps sids)) c2" "xc_calls c2 = xc_calls c1" by blast
  note ok2 = wrote_log_ok[OF ok1 c2(2)]
  obtain outs c3 where g: "gather_phase env run_id plan results1 (de_order env sids) c2 = (outs, c3)" by fastforce
  from gather_phase_progress[OF g ret] ok2 obtain ps where ps: "wrote (de_exec env) run_id c2 ps c3"
    and calls: "calls_for (\<lambda>s. s \<in> set (de_order env sids) \<and> ungated plan results1 s) c2 c3" by (auto simp: progress_def)
  note ok3 = wrote_log_ok[OF ok2 ps]
  define raws where "raws = map (\<lambda>sid. (sid, dget_or (Inl (missing_outcome sid)) outs sid)) sids"
  have fst_raws: "map fst raws = sids" by (simp add: raws_def comp_def)
  from finish_phase_ok[OF ok3, of plan_id idx steps raws results1] obtain c4 where c4:
    "finish_phase env run_id plan_id idx steps raws results1 c3 = (Inr (concat (map (\<lambda>(sid, raw). pending_of sid raw) raws),
        list_ex (\<lambda>(sid, raw). counts_as_failed raw) raws), store_results idx raws results1, c4)"
    "wrote (de_exec env) run_id c3 (step_rows (finish_events plan_id idx steps raws)) c4" "xc_calls c4 = xc_calls c3" by blast
  have res: "out = (let pending = concat (map (\<lambda>(sid, raw). pending_of sid raw) raws)
      in if pending \<noteq> [] then LayerSuspended pending else LayerDone (\<not> list_ex (\<lambda>(sid, raw). counts_as_failed raw) raws))"
    "results' = store_results idx raws results1" "c' = c4"
    using layer[unfolded execute_layer_def Let_def, folded steps_def, unfolded c1(1) prod.case sum.case, folded sids_def,
        unfolded c2(1) prod.case sum.case g prod.case, folded raws_def, unfolded c4(1) prod.case sum.case]
    by (simp_all add: Let_def)
  have "\<exists>ps. wrote (de_exec env) run_id c ps c4"
    using wrote_trans[OF wrote_trans[OF wrote_trans[OF c1(2) c2(2)] ps] c4(2)] by blast
  moreover have "calls_for (\<lambda>s. s \<in> set (de_order env sids) \<and> ungated plan results1 s) c c4"
    using calls c1(3) c2(3) c4(3) by (simp add: calls_for_def)
  ultimately show ?thesis
    using that[OF sks_def[unfolded steps_def] fst_raws[unfolded sids_def] res(2)[unfolded results1_def] res(1) ok3]
      c4(2) by (simp add: res(3) fst_raws results1_def steps_def)
qed

section \<open>The gate\<close>

lemma gate_None_iff:
  "gate_skip_reason step results = None \<longleftrightarrow> (\<forall>dep\<in>set (ds_depends_on step). \<forall>r. dget results dep = Some r \<longrightarrow> step_normal r)"
proof -
  have "gate_deps results deps = None \<longleftrightarrow> (\<forall>dep\<in>set deps. \<forall>r. dget results dep = Some r \<longrightarrow> step_normal r)" for deps
    by (induction deps) (auto split: option.split)
  then show ?thesis by (simp add: gate_skip_reason_def)
qed

lemma skipped_not_normal: "\<not> step_normal (skipped_result step sid why)"
  by (cases "ds_probe step") (simp_all add: step_normal_def exec_state_is_normal_def)

lemma skip_results_dget:
  "dget (skip_results sks results) sid = dget results sid \<or> (\<exists>r. dget (skip_results sks results) sid = Some r \<and> sr_exec_state r = SKIPPED \<and> sr_confirmation_id r = None)"
  unfolding skip_results_def
proof (induction sks arbitrary: results)
  case Nil
  then show ?case by simp
next
  case (Cons x sks)
  obtain a why step where x: "x = (a, why, step)" by (cases x)
  show ?case using Cons[of "dset a (skipped_result step a why) results"] by (auto simp: x update_conv' skipped_result_def StepResult0_def split: if_splits)
qed

lemma skipped_state_not_normal: "sr_exec_state r = SKIPPED \<Longrightarrow> \<not> step_normal r"
  by (simp add: step_normal_def exec_state_is_normal_def)

lemma ungated_skip_results: "ungated plan (skip_results sks results) sid \<Longrightarrow> ungated plan results sid"
  unfolding ungated_def gate_None_iff
  by (metis skip_results_dget skipped_state_not_normal)

text \<open>C15: Bad data is not carried downstream: executing a layer invokes tools only for steps of that layer, and only for those none of
  whose dependencies has a result that is not normal. A dependency that has not produced a result does not gate.\<close>

theorem layer_invokes_only_ungated_steps:
  assumes "log_ok (de_exec env) run_id c" "retries_ok env" and "\<And>sids. set (de_order env sids) = set sids"
    and "execute_layer env run_id plan plan_id layer idx results c = (out, results', c')"
  shows "\<exists>new. xc_calls c' = xc_calls c @ new
    \<and> (\<forall>x\<in>set new. \<exists>sid step. fst (snd x) = Some sid \<and> sid \<in> set layer \<and> find (\<lambda>s. ds_id s = sid) (dp_steps plan) = Some step
         \<and> (\<forall>dep\<in>set (ds_depends_on step). \<forall>r. dget results dep = Some r \<longrightarrow> step_normal r))"
proof -
  obtain sks and raws :: "(string \<times> (py_exc + step_result)) list" where raws: "map fst raws = filter (\<lambda>sid. sid \<notin> set (map fst sks)) layer"
    and calls: "calls_for (\<lambda>s. s \<in> set (de_order env (map fst raws)) \<and> ungated plan (skip_results sks results) s) c c'"
    by (rule execute_layer_ok[OF assms(1,2,4)]) blast
  obtain new where new: "xc_calls c' = xc_calls c @ new"
    "\<forall>x\<in>set new. \<exists>sid. fst (snd x) = Some sid \<and> sid \<in> set (map fst raws) \<and> ungated plan (skip_results sks results) sid"
    using calls unfolding calls_for_def assms(3) by blast
  have "\<exists>sid step. fst (snd x) = Some sid \<and> sid \<in> set layer \<and> find (\<lambda>s. ds_id s = sid) (dp_steps plan) = Some step
         \<and> (\<forall>dep\<in>set (ds_depends_on step). \<forall>r. dget results dep = Some r \<longrightarrow> step_normal r)" if x: "x \<in> set new" for x
  proof -
    obtain sid where "fst (snd x) = Some sid" "sid \<in> set (map fst raws)" "ungated plan results sid"
      using new(2) x ungated_skip_results by blast
    then show ?thesis unfolding raws ungated_def gate_None_iff by auto
  qed
  then show ?thesis using new(1) by blast
qed

section \<open>The outcome of a layer\<close>

lemma store_results_dget:
  assumes "distinct (map fst raws)"
  shows "dget (store_results idx raws results) sid =
    (case dget raws sid of Some raw \<Rightarrow> Some (stored_result idx sid raw) | None \<Rightarrow> dget results sid)"
  using assms unfolding store_results_def
proof (induction raws arbitrary: results)
  case Nil
  then show ?case by simp
next
  case (Cons sr raws)
  obtain a raw where sr: "sr = (a, raw)" by fastforce
  show ?case
  proof (cases "sid = a")
    case True
    then have "dget raws sid = None" using Cons.prems sr by (auto simp: map_of_eq_None_iff)
    then show ?thesis using Cons.IH[of "dset a (stored_result idx a raw) results"] Cons.prems True by (simp add: sr update_conv')
  next
    case False
    then show ?thesis using Cons.IH[of "dset a (stored_result idx a raw) results"] Cons.prems
      by (simp add: sr update_conv' split: option.split)
  qed
qed

lemma skip_rows_ids: "set (map fst (skip_rows plan_id steps results sids)) \<subseteq> set sids"
proof (induction sids arbitrary: results)
  case (Cons sid sids)
  then show ?case by (simp split: option.split) (meson subset_insertI2)
qed simp

lemma skip_results_skipped: "sid \<in> set (map fst sks) \<Longrightarrow> \<exists>r. dget (skip_results sks results) sid = Some r \<and> sr_exec_state r = SKIPPED \<and> sr_confirmation_id r = None"
proof (induction sks arbitrary: results)
  case (Cons x sks)
  obtain a why step where x: "x = (a, why, step)" by (cases x)
  show ?case
  proof (cases "sid \<in> set (map fst sks)")
    case True
    then show ?thesis using Cons.IH[of "dset a (skipped_result step a why) results"] by (simp add: skip_results_def x)
  next
    case False
    then have "sid = a" using Cons.prems x by simp
    then show ?thesis using skip_results_dget[of sks "dset a (skipped_result step a why) results" a]
      by (auto simp: skip_results_def x update_conv' skipped_result_def StepResult0_def)
  qed
qed simp

lemma skip_results_other: "sid \<notin> set (map fst sks) \<Longrightarrow> dget (skip_results sks results) sid = dget results sid"
  unfolding skip_results_def by (induction sks arbitrary: results) (auto simp: update_conv')

text \<open>The states after which a layer goes on, and a result that waits for the operator.\<close>

definition settled :: "step_result \<Rightarrow> bool" where
  "settled r \<longleftrightarrow> sr_exec_state r \<in> {COMPLETED, IDEMPOTENT, UNSUCCESSFUL, SKIPPED}"

definition awaiting :: "step_result \<Rightarrow> string option" where
  "awaiting r = (if sr_exec_state r \<in> {COMPLETED, IDEMPOTENT, UNSUCCESSFUL} then None else sr_confirmation_id r)"

lemma stored_pending: "pending_of sid raw = (case awaiting (stored_result idx sid raw) of Some cid \<Rightarrow> [(sid, cid)] | None \<Rightarrow> [])"
  by (auto simp: pending_of_def awaiting_def stored_result_def failed_result_def StepResult0_def is_completed_def is_unsuccessful_def
      split: sum.split option.split)

lemma stored_failed: "counts_as_failed raw \<longleftrightarrow> \<not> settled (stored_result idx sid raw) \<and> awaiting (stored_result idx sid raw) = None"
  by (auto simp: counts_as_failed_def settled_def awaiting_def stored_result_def failed_result_def StepResult0_def is_completed_def
      is_unsuccessful_def split: sum.split)

lemma execute_layer_results:
  assumes "distinct layer" "map fst raws = filter (\<lambda>sid. sid \<notin> set (map fst sks)) layer"
    and "sks = skip_rows plan_id steps results layer"
    and "results' = store_results idx raws (skip_results sks results)"
  shows "sid \<in> set layer \<Longrightarrow> (if sid \<in> set (map fst sks) then \<exists>r. dget results' sid = Some r \<and> sr_exec_state r = SKIPPED \<and> sr_confirmation_id r = None
      else \<exists>raw. dget raws sid = Some raw \<and> dget results' sid = Some (stored_result idx sid raw))"
    and "sid \<notin> set layer \<Longrightarrow> dget results' sid = dget results sid"
proof -
  have dist: "distinct (map fst raws)" using assms(1,2) by simp
  note get = store_results_dget[OF dist, of idx "skip_results sks results" sid, folded assms(4)]
  have sub: "set (map fst sks) \<subseteq> set layer" unfolding assms(3) by (rule skip_rows_ids)
  {
    assume sid: "sid \<in> set layer"
    show "if sid \<in> set (map fst sks) then \<exists>r. dget results' sid = Some r \<and> sr_exec_state r = SKIPPED \<and> sr_confirmation_id r = None
      else \<exists>raw. dget raws sid = Some raw \<and> dget results' sid = Some (stored_result idx sid raw)"
    proof (cases "sid \<in> set (map fst sks)")
      case True
      then have "sid \<notin> set (map fst raws)" unfolding assms(2) by simp
      then have "dget raws sid = None" by (simp add: map_of_eq_None_iff)
      then show ?thesis using True get skip_results_skipped[OF True, of results] by simp
    next
      case False
      then have "sid \<in> set (map fst raws)" unfolding assms(2) using sid by simp
      then obtain raw where "dget raws sid = Some raw" by (metis map_of_eq_None_iff option.exhaust set_map)
      then show ?thesis using False get by simp
    qed
  next
    assume sid: "sid \<notin> set layer"
    then have "sid \<notin> set (map fst raws)" "sid \<notin> set (map fst sks)" unfolding assms(2) using sub by auto
    then have "dget raws sid = None" "dget (skip_results sks results) sid = dget results sid"
      by (simp_all add: map_of_eq_None_iff skip_results_other)
    then show "dget results' sid = dget results sid" using get by simp
  }
qed

lemma concat_map_filter: "(\<And>x. x \<in> set xs \<Longrightarrow> \<not> P x \<Longrightarrow> f x = []) \<Longrightarrow> concat (map f xs) = concat (map f (filter P xs))"
  by (induction xs) auto

lemma alist_of_keys: "distinct (map fst d) \<Longrightarrow> d = map (\<lambda>k. (k, the (dget d k))) (map fst d)"
proof -
  assume "distinct (map fst d)"
  then have "kv = (fst kv, the (dget d (fst kv)))" if "kv \<in> set d" for kv
    using that by (cases kv) simp
  then show ?thesis by (simp add: map_idI[symmetric] comp_def cong: map_cong)
qed

lemma execute_layer_outcome:
  assumes "distinct layer" "map fst raws = filter (\<lambda>sid. sid \<notin> set (map fst sks)) layer"
    and "sks = skip_rows plan_id steps results layer"
    and "results' = store_results idx raws (skip_results sks results)"
  shows "concat (map (\<lambda>(sid, raw). pending_of sid raw) raws)
      = concat (map (\<lambda>sid. case awaiting (the (dget results' sid)) of Some cid \<Rightarrow> [(sid, cid)] | None \<Rightarrow> []) layer)" (is ?pend)
    and "concat (map (\<lambda>(sid, raw). pending_of sid raw) raws) = [] \<Longrightarrow>
      \<not> list_ex (\<lambda>(sid, raw). counts_as_failed raw) raws \<longleftrightarrow> list_all (\<lambda>sid. settled (the (dget results' sid))) layer" (is "_ \<Longrightarrow> ?fail")
proof -
  note res = execute_layer_results(1)[OF assms]
  have dist: "distinct (map fst raws)" using assms(1,2) by simp
  have raw: "dget results' sid = Some (stored_result idx sid (the (dget raws sid)))" if "sid \<in> set (map fst raws)" for sid
  proof -
    have "sid \<in> set layer" "sid \<notin> set (map fst sks)" using that unfolding assms(2) by auto
    then show ?thesis using res[of sid] by auto
  qed
  have raws: "raws = map (\<lambda>sid. (sid, the (dget raws sid))) (map fst raws)" by (rule alist_of_keys[OF dist])
  have skipped: "awaiting (the (dget results' sid)) = None" "settled (the (dget results' sid))" if "sid \<in> set layer" "sid \<in> set (map fst sks)" for sid
    using res[OF that(1)] that(2) by (auto simp: awaiting_def settled_def)
  have "concat (map (\<lambda>(sid, raw). pending_of sid raw) raws) = concat (map (\<lambda>sid. pending_of sid (the (dget raws sid))) (map fst raws))"
    by (subst raws) (simp add: comp_def)
  also have "\<dots> = concat (map (\<lambda>sid. case awaiting (the (dget results' sid)) of Some cid \<Rightarrow> [(sid, cid)] | None \<Rightarrow> []) (map fst raws))"
    by (rule arg_cong[of _ _ concat], rule map_cong) (auto simp: raw stored_pending[where idx = idx])
  also have "\<dots> = concat (map (\<lambda>sid. case awaiting (the (dget results' sid)) of Some cid \<Rightarrow> [(sid, cid)] | None \<Rightarrow> []) layer)"
    unfolding assms(2) by (rule concat_map_filter[symmetric]) (use skipped in auto)
  finally show pend: ?pend .
  assume none: "concat (map (\<lambda>(sid, raw). pending_of sid raw) raws) = []"
  have "list_ex (\<lambda>(sid, raw). counts_as_failed raw) raws \<longleftrightarrow> list_ex (\<lambda>sid. counts_as_failed (the (dget raws sid))) (map fst raws)"
    by (subst raws) (simp add: list_ex_iff)
  also have "\<dots> \<longleftrightarrow> list_ex (\<lambda>sid. \<not> settled (the (dget results' sid))) (map fst raws)"
  proof -
    have "awaiting (the (dget results' sid)) = None" if "sid \<in> set layer" for sid
      using none[unfolded pend] that by (auto split: option.splits)
    moreover have "set (map fst raws) \<subseteq> set layer" unfolding assms(2) by auto
    ultimately have "counts_as_failed (the (dget raws sid)) \<longleftrightarrow> \<not> settled (the (dget results' sid))" if "sid \<in> set (map fst raws)" for sid
      using that raw[OF that] stored_failed[of "the (dget raws sid)" idx sid] by (metis option.sel subsetD)
    then show ?thesis by (auto simp: list_ex_iff)
  qed
  also have "\<dots> \<longleftrightarrow> list_ex (\<lambda>sid. \<not> settled (the (dget results' sid))) layer"
    unfolding assms(2) using skipped by (auto simp: list_ex_iff)
  finally show ?fail by (auto simp: list_ex_iff list_all_iff)
qed

text \<open>C16: A layer ends in exactly one way, determined by the results it leaves: it never raises on a well-formed log; every step
  of the layer has a result and no other result changes; it is suspended with the list of open confirmations, in layer order, if
  there is one, and otherwise reports success exactly when every step is completed, cached, unsuccessful or skipped.\<close>

theorem layer_outcome_reflects_results:
  assumes "log_ok (de_exec env) run_id c" "retries_ok env" "distinct layer"
    and "execute_layer env run_id plan plan_id layer idx results c = (out, results', c')"
  shows "(\<forall>sid\<in>set layer. dget results' sid \<noteq> None) \<and> (\<forall>sid. sid \<notin> set layer \<longrightarrow> dget results' sid = dget results sid)
    \<and> out = (let pending = concat (map (\<lambda>sid. case awaiting (the (dget results' sid)) of Some cid \<Rightarrow> [(sid, cid)] | None \<Rightarrow> []) layer)
        in if pending \<noteq> [] then LayerSuspended pending else LayerDone (list_all (\<lambda>sid. settled (the (dget results' sid))) layer))"
proof -
  obtain sks and raws :: "(string \<times> (py_exc + step_result)) list" where
    sks: "sks = skip_rows plan_id (step_map (dp_steps plan)) results layer"
    and raws: "map fst raws = filter (\<lambda>sid. sid \<notin> set (map fst sks)) layer"
    and res: "results' = store_results idx raws (skip_results sks results)"
    and out: "out = (let pending = concat (map (\<lambda>(sid, raw). pending_of sid raw) raws)
            in if pending \<noteq> [] then LayerSuspended pending else LayerDone (\<not> list_ex (\<lambda>(sid, raw). counts_as_failed raw) raws))"
    by (rule execute_layer_ok[OF assms(1,2,4)]) blast
  note results = execute_layer_results[OF assms(3) raws sks res]
  note outcome = execute_layer_outcome[OF assms(3) raws sks res]
  have "\<forall>sid\<in>set layer. dget results' sid \<noteq> None" using results(1) by (metis option.distinct(1))
  moreover have "\<forall>sid. sid \<notin> set layer \<longrightarrow> dget results' sid = dget results sid" using results(2) by blast
  ultimately show ?thesis unfolding out Let_def using outcome(2) by (simp add: outcome(1))
qed

section \<open>Results and evidence\<close>

text \<open>What the rows of an execution look like when the run is read back.\<close>

lemma wrote_get_events:
  assumes "store_wf (xc_store c)" "wrote env run_id c ps c'"
  obtains es where "get_events (xc_store c') run_id = get_events (xc_store c) run_id @ es" "map ev_payload es = map fst ps"
    "\<And>e. e \<in> set es \<Longrightarrow> ev_run_id e = run_id"
proof -
  obtain rows where wf': "store_wf (xc_store c')" and rows: "es_events (xc_store c') = es_events (xc_store c) @ rows"
    and facts: "map row_facts rows = map (\<lambda>(p, k). (run_id, ao_tenant_id (log_opts env k), RowPayload p, k)) ps"
    using assms(2) by (auto simp: wrote_def)
  have own: "run_rows run_id rows = rows"
  proof -
    have "er_run_id r = run_id" if "r \<in> set rows" for r
    proof -
      have "row_facts r \<in> set (map row_facts rows)" using that by simp
      then show ?thesis unfolding facts by (auto simp: row_facts_def)
    qed
    then show ?thesis by (simp add: run_rows_def)
  qed
  have ev: "map ev_payload (events_of_rows rows) = map fst ps \<and> (\<forall>e\<in>set (events_of_rows rows). ev_run_id e = run_id)"
    using facts
  proof (induction rows arbitrary: ps)
    case Nil
    then show ?case by simp
  next
    case (Cons r rows)
    then obtain p k qs where ps: "ps = (p, k) # qs" and r0: "row_facts r = (run_id, ao_tenant_id (log_opts env k), RowPayload p, k)"
      and rest: "map row_facts rows = map (\<lambda>(p, k). (run_id, ao_tenant_id (log_opts env k), RowPayload p, k)) qs"
      by (cases ps) auto
    have r: "er_body r = RowPayload p" "er_run_id r = run_id" using r0 by (simp_all add: row_facts_def)
    have "events_of_rows (r # rows) = row_event r p # events_of_rows rows" using r(1) by (simp add: events_of_rows_def map_filter_simps row_event_def)
    then show ?case using Cons.IH[OF rest] ps r(2) by (simp add: row_event_def)
  qed
  have "get_events (xc_store c') run_id = get_events (xc_store c) run_id @ events_of_rows rows"
    using assms(1) wf' own by (simp add: get_events_rows store_wf_def rows)
  with ev show ?thesis using that by blast
qed

lemma apply_step_event:
  assumes "apply_event e st = Inr st'" "ev_payload e = PStep p"
  shows "rs_step_evidence st' = dset (step_event_id p) (step_event_update (ev_seq e) p
      (evidence_for (rs_step_evidence st) (step_event_id p) (step_event_plan p) (ev_seq e))) (rs_step_evidence st)"
  using assms apply_step_fields(7)[of "ev_seq e" p "st\<lparr>rs_seq := max (rs_seq st) (ev_seq e)\<rparr>" st']
  by (auto simp: apply_event_def split: if_splits)

lemma fold_steps_untouched:
  "fold_result apply_event es st = Inr st' \<Longrightarrow> map ev_payload es = map PStep ps \<Longrightarrow> sid \<notin> set (map step_event_id ps) \<Longrightarrow>
   dget (rs_step_evidence st') sid = dget (rs_step_evidence st) sid"
proof (induction es arbitrary: st ps)
  case Nil
  then show ?case by simp
next
  case (Cons e es)
  then obtain p qs where ps: "ps = p # qs" "ev_payload e = PStep p" "map ev_payload es = map PStep qs" by (cases ps) auto
  obtain st1 where st1: "apply_event e st = Inr st1" "fold_result apply_event es st1 = Inr st'"
    using Cons.prems(1) by (auto simp: rbind_Inr_iff)
  have "dget (rs_step_evidence st') sid = dget (rs_step_evidence st1) sid" using Cons.IH[OF st1(2) ps(3)] Cons.prems(3) ps(1) by simp
  also have "\<dots> = dget (rs_step_evidence st) sid"
    using Cons.prems(3) ps(1) by (simp add: apply_step_event[OF st1(1) ps(2)] update_conv')
  finally show ?case .
qed

lemma fold_steps_state:
  "fold_result apply_event es st = Inr st' \<Longrightarrow> map ev_payload es = map PStep ps \<Longrightarrow> distinct (map step_event_id ps) \<Longrightarrow>
   p \<in> set ps \<Longrightarrow> \<exists>seq ev. dget (rs_step_evidence st') (step_event_id p) = Some (step_event_update seq p ev)"
proof (induction es arbitrary: st ps)
  case Nil
  then show ?case by simp
next
  case (Cons e es)
  then obtain q qs where ps: "ps = q # qs" "ev_payload e = PStep q" "map ev_payload es = map PStep qs" by (cases ps) auto
  obtain st1 where st1: "apply_event e st = Inr st1" "fold_result apply_event es st1 = Inr st'"
    using Cons.prems(1) by (auto simp: rbind_Inr_iff)
  show ?case
  proof (cases "p = q")
    case True
    then have "step_event_id p \<notin> set (map step_event_id qs)" using Cons.prems(3) ps(1) by simp
    then have "dget (rs_step_evidence st') (step_event_id p) = dget (rs_step_evidence st1) (step_event_id p)"
      by (rule fold_steps_untouched[OF st1(2) ps(3)])
    then show ?thesis using True by (auto simp: apply_step_event[OF st1(1) ps(2)] update_conv')
  next
    case False
    then show ?thesis using Cons.IH[OF st1(2) ps(3)] Cons.prems ps(1) by auto
  qed
qed

lemma finish_event_id: "finish_event plan_id idx steps sid raw = Some p \<Longrightarrow> step_event_id p = sid"
  by (auto simp: finish_event_def completed_event_def split: sum.splits if_splits)

text \<open>What the event of a finished step makes of the rebuilt result. An empty summary, call id or error leaves what was recorded before.\<close>

lemma finish_event_rebuilds:
  assumes "r = stored_result idx sid raw" "sr_exec_state r \<in> {COMPLETED, IDEMPOTENT, UNSUCCESSFUL, FAILED}" "awaiting r = None"
  obtains p where "finish_event plan_id idx steps sid raw = Some p" "step_event_id p = sid"
    "\<And>seq ev. sr_exec_state (rebuild_result sid (step_event_update seq p ev)) = sr_exec_state r"
    "\<And>seq ev. sr_exec_state r \<noteq> FAILED \<Longrightarrow> sr_summary r \<noteq> [] \<Longrightarrow> sr_summary (rebuild_result sid (step_event_update seq p ev)) = sr_summary r"
    "\<And>seq ev. opt_truthy (sr_tool_call_id r) \<Longrightarrow> sr_tool_call_id (rebuild_result sid (step_event_update seq p ev)) = sr_tool_call_id r"
    "\<And>seq ev. sr_exec_state r \<in> {UNSUCCESSFUL, FAILED} \<Longrightarrow> opt_truthy (sr_error r) \<Longrightarrow>
       sr_error (rebuild_result sid (step_event_update seq p ev)) = sr_error r"
proof -
  have or: "opt_truthy x \<Longrightarrow> Some (opt_or x d) = x" for x :: "string option" and d by (cases x) (auto simp: opt_truthy_def opt_or_def str_or_def)
  have cases: "sr_exec_state r = COMPLETED \<or> sr_exec_state r = IDEMPOTENT \<or> sr_exec_state r = UNSUCCESSFUL \<or> sr_exec_state r = FAILED"
    using assms(2) by auto
  note defs = finish_event_def completed_event_def completed_evidence_def failed_evidence_def rebuild_result_def StepResult0_def
    evidence_state_map_def is_completed_def is_unsuccessful_def awaiting_def str_or_def dget_or_def or
  show ?thesis
  proof (cases raw)
    case (Inl e)
    then have r: "r = failed_result sid (layer_error idx e)" using assms(1) by (simp add: stored_result_def)
    show ?thesis
      by (rule that[of "DagStepFailed \<lparr> dsf_plan_id = plan_id, dsf_step_id = sid, dsf_error = layer_error idx e, dsf_retryable = False,
            dsf_tool_name = step_tool steps sid, dsf_tool_call_id = None \<rparr>"])
         (simp_all add: Inl r failed_result_def defs opt_truthy_def)
  next
    case (Inr x)
    then have r: "x = r" using assms(1) by (simp add: stored_result_def)
    obtain p where p: "finish_event plan_id idx steps sid raw = Some p" using cases assms(3) by (auto simp: Inr r defs)
    show ?thesis
      by (rule that[OF p]) (use p cases assms(3) in \<open>auto simp: Inr r defs\<close>)
  qed
qed

lemma set_of_map_filter: "set (List.map_filter f xs) = {y. \<exists>x\<in>set xs. f x = Some y}"
  by (force simp: List.map_filter_def)

lemma finish_events_ids:
  assumes "distinct (map fst raws)"
  shows "distinct (map step_event_id (finish_events plan_id idx steps raws))"
    and "dget raws sid = Some raw \<Longrightarrow> finish_event plan_id idx steps sid raw = Some p \<Longrightarrow> p \<in> set (finish_events plan_id idx steps raws)"
proof -
  have sub: "set (map step_event_id (finish_events plan_id idx steps rs)) \<subseteq> set (map fst rs)" for rs
    by (auto simp: finish_events_def set_of_map_filter image_iff dest!: finish_event_id) force
  show "distinct (map step_event_id (finish_events plan_id idx steps raws))"
    using assms
  proof (induction raws)
    case (Cons sr raws)
    obtain a r where sr: "sr = (a, r)" by fastforce
    have "a \<notin> set (map step_event_id (finish_events plan_id idx steps raws))" using sub[of raws] Cons.prems sr by auto
    then show ?case using Cons finish_event_id[of plan_id idx steps a r]
      by (auto simp: finish_events_def sr map_filter_simps split: option.split)
  qed (simp add: finish_events_def map_filter_simps)
  show "p \<in> set (finish_events plan_id idx steps raws)" if "dget raws sid = Some raw" "finish_event plan_id idx steps sid raw = Some p"
    using map_of_SomeD[OF that(1)] that(2) by (force simp: finish_events_def set_of_map_filter)
qed

section \<open>What the log says of a step\<close>

text \<open>Read off the payloads alone: the output of the last completed tool call of a step, and the probe flag of the last blueprint naming it.\<close>

fun output_in :: "string \<Rightarrow> payload \<Rightarrow> json list" where
  "output_in sid (PTool (ToolCompleted p)) = (if sid \<noteq> [] \<and> tco_step_id p = Some sid then [tco_output p] else [])"
| "output_in sid _ = []"

fun blueprint_in :: "payload \<Rightarrow> json dict list" where
  "blueprint_in (PPlan p) = plan_blueprint p"
| "blueprint_in _ = []"

definition probe_flags :: "string \<Rightarrow> json dict list \<Rightarrow> bool list" where
  "probe_flags sid steps = map (\<lambda>s. truthy (dget_or (JBool False) s ''probe'')) (filter (names_step sid) steps)"

definition logged_output :: "string \<Rightarrow> payload list \<Rightarrow> json" where
  "logged_output sid ps = last (JNull # concat (map (output_in sid) ps))"

definition logged_probe :: "string \<Rightarrow> payload list \<Rightarrow> bool" where
  "logged_probe sid ps = last (False # probe_flags sid (concat (map blueprint_in ps)))"

definition evidence_output :: "step_evidence dict \<Rightarrow> string \<Rightarrow> json" where
  "evidence_output evs sid = (case dget evs sid of None \<Rightarrow> JNull | Some ev \<Rightarrow> se_output ev)"

definition evidence_probe :: "step_evidence dict \<Rightarrow> string \<Rightarrow> bool" where
  "evidence_probe evs sid = (case dget evs sid of None \<Rightarrow> False | Some ev \<Rightarrow> se_probe ev)"

lemmas evidence_view = evidence_output_def evidence_probe_def

lemma probe_flags_simps [simp]:
  "probe_flags sid [] = []" "probe_flags sid (xs @ ys) = probe_flags sid xs @ probe_flags sid ys"
  "probe_flags sid (s # ss) = (if names_step sid s then truthy (dget_or (JBool False) s ''probe'') # probe_flags sid ss else probe_flags sid ss)"
  by (simp_all add: probe_flags_def)

lemma evidence_dset:
  "evidence_output (dset k ev evs) sid = (if sid = k then se_output ev else evidence_output evs sid)"
  "evidence_probe (dset k ev evs) sid = (if sid = k then se_probe ev else evidence_probe evs sid)"
  by (simp_all add: evidence_view update_conv')

lemma evidence_for_view:
  "se_output (evidence_for evs sid pid seq) = evidence_output evs sid" "se_probe (evidence_for evs sid pid seq) = evidence_probe evs sid"
  by (auto simp: evidence_for_def evidence_view StepEvidence0_def split: option.split)

lemma step_event_update_view:
  "se_output (step_event_update seq p ev) = se_output ev" "se_probe (step_event_update seq p ev) = se_probe ev"
  by (cases p; simp add: started_evidence_def completed_evidence_def failed_evidence_def skipped_evidence_def)+

lemma blueprint_evidence_view:
  "se_output (blueprint_evidence s deps ev) = se_output ev"
  "se_probe (blueprint_evidence s deps ev) = truthy (dget_or (JBool False) s ''probe'')"
  by (simp_all add: blueprint_evidence_def Let_def)

lemma apply_blueprint_view:
  "apply_blueprint steps pid seq evs = Inr evs' \<Longrightarrow>
   evidence_output evs' sid = evidence_output evs sid \<and> evidence_probe evs' sid = last (evidence_probe evs sid # probe_flags sid steps)"
  unfolding apply_blueprint_def
proof (induction steps arbitrary: evs)
  case (Cons s steps)
  from Cons.prems obtain evs1 where 1: "apply_blueprint_step pid seq s evs = Inr evs1"
    "fold_result (apply_blueprint_step pid seq) steps evs1 = Inr evs'"
    by (auto simp: rbind_Inr_iff simp del: apply_blueprint_step.simps)
  have "evidence_output evs1 sid = evidence_output evs sid \<and> evidence_probe evs1 sid
      = (if names_step sid s then truthy (dget_or (JBool False) s ''probe'') else evidence_probe evs sid)"
    using apply_blueprint_step_Inr[OF 1(1)]
    by (auto simp: names_step_def evidence_dset blueprint_evidence_view evidence_for_view)
  then show ?case using Cons.IH[OF 1(2)] by simp
qed simp

lemma apply_event_view:
  assumes "apply_event e st = Inr st'"
  shows "evidence_output (rs_step_evidence st') sid = last (evidence_output (rs_step_evidence st) sid # output_in sid (ev_payload e))"
    and "evidence_probe (rs_step_evidence st') sid = last (evidence_probe (rs_step_evidence st) sid # probe_flags sid (blueprint_in (ev_payload e)))"
proof -
  let ?st = "st\<lparr>rs_seq := max (rs_seq st) (ev_seq e)\<rparr>"
  have a: "apply_payload (ev_seq e) (ev_payload e) ?st = Inr st'" using assms by (auto simp: apply_event_def split: if_splits)
  have "evidence_output (rs_step_evidence st') sid = last (evidence_output (rs_step_evidence st) sid # output_in sid (ev_payload e))
    \<and> evidence_probe (rs_step_evidence st') sid = last (evidence_probe (rs_step_evidence st) sid # probe_flags sid (blueprint_in (ev_payload e)))"
  proof (cases "ev_payload e")
    case (PTool t)
    then show ?thesis using a
      by (cases t) (auto simp: Let_def evidence_dset tool_evidence_def evidence_for_view opt_truthy_def split: if_splits option.splits)
  next
    case (PPlan p)
    then have "apply_blueprint (plan_blueprint p) (plan_event_id p) (ev_seq e) (rs_step_evidence st) = Inr (rs_step_evidence st')"
      using apply_plan_evidence[of "ev_seq e" p ?st st'] a by simp
    from apply_blueprint_view[OF this] show ?thesis by (simp add: PPlan)
  next
    case (PStep p)
    show ?thesis using apply_step_event[OF assms PStep]
      by (simp add: PStep evidence_dset step_event_update_view evidence_for_view)
  next
    case (PRun p)
    then show ?thesis using a by (cases p) (auto simp: Let_def split: if_splits)
  next
    case (PConfirmation p)
    then show ?thesis using a by (cases p) auto
  next
    case (PContext p)
    then show ?thesis using a by (cases p) (auto simp: drop_refs_def)
  qed (use a in \<open>auto simp: apply_thought_def apply_feedback_def Let_def\<close>)
  then show "evidence_output (rs_step_evidence st') sid = last (evidence_output (rs_step_evidence st) sid # output_in sid (ev_payload e))"
    "evidence_probe (rs_step_evidence st') sid = last (evidence_probe (rs_step_evidence st) sid # probe_flags sid (blueprint_in (ev_payload e)))"
    by simp_all
qed

lemma last_Cons_append: "last (x # xs @ ys) = last (last (x # xs) # ys)"
  by (cases xs rule: rev_cases; cases ys) simp_all

lemma fold_view:
  "fold_result apply_event es st = Inr st' \<Longrightarrow>
   evidence_output (rs_step_evidence st') sid = last (evidence_output (rs_step_evidence st) sid # concat (map (output_in sid) (map ev_payload es)))
   \<and> evidence_probe (rs_step_evidence st') sid
     = last (evidence_probe (rs_step_evidence st) sid # probe_flags sid (concat (map blueprint_in (map ev_payload es))))"
proof (induction es arbitrary: st)
  case (Cons e es)
  from Cons.prems obtain st1 where st1: "apply_event e st = Inr st1" "fold_result apply_event es st1 = Inr st'" by (auto simp: rbind_Inr_iff)
  show ?case using Cons.IH[OF st1(2)] apply_event_view[OF st1(1), of sid] by (simp only: list.map concat.simps probe_flags_simps last_Cons_append)
qed simp

lemma fold_events_view:
  assumes "fold_events es = Inr st" "dget (rs_step_evidence st) sid = Some ev"
  shows "se_output ev = logged_output sid (map ev_payload es)" "se_probe ev = logged_probe sid (map ev_payload es)"
proof -
  obtain s0 where "fold_result apply_event es (RunState0 s0) = Inr st" using assms(1) by (auto simp: fold_events_def split: list.splits)
  from fold_view[OF this, of sid] show "se_output ev = logged_output sid (map ev_payload es)" "se_probe ev = logged_probe sid (map ev_payload es)"
    using assms(2) by (simp_all add: logged_output_def logged_probe_def evidence_view RunState0_def)
qed

text \<open>C17: The event stream remembers what the executor knew. After a layer, fold the stored events of the run and rebuild the results from
  the folded evidence. For every step of the layer that ran to a final state the rebuilt result has the step id and the execution state
  of the one the executor holds in memory, its tool call id when that is not empty, its summary when that is not empty and the step did
  not fail, and its error when the step did not succeed and gave one. The output is that of the last completed tool call the log holds for
  the step and the probe flag that of the last plan naming it.\<close>

theorem rebuilt_results_match_executor:
  assumes "log_ok (de_exec env) run_id c" "retries_ok env" "distinct layer"
    and "execute_layer env run_id plan plan_id layer idx results c = (out, results', c')"
    and "fold_events (get_events (xc_store c') run_id) = Inr st"
    and "sid \<in> set layer" "dget results' sid = Some r" "awaiting r = None"
    and "sr_exec_state r \<in> {COMPLETED, IDEMPOTENT, UNSUCCESSFUL, FAILED}"
  shows "\<exists>r2. dget (rebuild_results_from_evidence (rs_step_evidence st)) sid = Some r2
    \<and> sr_step_id r2 = sid \<and> sr_exec_state r2 = sr_exec_state r
    \<and> (opt_truthy (sr_tool_call_id r) \<longrightarrow> sr_tool_call_id r2 = sr_tool_call_id r)
    \<and> (sr_exec_state r \<noteq> FAILED \<and> sr_summary r \<noteq> [] \<longrightarrow> sr_summary r2 = sr_summary r)
    \<and> (sr_exec_state r \<in> {UNSUCCESSFUL, FAILED} \<and> opt_truthy (sr_error r) \<longrightarrow> sr_error r2 = sr_error r)
    \<and> sr_output r2 = logged_output sid (map ev_payload (get_events (xc_store c') run_id))
    \<and> sr_probe r2 = logged_probe sid (map ev_payload (get_events (xc_store c') run_id))"
proof -
  let ?steps = "step_map (dp_steps plan)"
  obtain sks c3 and raws :: "(string \<times> (py_exc + step_result)) list" where
    sks: "sks = skip_rows plan_id ?steps results layer"
    and raws: "map fst raws = filter (\<lambda>sid. sid \<notin> set (map fst sks)) layer"
    and res: "results' = store_results idx raws (skip_results sks results)"
    and ok3: "log_ok (de_exec env) run_id c3"
    and w: "wrote (de_exec env) run_id c3 (step_rows (finish_events plan_id idx ?steps raws)) c'"
    by (rule execute_layer_ok[OF assms(1,2,4)]) blast
  have dist: "distinct (map fst raws)" using assms(3) raws by simp
  obtain raw where raw: "dget raws sid = Some raw" "r = stored_result idx sid raw"
    using execute_layer_results(1)[OF assms(3) raws sks res assms(6)] assms(7,9) by (auto split: if_splits)
  obtain p where p: "finish_event plan_id idx ?steps sid raw = Some p" "step_event_id p = sid"
    and same: "\<And>seq ev. sr_exec_state (rebuild_result sid (step_event_update seq p ev)) = sr_exec_state r"
      "\<And>seq ev. sr_exec_state r \<noteq> FAILED \<Longrightarrow> sr_summary r \<noteq> [] \<Longrightarrow> sr_summary (rebuild_result sid (step_event_update seq p ev)) = sr_summary r"
      "\<And>seq ev. opt_truthy (sr_tool_call_id r) \<Longrightarrow> sr_tool_call_id (rebuild_result sid (step_event_update seq p ev)) = sr_tool_call_id r"
      "\<And>seq ev. sr_exec_state r \<in> {UNSUCCESSFUL, FAILED} \<Longrightarrow> opt_truthy (sr_error r) \<Longrightarrow>
         sr_error (rebuild_result sid (step_event_update seq p ev)) = sr_error r"
    by (rule finish_event_rebuilds[OF raw(2) assms(9,8)]) blast
  obtain es where es: "get_events (xc_store c') run_id = get_events (xc_store c3) run_id @ es"
      "map ev_payload es = map fst (step_rows (finish_events plan_id idx ?steps raws))"
    by (rule wrote_get_events[OF _ w]) (use ok3 in \<open>auto simp: log_ok_def\<close>)
  have pay: "map ev_payload es = map PStep (finish_events plan_id idx ?steps raws)" using es(2) by (simp add: step_rows_def comp_def)
  obtain s0 where fold: "fold_result apply_event (get_events (xc_store c') run_id) s0 = Inr st" "s0 = RunState0 (rs_run_id s0)"
    using assms(5) unfolding fold_events_Inr by (metis RunState0_def run_state.select_convs(1))
  then obtain st1 where st1: "fold_result apply_event es st1 = Inr st" unfolding es(1) fold_result_append by (auto simp: rbind_Inr_iff)
  obtain seq ev where ev: "dget (rs_step_evidence st) sid = Some (step_event_update seq p ev)"
    using fold_steps_state[OF st1 pay finish_events_ids(1)[OF dist] finish_events_ids(2)[OF dist raw(1) p(1)]] p(2) by auto
  have "state_wf st" by (rule fold_machine.fold_inv[OF _ fold(1)]) (metis fold(2) state_wf_init)
  then have "distinct (keys (rs_step_evidence st))" by (auto simp: state_wf_def evidence_wf_def)
  then have r2: "dget (rebuild_results_from_evidence (rs_step_evidence st)) sid = Some (rebuild_result sid (step_event_update seq p ev))"
    by (simp add: dget_rebuild ev)
  have "sr_step_id (rebuild_result sid x) = sid" "sr_output (rebuild_result sid x) = se_output x" "sr_probe (rebuild_result sid x) = se_probe x" for x
    by (simp_all add: rebuild_result_def StepResult0_def)
  with r2 same fold_events_view[OF assms(5) ev] show ?thesis
    by (intro exI[of _ "rebuild_result sid (step_event_update seq p ev)"] conjI impI) simp_all
qed

section \<open>Samples\<close>

text \<open>
  A layer of three steps on a run whose operator has confirmed the deletion: \<open>a\<close> deletes a file, \<open>b\<close> depends on a step that
  failed, \<open>d\<close> names a tool that is not registered.
\<close>

definition sample_dag_env :: dag_env where
  "sample_dag_env = \<lparr> de_exec = sample_env,
     de_registry = \<lparr> rg_tools = [(''file_op'', sample_tool)], rg_fns = [(''file_op'', \<lambda>_. dr_call sample_draw)] \<rparr>,
     de_workspace = None, de_backend = None, de_loads = (\<lambda>_. None), de_draw = (\<lambda>_. sample_draw), de_order = rev \<rparr>"

definition sample_layer_plan :: dag_plan where
  "sample_layer_plan = DagPlan0\<lparr>dp_steps :=
     [DagStep0\<lparr>ds_id := ''a'', ds_tool := ''file_op'', ds_input := sample_delete_input\<rparr>,
      DagStep0\<lparr>ds_id := ''b'', ds_tool := ''file_op'', ds_depends_on := [''z'']\<rparr>,
      DagStep0\<lparr>ds_id := ''d'', ds_tool := ''none''\<rparr>, DagStep0\<lparr>ds_id := ''z'', ds_tool := ''none''\<rparr>]\<rparr>"

definition sample_layer :: "layer_outcome \<times> step_result dict \<times> exec_ctx" where
  "sample_layer = execute_layer sample_dag_env ''r1'' sample_layer_plan ''p'' [''a'', ''b'', ''d''] 1
     [(''z'', failed_result ''z'' ''x'')] sample_confirmed"

lemma sample_layer_run:
  "execute_layer sample_dag_env ''r1'' sample_layer_plan ''p'' [''a'', ''b'', ''d''] 1 [(''z'', failed_result ''z'' ''x'')] sample_confirmed
   = (fst sample_layer, fst (snd sample_layer), snd (snd sample_layer))"
  by (simp add: sample_layer_def)

lemma sample_layer_eval:
  "(case sample_layer of (out, results, c) \<Rightarrow> (out, map (\<lambda>(sid, r). (sid, sr_exec_state r, awaiting r)) results, xc_calls c))
    = (LayerDone False,
       [(''z'', FAILED, None), (''b'', SKIPPED, None), (''a'', COMPLETED, None), (''d'', FAILED, None)],
       replicate 2 (''r1'', Some ''a'', ''file_op'', sample_delete_input))"
  by code_simp

lemma sample_layer_facts:
  "fst sample_layer = LayerDone False"
  "map (\<lambda>(sid, r). (sid, sr_exec_state r, awaiting r)) (fst (snd sample_layer))
     = [(''z'', FAILED, None), (''b'', SKIPPED, None), (''a'', COMPLETED, None), (''d'', FAILED, None)]"
  "xc_calls (snd (snd sample_layer)) = replicate 2 (''r1'', Some ''a'', ''file_op'', sample_delete_input)"
  using sample_layer_eval by (simp_all only: split_beta prod.inject)

lemma sample_log_ok: "log_ok (de_exec sample_dag_env) ''r1'' sample_confirmed" "retries_ok sample_dag_env"
  by (simp_all add: log_ok_def retries_ok_def sample_dag_env_def sample_confirmed_wf sample_tenant sample_retries)

lemma layer_invokes_only_ungated_steps_witness:
  "\<exists>new. replicate 2 (''r1'', Some ''a'', ''file_op'', sample_delete_input) = [] @ new
    \<and> (\<forall>x\<in>set new. \<exists>sid step. fst (snd x) = Some sid \<and> sid \<in> set [''a'', ''b'', ''d'']
         \<and> find (\<lambda>s. ds_id s = sid) (dp_steps sample_layer_plan) = Some step
         \<and> (\<forall>dep\<in>set (ds_depends_on step). \<forall>r. dget [(''z'', failed_result ''z'' ''x'')] dep = Some r \<longrightarrow> step_normal r))"
  using layer_invokes_only_ungated_steps[OF sample_log_ok _ sample_layer_run] sample_layer_facts(3) sample_invoked(2)
  by (simp add: sample_dag_env_def)

lemma layer_outcome_reflects_results_witness:
  "list_all (\<lambda>sid. dget (fst (snd sample_layer)) sid \<noteq> None) [''a'', ''b'', ''d'']
   \<and> \<not> list_all (\<lambda>sid. settled (the (dget (fst (snd sample_layer)) sid))) [''a'', ''b'', ''d'']"
proof -
  have aw: "concat (map (\<lambda>sid. case awaiting (the (dget (fst (snd sample_layer)) sid)) of Some cid \<Rightarrow> [(sid, cid)] | None \<Rightarrow> [])
      [''a'', ''b'', ''d'']) = []" by code_simp
  show ?thesis
    using layer_outcome_reflects_results[OF sample_log_ok _ sample_layer_run, unfolded Let_def aw] sample_layer_facts(1) by simp
qed

lemma rebuilt_results_match_executor_witness:
  "\<exists>st r2. fold_events (get_events (xc_store (snd (snd sample_layer))) ''r1'') = Inr st
    \<and> dget (rebuild_results_from_evidence (rs_step_evidence st)) ''a'' = Some r2 \<and> sr_exec_state r2 = COMPLETED
    \<and> sr_output r2 = logged_output ''a'' (map ev_payload (get_events (xc_store (snd (snd sample_layer))) ''r1''))"
proof -
  have "map_sum id (\<lambda>_. ()) (fold_events (get_events (xc_store (snd (snd sample_layer))) ''r1'')) = Inr ()" by code_simp
  then obtain st where st: "fold_events (get_events (xc_store (snd (snd sample_layer))) ''r1'') = Inr st"
    by (cases "fold_events (get_events (xc_store (snd (snd sample_layer))) ''r1'')") auto
  have "map_option (\<lambda>r. (sr_exec_state r, awaiting r)) (dget (fst (snd sample_layer)) ''a'') = Some (COMPLETED, None)" by code_simp
  then obtain r where r: "dget (fst (snd sample_layer)) ''a'' = Some r" "sr_exec_state r = COMPLETED" "awaiting r = None" by auto
  from rebuilt_results_match_executor[OF sample_log_ok _ sample_layer_run st _ r(1,3)] r(2) st show ?thesis by auto
qed

end
