(* ===== verification/Planner.thy ===== *)
theory Planner
  imports Plan_Guard Dag_Properties
begin

text \<open>
  The planner (core/planner/agent.py) and how it reads the model's answers (core/lenient_json.py,
  core/planner/parsing.py, schema_contract.py). The language model, the JSON decoder, the schema
  check of jsonschema and the exceptions of pydantic are parameters. The planner returns only
  plans its guardrail accepts, and a plan in the requested format is read back exactly.
\<close>

section \<open>Reading a model's answer\<close>

text \<open>
  \<^verbatim>\<open>json.loads\<close> and \<^verbatim>\<open>jsonschema\<close> as parameters: a decoded value or the message and position of the decode error;
  the path and message of the first violation, if any; and the exception a pydantic model raises.
\<close>

record reader =
  rd_loads :: "string \<Rightarrow> (string \<times> nat) + json"
  rd_schema :: "json dict \<Rightarrow> (string list \<times> string) option"
  rd_model_error :: "string \<Rightarrow> py_exc"

definition fence :: string where
  "fence = replicate 3 (CHR 0x60)"

text \<open>\<^verbatim>\<open>s.split(c, 1)[-1]\<close> and \<^verbatim>\<open>s.rsplit(p, 1)[0]\<close>.\<close>

definition after_first :: "char \<Rightarrow> string \<Rightarrow> string" where
  "after_first c s = (if c \<in> set s then drop (Suc (index_of c s)) s else s)"

definition before_last :: "string \<Rightarrow> string \<Rightarrow> string" where
  "before_last p s =
     (case filter (\<lambda>i. starts_with p (drop i s)) [0..<Suc (length s)] of [] \<Rightarrow> s | i # js \<Rightarrow> take (last (i # js)) s)"

definition strip_code_fence :: "string \<Rightarrow> string" where
  "strip_code_fence s =
     (let t = strip s in if starts_with fence t then strip (before_last fence (after_first (CHR 0x0A) t)) else t)"

datatype lenient_error = NoObject | InvalidJson string nat

text \<open>The outermost braces: from the first opening brace to the last closing one.\<close>

definition object_span :: "string \<Rightarrow> string option" where
  "object_span s =
     (let start = index_of (CHR 0x7B) s; stop = length s - Suc (index_of (CHR 0x7D) (rev s))
      in if CHR 0x7B \<notin> set s \<or> CHR 0x7D \<notin> set s \<or> stop \<le> start then None
         else Some (take (Suc stop - start) (drop start s)))"

definition parse_lenient_json :: "(string \<Rightarrow> (string \<times> nat) + json) \<Rightarrow> string \<Rightarrow> lenient_error + json" where
  "parse_lenient_json loads s =
     (let t = strip_code_fence s
      in case loads t of
           Inr v \<Rightarrow> Inr v
         | Inl _ \<Rightarrow>
             (case object_span t of
                None \<Rightarrow> Inl NoObject
              | Some sub \<Rightarrow> (case loads sub of Inr v \<Rightarrow> Inr v | Inl (msg, pos) \<Rightarrow> Inl (InvalidJson msg pos))))"

section \<open>Plans\<close>

definition validate_step :: "reader \<Rightarrow> json dict \<Rightarrow> nat \<Rightarrow> string option" where
  "validate_step rd s i =
     (case rd_schema rd s of
        None \<Rightarrow> None
      | Some (path, msg) \<Rightarrow>
          Some (''Step '' @ quoted (case dget s ''id'' of None \<Rightarrow> ''#'' @ show_nat i | Some v \<Rightarrow> py_str v) @ '' has an error: field ''
            @ quoted (if path = [] then ''structure'' else join ''.'' path) @ '': '' @ msg
            @ ''. Remember: ALL tool parameters must be inside '' @ quoted ''input'' @ ''.''))"

text \<open>The old name of the input field.\<close>

definition rename_parameters :: "json dict \<Rightarrow> json dict" where
  "rename_parameters s =
     AList.delete ''parameters''
       (case (dget s ''input'', dget s ''parameters'') of
          (None, Some v) \<Rightarrow> dset ''input'' v (AList.delete ''parameters'' s)
        | _ \<Rightarrow> s)"

definition str_field :: "json dict \<Rightarrow> string \<Rightarrow> string option" where
  "str_field d k = (case dget d k of None \<Rightarrow> Some [] | Some (JStr s) \<Rightarrow> Some s | Some _ \<Rightarrow> None)"

fun str_items :: "json list \<Rightarrow> string list option" where
  "str_items [] = Some []"
| "str_items (JStr s # xs) = map_option ((#) s) (str_items xs)"
| "str_items (_ # xs) = None"

definition strs_field :: "json dict \<Rightarrow> string \<Rightarrow> string list option" where
  "strs_field d k = (case dget d k of None \<Rightarrow> Some [] | Some (JList xs) \<Rightarrow> str_items xs | Some _ \<Rightarrow> None)"

text \<open>The values pydantic takes for a boolean.\<close>

definition bool_value :: "json \<Rightarrow> bool option" where
  "bool_value v =
     (case v of
        JBool b \<Rightarrow> Some b
      | JInt i \<Rightarrow> if i = 0 then Some False else if i = 1 then Some True else None
      | JFloat r \<Rightarrow> if r = ''0.0'' \<or> r = ''-0.0'' then Some False else if r = ''1.0'' then Some True else None
      | JStr s \<Rightarrow> if lower s \<in> {''0'', ''off'', ''f'', ''false'', ''n'', ''no''} then Some False
                 else if lower s \<in> {''1'', ''on'', ''t'', ''true'', ''y'', ''yes''} then Some True else None
      | _ \<Rightarrow> None)"

definition bool_field :: "json dict \<Rightarrow> string \<Rightarrow> bool option" where
  "bool_field d k = (case dget d k of None \<Rightarrow> Some False | Some v \<Rightarrow> bool_value v)"

definition step_of_json :: "json dict \<Rightarrow> dag_step option" where
  "step_of_json s =
     (case (str_field s ''id'', str_field s ''tool'', strs_field s ''depends_on'', str_field s ''description'') of
        (Some sid, Some tool, Some deps, Some descr) \<Rightarrow>
          Some (DagStep0\<lparr>ds_id := sid, ds_tool := tool,
            ds_input := (case dget s ''input'' of Some (JDict d) \<Rightarrow> d | _ \<Rightarrow> []), ds_depends_on := deps, ds_description := descr,
            ds_probe := (case dget s ''probe'' of None \<Rightarrow> False | Some v \<Rightarrow> truthy v)\<rparr>)
      | _ \<Rightarrow> None)"

text \<open>\<open>Inl\<close> an exception, \<open>Inr (Inl err)\<close> an error text for the model, \<open>Inr (Inr x)\<close> a value.\<close>

fun steps_of_json :: "reader \<Rightarrow> nat \<Rightarrow> json list \<Rightarrow> py_exc + (string + dag_step list)" where
  "steps_of_json rd i [] = Inr (Inr [])"
| "steps_of_json rd i (JDict s0 # xs) =
     (let s = rename_parameters s0
      in case validate_step rd s i of
           Some err \<Rightarrow> Inr (Inl err)
         | None \<Rightarrow>
             (case step_of_json s of
                None \<Rightarrow> Inl (rd_model_error rd ''DagStep'')
              | Some step \<Rightarrow> rmap (map_sum id ((#) step)) (steps_of_json rd (Suc i) xs)))"
| "steps_of_json rd i (_ # xs) = Inr (Inl (''Step #'' @ show_nat i @ '' is not a JSON object''))"

definition task_notes :: "string set \<Rightarrow> json option \<Rightarrow> string dict" where
  "task_notes executed raw =
     (case raw of
        Some (JDict tasks) \<Rightarrow>
          fold (\<lambda>(sid, v) d. case v of
                  JStr ts \<Rightarrow>
                    if executed \<noteq> {} \<and> sid \<notin> executed then d
                    else dset sid (if ts \<in> task_state_value ` {UNKNOWN, ACHIEVED, PARTIAL, NOT_ACHIEVED, WAIVED} then ts
                                   else task_state_value UNKNOWN) d
                | _ \<Rightarrow> d) tasks []
      | _ \<Rightarrow> [])"

fun declared_of_json :: "reader \<Rightarrow> json list \<Rightarrow> py_exc + required_operation list" where
  "declared_of_json rd [] = Inr []"
| "declared_of_json rd (JDict item # xs) =
     (case (dget item ''tool'', dget item ''input'') of
        (Some tool, Some (JDict inp)) \<Rightarrow>
          if \<not> truthy tool then declared_of_json rd xs
          else (case tool of
                  JStr t \<Rightarrow> rmap ((#) \<lparr> ro_tool = t, ro_input = inp \<rparr>) (declared_of_json rd xs)
                | _ \<Rightarrow> Inl (rd_model_error rd ''RequiredOperation''))
      | _ \<Rightarrow> declared_of_json rd xs)"
| "declared_of_json rd (_ # xs) = declared_of_json rd xs"

definition plan_of_json :: "reader \<Rightarrow> string set \<Rightarrow> json dict \<Rightarrow> py_exc + (string + dag_plan)" where
  "plan_of_json rd executed data =
     (case dget data ''steps'' of
        Some (JList steps_raw) \<Rightarrow>
          rbind (steps_of_json rd 0 steps_raw) (\<lambda>res. case res of
              Inl err \<Rightarrow> Inr (Inl err)
            | Inr steps \<Rightarrow>
                rbind (case dget data ''declared_operations'' of Some (JList ops) \<Rightarrow> declared_of_json rd ops | _ \<Rightarrow> Inr []) (\<lambda>ops.
                  case (str_field data ''intent'', bool_field data ''failed'') of
                    (Some intent, Some failed) \<Rightarrow>
                      Inr (Inr (DagPlan0\<lparr>dp_intent := intent, dp_steps := steps, dp_failed := failed,
                        dp_step_tasks := task_notes executed (dget data ''step_tasks''), dp_declared_operations := ops\<rparr>))
                  | _ \<Rightarrow> Inl (rd_model_error rd ''DagPlan'')))
      | _ \<Rightarrow> Inr (Inl (''Missing or invalid '' @ quoted ''steps'' @ '' array'')))"

definition parse_plan_response :: "reader \<Rightarrow> string \<Rightarrow> string set \<Rightarrow> py_exc + (string + dag_plan)" where
  "parse_plan_response rd response executed =
     (case parse_lenient_json (rd_loads rd) response of
        Inl NoObject \<Rightarrow> Inr (Inl ''No JSON object found in response'')
      | Inl (InvalidJson msg pos) \<Rightarrow> Inr (Inl (''JSON parse error: '' @ msg @ '' at position '' @ show_nat pos))
      | Inr (JDict data) \<Rightarrow> plan_of_json rd executed data
      | Inr _ \<Rightarrow> Inr (Inl (''Top-level value must be a JSON object with a '' @ quoted ''steps'' @ '' array'')))"

section \<open>Repair proposals\<close>

definition text_field :: "json dict \<Rightarrow> string \<Rightarrow> string" where
  "text_field d k = (case dget d k of Some v \<Rightarrow> if truthy v then py_str v else [] | None \<Rightarrow> [])"

definition not_null :: "json option \<Rightarrow> json option" where
  "not_null x = (if x = Some JNull then None else x)"

text \<open>\<open>Inl err\<close> asks the model again; \<open>Inr None\<close> is its answer that no repair is possible.\<close>

definition parse_local_repair_proposal :: "(string \<Rightarrow> (string \<times> nat) + json) \<Rightarrow> string \<Rightarrow> string + local_repair_proposal option" where
  "parse_local_repair_proposal loads response =
     (case parse_lenient_json loads response of
        Inl NoObject \<Rightarrow> Inl ''No JSON object found in local-repair response''
      | Inl (InvalidJson _ _) \<Rightarrow> Inl ''Local-repair response is not valid JSON''
      | Inr (JDict data) \<Rightarrow>
          (let tool = strip (text_field data ''tool_name'')
           in if tool = [] then Inr None
              else case (case not_null (dget data ''input'') of None \<Rightarrow> dget data ''parameters'' | v \<Rightarrow> v) of
                     Some (JDict inp) \<Rightarrow>
                       Inr (Some \<lparr> lrp_step_id = text_field data ''step_id'', lrp_tool_name = tool, lrp_input = inp \<rparr>)
                   | _ \<Rightarrow> Inl (''Local-repair proposal for tool '' @ quoted tool @ '' must include an '' @ quoted ''input'' @ '' object''))
      | Inr _ \<Rightarrow> Inl ''Local-repair response root must be a JSON object'')"

section \<open>Prompt parts\<close>

definition build_feedback_section :: "string option \<Rightarrow> string" where
  "build_feedback_section feedback =
     (if \<not> opt_truthy feedback then []
      else [CHR 0x0A] @ ''## System Monitoring Feedback'' @ [CHR 0x0A] @ opt_or feedback [] @ [CHR 0x0A]
        @ ''Take this feedback into account when planning the next steps.'' @ [CHR 0x0A])"

definition build_tool_descriptions_subset :: "tool_definition list \<Rightarrow> string list \<Rightarrow> string" where
  "build_tool_descriptions_subset tds names =
     (let by_name = fold (\<lambda>td d. dset (td_name td) td d) tds [];
          rows = List.map_filter (\<lambda>n. map_option (\<lambda>td. ''  - '' @ td_name td @ '' (read-only): '' @ td_description td) (dget by_name n)) names
      in if rows = [] then ''  (no read-only tools allowed '' @ dash @ '' no repair possible)'' else join [CHR 0x0A] rows)"

definition context_section :: "string \<Rightarrow> string" where
  "context_section ctx =
     (if ctx = [] then []
      else ''## Conversation Context (reference only)'' @ [CHR 0x0A] @ take 4000 ctx @ [CHR 0x0A, CHR 0x0A])"

section \<open>Rejections\<close>

definition record_plan_rejection :: "exec_env \<Rightarrow> string \<Rightarrow> reject_stage \<Rightarrow> nat \<Rightarrow> string list \<Rightarrow> bool \<Rightarrow> unit action" where
  "record_plan_rejection env run_id stage attempt reasons recovered =
     (if run_id = [] then act_return ()
      else log_append env run_id (PDiagnostic (PlanRejected \<lparr> prj_stage = stage, prj_attempt = int attempt,
             prj_reasons = reasons, prj_recovered = recovered \<rparr>)) None)"

section \<open>The planner\<close>

text \<open>
  The language model is a parameter: it answers a phase's prompt, given by the parts that vary, the number of the attempt and the error
  text fed back to it, and may answer differently at different states of the run.
\<close>

type_synonym chat = "exec_ctx \<Rightarrow> string \<Rightarrow> string list \<Rightarrow> nat \<Rightarrow> string \<Rightarrow> py_exc + string"

record planner =
  pn_env :: exec_env
  pn_tools :: "tool_definition dict"
  pn_max_retries :: int
  pn_chat :: chat
  pn_reader :: reader

definition pn_registry :: "planner \<Rightarrow> unit registry" where
  "pn_registry pn = \<lparr> rg_tools = pn_tools pn, rg_fns = [] \<rparr>"

definition act_result :: "py_error + 'a \<Rightarrow> 'a action" where
  "act_result r = (case r of Inl e \<Rightarrow> act_raise (exc_of_error e) | Inr x \<Rightarrow> act_return x)"

definition act_sum :: "py_exc + 'a \<Rightarrow> 'a action" where
  "act_sum r = (case r of Inl e \<Rightarrow> act_raise e | Inr x \<Rightarrow> act_return x)"

definition chat_structured :: "planner \<Rightarrow> string \<Rightarrow> string list \<Rightarrow> nat \<Rightarrow> string \<Rightarrow> string action" where
  "chat_structured pn phase args attempt last_error c = act_sum (pn_chat pn c phase args attempt last_error) c"

text \<open>Returns the plan with the answer it was read from.\<close>

fun plan_attempts :: "planner \<Rightarrow> string \<Rightarrow> string \<Rightarrow> string list \<Rightarrow> nat \<Rightarrow> nat \<Rightarrow> string \<Rightarrow> (dag_plan \<times> string) option action" where
  "plan_attempts pn run_id intent args 0 attempt last_error = act_return None"
| "plan_attempts pn run_id intent args (Suc left) attempt last_error =
     act_bind (chat_structured pn ''plan'' args attempt last_error) (\<lambda>response.
     act_bind (act_sum (parse_plan_response (pn_reader pn) response {})) (\<lambda>parsed.
       case parsed of
         Inl err \<Rightarrow> plan_attempts pn run_id intent args left (Suc attempt) err
       | Inr plan0 \<Rightarrow>
           (let plan = plan0\<lparr>dp_user_intent := intent\<rparr>
            in act_bind (act_result (validate_plan (pn_registry pn) plan {} {})) (\<lambda>errors.
                 if errors \<noteq> []
                 then act_then (record_plan_rejection (pn_env pn) run_id StagePlan attempt errors (int attempt < pn_max_retries pn + 1))
                        (plan_attempts pn run_id intent args left (Suc attempt) (join ''; '' errors))
                 else act_return (Some (plan, response))))))"

definition planner_plan :: "planner \<Rightarrow> string \<Rightarrow> string \<Rightarrow> string option \<Rightarrow> string \<Rightarrow> (dag_plan \<times> string) option action" where
  "planner_plan pn run_id intent feedback conversation =
     plan_attempts pn run_id intent [intent, context_section conversation, build_feedback_section feedback]
       (nat (pn_max_retries pn + 1)) 1 []"

definition executed_ids :: "step_result dict \<Rightarrow> string set" where
  "executed_ids results = fst ` set (filter (\<lambda>kv. should_not_rerun (snd kv)) results)"

definition available_ids :: "step_result dict \<Rightarrow> string set" where
  "available_ids results = fst ` set (filter (\<lambda>kv. output_available (snd kv)) results)"

text \<open>An answer without steps keeps the declared operations of the plan it revises.\<close>

definition adopt_intent :: "dag_plan \<Rightarrow> dag_plan \<Rightarrow> dag_plan" where
  "adopt_intent plan revised = (if dp_user_intent revised = [] then revised\<lparr>dp_user_intent := dp_user_intent plan\<rparr> else revised)"

definition empty_revision :: "dag_plan \<Rightarrow> dag_plan \<Rightarrow> dag_plan" where
  "empty_revision plan revised =
     revised\<lparr>dp_steps := [], dp_user_intent := dp_user_intent plan, dp_declared_operations := dp_declared_operations plan\<rparr>"

fun revise_attempts :: "planner \<Rightarrow> string \<Rightarrow> dag_plan \<Rightarrow> step_result dict \<Rightarrow> string list \<Rightarrow> nat \<Rightarrow> nat \<Rightarrow> string \<Rightarrow> dag_plan option action" where
  "revise_attempts pn run_id plan results args 0 attempt last_error = act_return None"
| "revise_attempts pn run_id plan results args (Suc left) attempt last_error =
     act_bind (chat_structured pn ''revise'' args attempt last_error) (\<lambda>response.
     act_bind (act_sum (parse_plan_response (pn_reader pn) response (executed_ids results))) (\<lambda>parsed.
       case parsed of
         Inl err \<Rightarrow> revise_attempts pn run_id plan results args left (Suc attempt) err
       | Inr revised0 \<Rightarrow>
           (let revised = adopt_intent plan revised0
            in if dp_steps revised = [] then act_return (Some (empty_revision plan revised))
               else act_bind (act_result (validate_plan (pn_registry pn) revised (executed_ids results) (available_ids results))) (\<lambda>errors.
                      if errors \<noteq> []
                      then act_then (record_plan_rejection (pn_env pn) run_id StageRevise attempt errors (int attempt < pn_max_retries pn + 1))
                             (revise_attempts pn run_id plan results args left (Suc attempt) (join ''; '' errors))
                      else act_return (Some revised)))))"

definition revise_intent :: "dag_plan \<Rightarrow> string \<Rightarrow> string" where
  "revise_intent plan intent_fallback =
     (if dp_intent plan \<noteq> [] then take 200 (dp_intent plan)
      else if intent_fallback \<noteq> [] then take 200 intent_fallback else ''(unknown)'')"

definition planner_revise :: "planner \<Rightarrow> string \<Rightarrow> dag_plan \<Rightarrow> step_result dict \<Rightarrow> string \<Rightarrow> string \<Rightarrow> string option \<Rightarrow> dag_plan option action" where
  "planner_revise pn run_id plan results system_state intent_fallback feedback =
     (let intent = revise_intent plan intent_fallback;
          user_intent = (if dp_user_intent plan \<noteq> [] then take 200 (dp_user_intent plan) else intent)
      in revise_attempts pn run_id plan results [user_intent, intent, system_state, build_feedback_section feedback]
           (nat (pn_max_retries pn + 1)) 1 [])"

text \<open>The first failure of the model ends a proposal without one; a malformed answer is asked for again.\<close>

fun repair_attempts :: "planner \<Rightarrow> string list \<Rightarrow> nat \<Rightarrow> nat \<Rightarrow> string \<Rightarrow> exec_ctx \<Rightarrow> local_repair_proposal option" where
  "repair_attempts pn args 0 attempt last_error c = None"
| "repair_attempts pn args (Suc left) attempt last_error c =
     (case pn_chat pn c ''local_repair'' args attempt last_error of
        Inl _ \<Rightarrow> None
      | Inr response \<Rightarrow>
          (case parse_local_repair_proposal (rd_loads (pn_reader pn)) response of
             Inr prop \<Rightarrow> prop
           | Inl err \<Rightarrow> repair_attempts pn args left (Suc attempt) err c))"

definition propose_local_repair :: "planner \<Rightarrow> exec_ctx \<Rightarrow> dag_step \<Rightarrow> string option \<Rightarrow> string list \<Rightarrow> local_repair_proposal option" where
  "propose_local_repair pn c step err allowed =
     repair_attempts pn [ds_id step, ds_tool step, take 500 (json_dumps False (JDict (ds_input step))), take 200 (strip (ds_description step)),
         take 400 (opt_or err ''unknown''), build_tool_descriptions_subset (map snd (pn_tools pn)) allowed]
       (nat (pn_max_retries pn + 1)) 1 [] c"

section \<open>The planner returns only validated plans\<close>

lemma log_append_ok:
  assumes "log_ok env run_id c"
  shows "\<exists>c'. log_append env run_id p None c = (Inr (), c') \<and> wrote env run_id c [(p, None)] c' \<and> xc_calls c' = xc_calls c \<and> log_ok env run_id c'"
proof -
  have "ensures (log_append env run_id p None) c
      (\<lambda>r c'. r = Inr () \<and> wrote env run_id c [(p, None)] c' \<and> xc_calls c' = xc_calls c)"
    by (rule ensures_log_append) (use assms in \<open>auto simp: log_ok_def key_free_def\<close>)
  then obtain c' where "log_append env run_id p None c = (Inr (), c')" "wrote env run_id c [(p, None)] c'" "xc_calls c' = xc_calls c"
    by (auto simp: ensures_def split: prod.splits)
  then show ?thesis using wrote_log_ok[OF assms] by blast
qed

definition rejections :: "plan_rejected_payload list \<Rightarrow> (payload \<times> string option) list" where
  "rejections ps = map (\<lambda>p. (PDiagnostic (PlanRejected p), None)) ps"

text \<open>
  The contract of an activity of the planner: it writes nothing but rejections of its stage, numbered from its first attempt and no
  more than its budget, and runs no tool.
\<close>

definition quiet_from :: "exec_env \<Rightarrow> string \<Rightarrow> reject_stage \<Rightarrow> nat \<Rightarrow> exec_ctx \<Rightarrow> exec_ctx \<Rightarrow> bool" where
  "quiet_from env run_id stage budget c c' \<longleftrightarrow>
     (\<exists>rejected. wrote env run_id c (rejections rejected) c' \<and> xc_calls c' = xc_calls c \<and> length rejected \<le> budget
        \<and> (\<forall>p\<in>set rejected. prj_stage p = stage))"

lemma quiet_from_refl: "log_ok env run_id c \<Longrightarrow> quiet_from env run_id stage n c c"
  unfolding quiet_from_def by (intro exI[of _ "[]"]) (auto simp: rejections_def log_ok_def intro!: wrote_Nil)

lemma quiet_from_mono: "quiet_from env run_id stage n c c' \<Longrightarrow> n \<le> m \<Longrightarrow> quiet_from env run_id stage m c c'"
  unfolding quiet_from_def by (meson le_trans)

lemma quiet_from_log_ok: "log_ok env run_id c \<Longrightarrow> quiet_from env run_id stage n c c' \<Longrightarrow> log_ok env run_id c'"
  unfolding quiet_from_def using wrote_log_ok by blast

text \<open>A recorded rejection, and what comes after it.\<close>

lemma record_plan_rejection_quiet:
  assumes "log_ok env run_id c"
  obtains c1 where "record_plan_rejection env run_id stage attempt reasons recovered c = (Inr (), c1)" "log_ok env run_id c1"
    "\<And>c' n. quiet_from env run_id stage n c1 c' \<Longrightarrow> quiet_from env run_id stage (Suc n) c c'"
proof (cases "run_id = []")
  case True
  then show ?thesis using assms
    by (intro that[of c]) (auto simp: record_plan_rejection_def act_return_def elim: quiet_from_mono)
next
  case False
  define p where "p = \<lparr> prj_stage = stage, prj_attempt = int attempt, prj_reasons = reasons, prj_recovered = recovered \<rparr>"
  obtain c1 where c1: "log_append env run_id (PDiagnostic (PlanRejected p)) None c = (Inr (), c1)"
      "wrote env run_id c [(PDiagnostic (PlanRejected p), None)] c1" "xc_calls c1 = xc_calls c" "log_ok env run_id c1"
    using log_append_ok[OF assms] by blast
  have "quiet_from env run_id stage (Suc n) c c'" if q: "quiet_from env run_id stage n c1 c'" for n c'
  proof -
    obtain rejected where r: "wrote env run_id c1 (rejections rejected) c'" "xc_calls c' = xc_calls c1" "length rejected \<le> n"
        "\<forall>p\<in>set rejected. prj_stage p = stage" using q by (auto simp: quiet_from_def)
    have "wrote env run_id c (rejections (p # rejected)) c'" using wrote_trans[OF c1(2) r(1)] by (simp add: rejections_def)
    then show ?thesis unfolding quiet_from_def using r c1(3) by (intro exI[of _ "p # rejected"]) (auto simp: p_def)
  qed
  then show ?thesis using c1(1,4) False by (intro that[of c1]) (simp_all add: record_plan_rejection_def p_def)
qed

lemma ensures_sum [action_wp]:
  "ensures (act_sum r) c Q \<longleftrightarrow> Q r c" "ensures (act_result r') c Q' \<longleftrightarrow> Q' (map_sum exc_of_error id r') c"
  by (cases r; simp add: act_sum_def action_wp) (cases r'; simp add: act_result_def action_wp)

lemma ensures_chat [action_wp]: "ensures (chat_structured pn phase args attempt err) c Q \<longleftrightarrow> Q (pn_chat pn c phase args attempt err) c"
  by (cases "pn_chat pn c phase args attempt err") (simp_all add: chat_structured_def ensures_def act_sum_def act_raise_def act_return_def)

lemma map_sum_Inr [simp]: "map_sum f id r = Inr x \<longleftrightarrow> r = Inr x"
  by (cases r) auto

lemma ensures_rejection:
  assumes "log_ok env run_id c"
    and "\<And>c1. log_ok env run_id c1 \<Longrightarrow> (\<And>c' n. quiet_from env run_id stage n c1 c' \<Longrightarrow> quiet_from env run_id stage (Suc n) c c') \<Longrightarrow> Q (Inr ()) c1"
  shows "ensures (record_plan_rejection env run_id stage attempt reasons recovered) c Q"
  using record_plan_rejection_quiet[OF assms(1), of stage attempt reasons recovered] assms(2)
  by (smt (verit) ensures_def old.prod.case)

text \<open>What a bounded sequence of attempts leaves: a quiet log, and an answer that is none or good.\<close>

definition attempts_post :: "exec_env \<Rightarrow> string \<Rightarrow> reject_stage \<Rightarrow> ('a \<Rightarrow> bool) \<Rightarrow> nat \<Rightarrow> exec_ctx \<Rightarrow> py_exc + 'a option \<Rightarrow> exec_ctx \<Rightarrow> bool" where
  "attempts_post env run_id stage good budget c r c' \<longleftrightarrow>
     quiet_from env run_id stage budget c c' \<and> (\<forall>x. r = Inr (Some x) \<longrightarrow> good x)"

lemma attempts_stop:
  "log_ok env run_id c \<Longrightarrow> attempts_post env run_id stage good n c (Inl e) c"
  "log_ok env run_id c \<Longrightarrow> attempts_post env run_id stage good n c (Inr None) c"
  "log_ok env run_id c \<Longrightarrow> good x \<Longrightarrow> attempts_post env run_id stage good n c (Inr (Some x)) c"
  by (simp_all add: attempts_post_def quiet_from_refl)

lemma attempts_again:
  assumes "ensures m c1 (attempts_post env run_id stage good n c1)"
    and "\<And>c'. quiet_from env run_id stage n c1 c' \<Longrightarrow> quiet_from env run_id stage (Suc n) c c'"
  shows "ensures m c1 (attempts_post env run_id stage good (Suc n) c)"
  using assms(2) by (intro ensures_mono[OF assms(1)]) (auto simp: attempts_post_def)

lemma plan_attempts_outcome:
  "log_ok (pn_env pn) run_id c \<Longrightarrow> ensures (plan_attempts pn run_id intent args budget attempt err) c
     (attempts_post (pn_env pn) run_id StagePlan
        (\<lambda>(plan, raw). validate_plan (pn_registry pn) plan {} {} = Inr [] \<and> dp_user_intent plan = intent) budget c)"
proof (induction budget arbitrary: attempt err c)
  case (Suc budget)
  note more = attempts_again[OF Suc.IH]
  show ?case
    by (simp add: action_wp Let_def split: sum.splits)
      (auto intro!: attempts_stop[OF Suc.prems] ensures_rejection[OF Suc.prems] more Suc.prems elim: quiet_from_mono)
qed (simp add: action_wp attempts_stop)

lemma revise_attempts_outcome:
  "log_ok (pn_env pn) run_id c \<Longrightarrow> ensures (revise_attempts pn run_id plan results args budget attempt err) c
     (attempts_post (pn_env pn) run_id StageRevise
        (\<lambda>revised. validate_plan (pn_registry pn) revised (executed_ids results) (available_ids results) = Inr []
           \<and> (dp_steps revised = [] \<longrightarrow> dp_declared_operations revised = dp_declared_operations plan)) budget c)"
proof (induction budget arbitrary: attempt err c)
  case (Suc budget)
  note more = attempts_again[OF Suc.IH]
  have empty: "validate_plan rg (empty_revision plan r) a b = Inr []" "dp_declared_operations (empty_revision plan r) = dp_declared_operations plan"
    for rg r a b by (simp_all add: validate_plan_def empty_revision_def)
  show ?case
    by (simp add: action_wp Let_def split: sum.splits)
      (auto simp: action_wp empty split: sum.splits
         intro!: attempts_stop[OF Suc.prems] ensures_rejection[OF Suc.prems] more Suc.prems elim: quiet_from_mono)
qed (simp add: action_wp attempts_stop)

text \<open>C23: The planner returns only plans its guardrail accepts, with the request of the user unchanged; it asks the model at most once more
  than the configured retries; and apart from one rejection per refused answer it leaves no trace: it runs no tool and writes no
  other event, whatever the model answers and also when it raises.\<close>

theorem planner_plans_are_validated:
  assumes "log_ok (pn_env pn) run_id c" "planner_plan pn run_id intent feedback conversation c = (r, c')"
  shows "(\<forall>plan raw. r = Inr (Some (plan, raw)) \<longrightarrow> validate_plan (pn_registry pn) plan {} {} = Inr [] \<and> dp_user_intent plan = intent)
    \<and> xc_calls c' = xc_calls c
    \<and> (\<exists>rejected. wrote (pn_env pn) run_id c (map (\<lambda>p. (PDiagnostic (PlanRejected p), None)) rejected) c'
         \<and> length rejected \<le> nat (pn_max_retries pn + 1) \<and> (\<forall>p\<in>set rejected. prj_stage p = StagePlan))"
  using ensuresD[OF plan_attempts_outcome[OF assms(1)] assms(2)[unfolded planner_plan_def]]
  by (auto simp: attempts_post_def quiet_from_def rejections_def)

lemma planner_revise_outcome:
  "log_ok (pn_env pn) run_id c \<Longrightarrow> ensures (planner_revise pn run_id plan results st ifb fb) c
     (attempts_post (pn_env pn) run_id StageRevise
        (\<lambda>revised. validate_plan (pn_registry pn) revised (executed_ids results) (available_ids results) = Inr []
           \<and> (dp_steps revised = [] \<longrightarrow> dp_declared_operations revised = dp_declared_operations plan)) (nat (pn_max_retries pn + 1)) c)"
  unfolding planner_revise_def Let_def by (rule revise_attempts_outcome)

section \<open>Reading back what the model was asked to write\<close>

text \<open>A plan in the format the model is asked for.\<close>

definition step_to_json :: "dag_step \<Rightarrow> json dict" where
  "step_to_json s = [(''id'', JStr (ds_id s)), (''tool'', JStr (ds_tool s)), (''input'', JDict (ds_input s)),
     (''depends_on'', JList (map JStr (ds_depends_on s))), (''description'', JStr (ds_description s)), (''probe'', JBool (ds_probe s))]"

definition op_to_json :: "required_operation \<Rightarrow> json" where
  "op_to_json r = JDict [(''tool'', JStr (ro_tool r)), (''input'', JDict (ro_input r))]"

definition plan_to_json :: "dag_plan \<Rightarrow> json dict" where
  "plan_to_json p = [(''intent'', JStr (dp_intent p)), (''steps'', JList (map (JDict \<circ> step_to_json) (dp_steps p))),
     (''failed'', JBool (dp_failed p)), (''step_tasks'', JDict (map (map_prod id JStr) (dp_step_tasks p))),
     (''declared_operations'', JList (map op_to_json (dp_declared_operations p)))]"

text \<open>The plans the format can express: no field beyond the format, known task states, named operations.\<close>

definition expressible :: "dag_plan \<Rightarrow> bool" where
  "expressible p \<longleftrightarrow> dp_user_intent p = []
     \<and> (\<forall>s\<in>set (dp_steps p). ds_upstream_selectors s = None \<and> ds_max_parallel s = 10 \<and> ds_branches s = None)
     \<and> distinct (keys (dp_step_tasks p))
     \<and> snd ` set (dp_step_tasks p) \<subseteq> task_state_value ` {UNKNOWN, ACHIEVED, PARTIAL, NOT_ACHIEVED, WAIVED}
     \<and> (\<forall>r\<in>set (dp_declared_operations p). ro_tool r \<noteq> [])"

lemma str_items_map [simp]: "str_items (map JStr xs) = Some xs"
  by (induction xs) auto

lemma rename_step_to_json: "rename_parameters (step_to_json s) = step_to_json s"
  by (simp add: rename_parameters_def step_to_json_def)

lemma step_of_step_to_json:
  assumes "ds_upstream_selectors s = None" "ds_max_parallel s = 10" "ds_branches s = None"
  shows "step_of_json (step_to_json s) = Some s"
  using assms by (simp add: step_of_json_def step_to_json_def str_field_def strs_field_def DagStep0_def)

lemma steps_of_steps_to_json:
  assumes "\<forall>s\<in>set steps. ds_upstream_selectors s = None \<and> ds_max_parallel s = 10 \<and> ds_branches s = None"
    and "\<forall>s\<in>set steps. rd_schema rd (step_to_json s) = None"
  shows "steps_of_json rd i (map (JDict \<circ> step_to_json) steps) = Inr (Inr steps)"
  using assms
  by (induction steps arbitrary: i) (simp_all add: rename_step_to_json validate_step_def step_of_step_to_json Let_def)

lemma declared_of_ops_to_json:
  "\<forall>r\<in>set ops. ro_tool r \<noteq> [] \<Longrightarrow> declared_of_json rd (map op_to_json ops) = Inr ops"
  by (induction ops) (simp_all add: op_to_json_def)

lemma dset_fresh: "k \<notin> set (keys d) \<Longrightarrow> dset k v d = d @ [(k, v)]"
  by (induction d) auto

lemma fold_dset_fresh:
  "distinct (keys (acc @ kvs)) \<Longrightarrow> fold (\<lambda>(k, v). dset k v) kvs acc = acc @ kvs"
proof (induction kvs arbitrary: acc)
  case (Cons kv kvs)
  obtain k v where kv: "kv = (k, v)" by fastforce
  have "dset k v acc = acc @ [(k, v)]" using Cons.prems kv by (simp add: dset_fresh)
  then show ?case using Cons.IH[of "acc @ [(k, v)]"] Cons.prems kv by simp
qed simp

lemma task_notes_read_back:
  assumes "distinct (keys tasks)" "snd ` set tasks \<subseteq> task_state_value ` {UNKNOWN, ACHIEVED, PARTIAL, NOT_ACHIEVED, WAIVED}"
  shows "task_notes {} (Some (JDict (map (map_prod id JStr) tasks))) = tasks"
proof -
  have "task_notes {} (Some (JDict (map (map_prod id JStr) tasks))) = fold (\<lambda>(k, v). dset k v) tasks []"
    unfolding task_notes_def option.case json.case fold_map
    by (rule fold_cong) (use assms(2) in \<open>auto simp: fun_eq_iff\<close>)
  then show ?thesis using fold_dset_fresh[of "[]" tasks] assms(1) by simp
qed

lemma plan_read_back:
  assumes "expressible p" "\<forall>s\<in>set (dp_steps p). rd_schema rd (step_to_json s) = None"
  shows "plan_of_json rd {} (plan_to_json p) = Inr (Inr p)"
proof -
  note e = assms(1)[unfolded expressible_def]
  have get: "dget (plan_to_json p) ''steps'' = Some (JList (map (JDict \<circ> step_to_json) (dp_steps p)))"
    "dget (plan_to_json p) ''declared_operations'' = Some (JList (map op_to_json (dp_declared_operations p)))"
    "dget (plan_to_json p) ''step_tasks'' = Some (JDict (map (map_prod id JStr) (dp_step_tasks p)))"
    "str_field (plan_to_json p) ''intent'' = Some (dp_intent p)" "bool_field (plan_to_json p) ''failed'' = Some (dp_failed p)"
    by (simp_all add: plan_to_json_def str_field_def bool_field_def bool_value_def)
  have "steps_of_json rd 0 (map (JDict \<circ> step_to_json) (dp_steps p)) = Inr (Inr (dp_steps p))"
    by (rule steps_of_steps_to_json) (use e assms(2) in auto)
  moreover have "declared_of_json rd (map op_to_json (dp_declared_operations p)) = Inr (dp_declared_operations p)"
    by (rule declared_of_ops_to_json) (use e in auto)
  moreover have "task_notes {} (Some (JDict (map (map_prod id JStr) (dp_step_tasks p)))) = dp_step_tasks p"
    by (rule task_notes_read_back) (use e in auto)
  ultimately show ?thesis using e by (simp add: plan_of_json_def get DagPlan0_def)
qed

text \<open>A code fence around the answer is taken off.\<close>

definition fenced :: "string \<Rightarrow> string \<Rightarrow> string" where
  "fenced lang t = fence @ lang @ [CHR 0x0A] @ t @ [CHR 0x0A] @ fence"

lemma last_sorted_max: "sorted xs \<Longrightarrow> n \<in> set xs \<Longrightarrow> (\<And>i. i \<in> set xs \<Longrightarrow> i \<le> n) \<Longrightarrow> last xs = (n :: nat)"
  by (induction xs) (auto intro: antisym)

lemma before_last_suffix: "p \<noteq> [] \<Longrightarrow> before_last p (s @ p) = s"
proof -
  assume p: "p \<noteq> []"
  define hits where "hits = filter (\<lambda>i. starts_with p (drop i (s @ p))) [0..<Suc (length (s @ p))]"
  have mem: "length s \<in> set hits" by (simp add: hits_def starts_with_iff)
  have "i \<le> length s" if i: "i \<in> set hits" for i
  proof -
    have "starts_with p (drop i (s @ p))" using i unfolding hits_def set_filter by blast
    then obtain t where "drop i (s @ p) = p @ t" unfolding starts_with_iff by blast
    then have "length (s @ p) - i = length p + length t" by (metis length_append length_drop)
    moreover have "0 < length p" using p by simp
    ultimately show ?thesis unfolding length_append by arith
  qed
  moreover have "sorted hits" by (simp add: hits_def sorted_wrt_filter del: upt_Suc)
  ultimately have "last hits = length s" using last_sorted_max[OF _ mem] by blast
  then show ?thesis using mem unfolding before_last_def hits_def[symmetric] by (cases hits) auto
qed

lemma strip_id_iff: "strip t = t \<longleftrightarrow> t = [] \<or> \<not> is_space (hd t) \<and> \<not> is_space (last t)"
proof
  assume s: "strip t = t"
  have "length (strip t) \<le> length (dropWhile is_space t)"
    by (simp add: strip_def rstrip_chars_def lstrip_def) (metis length_dropWhile_le length_rev)
  then have "length t \<le> length (dropWhile is_space t)" using s by simp
  moreover have "takeWhile is_space t @ dropWhile is_space t = t" by simp
  ultimately have "takeWhile is_space t = []" by (metis add_le_same_cancel2 le_zero_eq length_0_conv length_append)
  then have l: "dropWhile is_space t = t" by (metis append_Nil takeWhile_dropWhile_id)
  then have "rev (dropWhile is_space (rev t)) = t" using s by (simp add: strip_def rstrip_chars_def lstrip_def)
  then have "dropWhile is_space (rev t) = rev t" by (metis rev_rev_ident)
  then show "t = [] \<or> \<not> is_space (hd t) \<and> \<not> is_space (last t)" using l by (auto simp: dropWhile_eq_self_iff hd_rev)
next
  assume "t = [] \<or> \<not> is_space (hd t) \<and> \<not> is_space (last t)"
  then have "dropWhile is_space t = t" "dropWhile is_space (rev t) = rev t" by (auto simp: dropWhile_eq_self_iff hd_rev)
  then show "strip t = t" by (simp add: strip_def rstrip_chars_def lstrip_def)
qed

lemma strip_fenced:
  assumes "strip t = t" "t \<noteq> []" "CHR 0x0A \<notin> set lang"
  shows "strip_code_fence (fenced lang t) = t"
proof -
  have sp: "\<not> is_space (CHR 0x60)" "is_space (CHR 0x0A)" by (simp_all add: is_space_def)
  have "hd (fenced lang t) = CHR 0x60" "last (fenced lang t) = CHR 0x60" by (simp_all add: fenced_def fence_def numeral_eq_Suc)
  then have "strip (fenced lang t) = fenced lang t" by (simp add: strip_id_iff sp(1))
  moreover have "starts_with fence (fenced lang t)" by (auto simp: starts_with_iff fenced_def)
  moreover have "after_first (CHR 0x0A) (fenced lang t) = t @ [CHR 0x0A] @ fence"
  proof -
    have idx: "index_of (CHR 0x0A) (xs @ CHR 0x0A # ys) = length xs" if "CHR 0x0A \<notin> set xs" for xs ys
      using that by (induction xs) auto
    show ?thesis using idx[of "fence @ lang"] assms(3) by (simp add: after_first_def fenced_def) (simp add: fence_def)
  qed
  moreover have "before_last fence ((t @ [CHR 0x0A]) @ fence) = t @ [CHR 0x0A]" by (rule before_last_suffix) (simp add: fence_def)
  moreover have "strip (t @ [CHR 0x0A]) = t"
  proof -
    have "lstrip (t @ [CHR 0x0A]) = t @ [CHR 0x0A]" using assms(1,2) unfolding strip_id_iff lstrip_def by (simp add: dropWhile_eq_self_iff)
    moreover have "dropWhile is_space (rev t) = rev t" using assms(1,2) unfolding strip_id_iff by (simp add: dropWhile_eq_self_iff hd_rev)
    ultimately show ?thesis by (simp add: strip_def rstrip_chars_def sp(2))
  qed
  ultimately show ?thesis by (simp add: strip_code_fence_def)
qed

text \<open>C24: What the planner asks the model to write is read back exactly: a plan in the requested format, bare or in a code fence of any
  language, is parsed to that plan, with every step, note and declared operation in order.\<close>

theorem plan_response_round_trip:
  assumes "expressible p" "\<forall>s\<in>set (dp_steps p). rd_schema rd (step_to_json s) = None"
    and "rd_loads rd t = Inr (JDict (plan_to_json p))" "strip t = t" "hd t = CHR 0x7B" "t \<noteq> []" "CHR 0x0A \<notin> set lang"
  shows "parse_plan_response rd t {} = Inr (Inr p) \<and> parse_plan_response rd (fenced lang t) {} = Inr (Inr p)"
proof -
  have "\<not> starts_with fence t" using assms(5,6) by (cases t) (auto simp: fence_def numeral_eq_Suc)
  then have "strip_code_fence t = t" using assms(4) by (simp add: strip_code_fence_def)
  moreover have "strip_code_fence (fenced lang t) = t" by (rule strip_fenced[OF assms(4,6,7)])
  ultimately show ?thesis using plan_read_back[OF assms(1,2)] assms(3)
    by (simp add: parse_plan_response_def parse_lenient_json_def Let_def)
qed

text \<open>An answer whose intent is null is not fed back to the model as a format error: building the plan raises, and the exception
  leaves the planner with its remaining attempts unused.\<close>

theorem null_intent_raises:
  assumes "rd_loads (pn_reader pn) t = Inr (JDict [(''intent'', JNull), (''steps'', JList [])])" "strip t = t" "hd t = CHR 0x7B" "t \<noteq> []"
    and "pn_chat pn c ''plan'' [intent, context_section conv, build_feedback_section fb] 1 [] = Inr t" "0 \<le> pn_max_retries pn"
  shows "planner_plan pn run_id intent fb conv c = (Inl (rd_model_error (pn_reader pn) ''DagPlan''), c)"
proof -
  have "\<not> starts_with fence t" using assms(3,4) by (cases t) (auto simp: fence_def numeral_eq_Suc)
  then have "strip_code_fence t = t" using assms(2) by (simp add: strip_code_fence_def)
  then have "parse_plan_response (pn_reader pn) t {} = Inl (rd_model_error (pn_reader pn) ''DagPlan'')"
    using assms(1) by (simp add: parse_plan_response_def parse_lenient_json_def Let_def plan_of_json_def str_field_def)
  moreover obtain n where "nat (pn_max_retries pn + 1) = Suc n" using assms(6) by (cases "nat (pn_max_retries pn + 1)") auto
  ultimately show ?thesis using assms(5)
    by (simp add: planner_plan_def chat_structured_def act_bind_def act_sum_def act_return_def act_raise_def)
qed

section \<open>Samples\<close>

definition brief_plan :: dag_plan where
  "brief_plan = DagPlan0\<lparr>dp_intent := ''note it'', dp_steps := [note_step ''s1'' ''hi'' []], dp_step_tasks := [(''s1'', ''achieved'')],
     dp_declared_operations := [\<lparr> ro_tool = ''note'', ro_input = [] \<rparr>]\<rparr>"

text \<open>A decoder that knows two texts, and a schema check that accepts every step.\<close>

definition brief_text :: string where
  "brief_text = [CHR 0x7B, CHR 0x7D]"

definition brief_reader :: "json dict \<Rightarrow> reader" where
  "brief_reader d = \<lparr> rd_loads = (\<lambda>s. if s = brief_text then Inr (JDict d) else Inl (''bad'', 0)), rd_schema = (\<lambda>_. None),
     rd_model_error = other_exc ''ValidationError'' \<rparr>"

lemma brief_text_facts: "strip brief_text = brief_text" "hd brief_text = CHR 0x7B" "brief_text \<noteq> []"
  by (simp_all add: strip_id_iff brief_text_def is_space_def)

lemma plan_response_round_trip_witness:
  "parse_plan_response (brief_reader (plan_to_json brief_plan)) (fenced ''json'' brief_text) {} = Inr (Inr brief_plan)"
proof -
  have "expressible brief_plan" by (simp add: expressible_def brief_plan_def note_step_def DagPlan0_def DagStep0_def)
  then show ?thesis
    using plan_response_round_trip[of brief_plan "brief_reader (plan_to_json brief_plan)" brief_text "''json''"] brief_text_facts
    by (simp add: brief_reader_def)
qed

definition brief_planner :: "json dict \<Rightarrow> planner" where
  "brief_planner d = \<lparr> pn_env = sample_env, pn_tools = rg_tools note_registry, pn_max_retries = 2, pn_chat = (\<lambda>_ _ _ _ _. Inr brief_text),
     pn_reader = brief_reader d \<rparr>"

lemma null_intent_raises_witness:
  "planner_plan (brief_planner [(''intent'', JNull), (''steps'', JList [])]) ''r1'' ''do it'' None [] sample_ctx
     = (Inl (other_exc ''ValidationError'' ''DagPlan''), sample_ctx)"
  using null_intent_raises[of "brief_planner [(''intent'', JNull), (''steps'', JList [])]" brief_text sample_ctx "''do it''" "[]" None "''r1''"]
    brief_text_facts
  by (simp add: brief_planner_def brief_reader_def)

lemma planner_plans_are_validated_witness:
  "(\<exists>plan raw. fst (planner_plan (brief_planner (plan_to_json brief_plan)) ''r1'' ''do it'' None [] sample_ctx) = Inr (Some (plan, raw))
      \<and> validate_plan (pn_registry (brief_planner (plan_to_json brief_plan))) plan {} {} = Inr [] \<and> dp_user_intent plan = ''do it'')
   \<and> xc_calls (snd (planner_plan (brief_planner (plan_to_json brief_plan)) ''r1'' ''do it'' None [] sample_ctx)) = xc_calls sample_ctx"
proof -
  let ?pn = "brief_planner (plan_to_json brief_plan)"
  let ?m = "planner_plan ?pn ''r1'' ''do it'' None [] sample_ctx"
  have "map_sum (\<lambda>_. ()) (\<lambda>x. x \<noteq> None) (fst ?m) = Inr True"
    unfolding brief_planner_def note_registry_def by code_simp
  then obtain plan raw where r: "fst ?m = Inr (Some (plan, raw))" by (cases "fst ?m") auto
  have "log_ok (pn_env ?pn) ''r1'' sample_ctx"
    by (simp add: brief_planner_def log_ok_def sample_tenant sample_ctx_def sample_store_wf)
  note v = planner_plans_are_validated[OF this surjective_pairing, of "''do it''" None "[]"]
  show ?thesis using r v by blast
qed

end
