(* ===== verification/Revision_Guard.thy ===== *)
theory Revision_Guard
  imports Planner
begin

text \<open>
  The guard around plan revisions (core/scheduler/revision_guard.py): the detection of
  degenerate revisions, the merge of a revision into the plan that ran, and the bounded
  loop that asks the reviser again with feedback. The planner is used through the interface \<open>quiet_reviser\<close>.
\<close>

section \<open>Degenerate revisions\<close>

definition step_signature :: "dag_step \<Rightarrow> string \<times> string" where
  "step_signature step = action_signature (ds_tool step) (JDict (ds_input step))"

definition ran_badly :: "step_result dict \<Rightarrow> string \<Rightarrow> bool" where
  "ran_badly results sid =
     (case dget results sid of
        Some r \<Rightarrow> sr_exec_state r = FAILED \<or> (sr_exec_state r = UNSUCCESSFUL \<and> \<not> sr_probe r)
      | None \<Rightarrow> False)"

text \<open>The in-plan dependencies of a step, and the work list of \<^verbatim>\<open>_closure\<close> with its top first.\<close>

definition plan_deps :: "dag_step dict \<Rightarrow> string \<Rightarrow> string list" where
  "plan_deps steps sid = (case dget steps sid of None \<Rightarrow> [] | Some s \<Rightarrow> filter (has_key steps) (ds_depends_on s))"

function closure_loop :: "dag_step dict \<Rightarrow> string list \<Rightarrow> string list \<Rightarrow> string list" where
  "closure_loop steps [] seen = seen"
| "closure_loop steps (cur # stack) seen =
     (if cur \<in> set seen then closure_loop steps stack seen
      else closure_loop steps (rev (plan_deps steps cur) @ stack) (cur # seen))"
  by pat_completeness auto
termination
proof (relation "measures [\<lambda>(steps, stack, seen). card (set (keys steps) - set seen), \<lambda>(steps, stack, seen). length stack]", goal_cases)
  case (3 steps cur stack seen)
  show ?case
  proof (cases "cur \<in> set (keys steps)")
    case True
    then have "card (set (keys steps) - insert cur (set seen)) < card (set (keys steps) - set seen)"
      using 3 by (intro psubset_card_mono) auto
    then show ?thesis by simp
  next
    case False
    then have "dget steps cur = None" by (simp add: map_of_eq_None_iff)
    then have "plan_deps steps cur = []" by (simp add: plan_deps_def)
    moreover have "set (keys steps) - insert cur (set seen) = set (keys steps) - set seen" using False by blast
    ultimately show ?thesis by simp
  qed
qed auto

definition closure :: "dag_step dict \<Rightarrow> string \<Rightarrow> string list" where
  "closure steps sid = closure_loop steps [sid] []"

definition failed_signatures :: "dag_plan \<Rightarrow> step_result dict \<Rightarrow> (string \<times> string) list" where
  "failed_signatures plan results = map step_signature (filter (\<lambda>s. ran_badly results (ds_id s)) (dp_steps plan))"

definition is_degenerate :: "dag_plan \<Rightarrow> step_result dict \<Rightarrow> dag_step dict \<Rightarrow> dag_step \<Rightarrow> bool" where
  "is_degenerate plan results revised_map rs \<longleftrightarrow>
     step_signature rs \<in> set (failed_signatures plan results)
     \<and> list_all (\<lambda>cid. case dget revised_map cid of Some s \<Rightarrow> step_signature s \<in> step_signature ` set (dp_steps plan) | None \<Rightarrow> True)
          (closure revised_map (ds_id rs))"

definition find_degenerate_revised_steps :: "dag_plan \<Rightarrow> step_result dict \<Rightarrow> dag_plan \<Rightarrow> string list" where
  "find_degenerate_revised_steps plan results revised =
     (if failed_signatures plan results = [] then []
      else map ds_id (filter (is_degenerate plan results (step_map (dp_steps revised))) (dp_steps revised)))"

definition degenerate_feedback :: "string list \<Rightarrow> string" where
  "degenerate_feedback degenerate =
     [CHR 0x0A] @ ''[SYSTEM REJECTION] The previous revision repeats step(s) '' @ join '', '' degenerate
     @ '' with the same tool and input that already failed, and adds no new ''
     @ ''upstream step that could change the outcome. Re-running them cannot ''
     @ ''succeed. Remove or change these steps, or add a new upstream step.''"

section \<open>Merging a revision\<close>

definition retryable_state :: "step_result \<Rightarrow> bool" where
  "retryable_state r \<longleftrightarrow> sr_exec_state r \<in> {FAILED, UNSUCCESSFUL, SKIPPED}"

text \<open>
  The signature matching: for each unresolved original, the replacements not yet bound whose
  action is the same; a unique one is bound. Threaded are the aliases, the unbound replacements
  and the originals left over.
\<close>

definition bind_original :: "dag_step dict \<Rightarrow> dag_step dict \<Rightarrow> step_result dict \<Rightarrow> string
    \<Rightarrow> string dict \<times> string list \<times> string list \<Rightarrow> string dict \<times> string list \<times> string list" where
  "bind_original root_steps revised_steps results oid st =
     (case st of (aliases, unbound, left) \<Rightarrow>
        (case dget results (dget_or oid aliases oid) of
           None \<Rightarrow> st
         | Some prior \<Rightarrow>
             if \<not> retryable_state prior then st
             else (case dget root_steps oid of
                     None \<Rightarrow> st
                   | Some original \<Rightarrow>
                       (case filter (\<lambda>sid. case dget revised_steps sid of
                                 Some s \<Rightarrow> step_signature s = step_signature original | None \<Rightarrow> False) unbound of
                          [m] \<Rightarrow> (dset oid m aliases, remove1 m unbound, left)
                        | _ \<Rightarrow> (aliases, unbound, left @ [oid])))))"

definition ran_and_failed :: "step_result dict \<Rightarrow> string dict \<Rightarrow> string \<Rightarrow> bool" where
  "ran_and_failed results aliases sid =
     (case dget results (dget_or sid aliases sid) of
        Some r \<Rightarrow> sr_exec_state r \<in> {FAILED, UNSUCCESSFUL}
      | None \<Rightarrow> False)"

definition bind_forced :: "step_result dict \<Rightarrow> string dict \<times> string list \<times> string list \<Rightarrow> string dict" where
  "bind_forced results st =
     (case st of (aliases, unbound, left) \<Rightarrow>
        (case (unbound, filter (ran_and_failed results aliases) left) of
           ([r], [oid]) \<Rightarrow> dset oid r aliases
         | _ \<Rightarrow> aliases))"

definition merge_aliases :: "dag_plan \<Rightarrow> dag_plan \<Rightarrow> dag_plan \<Rightarrow> step_result dict \<Rightarrow> string dict \<Rightarrow> string dict" where
  "merge_aliases root_plan current_plan revised results aliases =
     (let root_steps = step_map (dp_steps root_plan); revised_steps = step_map (dp_steps revised);
          unresolved = filter (\<lambda>sid. \<not> normal_at results aliases sid) (step_ids (dp_steps root_plan));
          replacements = filter (\<lambda>sid. \<not> has_key root_steps sid \<and> sid \<notin> set (step_ids (dp_steps current_plan))) (keys revised_steps)
      in bind_forced results (fold (bind_original root_steps revised_steps results) unresolved (aliases, replacements, [])))"

definition rewrite_deps :: "string dict \<Rightarrow> dag_step \<Rightarrow> dag_step" where
  "rewrite_deps aliases step = step\<lparr>ds_depends_on := map (\<lambda>dep. dget_or dep aliases dep) (ds_depends_on step)\<rparr>"

text \<open>An original is put back when it is not replaced, not in the revision, and not already normal.\<close>

definition restored :: "dag_step dict \<Rightarrow> step_result dict \<Rightarrow> string dict \<Rightarrow> string \<Rightarrow> bool" where
  "restored revised_steps results aliases oid \<longleftrightarrow>
     dget_or oid aliases oid = oid \<and> \<not> has_key revised_steps oid
     \<and> \<not> (case dget results oid of Some r \<Rightarrow> step_normal r | None \<Rightarrow> False)"

definition merged_steps :: "dag_step dict \<Rightarrow> dag_step dict \<Rightarrow> step_result dict \<Rightarrow> string dict \<Rightarrow> dag_step dict" where
  "merged_steps root_steps revised_steps results aliases =
     fold (\<lambda>(oid, step) merged. if restored revised_steps results aliases oid
             then dset oid (rewrite_deps aliases step) merged else merged) root_steps revised_steps"

definition drop_abnormal :: "string list \<Rightarrow> step_result dict \<Rightarrow> step_result dict" where
  "drop_abnormal sids results =
     fold (\<lambda>sid rs. case dget rs sid of Some r \<Rightarrow> if step_normal r then rs else AList.delete sid rs | None \<Rightarrow> rs) sids results"

definition drop_replaced :: "string dict \<Rightarrow> step_result dict \<Rightarrow> step_result dict" where
  "drop_replaced aliases results = fold (\<lambda>(oid, alias) rs. if alias \<noteq> oid then AList.delete oid rs else rs) aliases results"

definition merge_revised_plan :: "dag_plan \<Rightarrow> dag_plan \<Rightarrow> dag_plan \<Rightarrow> step_result dict \<Rightarrow> string dict
    \<Rightarrow> dag_plan \<times> step_result dict \<times> string dict" where
  "merge_revised_plan root_plan current_plan revised results aliases =
     (let aliases' = merge_aliases root_plan current_plan revised results aliases;
          merged = merged_steps (step_map (dp_steps root_plan)) (step_map (dp_steps revised)) results aliases'
      in (revised\<lparr>dp_steps := map snd merged\<rparr>,
          drop_replaced aliases' (drop_abnormal (keys merged) results), aliases'))"

definition task_state_of :: "string \<Rightarrow> task_state option" where
  "task_state_of s = find (\<lambda>t. task_state_value t = s) [UNKNOWN, ACHIEVED, PARTIAL, NOT_ACHIEVED, WAIVED]"

definition merge_step_tasks :: "step_result dict \<Rightarrow> dag_plan \<Rightarrow> nat \<times> step_result dict" where
  "merge_step_tasks results revised =
     fold (\<lambda>(sid, ts) (n, rs). case (dget rs sid, task_state_of ts) of
             (Some r, Some t) \<Rightarrow> (Suc n, dset sid (r\<lparr>sr_task_state := t\<rparr>) rs)
           | _ \<Rightarrow> (n, rs)) (dp_step_tasks revised) (0, results)"

section \<open>The guarded revision\<close>

text \<open>
  The planner's \<^verbatim>\<open>revise\<close> on the plan, the results and the state of the system at hand, called with the feedback; the phase deadline
  makes it raise a timeout.
\<close>

type_synonym reviser = "string option \<Rightarrow> dag_plan option action"

record revise_ctx =
  rv_env :: exec_env
  rv_tools :: "tool_definition dict"
  rv_max_retries :: int
  rv_contracts :: "delivery_contract list"
  rv_merge :: "(dag_plan \<times> dag_plan \<times> string dict) option"

definition rv_registry :: "revise_ctx \<Rightarrow> unit registry" where
  "rv_registry cx = \<lparr> rg_tools = rv_tools cx, rg_fns = [] \<rparr>"

definition invariant_errors :: "revise_ctx \<Rightarrow> step_result dict \<Rightarrow> dag_plan \<Rightarrow> string list" where
  "invariant_errors cx results revised =
     (case rv_merge cx of
        None \<Rightarrow> []
      | Some (root_plan, current_plan, aliases) \<Rightarrow>
          if dp_steps revised = [] then []
          else validate_revision_invariants (rv_contracts cx)
                 (fst (merge_revised_plan root_plan current_plan revised results aliases)) (Some (rv_registry cx)))"

definition degenerate_reason :: "string list \<Rightarrow> string" where
  "degenerate_reason degenerate = ''Degenerate revision: step(s) '' @ join '', '' degenerate
     @ '' repeat a failed action (same tool+input, no new upstream step)''"

definition exhausted_error :: "string list \<Rightarrow> string list \<Rightarrow> string" where
  "exhausted_error degenerate errors =
     ''Degenerate self-heal: step(s) '' @ join '', '' degenerate
     @ '' kept repeating a failed action (same tool+input, no new dependency) '' @ dash @ '' not converging''
     @ (if errors \<noteq> [] then ''; invariant violations: '' @ join ''; '' errors else [])"

definition fb_text :: "string option \<Rightarrow> string" where
  "fb_text fb = (case fb of None \<Rightarrow> [] | Some s \<Rightarrow> s)"

fun revise_loop :: "revise_ctx \<Rightarrow> reviser \<Rightarrow> string \<Rightarrow> dag_plan \<Rightarrow> step_result dict \<Rightarrow> nat \<Rightarrow> nat \<Rightarrow> string option
    \<Rightarrow> string list \<Rightarrow> string list \<Rightarrow> (dag_plan option \<times> string option) action" where
  "revise_loop cx revise run_id plan results 0 attempt fb degenerate errors =
     act_return (None, Some (exhausted_error degenerate errors))"
| "revise_loop cx revise run_id plan results (Suc left) attempt fb degenerate0 errors0 =
     act_bind (revise fb) (\<lambda>answer.
       case answer of
         None \<Rightarrow> act_return (None, None)
       | Some revised \<Rightarrow>
           (let degenerate = find_degenerate_revised_steps plan results revised;
                errors = (if degenerate = [] then invariant_errors cx results revised else []);
                recovered = (int attempt < rv_max_retries cx)
            in if degenerate = [] \<and> errors = [] then act_return (Some revised, None)
               else if degenerate \<noteq> []
               then act_then (record_plan_rejection (rv_env cx) run_id StageDegenerate (Suc attempt) [degenerate_reason degenerate] recovered)
                      (revise_loop cx revise run_id plan results left (Suc attempt)
                         (Some (fb_text fb @ degenerate_feedback degenerate)) degenerate errors)
               else act_then (record_plan_rejection (rv_env cx) run_id StageInvariant (Suc attempt) errors recovered)
                      (revise_loop cx revise run_id plan results left (Suc attempt)
                         (Some (fb_text fb @ revision_invariant_feedback errors)) degenerate errors)))"

definition revise_with_degenerate_guard ::
    "revise_ctx \<Rightarrow> reviser \<Rightarrow> string \<Rightarrow> dag_plan \<Rightarrow> step_result dict \<Rightarrow> string option \<Rightarrow> (dag_plan option \<times> string option) action" where
  "revise_with_degenerate_guard cx revise run_id plan results feedback =
     revise_loop cx revise run_id plan results (nat (rv_max_retries cx + 1)) 0 feedback [] []"

section \<open>The dependency closure\<close>

definition dep_rel :: "dag_step dict \<Rightarrow> (string \<times> string) set" where
  "dep_rel steps = {(x, y). y \<in> set (plan_deps steps x)}"

lemma closure_loop_reach:
  "(\<forall>x\<in>set seen. set (plan_deps steps x) \<subseteq> set seen \<union> set stack) \<Longrightarrow>
   set (closure_loop steps stack seen) = (dep_rel steps)\<^sup>* `` (set seen \<union> set stack)"
proof (induction steps stack seen rule: closure_loop.induct)
  case (1 steps seen)
  then have "(dep_rel steps) `` set seen \<subseteq> set seen" by (auto simp: dep_rel_def)
  then have "(dep_rel steps)\<^sup>* `` set seen = set seen" by (rule Image_closed_trancl)
  then show ?case by simp
next
  case (2 steps cur stack seen)
  show ?case
  proof (cases "cur \<in> set seen")
    case True
    then show ?thesis using 2(1)[OF True] 2(3) by (simp add: insert_absorb)
  next
    case False
    have "\<forall>x\<in>set (cur # seen). set (plan_deps steps x) \<subseteq> set (cur # seen) \<union> set (rev (plan_deps steps cur) @ stack)"
      using 2(3) by auto
    from 2(2)[OF False this] have eq: "set (closure_loop steps (cur # stack) seen)
        = (dep_rel steps)\<^sup>* `` (set (cur # seen) \<union> set (rev (plan_deps steps cur) @ stack))" using False by simp
    have "(dep_rel steps)\<^sup>* `` set (plan_deps steps cur) \<subseteq> (dep_rel steps)\<^sup>* `` {cur}"
      by (auto simp: dep_rel_def intro: converse_rtrancl_into_rtrancl)
    then show ?thesis unfolding eq by (auto simp: Image_Un)
  qed
qed

lemma closure_reach: "set (closure steps sid) = {x. (sid, x) \<in> (dep_rel steps)\<^sup>*}"
  using closure_loop_reach[of "[]" steps "[sid]"] by (auto simp: closure_def)

text \<open>A revised step is rejected as degenerate exactly when its action (tool and normalised input) is that of a step which failed, or
  was unsuccessful without being a probe, and every step it transitively depends on inside the revision repeats an action of the
  previous plan.\<close>

theorem degenerate_revision_exact:
  "sid \<in> set (find_degenerate_revised_steps plan results revised) \<longleftrightarrow>
     (\<exists>rs\<in>set (dp_steps revised). ds_id rs = sid
        \<and> (\<exists>s\<in>set (dp_steps plan). ran_badly results (ds_id s) \<and> step_signature s = step_signature rs)
        \<and> (\<forall>cid step. (sid, cid) \<in> (dep_rel (step_map (dp_steps revised)))\<^sup>* \<longrightarrow>
             dget (step_map (dp_steps revised)) cid = Some step \<longrightarrow> (\<exists>s\<in>set (dp_steps plan). step_signature s = step_signature step)))"
proof -
  let ?m = "step_map (dp_steps revised)"
  have failed: "x \<in> set (failed_signatures plan results) \<longleftrightarrow>
      (\<exists>s\<in>set (dp_steps plan). ran_badly results (ds_id s) \<and> step_signature s = x)" for x
    by (auto simp: failed_signatures_def)
  have "is_degenerate plan results ?m rs \<longleftrightarrow> step_signature rs \<in> set (failed_signatures plan results)
      \<and> (\<forall>cid step. (ds_id rs, cid) \<in> (dep_rel ?m)\<^sup>* \<longrightarrow> dget ?m cid = Some step \<longrightarrow> step_signature step \<in> step_signature ` set (dp_steps plan))" for rs
    unfolding is_degenerate_def list_all_iff closure_reach by (auto split: option.splits)
  moreover have "failed_signatures plan results = [] \<Longrightarrow> step_signature rs \<notin> set (failed_signatures plan results)" for rs by simp
  ultimately have "sid \<in> set (find_degenerate_revised_steps plan results revised) \<longleftrightarrow>
      (\<exists>rs\<in>set (dp_steps revised). ds_id rs = sid \<and> step_signature rs \<in> set (failed_signatures plan results)
        \<and> (\<forall>cid step. (ds_id rs, cid) \<in> (dep_rel ?m)\<^sup>* \<longrightarrow> dget ?m cid = Some step \<longrightarrow> step_signature step \<in> step_signature ` set (dp_steps plan)))"
    by (auto simp: find_degenerate_revised_steps_def)
  also have "\<dots> \<longleftrightarrow> (\<exists>rs\<in>set (dp_steps revised). ds_id rs = sid
        \<and> (\<exists>s\<in>set (dp_steps plan). ran_badly results (ds_id s) \<and> step_signature s = step_signature rs)
        \<and> (\<forall>cid step. (sid, cid) \<in> (dep_rel ?m)\<^sup>* \<longrightarrow>
             dget ?m cid = Some step \<longrightarrow> (\<exists>s\<in>set (dp_steps plan). step_signature s = step_signature step)))"
    unfolding failed image_iff eq_commute[of "step_signature _" "step_signature _"] by (intro bex_cong refl) auto
  finally show ?thesis .
qed

section \<open>The merged plan\<close>

lemma distinct_step_map: "distinct (keys (step_map steps))"
proof -
  have "distinct (keys (fold (\<lambda>s. dset (ds_id s) s) steps d))" if "distinct (keys d)" for d
    using that by (induction steps arbitrary: d) (simp_all add: distinct_update)
  then show ?thesis by (simp add: step_map_def)
qed

lemma merged_steps_fold:
  fixes rs :: "dag_step dict"
  assumes "distinct (keys rs)"
  shows "dget (fold (\<lambda>(oid, step) merged. if P oid then dset oid (f step) merged else merged) rs m) k
    = (case dget rs k of Some s \<Rightarrow> if P k then Some (f s) else dget m k | None \<Rightarrow> dget m k)"
  using assms
proof (induction rs arbitrary: m)
  case (Cons kv rs)
  then show ?case by (cases kv) (auto simp: update_conv' map_of_eq_None_iff[symmetric] split: option.splits)
qed simp

lemma dget_merged_steps:
  "dget (merged_steps (step_map rt) (step_map rev0) results aliases) k =
     (case dget (step_map rt) k of
        Some s \<Rightarrow> if restored (step_map rev0) results aliases k then Some (rewrite_deps aliases s) else dget (step_map rev0) k
      | None \<Rightarrow> dget (step_map rev0) k)"
  unfolding merged_steps_def by (rule merged_steps_fold[OF distinct_step_map])

lemma distinct_merged_steps: "distinct (keys (merged_steps (step_map rt) (step_map rev0) results aliases))"
proof -
  have "distinct (keys (fold (\<lambda>(oid, step) merged. if P oid then dset oid (f step) merged else merged) rs m))"
    if "distinct (keys m)" for P f and rs m :: "dag_step dict"
    using that by (induction rs arbitrary: m) (auto simp: distinct_update)
  then show ?thesis unfolding merged_steps_def using distinct_step_map by blast
qed

lemma merged_plan_steps:
  assumes "merge_revised_plan root_plan current_plan revised results aliases = (plan', results', aliases')"
  shows "distinct (step_ids (dp_steps plan'))"
    and "dget (step_map (dp_steps plan')) k = dget (merged_steps (step_map (dp_steps root_plan)) (step_map (dp_steps revised)) results aliases') k"
    and "step_ids (dp_steps plan') = keys (merged_steps (step_map (dp_steps root_plan)) (step_map (dp_steps revised)) results aliases')"
proof -
  let ?m = "merged_steps (step_map (dp_steps root_plan)) (step_map (dp_steps revised)) results aliases'"
  have steps: "dp_steps plan' = map snd ?m" using assms by (auto simp: merge_revised_plan_def Let_def)
  have id: "ds_id (snd kv) = fst kv" if "kv \<in> set ?m" for kv
  proof -
    have "dget ?m (fst kv) = Some (snd kv)" using that distinct_merged_steps by simp
    then have "(\<exists>s. dget (step_map (dp_steps root_plan)) (fst kv) = Some s \<and> rewrite_deps aliases' s = snd kv)
        \<or> dget (step_map (dp_steps revised)) (fst kv) = Some (snd kv)"
      unfolding dget_merged_steps by (cases "dget (step_map (dp_steps root_plan)) (fst kv)") (simp_all split: if_splits)
    moreover have "ds_id (rewrite_deps aliases' s) = ds_id s" for s by (simp add: rewrite_deps_def)
    ultimately show ?thesis using dget_step_map_Some by metis
  qed
  then show ids: "step_ids (dp_steps plan') = keys ?m" by (simp add: steps)
  then show dist: "distinct (step_ids (dp_steps plan'))" using distinct_merged_steps by simp
  show "dget (step_map (dp_steps plan')) k = dget ?m k"
  proof (cases "dget ?m k")
    case None
    then have "k \<notin> set (step_ids (dp_steps plan'))" unfolding ids by (simp add: map_of_eq_None_iff)
    with None show ?thesis by (simp add: dget_step_map_None)
  next
    case (Some s)
    then have "(k, s) \<in> set ?m" by (rule map_of_SomeD)
    then have "s \<in> set (dp_steps plan')" "ds_id s = k" using id steps by force+
    then show ?thesis using dget_step_map_distinct[OF dist] Some by auto
  qed
qed

lemma dget_drop_abnormal:
  "dget (drop_abnormal sids results) k
     = (case dget results k of Some r \<Rightarrow> if k \<in> set sids \<and> \<not> step_normal r then None else Some r | None \<Rightarrow> None)"
proof (induction sids arbitrary: results)
  case (Cons sid sids)
  have "drop_abnormal (sid # sids) results
      = drop_abnormal sids (case dget results sid of Some r \<Rightarrow> if step_normal r then results else AList.delete sid results | None \<Rightarrow> results)"
    by (simp add: drop_abnormal_def)
  then show ?case by (auto simp: Cons.IH AList.delete_conv' split: option.splits)
qed (simp add: drop_abnormal_def split: option.split)

lemma dget_drop_replaced:
  "dget (drop_replaced aliases results) k = (if \<exists>a. (k, a) \<in> set aliases \<and> a \<noteq> k then None else dget results k)"
proof (induction aliases arbitrary: results)
  case (Cons kv aliases)
  obtain x y where kv: "kv = (x, y)" by fastforce
  have "drop_replaced (kv # aliases) results = drop_replaced aliases (if y \<noteq> x then AList.delete x results else results)"
    by (simp add: drop_replaced_def kv)
  then show ?case by (auto simp: Cons.IH kv AList.delete_conv')
qed (simp add: drop_replaced_def)

text \<open>C26: Merging a revision loses no unfinished work and leaves no stale result. Every step of the revision is in the merged plan as
  the model wrote it; every step of the root plan is in the merged plan under its own id, or has been replaced by an alias, or
  already has a normal result; and afterwards no step of the merged plan and no replaced original keeps a result that is not
  normal.\<close>

theorem merge_keeps_unfinished_work:
  assumes "merge_revised_plan root_plan current_plan revised results aliases = (plan', results', aliases')"
  shows "distinct (step_ids (dp_steps plan'))
    \<and> (\<forall>k s. dget (step_map (dp_steps revised)) k = Some s \<longrightarrow> dget (step_map (dp_steps plan')) k = Some s)
    \<and> (\<forall>oid\<in>set (step_ids (dp_steps root_plan)). oid \<in> set (step_ids (dp_steps plan')) \<or> dget_or oid aliases' oid \<noteq> oid
         \<or> (\<exists>r. dget results oid = Some r \<and> step_normal r))
    \<and> (\<forall>sid r. dget results' sid = Some r \<longrightarrow> dget results sid = Some r
         \<and> (sid \<in> set (step_ids (dp_steps plan')) \<longrightarrow> step_normal r) \<and> dget_or sid aliases' sid = sid)"
proof -
  let ?root = "step_map (dp_steps root_plan)" and ?rev = "step_map (dp_steps revised)"
  note steps = merged_plan_steps[OF assms]
  have res: "results' = drop_replaced aliases' (drop_abnormal (step_ids (dp_steps plan')) results)"
    using assms steps(3) by (auto simp: merge_revised_plan_def Let_def)
  have rev: "dget (step_map (dp_steps plan')) k = Some s" if "dget ?rev k = Some s" for k s
    using that by (auto simp: steps(2) dget_merged_steps restored_def split: option.split)
  have root_kept: "oid \<in> set (step_ids (dp_steps plan')) \<or> dget_or oid aliases' oid \<noteq> oid \<or> (\<exists>r. dget results oid = Some r \<and> step_normal r)"
    if oid: "oid \<in> set (step_ids (dp_steps root_plan))" for oid
  proof -
    obtain s where s: "dget ?root oid = Some s" using oid dget_step_map_None[of "dp_steps root_plan" oid] by blast
    have "restored ?rev results aliases' oid \<or> has_key ?rev oid \<Longrightarrow> dget (step_map (dp_steps plan')) oid \<noteq> None"
      using s by (auto simp: steps(2) dget_merged_steps)
    then show ?thesis using dget_step_map_None[of "dp_steps plan'" oid] by (cases "dget ?rev oid"; cases "dget results oid") (auto simp: restored_def)
  qed
  have "dget_or sid aliases' sid \<noteq> sid \<Longrightarrow> \<exists>a. (sid, a) \<in> set aliases' \<and> a \<noteq> sid" for sid
    by (auto simp: dget_or_def split: option.splits dest: map_of_SomeD)
  then have "dget results sid = Some r \<and> (sid \<in> set (step_ids (dp_steps plan')) \<longrightarrow> step_normal r) \<and> dget_or sid aliases' sid = sid"
    if "dget results' sid = Some r" for sid r
    using that unfolding res by (auto simp: dget_drop_replaced dget_drop_abnormal split: if_splits option.splits)
  with steps(1) rev root_kept show ?thesis by blast
qed

section \<open>The guarded revision\<close>

text \<open>What the loop promises of the plan it returns, given what the reviser promises of its answers.\<close>

definition guarded_result :: "revise_ctx \<Rightarrow> dag_plan \<Rightarrow> step_result dict \<Rightarrow> (dag_plan \<Rightarrow> bool) \<Rightarrow> dag_plan option \<times> string option \<Rightarrow> bool" where
  "guarded_result cx plan results good res \<longleftrightarrow>
     (\<forall>revised err. res = (Some revised, err) \<longrightarrow> err = None \<and> good revised
        \<and> find_degenerate_revised_steps plan results revised = [] \<and> invariant_errors cx results revised = [])"

text \<open>The rejections of the guard among those written: numbered from the first attempt, all of the budget used when it gives up.\<close>

definition guard_stage :: "plan_rejected_payload \<Rightarrow> bool" where
  "guard_stage p \<longleftrightarrow> prj_stage p \<in> {StageDegenerate, StageInvariant}"

definition guard_log :: "nat \<Rightarrow> nat \<Rightarrow> bool \<Rightarrow> plan_rejected_payload list \<Rightarrow> bool" where
  "guard_log budget attempt gave_up rejected \<longleftrightarrow>
     (let own = filter guard_stage rejected
      in map prj_attempt own = map int [Suc attempt..<Suc (attempt + length own)] \<and> length own \<le> budget
         \<and> (gave_up \<longrightarrow> length own = budget))"

lemma guard_log_Nil: "\<not> gave_up \<or> budget = 0 \<Longrightarrow> guard_log budget attempt gave_up []"
  by (auto simp: guard_log_def)

lemma guard_log_quiet: "guard_log b a g rj \<Longrightarrow> \<forall>p\<in>set qs. \<not> guard_stage p \<Longrightarrow> guard_log b a g (qs @ rj)"
  by (simp add: guard_log_def filter_False)

lemma guard_log_Cons:
  assumes "guard_log b (Suc a) g rj" "guard_stage p" "prj_attempt p = int (Suc a)"
  shows "guard_log (Suc b) a g (p # rj)"
  using assms by (simp add: guard_log_def Let_def upt_conv_Cons del: upt_Suc)

definition gave_up :: "py_exc + dag_plan option \<times> string option \<Rightarrow> bool" where
  "gave_up r \<longleftrightarrow> (\<exists>x e. r = Inr (x, Some e))"

definition revise_post :: "revise_ctx \<Rightarrow> string \<Rightarrow> dag_plan \<Rightarrow> step_result dict \<Rightarrow> (dag_plan \<Rightarrow> bool) \<Rightarrow> nat \<Rightarrow> nat \<Rightarrow> exec_ctx
    \<Rightarrow> py_exc + dag_plan option \<times> string option \<Rightarrow> exec_ctx \<Rightarrow> bool" where
  "revise_post cx run_id plan results good budget attempt c r c' \<longleftrightarrow>
     (\<exists>rejected. wrote (rv_env cx) run_id c (rejections rejected) c' \<and> xc_calls c' = xc_calls c
        \<and> guard_log budget attempt (gave_up r) rejected \<and> (\<forall>res. r = Inr res \<longrightarrow> guarded_result cx plan results good res))"

text \<open>The interface of the reviser: it only records its own rejections, and its answers are good.\<close>

locale quiet_reviser =
  fixes env :: exec_env and run_id :: string and revise :: reviser and good :: "dag_plan \<Rightarrow> bool"
  assumes quiet: "log_ok env run_id c \<Longrightarrow>
      ensures (revise fb) c (\<lambda>r c'. \<exists>n. attempts_post env run_id StageRevise good n c r c')"
begin

lemma revise_loop_post:
  assumes named: "run_id \<noteq> []"
  shows "rv_env cx = env \<Longrightarrow> log_ok env run_id c \<Longrightarrow>
     ensures (revise_loop cx revise run_id plan results budget attempt fb dg er) c (revise_post cx run_id plan results good budget attempt c)"
proof (induction budget arbitrary: attempt fb dg er c)
  case 0
  show ?case unfolding revise_loop.simps action_wp revise_post_def
    by (intro exI[of _ "[]"])
      (use 0 in \<open>auto simp: rejections_def guarded_result_def log_ok_def intro!: wrote_Nil guard_log_Nil\<close>)
next
  case (Suc budget)
  note env = Suc.prems(1) and ok = Suc.prems(2)
  obtain r c1 where r: "revise fb c = (r, c1)" by fastforce
  obtain qs where qs: "wrote env run_id c (rejections qs) c1" "xc_calls c1 = xc_calls c" "\<forall>p\<in>set qs. \<not> guard_stage p"
    and good: "\<And>x. r = Inr (Some x) \<Longrightarrow> good x"
    using ensuresD[OF quiet[OF ok, of fb] r] by (auto simp: attempts_post_def quiet_from_def guard_stage_def)
  have ok1: "log_ok env run_id c1" by (rule wrote_log_ok[OF ok qs(1)])
  have stop: "revise_post cx run_id plan results good (Suc budget) attempt c x c1"
    if "\<not> gave_up x" "\<And>res. x = Inr res \<Longrightarrow> guarded_result cx plan results good res" for x
    unfolding revise_post_def env using qs guard_log_quiet[OF guard_log_Nil qs(3)] that by (intro exI[of _ qs]) auto
  have again: "ensures (act_then (record_plan_rejection env run_id stage (Suc attempt) reasons recovered)
        (revise_loop cx revise run_id plan results budget (Suc attempt) fb' dg' er')) c1 (revise_post cx run_id plan results good (Suc budget) attempt c)"
    if stage: "stage \<in> {StageDegenerate, StageInvariant}" for stage reasons recovered fb' dg' er'
  proof -
    define p where "p = \<lparr> prj_stage = stage, prj_attempt = int (Suc attempt), prj_reasons = reasons, prj_recovered = recovered \<rparr>"
    obtain c2 where c2: "log_append env run_id (PDiagnostic (PlanRejected p)) None c1 = (Inr (), c2)"
        "wrote env run_id c1 [(PDiagnostic (PlanRejected p), None)] c2" "xc_calls c2 = xc_calls c1" "log_ok env run_id c2"
      using log_append_ok[OF ok1] by blast
    have rec: "record_plan_rejection env run_id stage (Suc attempt) reasons recovered c1 = (Inr (), c2)"
      using c2(1) named by (simp add: record_plan_rejection_def p_def)
    have "revise_post cx run_id plan results good (Suc budget) attempt c x c'"
      if post: "revise_post cx run_id plan results good budget (Suc attempt) c2 x c'" for x c'
    proof -
      obtain rj where rj: "wrote env run_id c2 (rejections rj) c'" "xc_calls c' = xc_calls c2" "guard_log budget (Suc attempt) (gave_up x) rj"
          "\<forall>res. x = Inr res \<longrightarrow> guarded_result cx plan results good res" using post env by (auto simp: revise_post_def)
      have "wrote env run_id c (rejections (qs @ p # rj)) c'"
        using wrote_trans[OF qs(1) wrote_trans[OF c2(2) rj(1)]] by (simp add: rejections_def)
      moreover have "guard_log (Suc budget) attempt (gave_up x) (qs @ p # rj)"
        by (rule guard_log_quiet[OF guard_log_Cons[OF rj(3)] qs(3)]) (use stage in \<open>auto simp: p_def guard_stage_def\<close>)
      ultimately show ?thesis unfolding revise_post_def env using rj(2,4) qs(2) c2(3) by (intro exI[of _ "qs @ p # rj"]) auto
    qed
    then have "ensures (revise_loop cx revise run_id plan results budget (Suc attempt) fb' dg' er') c2 (revise_post cx run_id plan results good (Suc budget) attempt c)"
      by (intro ensures_mono[OF Suc.IH[OF env c2(4)]])
    then show ?thesis using rec by (simp add: ensures_def act_then_def act_bind_def)
  qed
  have here: "ensures (revise fb) c Q \<longleftrightarrow> Q r c1" for Q by (simp add: ensures_def r)
  show ?case
  proof (cases r)
    case (Inl e)
    then show ?thesis by (simp add: ensures_bind here) (rule stop; simp add: gave_up_def)
  next
    case (Inr answer)
    show ?thesis
    proof (cases answer)
      case None
      then show ?thesis using Inr by (simp add: ensures_bind here action_wp) (rule stop; auto simp: gave_up_def guarded_result_def)
    next
      case (Some revised)
      have g: "good revised" using good Inr Some by simp
      show ?thesis unfolding revise_loop.simps(2) ensures_bind here Inr sum.case Some option.case Let_def
        using again g by (simp add: env) (auto simp: action_wp intro!: stop simp: gave_up_def guarded_result_def simp del: ensures_then)
    qed
  qed
qed

end

interpretation guarded: quiet_reviser "pn_env pn" run_id "planner_revise pn run_id plan results state intent_fallback"
    "\<lambda>revised. validate_plan (pn_registry pn) revised (executed_ids results) (available_ids results) = Inr []
       \<and> (dp_steps revised = [] \<longrightarrow> dp_declared_operations revised = dp_declared_operations plan)"
  for pn run_id plan results state intent_fallback
  by unfold_locales (auto intro!: ensures_mono[OF planner_revise_outcome])

lemma repeats_only_with_new_upstream:
  assumes "find_degenerate_revised_steps plan results revised = []" "rs \<in> set (dp_steps revised)"
    and "s \<in> set (dp_steps plan)" "ran_badly results (ds_id s)" "step_signature rs = step_signature s"
  shows "\<exists>cid step. (ds_id rs, cid) \<in> (dep_rel (step_map (dp_steps revised)))\<^sup>* \<and> dget (step_map (dp_steps revised)) cid = Some step
    \<and> step_signature step \<notin> step_signature ` set (dp_steps plan)"
proof (rule ccontr)
  assume "\<not> ?thesis"
  then have "\<forall>cid step. (ds_id rs, cid) \<in> (dep_rel (step_map (dp_steps revised)))\<^sup>* \<longrightarrow> dget (step_map (dp_steps revised)) cid = Some step \<longrightarrow>
      (\<exists>s\<in>set (dp_steps plan). step_signature s = step_signature step)" by force
  moreover have "\<exists>s\<in>set (dp_steps plan). ran_badly results (ds_id s) \<and> step_signature s = step_signature rs" using assms(3-5) by force
  ultimately have "ds_id rs \<in> set (find_degenerate_revised_steps plan results revised)"
    using assms(2) unfolding degenerate_revision_exact by blast
  then show False using assms(1) by simp
qed

text \<open>C25: The revision guard returns only plans that pass every trusted check, and it gives up in time. A returned revision passes the plan
  guardrail against the steps already done; it repeats the action of a step that failed, or was unsuccessful without being a probe, only
  in a step that depends, directly or not, on a step with an action the previous plan did not have; once merged, it keeps the delivery
  invariants; and an answer without steps keeps the declared operations. The planner is asked at most once more than the configured
  number of retries; every answer the guard refuses leaves one rejection event, numbered from one; no tool runs meanwhile.\<close>

theorem revision_guard_is_sound:
  assumes "log_ok (pn_env pn) run_id c" "run_id \<noteq> []" "rv_env cx = pn_env pn"
    and "revise_with_degenerate_guard cx (planner_revise pn run_id plan results state intent_fallback) run_id plan results feedback c
      = (Inr (res, err), c')"
  shows "(\<exists>rejected. wrote (rv_env cx) run_id c (map (\<lambda>p. (PDiagnostic (PlanRejected p), None)) rejected) c'
      \<and> (let own = filter (\<lambda>p. prj_stage p \<in> {StageDegenerate, StageInvariant}) rejected
         in map prj_attempt own = map int [1..<Suc (length own)] \<and> int (length own) \<le> max 0 (rv_max_retries cx + 1)
            \<and> (err \<noteq> None \<longrightarrow> int (length own) = max 0 (rv_max_retries cx + 1))))
    \<and> xc_calls c' = xc_calls c \<and> (err \<noteq> None \<longrightarrow> res = None)
    \<and> (\<forall>revised. res = Some revised \<longrightarrow>
         validate_plan (pn_registry pn) revised (executed_ids results) (available_ids results) = Inr []
         \<and> (\<forall>rs\<in>set (dp_steps revised). \<forall>s\<in>set (dp_steps plan). ran_badly results (ds_id s) \<longrightarrow> step_signature rs = step_signature s \<longrightarrow>
              (\<exists>cid step. (ds_id rs, cid) \<in> (dep_rel (step_map (dp_steps revised)))\<^sup>* \<and> dget (step_map (dp_steps revised)) cid = Some step
                 \<and> step_signature step \<notin> step_signature ` set (dp_steps plan)))
         \<and> (dp_steps revised = [] \<longrightarrow> dp_declared_operations revised = dp_declared_operations plan)
         \<and> (\<forall>root_plan current aliases. rv_merge cx = Some (root_plan, current, aliases) \<longrightarrow> dp_steps revised \<noteq> [] \<longrightarrow>
              validate_revision_invariants (rv_contracts cx) (fst (merge_revised_plan root_plan current revised results aliases))
                (Some (rv_registry cx)) = []))"
proof -
  obtain rejected where r: "wrote (rv_env cx) run_id c (rejections rejected) c'" "xc_calls c' = xc_calls c"
      "guard_log (nat (rv_max_retries cx + 1)) 0 (gave_up (Inr (res, err))) rejected"
    and g: "guarded_result cx plan results (\<lambda>revised. validate_plan (pn_registry pn) revised (executed_ids results) (available_ids results) = Inr []
       \<and> (dp_steps revised = [] \<longrightarrow> dp_declared_operations revised = dp_declared_operations plan)) (res, err)"
    using ensuresD[OF guarded.revise_loop_post[OF assms(2,3,1)] assms(4)[unfolded revise_with_degenerate_guard_def]]
    unfolding revise_post_def by blast
  have "guard_stage = (\<lambda>p. prj_stage p \<in> {StageDegenerate, StageInvariant})" by (simp add: fun_eq_iff guard_stage_def)
  moreover have "gave_up (Inr (res, err)) \<longleftrightarrow> err \<noteq> None" by (auto simp: gave_up_def)
  ultimately have "\<exists>rejected. wrote (rv_env cx) run_id c (map (\<lambda>p. (PDiagnostic (PlanRejected p), None)) rejected) c'
      \<and> (let own = filter (\<lambda>p. prj_stage p \<in> {StageDegenerate, StageInvariant}) rejected
         in map prj_attempt own = map int [1..<Suc (length own)] \<and> int (length own) \<le> max 0 (rv_max_retries cx + 1)
            \<and> (err \<noteq> None \<longrightarrow> int (length own) = max 0 (rv_max_retries cx + 1)))"
    using r(1,3) by (intro exI[of _ rejected]) (auto simp: guard_log_def rejections_def Let_def)
  moreover have "err \<noteq> None \<longrightarrow> res = None" using g by (cases res) (auto simp: guarded_result_def)
  moreover have "\<forall>revised. res = Some revised \<longrightarrow> find_degenerate_revised_steps plan results revised = []"
    using g by (auto simp: guarded_result_def)
  ultimately show ?thesis using r(2) g repeats_only_with_new_upstream
    by (cases res) (auto simp: guarded_result_def invariant_errors_def)
qed

section \<open>The check at the execution entry\<close>

text \<open>The execution entry validates every plan against no finished step at all, so it rejects a plan with a dependency outside
  the plan. A merged revision has such a dependency whenever it depends on a step that is already done, since merging leaves done
  steps out: the merge check, which knows the done steps, accepts the plan, and the entry check then fails the run.\<close>

theorem execution_entry_rejects_external_dependencies:
  assumes "s \<in> set (dp_steps plan)" "d \<in> set (ds_depends_on s)" "d \<notin> set (step_ids (dp_steps plan))"
  shows "validate_plan rg plan {} {} \<noteq> Inr []"
proof
  assume "validate_plan rg plan {} {} = Inr []"
  then have "plan_wf (dp_steps plan) {}" using validate_plan_Nil(2)[of rg plan "{}" "{}"] validate_nil_iff[of plan "{}" "{}"] by simp
  then show False using assms by (auto simp: plan_wf_def)
qed

section \<open>Samples\<close>

text \<open>The second of two steps failed; the model answers with a changed second step.\<close>

definition heal_results :: "step_result dict" where
  "heal_results = [(''s1'', (StepResult0 ''s1'')\<lparr>sr_exec_state := COMPLETED, sr_output := JDict [(''text'', JStr ''out'')]\<rparr>),
     (''s2'', failed_result ''s2'' ''x'')]"

definition heal_revision :: dag_plan where
  "heal_revision = DagPlan0\<lparr>dp_steps := [note_step ''s2b'' ''fixed'' [''s1'']]\<rparr>"

definition heal_merge :: "dag_plan \<times> step_result dict \<times> string dict" where
  "heal_merge = merge_revised_plan note_plan note_plan heal_revision heal_results [(''s1'', ''s1''), (''s2'', ''s2'')]"

lemma heal_merge_facts:
  "dp_steps (fst heal_merge) = [note_step ''s2b'' ''fixed'' [''s1'']]" "keys (fst (snd heal_merge)) = [''s1'']"
  "snd (snd heal_merge) = [(''s1'', ''s1''), (''s2'', ''s2b'')]"
  "validate_plan note_registry (fst heal_merge) {''s1''} {''s1''} = Inr []"
  unfolding note_registry_def by code_simp+

lemma execution_entry_rejects_external_dependencies_witness:
  "validate_plan note_registry (fst heal_merge) {''s1''} {''s1''} = Inr [] \<and> validate_plan note_registry (fst heal_merge) {} {} \<noteq> Inr []"
  using execution_entry_rejects_external_dependencies[of "note_step ''s2b'' ''fixed'' [''s1'']" "fst heal_merge" "''s1''" note_registry]
  by (simp add: heal_merge_facts note_step_def)

lemma merge_keeps_unfinished_work_witness:
  "distinct (step_ids (dp_steps (fst heal_merge)))
   \<and> list_all (\<lambda>oid. oid \<in> set (step_ids (dp_steps (fst heal_merge)))
        \<or> dget_or oid (snd (snd heal_merge)) oid \<noteq> oid \<or> (\<exists>r. dget heal_results oid = Some r \<and> step_normal r)) (step_ids (dp_steps note_plan))"
proof -
  have "merge_revised_plan note_plan note_plan heal_revision heal_results [(''s1'', ''s1''), (''s2'', ''s2'')]
      = (fst heal_merge, fst (snd heal_merge), snd (snd heal_merge))" by (simp add: heal_merge_def)
  from merge_keeps_unfinished_work[OF this] show ?thesis unfolding list_all_iff by blast
qed

lemma degenerate_revision_exact_witness:
  "find_degenerate_revised_steps note_plan heal_results note_plan = [''s2'']
   \<and> (\<exists>s\<in>set (dp_steps note_plan). ran_badly heal_results (ds_id s))"
proof -
  have d: "find_degenerate_revised_steps note_plan heal_results note_plan = [''s2'']" by code_simp
  have "''s2'' \<in> set (find_degenerate_revised_steps note_plan heal_results note_plan)" unfolding d by simp
  from this[unfolded degenerate_revision_exact] d show ?thesis by blast
qed

text \<open>A model that first repeats the failed plan and, once that is rejected, answers with the changed step.\<close>

definition heal_ctx :: revise_ctx where
  "heal_ctx = \<lparr> rv_env = sample_env, rv_tools = rg_tools note_registry, rv_max_retries = 2, rv_contracts = [],
     rv_merge = Some (note_plan, note_plan, [(''s1'', ''s1''), (''s2'', ''s2'')]) \<rparr>"

definition heal_planner :: planner where
  "heal_planner = \<lparr> pn_env = sample_env, pn_tools = rg_tools note_registry, pn_max_retries = 2,
     pn_chat = (\<lambda>c _ _ _ _. Inr (if length (es_events (xc_store c)) = length (es_events (xc_store sample_ctx)) then ''1'' else ''2'')),
     pn_reader = \<lparr> rd_loads = (\<lambda>s. Inr (JDict (plan_to_json (if s = ''1'' then note_plan else heal_revision)))),
       rd_schema = (\<lambda>_. None), rd_model_error = other_exc ''ValidationError'' \<rparr> \<rparr>"

definition heal_run :: "(py_exc + dag_plan option \<times> string option) \<times> exec_ctx" where
  "heal_run = revise_with_degenerate_guard heal_ctx (planner_revise heal_planner ''r1'' note_plan heal_results ''state'' []) ''r1''
     note_plan heal_results None sample_ctx"

lemma revision_guard_is_sound_witness:
  "(\<exists>revised. fst heal_run = Inr (Some revised, None) \<and> map ds_id (dp_steps revised) = [''s2b'']
      \<and> validate_plan (pn_registry heal_planner) revised (executed_ids heal_results) (available_ids heal_results) = Inr [])
   \<and> xc_calls (snd heal_run) = xc_calls sample_ctx"
proof -
  have "map_sum (\<lambda>_. ()) (\<lambda>(p, e). (map_option (map ds_id \<circ> dp_steps) p, e)) (fst heal_run) = Inr (Some [''s2b''], None)"
    unfolding heal_run_def heal_ctx_def heal_planner_def note_registry_def by code_simp
  then obtain p e where pe: "fst heal_run = Inr (p, e)" "map_option (map ds_id \<circ> dp_steps) p = Some [''s2b'']" "e = None"
    by (cases "fst heal_run") auto
  have run: "revise_with_degenerate_guard heal_ctx (planner_revise heal_planner ''r1'' note_plan heal_results ''state'' []) ''r1''
      note_plan heal_results None sample_ctx = (Inr (p, e), snd heal_run)"
    using pe(1) by (simp add: heal_run_def prod_eq_iff)
  have ok: "log_ok (pn_env heal_planner) ''r1'' sample_ctx" "rv_env heal_ctx = pn_env heal_planner" "''r1'' \<noteq> []"
    by (simp_all add: heal_ctx_def heal_planner_def log_ok_def sample_tenant sample_ctx_def sample_store_wf)
  show ?thesis using revision_guard_is_sound[OF ok(1,3,2) run] pe by (cases p) auto
qed

end
