(* ===== verification/Run_Control.thy ===== *)
theory Run_Control
  imports Revision_Guard
begin

text \<open>
  The control of a run (core/scheduler/base.py): the guarded writes of run events, the ends
  of a run, pausing, resuming and cancelling, and the feedback of the user; and the direct
  answer of the serial loop (core/scheduler/loop.py).
\<close>

section \<open>Reading the state of a run\<close>

definition refresh_state :: "exec_env \<Rightarrow> string \<Rightarrow> run_state action" where
  "refresh_state env run_id c =
     (case fold_events (log_reader env (xc_store c) run_id) of
        Inl e \<Rightarrow> (Inl (exc_of_error e), c)
      | Inr st \<Rightarrow> (Inr st, c))"

definition is_run_terminal :: "exec_env \<Rightarrow> string \<Rightarrow> bool action" where
  "is_run_terminal env run_id c =
     (if log_reader env (xc_store c) run_id = [] then (Inr False, c)
      else act_bind (refresh_state env run_id) (\<lambda>st. act_return (rs_status st \<in> {RS_FAILED, RS_COMPLETED})) c)"

text \<open>The state for the final answer: the fold without the context events, with the summary of the full fold.\<close>

definition refresh_authoritative_state :: "exec_env \<Rightarrow> string \<Rightarrow> run_state action" where
  "refresh_authoritative_state env run_id c =
     (let events = log_reader env (xc_store c) run_id
      in case fold_events (filter (\<lambda>e. payload_type (ev_payload e) \<noteq> CONTEXT) events) of
           Inl e \<Rightarrow> (Inl (exc_of_error e), c)
         | Inr st \<Rightarrow>
             (case fold_events events of
                Inl e \<Rightarrow> (Inl (exc_of_error e), c)
              | Inr cur \<Rightarrow> (Inr (case rs_summary cur of None \<Rightarrow> st | Some s \<Rightarrow> st\<lparr>rs_summary := Some s\<rparr>), c)))"

section \<open>Guarded writes\<close>

definition quietly :: "unit action \<Rightarrow> unit action" where
  "quietly m = act_try m (\<lambda>_. act_return ())"

definition last_seq :: "event list \<Rightarrow> int" where
  "last_seq events = (if events = [] then 0 else ev_seq (last events))"

definition record_late_event_rejection :: "exec_env \<Rightarrow> string \<Rightarrow> event_type \<Rightarrow> string \<Rightarrow> unit action" where
  "record_late_event_rejection env run_id et reason c =
     quietly (log_append env run_id (PDiagnostic (LateEventRejected \<lparr> ler_seq = last_seq (log_reader env (xc_store c) run_id),
       ler_event_type = event_type_value et, ler_reason = reason \<rparr>)) None) c"

definition record_phase_timeout :: "exec_env \<Rightarrow> string \<Rightarrow> string \<Rightarrow> int \<Rightarrow> unit action" where
  "record_phase_timeout env run_id phase budget_ms =
     quietly (log_append env run_id (PDiagnostic (PhaseTimedOut \<lparr> pto_timed_out_phase = phase, pto_budget_ms = budget_ms \<rparr>)) None)"

definition record_task_cleanup_timeout :: "exec_env \<Rightarrow> string \<Rightarrow> int \<Rightarrow> int \<Rightarrow> unit action" where
  "record_task_cleanup_timeout env run_id pending_count grace_ms =
     quietly (log_append env run_id (PDiagnostic (TaskCleanupTimeout \<lparr> tct_pending_count = pending_count, tct_grace_ms = grace_ms \<rparr>)) None)"

text \<open>Returns whether the event was written.\<close>

definition append_run_event :: "exec_env \<Rightarrow> string \<Rightarrow> payload \<Rightarrow> string option \<Rightarrow> bool \<Rightarrow> bool action" where
  "append_run_event env run_id p key allow_after_terminal =
     (let write0 = act_then (log_append env run_id p key) (act_return True);
          reject0 = act_then (record_late_event_rejection env run_id (payload_type p) ''run already terminal'') (act_return False)
      in if is_terminal_event (payload_type p) (payload_phase p) \<or> \<not> allow_after_terminal
         then act_bind (is_run_terminal env run_id) (\<lambda>t. if t then reject0 else write0)
         else write0)"

section \<open>Ending a run\<close>

definition verdict_summary :: "completion_verdict option \<Rightarrow> json dict list" where
  "verdict_summary completion =
     (case completion of
        None \<Rightarrow> []
      | Some cv \<Rightarrow> map (\<lambda>v. [(''contract_id'', JStr (dv_contract_id v)), (''status'', JStr (dv_status v)),
                           (''matched_step_ids'', JList (map JStr (dv_matched_step_ids v)))]) (cv_deliverables cv))"

definition complete_run :: "exec_env \<Rightarrow> string \<Rightarrow> string \<Rightarrow> bool \<Rightarrow> string list \<Rightarrow> completion_verdict option \<Rightarrow> unit action" where
  "complete_run env run_id summary all_normal unmet completion =
     act_bind (is_run_terminal env run_id) (\<lambda>t.
       if t then act_return ()
       else log_append env run_id (PRun (RunCompleted \<lparr> rc_result_summary = summary, rc_all_normal = all_normal, rc_unmet_step_ids = unmet,
              rc_deliverable_status = (case completion of None \<Rightarrow> ''unverified'' | Some cv \<Rightarrow> cv_deliverable_status cv),
              rc_deliverable_summary = verdict_summary completion \<rparr>)) None)"

definition fail_summary :: "event list \<Rightarrow> run_state \<Rightarrow> string \<Rightarrow> string" where
  "fail_summary events st error =
     (let tc = length (rs_thought_history st); tr = show_nat (length (rs_tool_results st));
          is_dag = list_ex (\<lambda>e. payload_type (ev_payload e) = PLAN \<and> payload_phase (ev_payload e) = Some ''created'') events;
          completed = length (filter (\<lambda>e. payload_type (ev_payload e) = STEP \<and> payload_phase (ev_payload e) = Some ''completed'') events);
          ending = ''. Task terminated.''
      in if is_dag
         then ''DAG execution: '' @ show_nat completed @ ''/'' @ tr @ '' step(s) completed, '' @ tr @ '' tool call(s). '' @ error @ ending
         else if 0 < tc then show_nat tc @ '' thought(s), '' @ tr @ '' tool call(s) executed. '' @ error @ ending
         else ''Task failed before execution. '' @ error @ ending)"

text \<open>The three messages shown to the user, as UTF-8 bytes: failed, cancelled, not confirmed.\<close>

definition failed_message :: string where
  "failed_message = [CHR 0xE4, CHR 0xBB, CHR 0xBB, CHR 0xE5, CHR 0x8A, CHR 0xA1, CHR 0xE6, CHR 0x9C, CHR 0xAA, CHR 0xE8, CHR 0x83, CHR 0xBD, CHR 0xE5, CHR 0xAE, CHR 0x8C, CHR 0xE6, CHR 0x88, CHR 0x90, CHR 0xEF, CHR 0xBC, CHR 0x8C, CHR 0xE8, CHR 0xAF, CHR 0xB7, CHR 0xE6, CHR 0xA3, CHR 0x80, CHR 0xE6, CHR 0x9F, CHR 0xA5, CHR 0xE4, CHR 0xBB, CHR 0xBB, CHR 0xE5, CHR 0x8A, CHR 0xA1, CHR 0xE8, CHR 0xA6, CHR 0x81, CHR 0xE6, CHR 0xB1, CHR 0x82, CHR 0xE6, CHR 0x88, CHR 0x96, CHR 0xE7, CHR 0xA8, CHR 0x8D, CHR 0xE5, CHR 0x90, CHR 0x8E, CHR 0xE9, CHR 0x87, CHR 0x8D, CHR 0xE8, CHR 0xAF, CHR 0x95, CHR 0xE3, CHR 0x80, CHR 0x82]"

definition cancelled_message :: string where
  "cancelled_message = [CHR 0xE4, CHR 0xBB, CHR 0xBB, CHR 0xE5, CHR 0x8A, CHR 0xA1, CHR 0xE5, CHR 0xB7, CHR 0xB2, CHR 0xE5, CHR 0x8F, CHR 0x96, CHR 0xE6, CHR 0xB6, CHR 0x88, CHR 0xE3, CHR 0x80, CHR 0x82]"

definition unconfirmed_message :: string where
  "unconfirmed_message = [CHR 0xE4, CHR 0xBB, CHR 0xBB, CHR 0xE5, CHR 0x8A, CHR 0xA1, CHR 0xE5, CHR 0x9B, CHR 0xA0, CHR 0xE6, CHR 0x9C, CHR 0xAA, CHR 0xE8, CHR 0x8E, CHR 0xB7, CHR 0xE5, CHR 0xBE, CHR 0x97, CHR 0xE5, CHR 0xBF, CHR 0x85, CHR 0xE8, CHR 0xA6, CHR 0x81, CHR 0xE7, CHR 0xA1, CHR 0xAE, CHR 0xE8, CHR 0xAE, CHR 0xA4, CHR 0xE8, CHR 0x80, CHR 0x8C, CHR 0xE6, CHR 0x9C, CHR 0xAA, CHR 0xE8, CHR 0x83, CHR 0xBD, CHR 0xE5, CHR 0xAE, CHR 0x8C, CHR 0xE6, CHR 0x88, CHR 0x90, CHR 0xE3, CHR 0x80, CHR 0x82]"

definition user_message :: "string \<Rightarrow> string" where
  "user_message error =
     (if contains_sub ''cancel'' (lower error) then cancelled_message
      else if contains_sub ''confirmation'' (lower error) then unconfirmed_message else failed_message)"

definition fail_run :: "exec_env \<Rightarrow> string \<Rightarrow> string \<Rightarrow> unit action" where
  "fail_run env run_id error =
     act_bind (is_run_terminal env run_id) (\<lambda>t.
       if t then act_return ()
       else act_bind (refresh_state env run_id) (\<lambda>st c.
         let events = log_reader env (xc_store c) run_id
         in log_append env run_id (PRun (RunFailed \<lparr> rf_final_error = error, rf_event_count = int (length events),
              rf_result_summary = Some (fail_summary events st error), rf_user_facing_message = user_message error \<rparr>)) None c))"

section \<open>Pausing and resuming\<close>

definition pause_run :: "exec_env \<Rightarrow> string \<Rightarrow> bool action" where
  "pause_run env run_id =
     act_bind (refresh_state env run_id) (\<lambda>st.
       if rs_status st \<noteq> RS_RUNNING then act_return False
       else act_then (log_append env run_id (PRun (RunPaused \<lparr> rp_reason = ''user_requested'' \<rparr>)) None) (act_return True))"

definition resume_run :: "exec_env \<Rightarrow> string \<Rightarrow> bool action" where
  "resume_run env run_id =
     act_bind (refresh_state env run_id) (\<lambda>st.
       if rs_status st \<noteq> RS_PAUSED then act_return False
       else act_then (log_append env run_id (PRun (RunResumed \<lparr> rr_resume_from_seq = rs_seq st \<rparr>)) None) (act_return True))"

definition run_started :: "string \<Rightarrow> payload" where
  "run_started intent = PRun (RunStarted \<lparr> rst_intent = intent, rst_current_request = None, rst_context_snapshot = [],
     rst_conversation_id = None, rst_workspace_id = None, rst_intent_raw = Some intent, rst_contracts = [],
     rst_requires_contract_extraction = False \<rparr>)"

definition starts_with_started :: "event list \<Rightarrow> bool" where
  "starts_with_started events =
     (case events of [] \<Rightarrow> False | e # _ \<Rightarrow> payload_type (ev_payload e) = RUN \<and> payload_phase (ev_payload e) = Some ''started'')"

definition ensure_run_started :: "exec_env \<Rightarrow> string \<Rightarrow> string \<Rightarrow> unit action" where
  "ensure_run_started env run_id intent c =
     (if starts_with_started (log_reader env (xc_store c) run_id) then (Inr (), c)
      else log_append env run_id (run_started intent) None c)"

text \<open>
  The wake-up signals of the live schedulers: per run, an event object that exists or not and is
  set or not. Waking a run without an event object does nothing.
\<close>

record control =
  ct_pause :: "bool dict"
  ct_confirm :: "bool dict"
  ct_cancel :: "bool dict"

definition set_event :: "string \<Rightarrow> bool dict \<Rightarrow> bool dict" where
  "set_event run_id evs = (if has_key evs run_id then dset run_id True evs else evs)"

definition cancel_signals :: "string \<Rightarrow> control \<Rightarrow> control" where
  "cancel_signals run_id ct = \<lparr> ct_pause = set_event run_id (ct_pause ct), ct_confirm = set_event run_id (ct_confirm ct),
     ct_cancel = set_event run_id (ct_cancel ct) \<rparr>"

definition resume_signals :: "string \<Rightarrow> control \<Rightarrow> control" where
  "resume_signals run_id ct = ct\<lparr>ct_pause := set_event run_id (ct_pause ct), ct_confirm := set_event run_id (ct_confirm ct)\<rparr>"

text \<open>The whole of \<^verbatim>\<open>resume\<close> and \<^verbatim>\<open>_fail\<close>: the write, and the signals when it was made.\<close>

definition resume_and_wake :: "exec_env \<Rightarrow> string \<Rightarrow> control \<Rightarrow> (bool \<times> control) action" where
  "resume_and_wake env run_id ct =
     act_bind (resume_run env run_id) (\<lambda>ok. act_return (ok, if ok then resume_signals run_id ct else ct))"

definition fail_and_wake :: "exec_env \<Rightarrow> string \<Rightarrow> string \<Rightarrow> control \<Rightarrow> control action" where
  "fail_and_wake env run_id error ct =
     act_bind (is_run_terminal env run_id) (\<lambda>t.
       if t then act_return ct else act_then (fail_run env run_id error) (act_return (cancel_signals run_id ct)))"

definition is_cancelled :: "string \<Rightarrow> control \<Rightarrow> bool" where
  "is_cancelled run_id ct = dget_or False (ct_cancel ct) run_id"

definition is_paused :: "string \<Rightarrow> control \<Rightarrow> bool" where
  "is_paused run_id ct = (dget (ct_pause ct) run_id = Some False)"

section \<open>Feedback for the model\<close>

fun priority_text :: "feedback_priority \<Rightarrow> string" where
  "priority_text PHigh = ''high''"
| "priority_text PMedium = ''medium''"
| "priority_text PLow = ''low''"

fun priority_score :: "feedback_priority \<Rightarrow> int" where
  "priority_score PHigh = 3"
| "priority_score PMedium = 2"
| "priority_score PLow = 1"

definition format_feedback :: "feedback_injected_payload \<Rightarrow> string" where
  "format_feedback fb =
     (if fb_category fb = CONDITION_RESOLVED then ''[RESOLVED] '' @ fb_feedback_text fb
      else
        (let level = (case fb_priority fb of PHigh \<Rightarrow> ''!!'' | PMedium \<Rightarrow> ''!'' | PLow \<Rightarrow> []);
             source_tag = (if fb_source fb = OPERATOR then ''[Operator]'' else [])
         in join [CHR 0x0A]
              ([level @ '' '' @ source_tag @ ''['' @ upper (priority_text (fb_priority fb)) @ ''] '' @ fb_feedback_text fb]
               @ (if opt_truthy (fb_affected_tool fb) \<and> opt_truthy (fb_error_type fb)
                  then [''   Tool: '' @ the (fb_affected_tool fb) @ ''  Error: '' @ the (fb_error_type fb)] else [])
               @ (if opt_truthy (fb_error_detail fb) then [''   Detail: '' @ the (fb_error_detail fb)] else [])
               @ (if opt_truthy (fb_suggestion fb) then [''   '' @ arrow @ '' '' @ the (fb_suggestion fb)] else []))))"

definition resolved_ids :: "feedback_injected_payload list \<Rightarrow> string list" where
  "resolved_ids fbs = List.map_filter (\<lambda>fb. if fb_category fb = CONDITION_RESOLVED \<and> opt_truthy (fb_resolves_feedback_id fb)
     then fb_resolves_feedback_id fb else None) fbs"

definition fb_active :: "run_state \<Rightarrow> int option \<Rightarrow> feedback_injected_payload \<Rightarrow> bool" where
  "fb_active st since_seq fb \<longleftrightarrow>
     (case fb_expires_at_seq fb of None \<Rightarrow> True | Some s \<Rightarrow> rs_seq st \<le> s)
     \<and> fb_category fb \<noteq> CONDITION_RESOLVED \<and> fb_consumed_at_seq fb = None
     \<and> fb_feedback_id fb \<notin> set (resolved_ids (rs_feedbacks st))
     \<and> (case since_seq of None \<Rightarrow> True | Some n \<Rightarrow> (case fb_injected_at_seq fb of Some k \<Rightarrow> n < k | None \<Rightarrow> False))"

definition fb_rank :: "feedback_injected_payload \<Rightarrow> int" where
  "fb_rank fb = - ((if fb_source fb = OPERATOR then 10 else 0) + priority_score (fb_priority fb))"

definition selected_feedbacks :: "run_state \<Rightarrow> bool \<Rightarrow> int option \<Rightarrow> feedback_injected_payload list" where
  "selected_feedbacks st for_revise since_seq =
     (let active = sort_key fb_rank (filter (fb_active st since_seq) (rs_feedbacks st))
      in take 5 (if for_revise then filter (\<lambda>fb. fb_priority fb = PHigh \<or> fb_source fb = OPERATOR) active else active))"

definition feedback_separator :: string where
  "feedback_separator = [CHR 0x0A] @ concat (replicate 30 [CHR 0xE2, CHR 0x94, CHR 0x81]) @ [CHR 0x0A]"

definition get_feedback_text :: "bool \<Rightarrow> run_state \<Rightarrow> bool \<Rightarrow> int option \<Rightarrow> string option" where
  "get_feedback_text has_monitor st for_revise since_seq =
     (if \<not> has_monitor \<or> selected_feedbacks st for_revise since_seq = [] then None
      else Some (''## Monitoring Feedback'' @ [CHR 0x0A]
             @ join feedback_separator (map format_feedback (selected_feedbacks st for_revise since_seq))))"

section \<open>A run ends once\<close>

definition ended :: "run_status \<Rightarrow> bool" where
  "ended s \<longleftrightarrow> s \<in> {RS_FAILED, RS_COMPLETED}"

definition status_of :: "payload \<Rightarrow> run_status list" where
  "status_of p = (case run_status_of p of None \<Rightarrow> [] | Some s \<Rightarrow> [s])"

text \<open>The statuses a run went through, oldest first.\<close>

definition statuses :: "exec_ctx \<Rightarrow> string \<Rightarrow> run_status list" where
  "statuses c run_id = concat (map (\<lambda>e. status_of (ev_payload e)) (get_events (xc_store c) run_id))"

definition ends_once :: "run_status list \<Rightarrow> bool" where
  "ends_once ss \<longleftrightarrow> (\<forall>s\<in>set (butlast ss). \<not> ended s)"

lemma map_filter_statuses: "List.map_filter (\<lambda>e. run_status_of (ev_payload e)) es = concat (map (\<lambda>e. status_of (ev_payload e)) es)"
  by (induction es) (auto simp: map_filter_simps status_of_def split: option.splits)

lemma log_reader_eq:
  assumes "log_ok env run_id c"
  shows "log_reader env (xc_store c) run_id = get_events (xc_store c) run_id"
proof (cases "xe_tenant env")
  case (Some t)
  have wf: "rows_wf (es_events (xc_store c))" and ten: "\<forall>r\<in>set (run_rows run_id (es_events (xc_store c))). er_tenant_id r = t"
    using assms Some by (auto simp: log_ok_def store_wf_def single_tenant_def list_all_iff)
  have "ev_tenant_id e = t" if "e \<in> set (get_events (xc_store c) run_id)" for e
    using that ten unfolding get_events_rows[OF wf] events_of_rows_def
    by (force simp: List.map_filter_def row_event_def split: row_body.splits option.splits)
  then show ?thesis using Some by (simp add: log_reader_def scoped_get_events_def of_tenant_def)
qed (simp add: log_reader_def)

lemma wrote_statuses:
  assumes "log_ok env run_id c" "wrote env run_id c ps c'"
  shows "statuses c' run_id = statuses c run_id @ concat (map (\<lambda>(p, k). status_of p) ps)"
proof -
  obtain es where es: "get_events (xc_store c') run_id = get_events (xc_store c) run_id @ es" "map ev_payload es = map fst ps"
    by (rule wrote_get_events[OF _ assms(2)]) (use assms(1) in \<open>auto simp: log_ok_def\<close>)
  have "map (\<lambda>e. status_of (ev_payload e)) es = map (\<lambda>(p, k). status_of p) ps"
    using arg_cong[OF es(2), of "map status_of"] by (simp add: comp_def case_prod_unfold)
  then show ?thesis by (simp add: statuses_def es(1))
qed

lemma ends_once_append: "ends_once ss \<Longrightarrow> (ss \<noteq> [] \<Longrightarrow> \<not> ended (last ss)) \<Longrightarrow> ends_once (ss @ [s])"
  unfolding ends_once_def butlast_snoc
  by (cases ss rule: rev_cases) auto

text \<open>The contract of an operation on a live run: it keeps the log well formed, and never writes a status after a final one.\<close>

definition orderly :: "exec_env \<Rightarrow> string \<Rightarrow> 'a action \<Rightarrow> bool" where
  "orderly env run_id m \<longleftrightarrow> (\<forall>c. log_ok env run_id c \<longrightarrow>
     ensures m c (\<lambda>r c'. log_ok env run_id c' \<and> (ends_once (statuses c run_id) \<longrightarrow> ends_once (statuses c' run_id))
       \<and> (statuses c run_id \<noteq> [] \<longrightarrow> ended (last (statuses c run_id)) \<longrightarrow> statuses c' run_id = statuses c run_id)))"

lemma ensures_pure: "m c = (r, c) \<Longrightarrow> Q r c \<Longrightarrow> ensures m c Q"
  by (simp add: ensures_def)

lemma orderly_return [intro]: "orderly env run_id (act_return x)"
  by (simp add: orderly_def ensures_def act_return_def)

text \<open>A write of an event without status, or of any event on a run that has not ended.\<close>

lemma ensures_log_append_orderly:
  assumes ok: "log_ok env run_id c"
    and free: "run_status_of p = None \<or> statuses c run_id = [] \<or> \<not> ended (last (statuses c run_id))"
  shows "ensures (log_append env run_id p None) c (\<lambda>r c'. r = Inr () \<and> log_ok env run_id c'
     \<and> (ends_once (statuses c run_id) \<longrightarrow> ends_once (statuses c' run_id))
     \<and> (statuses c run_id \<noteq> [] \<longrightarrow> ended (last (statuses c run_id)) \<longrightarrow> statuses c' run_id = statuses c run_id))"
proof -
  obtain c' where c': "log_append env run_id p None c = (Inr (), c')" "wrote env run_id c [(p, None)] c'" "log_ok env run_id c'"
    using log_append_ok[OF ok] by blast
  have "statuses c' run_id = statuses c run_id @ status_of p" using wrote_statuses[OF ok c'(2)] by simp
  then show ?thesis using free c'(1,3) ends_once_append[of "statuses c run_id"]
    by (auto simp: ensures_def status_of_def split: option.splits)
qed

lemma is_run_terminal_cases:
  assumes ok: "log_ok env run_id c"
  shows "(\<exists>e. is_run_terminal env run_id c = (Inl e, c))
    \<or> is_run_terminal env run_id c = (Inr (statuses c run_id \<noteq> [] \<and> ended (last (statuses c run_id))), c)"
proof (cases "fold_events (get_events (xc_store c) run_id)")
  case (Inl e)
  then show ?thesis
    by (auto simp: is_run_terminal_def log_reader_eq[OF ok] refresh_state_def act_bind_def statuses_def)
next
  case (Inr st)
  have "rs_status st = last (RS_RUNNING # statuses c run_id)"
    using fold_status_last[OF Inr] by (simp add: map_filter_statuses statuses_def)
  then show ?thesis using Inr
    by (auto simp: is_run_terminal_def log_reader_eq[OF ok] refresh_state_def act_bind_def act_return_def ended_def statuses_def)
qed

lemma orderly_guarded:
  assumes "orderly env run_id m"
    and "\<And>c. log_ok env run_id c \<Longrightarrow> statuses c run_id = [] \<or> \<not> ended (last (statuses c run_id)) \<Longrightarrow>
       ensures k c (\<lambda>r c'. log_ok env run_id c' \<and> (ends_once (statuses c run_id) \<longrightarrow> ends_once (statuses c' run_id)))"
  shows "orderly env run_id (act_bind (is_run_terminal env run_id) (\<lambda>t. if t then m else k))"
  unfolding orderly_def
proof (intro allI impI)
  fix c assume ok: "log_ok env run_id c"
  from is_run_terminal_cases[OF ok]
  show "ensures (act_bind (is_run_terminal env run_id) (\<lambda>t. if t then m else k)) c
      (\<lambda>r c'. log_ok env run_id c' \<and> (ends_once (statuses c run_id) \<longrightarrow> ends_once (statuses c' run_id))
       \<and> (statuses c run_id \<noteq> [] \<longrightarrow> ended (last (statuses c run_id)) \<longrightarrow> statuses c' run_id = statuses c run_id))"
  proof (elim disjE exE)
    fix e assume "is_run_terminal env run_id c = (Inl e, c)"
    then show ?thesis using ok by (simp add: ensures_def act_bind_def)
  next
    assume t: "is_run_terminal env run_id c = (Inr (statuses c run_id \<noteq> [] \<and> ended (last (statuses c run_id))), c)"
    show ?thesis
    proof (cases "statuses c run_id \<noteq> [] \<and> ended (last (statuses c run_id))")
      case True
      have "act_bind (is_run_terminal env run_id) (\<lambda>t. if t then m else k) c = m c" using t True by (simp add: act_bind_def)
      then show ?thesis using assms(1) ok unfolding orderly_def ensures_def by auto
    next
      case False
      then have "ensures k c (\<lambda>r c'. log_ok env run_id c' \<and> (ends_once (statuses c run_id) \<longrightarrow> ends_once (statuses c' run_id)))"
        using assms(2)[OF ok] by blast
      then show ?thesis using False t by (auto simp: ensures_def act_bind_def split: prod.splits)
    qed
  qed
qed

lemma append_unended:
  assumes "log_ok env run_id c" "statuses c run_id = [] \<or> \<not> ended (last (statuses c run_id))"
  shows "ensures (log_append env run_id p None) c (\<lambda>r c'. log_ok env run_id c' \<and> (ends_once (statuses c run_id) \<longrightarrow> ends_once (statuses c' run_id)))"
    and "ensures (act_then (log_append env run_id p None) (act_return x)) c
      (\<lambda>r c'. log_ok env run_id c' \<and> (ends_once (statuses c run_id) \<longrightarrow> ends_once (statuses c' run_id)))"
  using ensures_log_append_orderly[OF assms(1), of p] assms(2)
  by (auto simp: ensures_def act_then_def act_bind_def act_return_def split: prod.splits sum.splits)

lemma orderly_reject: "orderly env run_id (act_then (record_late_event_rejection env run_id et why) (act_return x))"
  unfolding orderly_def
proof (intro allI impI)
  fix c assume ok: "log_ok env run_id c"
  define p where "p = PDiagnostic (LateEventRejected \<lparr> ler_seq = last_seq (log_reader env (xc_store c) run_id),
       ler_event_type = event_type_value et, ler_reason = why \<rparr>)"
  have p: "run_status_of p = None" by (simp add: p_def)
  show "ensures (act_then (record_late_event_rejection env run_id et why) (act_return x)) c
    (\<lambda>r c'. log_ok env run_id c' \<and> (ends_once (statuses c run_id) \<longrightarrow> ends_once (statuses c' run_id))
       \<and> (statuses c run_id \<noteq> [] \<longrightarrow> ended (last (statuses c run_id)) \<longrightarrow> statuses c' run_id = statuses c run_id))"
    using ensures_log_append_orderly[OF ok, of p] p
    by (auto simp: ensures_def act_then_def act_bind_def act_return_def record_late_event_rejection_def quietly_def act_try_def
        simp flip: p_def split: prod.splits sum.splits)
qed

lemma orderly_append_run_event: "orderly env run_id (append_run_event env run_id p None False)"
  unfolding append_run_event_def Let_def not_False_eq_True disj_absorb simp_thms if_True
  by (rule orderly_guarded[OF orderly_reject append_unended(2)])

lemma orderly_complete: "orderly env run_id (complete_run env run_id s b u cv)"
  unfolding complete_run_def by (rule orderly_guarded[OF orderly_return append_unended(1)])

lemma refresh_state_cases:
  assumes ok: "log_ok env run_id c"
  shows "(\<exists>e. refresh_state env run_id c = (Inl e, c))
    \<or> (\<exists>st. refresh_state env run_id c = (Inr st, c) \<and> rs_status st = last (RS_RUNNING # statuses c run_id))"
proof (cases "fold_events (get_events (xc_store c) run_id)")
  case (Inr st)
  then show ?thesis using fold_status_last[OF Inr]
    by (simp add: refresh_state_def log_reader_eq[OF ok] map_filter_statuses statuses_def)
qed (simp add: refresh_state_def log_reader_eq[OF ok])

lemma orderly_fail: "orderly env run_id (fail_run env run_id err)"
  unfolding fail_run_def
proof (rule orderly_guarded[OF orderly_return], goal_cases)
  case (1 c)
  from refresh_state_cases[OF 1(1)] show ?case
  proof (elim disjE exE conjE)
    fix e assume "refresh_state env run_id c = (Inl e, c)"
    then show ?thesis using 1 by (simp add: ensures_def act_bind_def)
  next
    fix st assume "refresh_state env run_id c = (Inr st, c)"
    then show ?thesis using append_unended(1)[OF 1] by (simp add: ensures_def act_bind_def Let_def)
  qed
qed

lemma orderly_when:
  assumes "\<And>st. P st \<Longrightarrow> \<not> ended (rs_status st)"
  shows "orderly env run_id (act_bind (refresh_state env run_id) (\<lambda>st. if \<not> P st
      then act_return y else act_then (log_append env run_id (p st) None) (act_return x)))"
  unfolding orderly_def
proof (intro allI impI)
  fix c assume ok: "log_ok env run_id c"
  let ?m = "act_bind (refresh_state env run_id) (\<lambda>st. if \<not> P st then act_return y else act_then (log_append env run_id (p st) None) (act_return x))"
  let ?Q = "\<lambda>(r :: py_exc + _) c'. log_ok env run_id c' \<and> (ends_once (statuses c run_id) \<longrightarrow> ends_once (statuses c' run_id))
       \<and> (statuses c run_id \<noteq> [] \<longrightarrow> ended (last (statuses c run_id)) \<longrightarrow> statuses c' run_id = statuses c run_id)"
  from refresh_state_cases[OF ok] show "ensures ?m c ?Q"
  proof (elim disjE exE conjE)
    fix e assume "refresh_state env run_id c = (Inl e, c)"
    then show ?thesis using ok by (simp add: ensures_def act_bind_def)
  next
    fix st assume r: "refresh_state env run_id c = (Inr st, c)" "rs_status st = last (RS_RUNNING # statuses c run_id)"
    show ?thesis
    proof (cases "P st")
      case True
      then have free: "statuses c run_id = [] \<or> \<not> ended (last (statuses c run_id))" using assms[OF True] r(2) by auto
      have "ensures ?m c (\<lambda>r c'. log_ok env run_id c' \<and> (ends_once (statuses c run_id) \<longrightarrow> ends_once (statuses c' run_id)))"
        using append_unended(2)[OF ok free, of "p st" x] r(1) True by (simp add: ensures_def act_bind_def)
      then show ?thesis by (rule ensures_mono) (use free in auto)
    next
      case False
      then show ?thesis using r(1) ok by (simp add: ensures_def act_bind_def act_return_def)
    qed
  qed
qed

lemma orderly_pause: "orderly env run_id (pause_run env run_id)"
  unfolding pause_run_def by (rule orderly_when) (simp add: ended_def)

lemma orderly_resume: "orderly env run_id (resume_run env run_id)"
  unfolding resume_run_def by (rule orderly_when) (simp add: ended_def)

text \<open>
  The life of a run under the scheduler: guarded writes, completion, failure, pause, resume, in any order and whoever calls
  them, and in between the writes of the executors, which carry no run status.
\<close>

inductive run_op :: "exec_env \<Rightarrow> string \<Rightarrow> exec_ctx \<Rightarrow> exec_ctx \<Rightarrow> bool" for env run_id where
  op_event: "append_run_event env run_id p None False c = (r, c') \<Longrightarrow> run_op env run_id c c'"
| op_complete: "complete_run env run_id s b u cv c = (r2, c') \<Longrightarrow> run_op env run_id c c'"
| op_fail: "fail_run env run_id err c = (r2, c') \<Longrightarrow> run_op env run_id c c'"
| op_pause: "pause_run env run_id c = (r, c') \<Longrightarrow> run_op env run_id c c'"
| op_resume: "resume_run env run_id c = (r, c') \<Longrightarrow> run_op env run_id c c'"
| op_executor: "wrote env run_id c ps c' \<Longrightarrow> list_all (\<lambda>(p, k). run_status_of p = None) ps \<Longrightarrow> run_op env run_id c c'"

lemma orderlyD:
  "orderly env run_id m \<Longrightarrow> m c = (r, c') \<Longrightarrow> log_ok env run_id c \<Longrightarrow> log_ok env run_id c'
     \<and> (ends_once (statuses c run_id) \<longrightarrow> ends_once (statuses c' run_id))
     \<and> (statuses c run_id \<noteq> [] \<longrightarrow> ended (last (statuses c run_id)) \<longrightarrow> statuses c' run_id = statuses c run_id)"
  by (auto simp: orderly_def ensures_def split: prod.splits)

lemma run_op_orderly:
  assumes "run_op env run_id c c'" "log_ok env run_id c"
  shows "log_ok env run_id c' \<and> (ends_once (statuses c run_id) \<longrightarrow> ends_once (statuses c' run_id))
     \<and> (statuses c run_id \<noteq> [] \<longrightarrow> ended (last (statuses c run_id)) \<longrightarrow> statuses c' run_id = statuses c run_id)"
  using assms
proof cases
  case (op_executor ps)
  have "concat (map (\<lambda>(p, k). status_of p) ps) = []" using op_executor(2) by (auto simp: list_all_iff status_of_def)
  then have "statuses c' run_id = statuses c run_id" using wrote_statuses[OF assms(2) op_executor(1)] by (simp only: append_Nil2)
  then show ?thesis using wrote_log_ok[OF assms(2) op_executor(1)] by simp
qed (metis orderlyD orderly_append_run_event orderly_complete orderly_fail orderly_pause orderly_resume)+

text \<open>C12: A run ends at most once. Under any sequence of scheduler operations (guarded events, completion, failure, pause, resume and
  the writes of the executors) a final status, once written, is the last status event of the run: the run is never completed or
  failed a second time, paused or resumed afterwards.\<close>

theorem runs_end_at_most_once:
  assumes "log_ok env run_id c" "(run_op env run_id)\<^sup>*\<^sup>* c c'" "ends_once (statuses c run_id)"
  shows "ends_once (statuses c' run_id)
    \<and> (statuses c run_id \<noteq> [] \<longrightarrow> ended (last (statuses c run_id)) \<longrightarrow> statuses c' run_id = statuses c run_id)"
proof -
  have "log_ok env run_id c' \<and> ends_once (statuses c' run_id)
    \<and> (statuses c run_id \<noteq> [] \<longrightarrow> ended (last (statuses c run_id)) \<longrightarrow> statuses c' run_id = statuses c run_id)"
    using assms(2)
  proof (induction rule: rtranclp_induct)
    case base
    then show ?case using assms(1,3) by simp
  next
    case (step a b)
    then show ?case using run_op_orderly[OF step(2)] by metis
  qed
  then show ?thesis by blast
qed

section \<open>Samples\<close>

text \<open>A run that fails, and the direct write of a completion with which the serial loop ends a run.\<close>

definition sample_failed :: exec_ctx where
  "sample_failed = snd (fail_run sample_env ''r1'' ''boom'' sample_ctx)"

definition direct_answer :: "string \<Rightarrow> payload" where
  "direct_answer s = PRun (RunCompleted \<lparr> rc_result_summary = s, rc_all_normal = True, rc_unmet_step_ids = [],
     rc_deliverable_status = ''unverified'', rc_deliverable_summary = [] \<rparr>)"

lemma sample_ctx_ok: "log_ok sample_env ''r1'' sample_ctx"
  by (simp add: log_ok_def sample_tenant sample_ctx_def sample_store_wf)

lemma runs_end_at_most_once_witness:
  "ends_once (statuses (snd (complete_run sample_env ''r1'' ''done'' True [] None sample_failed)) ''r1'')
   \<and> statuses sample_failed ''r1'' = [RS_RUNNING, RS_FAILED]"
proof -
  have st: "statuses sample_ctx ''r1'' = [RS_RUNNING]" "statuses sample_failed ''r1'' = [RS_RUNNING, RS_FAILED]" by code_simp+
  have "run_op sample_env ''r1'' sample_ctx sample_failed"
    unfolding sample_failed_def by (rule op_fail[OF surjective_pairing])
  then have "(run_op sample_env ''r1'')\<^sup>*\<^sup>* sample_ctx (snd (complete_run sample_env ''r1'' ''done'' True [] None sample_failed))"
    using op_complete[OF surjective_pairing] by (meson r_into_rtranclp rtranclp.rtrancl_into_rtrancl)
  from runs_end_at_most_once[OF sample_ctx_ok this] st show ?thesis by (simp add: ends_once_def)
qed

text \<open>The serial loop ends a run by writing its completion directly, past the guard. If the run has failed in the meantime (it was
  deleted or timed out while the model was thinking), the run is recorded as completed after having failed.\<close>

theorem serial_completion_overwrites_failure:
  "statuses (snd (log_append sample_env ''r1'' (direct_answer ''done'') None sample_failed)) ''r1'' = [RS_RUNNING, RS_FAILED, RS_COMPLETED]
   \<and> map_sum id rs_status (fst (refresh_state sample_env ''r1'' (snd (log_append sample_env ''r1'' (direct_answer ''done'') None sample_failed))))
       = Inr RS_COMPLETED
   \<and> statuses (snd (append_run_event sample_env ''r1'' (direct_answer ''done'') None False sample_failed)) ''r1'' = [RS_RUNNING, RS_FAILED]"
  by code_simp

end
