(* ===== verification/Local_Repair.thy ===== *)
theory Local_Repair
  imports Run_Control
begin

text \<open>
  The local repair of failed read-only steps (core/scheduler/local_repair.py) with the
  scheduler's configuration (core/scheduler/base.py). The proposer is a parameter of the
  model; the repairs are bounded and touch nothing but read-only steps.
\<close>

section \<open>Configuration\<close>

record scheduler_config =
  cf_run_attempt_budget :: int
  cf_max_revise_retries :: int
  cf_pause_timeout_ms :: int
  cf_confirm_timeout_ms :: int
  cf_max_confirm_retries :: int
  cf_run_timeout_ms :: int
  cf_cancel_grace_ms :: int
  cf_local_repair_enabled :: bool
  cf_local_repair_max_rounds :: int

definition SchedulerConfig0 :: scheduler_config where
  "SchedulerConfig0 = \<lparr> cf_run_attempt_budget = 20, cf_max_revise_retries = 2, cf_pause_timeout_ms = 300000,
     cf_confirm_timeout_ms = 0, cf_max_confirm_retries = 10, cf_run_timeout_ms = 0, cf_cancel_grace_ms = 5000,
     cf_local_repair_enabled = True, cf_local_repair_max_rounds = 2 \<rparr>"

definition config_post_init :: "scheduler_config \<Rightarrow> scheduler_config" where
  "config_post_init cfg = (if cf_confirm_timeout_ms cfg = 0 then cfg\<lparr>cf_confirm_timeout_ms := cf_pause_timeout_ms cfg\<rparr> else cfg)"

section \<open>Candidates and budget\<close>

definition local_repair_step_error :: "step_result dict \<Rightarrow> string \<Rightarrow> string option" where
  "local_repair_step_error results sid = (case dget results sid of Some r \<Rightarrow> sr_error r | None \<Rightarrow> None)"

definition read_only_tool_map :: "tool_definition list \<Rightarrow> bool dict" where
  "read_only_tool_map tool_defs =
     fold (\<lambda>td ro. if td_side_effects td = [] \<and> list_all (\<lambda>op. oc_side_effects op = []) (td_operations td)
            then dset (td_name td) True ro else ro) tool_defs []"

definition contract_bound :: "delivery_contract list \<Rightarrow> dag_plan \<Rightarrow> string \<Rightarrow> bool" where
  "contract_bound contracts plan sid =
     list_ex (\<lambda>c. list_ex (\<lambda>s. ds_id s = sid \<and> step_satisfies s (contract_op c)) (dp_steps plan)) contracts"

definition repairable :: "step_result dict \<Rightarrow> dag_step \<Rightarrow> bool" where
  "repairable results step =
     (case dget results (ds_id step) of
        None \<Rightarrow> False
      | Some r \<Rightarrow> \<not> step_normal r \<and> sr_exec_state r \<in> {FAILED, UNSUCCESSFUL}
          \<and> classify_failure_tier (sr_error r) (sr_retryable r) = ''step_repair'')"

definition local_repair_candidates :: "dag_plan \<Rightarrow> step_result dict \<Rightarrow> delivery_contract list \<Rightarrow> dag_step list" where
  "local_repair_candidates plan results contracts =
     sort_key ds_id (filter (\<lambda>s. \<not> contract_bound contracts plan (ds_id s) \<and> repairable results s) (dp_steps plan))"

definition local_repair_budget :: "scheduler_config \<Rightarrow> tool_definition list \<Rightarrow> recovery_budget option" where
  "local_repair_budget cfg tool_defs =
     (if \<not> cf_local_repair_enabled cfg then None
      else Some \<lparr> rb_max_repair_rounds = max 1 (cf_local_repair_max_rounds cfg), rb_allowed_tools = map td_name tool_defs \<rparr>)"

section \<open>One repair\<close>

text \<open>The planner's proposal for a step, its error and the allowed tools.\<close>

type_synonym proposer = "dag_step \<Rightarrow> string option \<Rightarrow> string list \<Rightarrow> py_exc + local_repair_proposal option"

definition repair_started :: "dag_step \<Rightarrow> string \<Rightarrow> int \<Rightarrow> recovery_budget \<Rightarrow> string option \<Rightarrow> string list \<Rightarrow> payload" where
  "repair_started step plan_id used budget err whitelist =
     PStepRepair (StepLocalRepairStarted \<lparr> slrs_step_id = ds_id step, slrs_plan_id = plan_id, slrs_repair_round = used + 1,
       slrs_budget_remaining = rb_max_repair_rounds budget - used - 1, slrs_step_tool = ds_tool step, slrs_error = err,
       slrs_tool_whitelist = whitelist \<rparr>)"

definition repair_completed :: "dag_step \<Rightarrow> string \<Rightarrow> int \<Rightarrow> repair_outcome \<Rightarrow> string option \<Rightarrow> string \<Rightarrow> string \<Rightarrow> payload" where
  "repair_completed step plan_id used outcome err proposed reason =
     PStepRepair (StepLocalRepairCompleted \<lparr> slrc_step_id = ds_id step, slrc_plan_id = plan_id, slrc_repair_round = used + 1,
       slrc_outcome = outcome, slrc_tool_name = ds_tool step, slrc_proposed_tool = proposed, slrc_error = err, slrc_reason = reason \<rparr>)"

definition patch_step :: "dag_plan \<Rightarrow> string \<Rightarrow> local_repair_proposal \<Rightarrow> dag_plan" where
  "patch_step plan sid prop =
     plan\<lparr>dp_steps := map (\<lambda>s. if ds_id s = sid then s\<lparr>ds_tool := lrp_tool_name prop, ds_input := lrp_input prop\<rparr> else s) (dp_steps plan)\<rparr>"

record repair_ctx =
  rp_env :: exec_env
  rp_tool_defs :: "tool_definition list"
  rp_budget :: recovery_budget
  rp_propose :: proposer

text \<open>
  What one round decides, after the started event: an outcome event with no repair, or the
  accepted proposal.
\<close>

definition repair_verdict :: "repair_ctx \<Rightarrow> dag_step \<Rightarrow> int \<Rightarrow> string option \<Rightarrow> string list
    \<Rightarrow> (repair_outcome \<times> string \<times> string) \<times> local_repair_proposal option" where
  "repair_verdict cx step used err whitelist =
     (if rb_allowed_tools (rp_budget cx) = []
      then ((Exhausted, [], ''empty read-only whitelist '' @ dash @ '' no repair tool available''), None)
      else case rp_propose cx step err whitelist of
             Inr (Some prop) \<Rightarrow>
               (let d = validate_local_repair prop (used + 1) (rp_budget cx) (read_only_tool_map (rp_tool_defs cx))
                          (action_signature (ds_tool step) (JDict (ds_input step)))
                in if rd_allowed d
                   then ((Accepted, lrp_tool_name prop, ''accepted within trusted budget''), Some prop)
                   else ((Rejected, lrp_tool_name prop, rd_reason d), None))
           | _ \<Rightarrow> ((Rejected, [], ''planner returned no repair proposal''), None))"

type_synonym repair_state = "step_result dict \<times> int dict \<times> exec_ctx"

fun repair_loop :: "repair_ctx \<Rightarrow> string \<Rightarrow> dag_plan \<Rightarrow> string \<Rightarrow> dag_step list \<Rightarrow> repair_state \<Rightarrow> (py_exc + dag_plan option) \<times> repair_state" where
  "repair_loop cx run_id plan plan_id [] st = (Inr None, st)"
| "repair_loop cx run_id plan plan_id (step # steps) (results, rounds, c) =
     (let used = dget_or 0 rounds (ds_id step)
      in if rb_max_repair_rounds (rp_budget cx) \<le> used then repair_loop cx run_id plan plan_id steps (results, rounds, c)
         else
           (let err = local_repair_step_error results (ds_id step);
                whitelist = sort (remdups (rb_allowed_tools (rp_budget cx)));
                rounds1 = dset (ds_id step) (used + 1) rounds
            in case append_run_event (rp_env cx) run_id (repair_started step plan_id used (rp_budget cx) err whitelist) None False c of
                 (Inl e, c1) \<Rightarrow> (Inl e, results, rounds1, c1)
               | (Inr _, c1) \<Rightarrow>
                   (case repair_verdict cx step used err whitelist of
                      ((outcome, proposed, reason), accepted) \<Rightarrow>
                        (let results1 = (if accepted \<noteq> None then AList.delete (ds_id step) results else results)
                         in case append_run_event (rp_env cx) run_id (repair_completed step plan_id used outcome err proposed reason) None False c1 of
                              (Inl e, c2) \<Rightarrow> (Inl e, results1, rounds1, c2)
                            | (Inr _, c2) \<Rightarrow>
                                (case accepted of
                                   Some prop \<Rightarrow> (Inr (Some (patch_step plan (ds_id step) prop)), results1, rounds1, c2)
                                 | None \<Rightarrow> repair_loop cx run_id plan plan_id steps (results1, rounds1, c2))))))"

definition attempt_step_local_repair ::
    "repair_ctx \<Rightarrow> string \<Rightarrow> dag_plan \<Rightarrow> string \<Rightarrow> delivery_contract list \<Rightarrow> repair_state \<Rightarrow> (py_exc + dag_plan option) \<times> repair_state" where
  "attempt_step_local_repair cx run_id plan plan_id contracts st =
     (case st of (results, rounds, c) \<Rightarrow>
        repair_loop cx run_id plan plan_id (local_repair_candidates plan results contracts) (results, rounds, c))"

section \<open>Repairs stay within their bounds\<close>

text \<open>What an accepted proposal has passed.\<close>

definition safe_proposal :: "repair_ctx \<Rightarrow> dag_step \<Rightarrow> local_repair_proposal \<Rightarrow> bool" where
  "safe_proposal cx step prop \<longleftrightarrow> lrp_tool_name prop \<in> set (rb_allowed_tools (rp_budget cx))
     \<and> is_read_only_action_with (lrp_tool_name prop) (lrp_input prop) (read_only_tool_map (rp_tool_defs cx))
     \<and> action_signature (lrp_tool_name prop) (JDict (lrp_input prop)) \<noteq> action_signature (ds_tool step) (JDict (ds_input step))"

lemma repair_verdict_safe: "repair_verdict cx step used err wl = (x, Some prop) \<Longrightarrow> safe_proposal cx step prop"
  by (auto simp: repair_verdict_def safe_proposal_def validate_local_repair_def repair_denied_def Let_def
      split: if_splits sum.splits option.splits)

definition rounds_ok :: "repair_ctx \<Rightarrow> int dict \<Rightarrow> bool" where
  "rounds_ok cx rounds \<longleftrightarrow> (\<forall>sid. dget_or 0 rounds sid \<le> rb_max_repair_rounds (rp_budget cx))"

lemma append_run_event_silent: "append_run_event env run_id p k b c = (r, c') \<Longrightarrow> xc_calls c' = xc_calls c"
proof -
  have q: "xc_calls c2 = xc_calls c1" if "log_append env run_id q k2 c1 = (r2, c2)" for q k2 c1 r2 c2
    using that silent_log_append[of env run_id q k2] unfolding silent_def by (metis snd_conv)
  have t: "xc_calls c2 = xc_calls c1" if "is_run_terminal env run_id c1 = (r2, c2)" for c1 r2 c2
    using that by (auto simp: is_run_terminal_def refresh_state_def act_bind_def act_return_def split: if_splits sum.splits prod.splits)
  have rj: "xc_calls c2 = xc_calls c1" if "record_late_event_rejection env run_id et w c1 = (r2, c2)" for et w c1 r2 c2
    using that q by (fastforce simp: record_late_event_rejection_def quietly_def act_try_def act_return_def split: prod.splits sum.splits)
  assume "append_run_event env run_id p k b c = (r, c')"
  then show ?thesis
    by (auto simp: append_run_event_def Let_def act_bind_def act_then_def act_return_def dest!: q t rj split: if_splits prod.splits sum.splits)
qed

text \<open>The loop: it keeps the counters within the budget, runs no tool, and what it returns is a patch of one of its steps.\<close>

definition repair_inv :: "repair_ctx \<Rightarrow> dag_plan \<Rightarrow> dag_step list \<Rightarrow> repair_state \<Rightarrow> py_exc + dag_plan option \<Rightarrow> repair_state \<Rightarrow> bool" where
  "repair_inv cx plan steps st r st' \<longleftrightarrow>
     (rounds_ok cx (fst (snd st)) \<longrightarrow> rounds_ok cx (fst (snd st'))) \<and> xc_calls (snd (snd st')) = xc_calls (snd (snd st))
     \<and> (\<forall>sid. dget_or 0 (fst (snd st)) sid \<le> dget_or 0 (fst (snd st')) sid)
     \<and> (case r of
          Inl _ \<Rightarrow> True
        | Inr None \<Rightarrow> fst st' = fst st
        | Inr (Some plan') \<Rightarrow> \<exists>step\<in>set steps. \<exists>prop. safe_proposal cx step prop \<and> plan' = patch_step plan (ds_id step) prop
            \<and> fst st' = AList.delete (ds_id step) (fst st)
            \<and> dget_or 0 (fst (snd st')) (ds_id step) > dget_or 0 (fst (snd st)) (ds_id step))"

lemma rounds_bump:
  assumes "rb_max_repair_rounds (rp_budget cx) > dget_or 0 rounds sid"
  shows "rounds_ok cx rounds \<Longrightarrow> rounds_ok cx (dset sid (dget_or 0 rounds sid + 1) rounds)"
    and "dget_or 0 rounds k \<le> dget_or 0 (dset sid (dget_or 0 rounds sid + 1) rounds) k"
  using assms by (auto simp: rounds_ok_def dget_or_dset)

lemma repair_inv_advance:
  assumes "repair_inv cx plan steps (results, rounds1, c1) r st'"
    and "rounds_ok cx rounds \<Longrightarrow> rounds_ok cx rounds1" "\<And>k. dget_or 0 rounds k \<le> dget_or 0 rounds1 k" "xc_calls c1 = xc_calls c"
  shows "repair_inv cx plan steps (results, rounds, c) r st'"
proof -
  have mono: "dget_or 0 rounds sid \<le> dget_or 0 (fst (snd st')) sid" for sid
    using assms(1) assms(3)[of sid] unfolding repair_inv_def by (metis fst_conv snd_conv order_trans)
  have "\<exists>s\<in>set steps. \<exists>prop. safe_proposal cx s prop \<and> plan' = patch_step plan (ds_id s) prop
      \<and> fst st' = AList.delete (ds_id s) results \<and> dget_or 0 rounds (ds_id s) < dget_or 0 (fst (snd st')) (ds_id s)"
    if some: "r = Inr (Some plan')" for plan'
  proof -
    obtain s pr where "s \<in> set steps" "safe_proposal cx s pr" "plan' = patch_step plan (ds_id s) pr"
      "fst st' = AList.delete (ds_id s) results" "dget_or 0 rounds1 (ds_id s) < dget_or 0 (fst (snd st')) (ds_id s)"
      using assms(1) unfolding some repair_inv_def by auto
    then show ?thesis using assms(3)[of "ds_id s"] by (intro bexI[of _ s] exI[of _ pr]) auto
  qed
  then show ?thesis using assms(1,2,4) mono unfolding repair_inv_def by (auto split: sum.splits option.splits)
qed

lemma repair_loop_inv: "repair_loop cx run_id plan plan_id steps st = (r, st') \<Longrightarrow> repair_inv cx plan steps st r st'"
proof (induction steps arbitrary: st)
  case Nil
  then show ?case by (auto simp: repair_inv_def)
next
  case (Cons step steps)
  obtain results rounds c where st: "st = (results, rounds, c)" by (metis prod_cases3)
  define used where "used = dget_or 0 rounds (ds_id step)"
  have weaken: "repair_inv cx plan steps st2 r st' \<Longrightarrow> repair_inv cx plan (step # steps) st2 r st'" for st2
    by (auto simp: repair_inv_def split: sum.splits option.splits)
  show ?case
  proof (cases "rb_max_repair_rounds (rp_budget cx) \<le> used")
    case True
    then show ?thesis using Cons st weaken by (simp add: used_def)
  next
    case False
    define err where "err = local_repair_step_error results (ds_id step)"
    define wl where "wl = sort (remdups (rb_allowed_tools (rp_budget cx)))"
    define rounds1 where "rounds1 = dset (ds_id step) (used + 1) rounds"
    have lt: "dget_or 0 rounds (ds_id step) < rb_max_repair_rounds (rp_budget cx)" using False by (simp add: used_def)
    have bump: "rounds_ok cx rounds \<Longrightarrow> rounds_ok cx rounds1" "\<And>k. dget_or 0 rounds k \<le> dget_or 0 rounds1 k"
      using rounds_bump[OF lt] by (simp_all add: rounds1_def used_def)
    have bumped: "dget_or 0 rounds1 (ds_id step) = used + 1" by (simp add: rounds1_def dget_or_dset)
    obtain w1 c1 where a1: "append_run_event (rp_env cx) run_id (repair_started step plan_id used (rp_budget cx) err wl) None False c = (w1, c1)" by fastforce
    obtain outcome proposed reason accepted where v: "repair_verdict cx step used err wl = ((outcome, proposed, reason), accepted)" by (metis prod_cases3 surj_pair)
    obtain w2 c2 where a2: "append_run_event (rp_env cx) run_id (repair_completed step plan_id used outcome err proposed reason) None False c1 = (w2, c2)" by fastforce
    define results1 where "results1 = (if accepted \<noteq> None then AList.delete (ds_id step) results else results)"
    note calls = append_run_event_silent[OF a1] append_run_event_silent[OF a2]
    have loop: "(r, st') = (case w1 of Inl e \<Rightarrow> (Inl e, results, rounds1, c1)
        | Inr _ \<Rightarrow> (case w2 of Inl e \<Rightarrow> (Inl e, results1, rounds1, c2)
          | Inr _ \<Rightarrow> (case accepted of Some prop \<Rightarrow> (Inr (Some (patch_step plan (ds_id step) prop)), results1, rounds1, c2)
             | None \<Rightarrow> repair_loop cx run_id plan plan_id steps (results1, rounds1, c2))))"
      using Cons.prems False unfolding st
      by (simp add: Let_def flip: used_def err_def wl_def rounds1_def) (simp add: a1 v a2 results1_def Let_def split: sum.split_asm option.split_asm sum.split option.split)
    show ?thesis
    proof (cases "isl w1 \<or> isl w2 \<or> accepted \<noteq> None")
      case True
      then show ?thesis using loop bump bumped calls repair_verdict_safe[of cx step used err wl] v
        by (auto simp: repair_inv_def st used_def results1_def split: sum.splits option.splits)
    next
      case go: False
      then have "repair_loop cx run_id plan plan_id steps (results, rounds1, c2) = (r, st')"
        using loop by (auto simp: results1_def split: sum.splits)
      from repair_inv_advance[OF Cons.IH[OF this] bump] have "repair_inv cx plan steps (results, rounds, c) r st'" using calls by simp
      then show ?thesis unfolding st by (rule weaken)
    qed
  qed
qed

text \<open>C27: Step-local repair is bounded and harmless. An accepted repair replaces the action of one failed, non-transient step that no
  delivery contract binds, by a read-only action with an allowed tool that differs from the failed one; it only drops that
  step's result, and counts one more round for it. No round counter ever exceeds the budget and no tool runs while
  repairing.\<close>

theorem local_repair_is_bounded_and_read_only:
  assumes "attempt_step_local_repair cx run_id plan plan_id contracts (results, rounds, c) = (r, results', rounds', c')"
    and "rounds_ok cx rounds"
  shows "rounds_ok cx rounds' \<and> xc_calls c' = xc_calls c \<and> (r = Inr None \<longrightarrow> results' = results)
    \<and> (\<forall>plan'. r = Inr (Some plan') \<longrightarrow> (\<exists>step\<in>set (dp_steps plan). \<exists>prop.
         repairable results step \<and> (\<forall>ct\<in>set contracts. \<not> step_satisfies step (contract_op ct))
         \<and> lrp_tool_name prop \<in> set (rb_allowed_tools (rp_budget cx))
         \<and> is_read_only_action_with (lrp_tool_name prop) (lrp_input prop) (read_only_tool_map (rp_tool_defs cx))
         \<and> action_signature (lrp_tool_name prop) (JDict (lrp_input prop)) \<noteq> action_signature (ds_tool step) (JDict (ds_input step))
         \<and> plan' = patch_step plan (ds_id step) prop \<and> results' = AList.delete (ds_id step) results
         \<and> dget_or 0 rounds (ds_id step) < dget_or 0 rounds' (ds_id step)))"
proof -
  have cand: "step \<in> set (dp_steps plan) \<and> repairable results step \<and> (\<forall>ct\<in>set contracts. \<not> step_satisfies step (contract_op ct))"
    if "step \<in> set (local_repair_candidates plan results contracts)" for step
    using that by (auto simp: local_repair_candidates_def contract_bound_def list_ex_iff)
  have "repair_loop cx run_id plan plan_id (local_repair_candidates plan results contracts) (results, rounds, c) = (r, results', rounds', c')"
    using assms(1) by (simp add: attempt_step_local_repair_def)
  from repair_loop_inv[OF this] have inv: "rounds_ok cx rounds'" "xc_calls c' = xc_calls c" "r = Inr None \<longrightarrow> results' = results"
    and some: "r = Inr (Some plan') \<Longrightarrow> \<exists>step\<in>set (local_repair_candidates plan results contracts). \<exists>prop. safe_proposal cx step prop
      \<and> plan' = patch_step plan (ds_id step) prop \<and> results' = AList.delete (ds_id step) results
      \<and> dget_or 0 rounds (ds_id step) < dget_or 0 rounds' (ds_id step)" for plan'
    using assms(2) unfolding repair_inv_def by (auto split: sum.splits option.splits)
  have "\<exists>step\<in>set (dp_steps plan). \<exists>prop.
         repairable results step \<and> (\<forall>ct\<in>set contracts. \<not> step_satisfies step (contract_op ct))
         \<and> lrp_tool_name prop \<in> set (rb_allowed_tools (rp_budget cx))
         \<and> is_read_only_action_with (lrp_tool_name prop) (lrp_input prop) (read_only_tool_map (rp_tool_defs cx))
         \<and> action_signature (lrp_tool_name prop) (JDict (lrp_input prop)) \<noteq> action_signature (ds_tool step) (JDict (ds_input step))
         \<and> plan' = patch_step plan (ds_id step) prop \<and> results' = AList.delete (ds_id step) results
         \<and> dget_or 0 rounds (ds_id step) < dget_or 0 rounds' (ds_id step)" if r: "r = Inr (Some plan')" for plan'
  proof -
    obtain step pr where "step \<in> set (local_repair_candidates plan results contracts)" "safe_proposal cx step pr"
      "plan' = patch_step plan (ds_id step) pr" "results' = AList.delete (ds_id step) results"
      "dget_or 0 rounds (ds_id step) < dget_or 0 rounds' (ds_id step)" using some[OF r] by blast
    then show ?thesis using cand by (intro bexI[of _ step] exI[of _ pr]) (auto simp: safe_proposal_def)
  qed
  with inv show ?thesis by blast
qed

section \<open>Samples\<close>

definition mend_ctx :: repair_ctx where
  "mend_ctx = \<lparr> rp_env = sample_env, rp_tool_defs = [note_tool], rp_budget = \<lparr> rb_max_repair_rounds = 2, rb_allowed_tools = [''note''] \<rparr>,
     rp_propose = (\<lambda>step err wl. Inr (Some \<lparr> lrp_step_id = ds_id step, lrp_tool_name = ''note'', lrp_input = [(''path'', JStr ''m.txt'')] \<rparr>)) \<rparr>"

definition mend_run :: "(py_exc + dag_plan option) \<times> repair_state" where
  "mend_run = attempt_step_local_repair mend_ctx ''r1'' note_plan ''p'' [] (heal_results, [], sample_ctx)"

lemma local_repair_is_bounded_and_read_only_witness:
  "\<exists>plan'. fst mend_run = Inr (Some plan') \<and> xc_calls (snd (snd (snd mend_run))) = []
    \<and> (\<exists>step\<in>set (dp_steps note_plan). \<exists>pr. plan' = patch_step note_plan (ds_id step) pr
         \<and> is_read_only_action_with (lrp_tool_name pr) (lrp_input pr) (read_only_tool_map (rp_tool_defs mend_ctx)))"
proof -
  have r: "map_sum (\<lambda>_. ()) (map_option (\<lambda>p. ())) (fst mend_run) = Inr (Some ())" by code_simp
  then obtain plan' where p: "fst mend_run = Inr (Some plan')" by (cases "fst mend_run") auto
  have run: "attempt_step_local_repair mend_ctx ''r1'' note_plan ''p'' [] (heal_results, [], sample_ctx)
      = (Inr (Some plan'), fst (snd mend_run), fst (snd (snd mend_run)), snd (snd (snd mend_run)))"
    using p by (simp add: mend_run_def prod_eq_iff)
  have "rounds_ok mend_ctx []" by (simp add: rounds_ok_def mend_ctx_def dget_or_def)
  from local_repair_is_bounded_and_read_only[OF run this] p show ?thesis by (auto simp: sample_ctx_def)
qed

end
