(* ===== verification/Plan_Scheduler.thy ===== *)
theory Plan_Scheduler
  imports Local_Repair
begin

text \<open>
  The plan mode scheduler (core/scheduler/plan.py), the classification in front of it
  (core/scheduler/classify.py) and the run barrier of core/scheduler/base.py: plan, execute,
  repair or revise, gate completion, and close the run. The whole scheduler is one action on the
  event log, composed of the operations of the theories below.
\<close>

section \<open>The scheduler\<close>

text \<open>
  The collaborators of a planning scheduler. What happens outside of it is a parameter: whether the run has been cancelled at a
  point, what others do to the log while the scheduler waits for an operator (and whether the wait was signalled or timed out), is
  paused, or cleans up, the context manager's step before a layer (compression and checkpoint) and after a completed plan
  (compression alone), whether the planner has a model and a registry to extract contracts with, the contract extractor, the
  fresh part of a plan id, and the model's answers to the classification and answer prompts.
\<close>

record scheduler =
  sx_dag :: dag_env
  sx_planner :: planner
  sx_config :: scheduler_config
  sx_tool_defs :: "tool_definition list"
  sx_has_monitor :: bool
  sx_uuid :: "exec_ctx \<Rightarrow> string"
  sx_cancelled :: "exec_ctx \<Rightarrow> bool"
  sx_wait :: "bool action"
  sx_pause :: "unit action"
  sx_reap :: "unit action"
  sx_compress :: "unit action"
  sx_compact :: "unit action"
  sx_can_extract :: bool
  sx_extract :: "exec_ctx \<Rightarrow> string \<Rightarrow> py_exc + delivery_contract list"
  sx_classify :: "exec_ctx \<Rightarrow> string \<Rightarrow> py_exc + string"
  sx_answer :: "exec_ctx \<Rightarrow> string \<Rightarrow> run_state \<Rightarrow> string \<Rightarrow> py_exc + string"

abbreviation sx_env :: "scheduler \<Rightarrow> exec_env" where
  "sx_env sx \<equiv> de_exec (sx_dag sx)"

definition emit :: "scheduler \<Rightarrow> string \<Rightarrow> payload \<Rightarrow> unit action" where
  "emit sx run_id p = act_then (append_run_event (sx_env sx) run_id p None False) (act_return ())"

text \<open>Fail the run and read its state: how most branches end.\<close>

definition fail_with :: "scheduler \<Rightarrow> string \<Rightarrow> string \<Rightarrow> int \<Rightarrow> (run_state \<times> int) action" where
  "fail_with sx run_id err failures =
     act_then (fail_run (sx_env sx) run_id err) (act_bind (refresh_state (sx_env sx) run_id) (\<lambda>st. act_return (st, failures)))"

definition guard_cancelled :: "scheduler \<Rightarrow> 'a action \<Rightarrow> 'a action \<Rightarrow> 'a action" where
  "guard_cancelled sx stop go c = (if sx_cancelled sx c then stop c else go c)"

definition cancelled_error :: string where
  "cancelled_error = ''Run cancelled by user''"

section \<open>Answers and ends\<close>

definition generate_answer :: "scheduler \<Rightarrow> string \<Rightarrow> run_state \<Rightarrow> string \<Rightarrow> string action" where
  "generate_answer sx intent st conversation c = act_sum (rmap strip (sx_answer sx c intent st conversation)) c"

definition answer_thought :: "string \<Rightarrow> payload" where
  "answer_thought answer = PAgentThought \<lparr> at_thought = ''ANSWER: '' @ answer, at_tool_choice = None, at_tool_calls = None \<rparr>"

definition finalize_with_summary :: "scheduler \<Rightarrow> string \<Rightarrow> string \<Rightarrow> string \<Rightarrow> bool \<Rightarrow> string list \<Rightarrow> completion_verdict option \<Rightarrow> unit action" where
  "finalize_with_summary sx run_id intent fallback all_normal unmet completion =
     act_try
       (act_bind (refresh_authoritative_state (sx_env sx) run_id) (\<lambda>st.
        act_bind (generate_answer sx (str_or (rs_intent st) intent) st []) (\<lambda>answer.
        act_then (emit sx run_id (answer_thought answer))
          (complete_run (sx_env sx) run_id answer all_normal unmet completion))))
       (\<lambda>_. complete_run (sx_env sx) run_id fallback True [] completion)"

definition noted_tasks :: "step_result dict \<Rightarrow> string dict" where
  "noted_tasks results = map (\<lambda>(sid, r). (sid, task_state_value (sr_task_state r))) (filter (\<lambda>(sid, r). sr_task_state r \<noteq> UNKNOWN) results)"

definition emit_plan_revised :: "scheduler \<Rightarrow> string \<Rightarrow> string \<Rightarrow> dag_plan \<Rightarrow> step_result dict \<Rightarrow> string \<Rightarrow> string \<Rightarrow> unit action" where
  "emit_plan_revised sx run_id plan_id revised results reason remaining =
     emit sx run_id (PPlan (PlanRevised \<lparr> pr_plan_id = plan_id, pr_revision_reason = reason, pr_intent = dp_intent revised,
       pr_remaining_steps_summary = remaining, pr_steps = plan_steps_to_payload revised, pr_step_tasks = noted_tasks results \<rparr>))"

definition emit_plan_failed :: "scheduler \<Rightarrow> string \<Rightarrow> string \<Rightarrow> int \<Rightarrow> nat \<Rightarrow> string \<Rightarrow> unit action" where
  "emit_plan_failed sx run_id plan_id completed layer_count err =
     emit sx run_id (PPlan (PlanFailed \<lparr> pf_plan_id = plan_id, pf_completed_steps = completed, pf_total_layers = int layer_count, pf_final_error = err \<rparr>))"

definition dispose_completion_verdict ::
    "scheduler \<Rightarrow> string \<Rightarrow> string \<Rightarrow> dag_plan \<Rightarrow> string \<Rightarrow> completion_verdict \<Rightarrow> int \<Rightarrow> nat \<Rightarrow> string \<Rightarrow> (run_state \<times> int) action" where
  "dispose_completion_verdict sx run_id intent root_plan plan_id verdict failures layer_count fallback =
     (let total = length (dp_steps root_plan);
          completed = int total - int (length (cv_unmet_step_ids verdict))
      in if \<not> cv_mechanical_complete verdict
         then (let err = ''Steps not achieved: '' @ join '', '' (cv_unmet_step_ids verdict)
               in act_then (emit_plan_failed sx run_id plan_id completed layer_count err) (fail_with sx run_id err failures))
         else if cv_deliverable_status verdict = ''failed''
         then (let err = ''Deliverable not met: ''
                         @ join '', '' (map dv_contract_id (filter (\<lambda>v. dv_status v \<noteq> ''met'') (cv_deliverables verdict)))
               in act_then (emit_plan_failed sx run_id plan_id completed layer_count err) (fail_with sx run_id err failures))
         else act_then (emit sx run_id (PPlan (PlanCompleted \<lparr> pco_plan_id = plan_id, pco_completed_steps = completed,
                          pco_total_layers = int layer_count,
                          pco_summary = ''Completed '' @ show_int completed @ ''/'' @ show_nat total @ '' root steps'' \<rparr>)))
                (act_then (sx_compact sx)
                (act_then (finalize_with_summary sx run_id intent fallback True [] (Some verdict))
                (act_bind (refresh_state (sx_env sx) run_id) (\<lambda>st. act_return (st, 0))))))"

definition settle_empty_revised ::
    "scheduler \<Rightarrow> string \<Rightarrow> string \<Rightarrow> dag_plan \<Rightarrow> step_result dict \<Rightarrow> string dict \<Rightarrow> dag_plan \<Rightarrow> string \<Rightarrow> delivery_contract list
      \<Rightarrow> int \<Rightarrow> nat \<Rightarrow> (run_state \<times> int) action" where
  "settle_empty_revised sx run_id plan_id root_plan results aliases revised reason contracts failures layer_count =
     (if dp_failed revised
      then act_then (emit_plan_revised sx run_id plan_id revised results reason (''task failed: '' @ dp_intent revised))
             (fail_with sx run_id (''Task cannot be completed: '' @ dp_intent revised) failures)
      else
        (let verdict = completion_gate root_plan results aliases contracts
         in act_then (emit_plan_revised sx run_id plan_id revised results reason
                (if cv_mechanical_complete verdict then ''task complete''
                 else ''NOT complete '' @ dash @ '' unmet: '' @ join '', '' (cv_unmet_step_ids verdict)))
              (dispose_completion_verdict sx run_id (dp_intent revised) root_plan plan_id verdict failures layer_count
                 ''Task completed after revision'')))"

section \<open>Confirmations\<close>

definition wait_for_resume :: "scheduler \<Rightarrow> string \<Rightarrow> unit action" where
  "wait_for_resume sx run_id =
     act_bind (sx_wait sx) (\<lambda>signalled.
       if signalled then act_return ()
       else guard_cancelled sx (act_return ()) (fail_run (sx_env sx) run_id ''Confirmation timed out''))"

text \<open>What happens to a step that was retried: the event, and whether it counts as failed; none when it asks for a confirmation again.\<close>

definition retried_event :: "string \<Rightarrow> dag_step dict \<Rightarrow> string \<Rightarrow> step_result \<Rightarrow> (step_payload \<times> bool) option" where
  "retried_event plan_id steps sid r =
     (if is_completed r \<or> sr_exec_state r = IDEMPOTENT
      then Some (DagStepCompleted \<lparr> dsc_plan_id = plan_id, dsc_step_id = sid, dsc_output_summary = sr_summary r, dsc_status = ''completed'',
                   dsc_error = None, dsc_tool_call_id = None \<rparr>, False)
      else if needs_confirmation r then None
      else if sr_exec_state r = SKIPPED
      then Some (DagStepSkipped \<lparr> dsk_plan_id = plan_id, dsk_step_id = sid, dsk_reason = opt_or (sr_error r) ''dep_not_normal'',
                   dsk_tool_name = step_tool steps sid \<rparr>, False)
      else Some (DagStepFailed \<lparr> dsf_plan_id = plan_id, dsf_step_id = sid, dsf_error = opt_or (sr_error r) ''Confirmation result failed'',
                   dsf_retryable = False, dsf_tool_name = step_tool steps sid, dsf_tool_call_id = None \<rparr>, True))"

text \<open>One confirmation. \<open>None\<close> when the run is to stop; otherwise the results and whether the step failed.\<close>

fun confirm_step :: "scheduler \<Rightarrow> string \<Rightarrow> dag_plan \<Rightarrow> string \<Rightarrow> string \<Rightarrow> nat \<Rightarrow> step_result dict \<Rightarrow> (step_result dict \<times> bool) option action" where
  "confirm_step sx run_id plan plan_id sid 0 results =
     guard_cancelled sx (act_then (fail_run (sx_env sx) run_id cancelled_error) (act_return None))
       (act_then (fail_run (sx_env sx) run_id (''Max confirmation retries ('' @ show_int (cf_max_confirm_retries (sx_config sx))
          @ '') exceeded for step '' @ sid)) (act_return None))"
| "confirm_step sx run_id plan plan_id sid (Suc left) results =
     guard_cancelled sx (act_then (fail_run (sx_env sx) run_id cancelled_error) (act_return None))
       (act_then (emit sx run_id (PRun (RunPaused \<lparr> rp_reason = ''waiting_confirmation'' \<rparr>)))
       (act_then (wait_for_resume sx run_id)
       (guard_cancelled sx (act_then (fail_run (sx_env sx) run_id cancelled_error) (act_return None))
       (act_bind (refresh_state (sx_env sx) run_id) (\<lambda>st.
          if rs_status st \<in> {RS_FAILED, RS_COMPLETED} then act_return None
          else act_bind (retry_step (sx_dag sx) run_id plan sid results) (\<lambda>r.
            case retried_event plan_id (step_map (dp_steps plan)) sid r of
              None \<Rightarrow> confirm_step sx run_id plan plan_id sid left results
            | Some (p, failed) \<Rightarrow>
                act_then (emit sx run_id (PStep p)) (act_return (Some (dset sid r results, failed)))))))))"

text \<open>The confirmations of a layer in order: whether the run is to stop, the steps that failed, the results.\<close>

fun handle_dag_confirmations ::
    "scheduler \<Rightarrow> string \<Rightarrow> dag_plan \<Rightarrow> string \<Rightarrow> (string \<times> string) list \<Rightarrow> step_result dict \<Rightarrow> (bool \<times> string list \<times> step_result dict) action" where
  "handle_dag_confirmations sx run_id plan plan_id [] results = act_return (False, [], results)"
| "handle_dag_confirmations sx run_id plan plan_id ((sid, cid) # confs) results =
     act_bind (confirm_step sx run_id plan plan_id sid (nat (cf_max_confirm_retries (sx_config sx))) results) (\<lambda>res.
       case res of
         None \<Rightarrow> act_return (True, [], results)
       | Some (results1, failed) \<Rightarrow>
           act_bind (handle_dag_confirmations sx run_id plan plan_id confs results1) (\<lambda>(stop, fs, results2).
             act_return (stop, (if failed then sid # fs else fs), results2)))"

section \<open>Executing a plan\<close>

text \<open>What the execution of a plan carries from round to round.\<close>

record plan_state =
  pst_plan :: dag_plan
  pst_results :: "step_result dict"
  pst_aliases :: "string dict"
  pst_rounds :: "int dict"

text \<open>The parts of a plan execution that stay fixed.\<close>

record plan_run =
  pr_sx :: scheduler
  pr_run_id :: string
  pr_root :: dag_plan
  pr_contracts :: "delivery_contract list"
  pr_state_seq :: int
  pr_failures :: int

datatype round_end = NextLayer plan_state | Rerun plan_state | Ended run_state int

definition ended_with :: "(run_state \<times> int) action \<Rightarrow> round_end action" where
  "ended_with m = act_bind m (\<lambda>(st, n). act_return (Ended st n))"

text \<open>Results of an earlier process, read off the evidence of the log. A step whose tool has changed starts again.\<close>

definition prior_evidence :: "dag_plan \<Rightarrow> step_evidence dict \<Rightarrow> step_evidence dict" where
  "prior_evidence plan evidence = filter (\<lambda>(sid, ev). sid \<in> set (step_ids (dp_steps plan))) evidence"

definition reopen_changed :: "dag_plan \<Rightarrow> step_evidence dict \<Rightarrow> string \<times> step_result \<Rightarrow> string \<times> step_result" where
  "reopen_changed plan evidence kv =
     (case kv of (sid, r) \<Rightarrow>
        (case (dget evidence sid, dget (step_map (dp_steps plan)) sid) of
           (Some ev, Some step) \<Rightarrow>
             if should_not_rerun r \<and> ds_tool step \<noteq> [] \<and> ds_tool step \<noteq> se_tool_name ev
             then (sid, (StepResult0 sid)\<lparr>sr_exec_state := PENDING\<rparr>) else kv
         | _ \<Rightarrow> kv))"

definition resumed_results :: "dag_plan \<Rightarrow> run_state \<Rightarrow> step_result dict" where
  "resumed_results plan st =
     (let prior = prior_evidence plan (rs_step_evidence st)
      in map (reopen_changed plan prior) (rebuild_results_from_evidence prior))"

definition initial_results :: "scheduler \<Rightarrow> string \<Rightarrow> dag_plan \<Rightarrow> step_result dict action" where
  "initial_results sx run_id plan =
     act_try (act_bind (refresh_state (sx_env sx) run_id) (\<lambda>st. act_return (resumed_results plan st))) (\<lambda>_. act_return [])"

definition new_plan_id :: "scheduler \<Rightarrow> string \<Rightarrow> string action" where
  "new_plan_id sx run_id c = act_return (''plan_'' @ run_id @ ''_'' @ sx_uuid sx c) c"

definition try_local_repair :: "plan_run \<Rightarrow> string \<Rightarrow> plan_state \<Rightarrow> (bool \<times> plan_state) action" where
  "try_local_repair pr plan_id ps c =
     (let sx = pr_sx pr
      in case local_repair_budget (sx_config sx) (sx_tool_defs sx) of
           None \<Rightarrow> (Inr (False, ps), c)
         | Some budget \<Rightarrow>
             (case attempt_step_local_repair
                     \<lparr> rp_env = sx_env sx, rp_tool_defs = sx_tool_defs sx, rp_budget = budget,
                       rp_propose = (\<lambda>step err allowed. Inr (propose_local_repair (sx_planner sx) c step err allowed)) \<rparr>
                     (pr_run_id pr) (pst_plan ps) plan_id (pr_contracts pr) (pst_results ps, pst_rounds ps, c) of
                (Inl e, (results, rounds, c1)) \<Rightarrow> (Inl e, c1)
              | (Inr None, (results, rounds, c1)) \<Rightarrow> (Inr (False, ps\<lparr>pst_results := results, pst_rounds := rounds\<rparr>), c1)
              | (Inr (Some plan), (results, rounds, c1)) \<Rightarrow>
                  (Inr (True, ps\<lparr>pst_plan := plan, pst_results := results, pst_rounds := rounds\<rparr>), c1)))"

section \<open>Revision\<close>

text \<open>Ask for a revision of the plan, at a layer: the state read for it, and the guarded answer.\<close>

definition ask_revision :: "plan_run \<Rightarrow> int \<Rightarrow> plan_state \<Rightarrow> (run_state \<times> dag_plan option \<times> string option) action" where
  "ask_revision pr layer_idx ps =
     (let sx = pr_sx pr; run_id = pr_run_id pr; plan = pst_plan ps; results = pst_results ps;
          sys_state = build_dag_status_text plan results layer_idx
      in act_bind (refresh_state (sx_env sx) run_id) (\<lambda>s.
         act_bind (revise_with_degenerate_guard
             \<lparr> rv_env = sx_env sx, rv_tools = pn_tools (sx_planner sx), rv_max_retries = cf_max_revise_retries (sx_config sx),
               rv_contracts = pr_contracts pr, rv_merge = Some (pr_root pr, plan, pst_aliases ps) \<rparr>
             (planner_revise (sx_planner sx) run_id plan results sys_state (rs_intent s)) run_id plan results
             (get_feedback_text (sx_has_monitor sx) s True (Some (pr_state_seq pr))))
           (\<lambda>(revised, err). act_return (s, revised, err))))"

text \<open>The real merge, and the guardrail on its result: an error ends the run.\<close>

definition normal_ids :: "step_result dict \<Rightarrow> string set" where
  "normal_ids results = fst ` set (filter (\<lambda>kv. step_normal (snd kv)) results)"

definition merge_checked :: "plan_run \<Rightarrow> dag_plan \<Rightarrow> plan_state \<Rightarrow> (plan_state \<Rightarrow> round_end action) \<Rightarrow> round_end action" where
  "merge_checked pr revised ps go =
     (case merge_revised_plan (pr_root pr) (pst_plan ps) revised (pst_results ps) (pst_aliases ps) of
        (merged, results, aliases) \<Rightarrow>
          act_bind (act_result (validate_plan (pn_registry (sx_planner (pr_sx pr))) merged (normal_ids results) (available_ids results))) (\<lambda>errors.
            if errors \<noteq> []
            then act_then (record_plan_rejection (sx_env (pr_sx pr)) (pr_run_id pr) StageMerge 1 errors False)
                   (ended_with (fail_with (pr_sx pr) (pr_run_id pr) (''Merged revision rejected: '' @ join ''; '' errors) (pr_failures pr)))
            else go (ps\<lparr>pst_plan := merged, pst_results := results, pst_aliases := aliases\<rparr>)))"

text \<open>The feedback about known-bad steps that the merged revision replays.\<close>

definition known_bad_detail :: "step_evidence dict \<Rightarrow> string list \<Rightarrow> string" where
  "known_bad_detail evidence unresolved =
     join '', '' (map (\<lambda>sid. case dget evidence sid of
         None \<Rightarrow> sid
       | Some ev \<Rightarrow> sid @ ''('' @ se_tool_name ev @ '': '' @ take 80 (opt_or (se_error ev) []) @ '')'') unresolved)"

definition known_bad_feedback :: "step_evidence dict \<Rightarrow> string list \<Rightarrow> feedback_injected_payload" where
  "known_bad_feedback evidence unresolved =
     \<lparr> fb_feedback_id = [], fb_source = MONITOR, fb_category = TOOL_FAILURE,
       fb_feedback_text = ''Revision did NOT address '' @ show_nat (length unresolved) @ '' still-broken step(s): '' @ join '', '' unresolved
         @ ''. These steps re-add the SAME action (same tool and same input) that already failed, so a re-run ''
         @ ''unchanged will fail again. You MUST either switch them to a working tool/action or explicitly give them up; do not leave ''
         @ ''them on the failing tool. Details: '' @ known_bad_detail evidence unresolved,
       fb_priority = PHigh, fb_affected_tool = None, fb_error_type = Some ''unresolved_known_bad_steps'',
       fb_error_detail = Some (known_bad_detail evidence unresolved),
       fb_suggestion = Some (''Replace the failing tool/action for each listed step, or drop the step and declare task failure.''),
       fb_expires_at_seq = None, fb_resolves_feedback_id = None, fb_consumed_at_seq = None, fb_injected_at_seq = None \<rparr>"

definition original_inputs :: "dag_plan \<Rightarrow> json dict dict" where
  "original_inputs plan = fold (\<lambda>s d. dset (ds_id s) (ds_input s) d) (dp_steps plan) []"

definition warn_known_bad :: "plan_run \<Rightarrow> run_state \<Rightarrow> dag_plan \<Rightarrow> dag_plan \<Rightarrow> unit action" where
  "warn_known_bad pr s plan merged =
     (let unresolved = unresolved_known_bad_steps (rs_step_evidence s) (plan_steps_to_payload merged) (original_inputs plan)
      in if unresolved = [] then act_return ()
         else emit (pr_sx pr) (pr_run_id pr) (PFeedbackInjected (known_bad_feedback (rs_step_evidence s) unresolved)))"

definition remaining_text :: "dag_plan \<Rightarrow> string" where
  "remaining_text plan = show_nat (length (dp_steps plan)) @ '' steps remaining''"

definition failed_steps_error :: "dag_plan \<Rightarrow> step_result dict \<Rightarrow> string" where
  "failed_steps_error plan results =
     (let failed = filter (\<lambda>(sid, r). sid \<in> set (step_ids (dp_steps plan)) \<and> \<not> step_normal r) results
      in ''Steps failed: '' @ (if failed = [] then ''unknown error''
           else join ''; '' (map (\<lambda>(sid, r). sid @ '': '' @ opt_or (sr_error r) ''unknown'') failed)))"

text \<open>A layer failed: repair a step, or revise the plan.\<close>

definition heal_layer :: "plan_run \<Rightarrow> string \<Rightarrow> nat \<Rightarrow> nat \<Rightarrow> plan_state \<Rightarrow> round_end action" where
  "heal_layer pr plan_id layer_idx layer_count ps0 =
     (let sx = pr_sx pr; run_id = pr_run_id pr
      in act_bind (try_local_repair pr plan_id ps0) (\<lambda>(repaired, ps).
         if repaired then act_return (Rerun ps)
         else act_bind (ask_revision pr (int layer_idx) ps) (\<lambda>(s, answer, err).
           case err of
             Some e \<Rightarrow> ended_with (fail_with sx run_id e (pr_failures pr))
           | None \<Rightarrow>
               (case answer of
                  None \<Rightarrow> ended_with (fail_with sx run_id (failed_steps_error (pst_plan ps) (pst_results ps)) (pr_failures pr + 1))
                | Some revised \<Rightarrow>
                    (let ps1 = ps\<lparr>pst_results := snd (merge_step_tasks (pst_results ps) revised)\<rparr>
                     in if dp_steps revised = []
                        then ended_with (settle_empty_revised sx run_id plan_id (pr_root pr) (pst_results ps1) (pst_aliases ps1) revised
                               ''step_failure_revised'' (pr_contracts pr) (pr_failures pr) layer_count)
                        else merge_checked pr revised ps1 (\<lambda>ps2.
                               act_then (warn_known_bad pr s (pst_plan ps) (pst_plan ps2))
                               (if dp_steps (pst_plan ps2) = []
                                then ended_with (settle_empty_revised sx run_id plan_id (pr_root pr) (pst_results ps2) (pst_aliases ps2) (pst_plan ps2)
                                       ''step_failure_revised'' (pr_contracts pr) (pr_failures pr) layer_count)
                                else act_then (emit_plan_revised sx run_id plan_id (pst_plan ps2) (pst_results ps2) ''step_failure_revised''
                                                 (remaining_text (pst_plan ps2)))
                                       (act_return (Rerun ps2)))))))))"

section \<open>Rounds\<close>

definition layer_failures :: "string list \<Rightarrow> step_result dict \<Rightarrow> string list" where
  "layer_failures layer results = filter (\<lambda>sid. case dget results sid of Some r \<Rightarrow> \<not> step_normal r | None \<Rightarrow> False) layer"

definition run_layer :: "plan_run \<Rightarrow> string \<Rightarrow> nat \<Rightarrow> string list \<Rightarrow> plan_state \<Rightarrow> (layer_outcome \<times> plan_state) action" where
  "run_layer pr plan_id idx layer ps c =
     (case execute_layer (sx_dag (pr_sx pr)) (pr_run_id pr) (pst_plan ps) plan_id layer idx (pst_results ps) c of
        (out, results, c1) \<Rightarrow> (Inr (out, ps\<lparr>pst_results := results\<rparr>), c1))"

fun run_layers :: "plan_run \<Rightarrow> string \<Rightarrow> nat \<Rightarrow> nat \<Rightarrow> string list list \<Rightarrow> plan_state \<Rightarrow> round_end action" where
  "run_layers pr plan_id layer_count idx [] ps = act_return (NextLayer ps)"
| "run_layers pr plan_id layer_count idx (layer # layers) ps =
     (let sx = pr_sx pr; run_id = pr_run_id pr
      in guard_cancelled sx (ended_with (fail_with sx run_id cancelled_error (pr_failures pr)))
         (act_then (sx_compress sx)
         (act_bind (run_layer pr plan_id idx layer ps) (\<lambda>(out, ps1).
            case out of
              LayerRaised e \<Rightarrow> ended_with (fail_with sx run_id (''DAG execution failed: '' @ ex_msg e) (pr_failures pr))
            | LayerSuspended confs \<Rightarrow>
                act_bind (handle_dag_confirmations sx run_id (pst_plan ps1) plan_id confs (pst_results ps1)) (\<lambda>(stop, fs, results).
                  let ps2 = ps1\<lparr>pst_results := results\<rparr>
                  in if stop then act_bind (refresh_state (sx_env sx) run_id) (\<lambda>st. act_return (Ended st (pr_failures pr)))
                     else if layer_failures layer results = [] then run_layers pr plan_id layer_count (Suc idx) layers ps2
                     else heal_layer pr plan_id idx layer_count ps2)
            | LayerDone ok \<Rightarrow>
                if ok then run_layers pr plan_id layer_count (Suc idx) layers ps1
                else heal_layer pr plan_id idx layer_count ps1))))"

text \<open>All layers ran: pass the completion gate, or repair or revise what is not normal.\<close>

definition steps_in_state :: "dag_plan \<Rightarrow> step_result dict \<Rightarrow> (step_result \<Rightarrow> bool) \<Rightarrow> string list" where
  "steps_in_state plan results P = filter (\<lambda>sid. case dget results sid of Some r \<Rightarrow> P r | None \<Rightarrow> False) (step_ids (dp_steps plan))"

definition conclude_plan :: "plan_run \<Rightarrow> string \<Rightarrow> nat \<Rightarrow> plan_state \<Rightarrow> round_end action" where
  "conclude_plan pr plan_id layer_count ps0 =
     (let sx = pr_sx pr; run_id = pr_run_id pr;
          verdict = completion_gate (pr_root pr) (pst_results ps0) (pst_aliases ps0) (pr_contracts pr);
          unsuccessful = steps_in_state (pst_plan ps0) (pst_results ps0) is_unsuccessful;
          skipped = steps_in_state (pst_plan ps0) (pst_results ps0) (\<lambda>r. sr_exec_state r = SKIPPED);
          dispose = ended_with (dispose_completion_verdict sx run_id (dp_intent (pst_plan ps0)) (pr_root pr) plan_id verdict (pr_failures pr)
                      layer_count ''Task completed successfully'')
      in if cv_mechanical_complete verdict \<or> unsuccessful = [] \<and> skipped = [] then dispose
         else act_bind (try_local_repair pr plan_id ps0) (\<lambda>(repaired, ps).
           if repaired then act_return (Rerun ps)
           else act_bind (ask_revision pr (int layer_count - 1) ps) (\<lambda>(s, answer, err).
             case err of
               Some e \<Rightarrow> ended_with (fail_with sx run_id e (pr_failures pr))
             | None \<Rightarrow>
                 (case answer of
                    None \<Rightarrow> dispose
                  | Some revised \<Rightarrow>
                      (let ps1 = ps\<lparr>pst_results := snd (merge_step_tasks (pst_results ps) revised)\<rparr>
                       in if dp_steps revised = []
                          then ended_with (settle_empty_revised sx run_id plan_id (pr_root pr) (pst_results ps1) (pst_aliases ps1) revised
                                 ''unsuccessful_revised'' (pr_contracts pr) (pr_failures pr) layer_count)
                          else act_then (emit_plan_revised sx run_id plan_id revised (pst_results ps1) ''unsuccessful_revised'' (remaining_text revised))
                                 (merge_checked pr revised ps1 (\<lambda>ps2. act_return (Rerun ps2))))))))"

definition execute_round :: "plan_run \<Rightarrow> plan_state \<Rightarrow> round_end action" where
  "execute_round pr ps =
     (let sx = pr_sx pr; run_id = pr_run_id pr; plan = pst_plan ps
      in act_bind (act_result (validate_plan (pn_registry (sx_planner sx)) plan {} {})) (\<lambda>errors.
         if errors \<noteq> []
         then (let err = join ''; '' errors
               in act_bind (new_plan_id sx run_id) (\<lambda>plan_id.
                  act_then (emit_plan_failed sx run_id plan_id 0 0 err) (ended_with (fail_with sx run_id err (pr_failures pr)))))
         else act_bind (act_result (topological_sort plan (executed_ids (pst_results ps)) (available_ids (pst_results ps)))) (\<lambda>layers.
              act_bind (new_plan_id sx run_id) (\<lambda>plan_id.
              act_then (emit sx run_id (PPlan (PlanCreated \<lparr> pc_plan_id = plan_id, pc_intent = dp_intent plan,
                  pc_steps_summary = show_nat (length (dp_steps plan)) @ '' steps in '' @ show_nat (length layers) @ '' layers'',
                  pc_layer_count = int (length layers), pc_steps = plan_steps_to_payload plan \<rparr>)))
              (act_bind (run_layers pr plan_id (length layers) 0 layers ps) (\<lambda>end.
                 case end of
                   NextLayer ps1 \<Rightarrow> conclude_plan pr plan_id (length layers) ps1
                 | _ \<Rightarrow> act_return end))))))"

text \<open>The self-healing loop: at most \<open>left\<close> more rounds, after \<open>n\<close> of them.\<close>

fun execute_rounds :: "plan_run \<Rightarrow> nat \<Rightarrow> nat \<Rightarrow> plan_state \<Rightarrow> (run_state \<times> int) action" where
  "execute_rounds pr 0 n ps =
     fail_with (pr_sx pr) (pr_run_id pr) (''Self-heal exceeded '' @ show_nat n @ '' attempts '' @ dash @ '' unable to complete plan'') (int n)"
| "execute_rounds pr (Suc left) n ps =
     act_bind (execute_round pr ps) (\<lambda>end.
       case end of
         Ended st k \<Rightarrow> act_return (st, k)
       | Rerun ps1 \<Rightarrow> execute_rounds pr left (Suc n) ps1
       | NextLayer ps1 \<Rightarrow> execute_rounds pr left (Suc n) ps1)"

definition execute_plan :: "scheduler \<Rightarrow> string \<Rightarrow> dag_plan \<Rightarrow> int \<Rightarrow> int \<Rightarrow> delivery_contract list \<Rightarrow> (run_state \<times> int) action" where
  "execute_plan sx run_id plan failures state_seq contracts =
     act_bind (initial_results sx run_id plan) (\<lambda>results.
       execute_rounds
         \<lparr> pr_sx = sx, pr_run_id = run_id, pr_root = plan, pr_contracts = contracts, pr_state_seq = state_seq, pr_failures = failures \<rparr>
         (nat (cf_run_attempt_budget (sx_config sx))) 0
         \<lparr> pst_plan = plan, pst_results = results, pst_aliases = fold (\<lambda>s d. dset (ds_id s) (ds_id s) d) (dp_steps plan) [], pst_rounds = [] \<rparr>)"

section \<open>The planning loop\<close>

definition plan_thought :: "dag_plan \<Rightarrow> string \<Rightarrow> payload" where
  "plan_thought plan raw =
     PAgentThought \<lparr> at_thought = str_or (take 500 raw) (''Plan: '' @ take 200 (dp_intent plan)), at_tool_choice = Some ''plan'',
       at_tool_calls = Some (map ds_tool (take 5 (dp_steps plan))) \<rparr>"

text \<open>Answer without running a plan, and complete the run.\<close>

definition answer_and_complete :: "scheduler \<Rightarrow> string \<Rightarrow> string \<Rightarrow> run_state \<Rightarrow> string \<Rightarrow> run_state action" where
  "answer_and_complete sx run_id intent st conversation =
     act_bind (act_try (act_bind (generate_answer sx intent st conversation) (\<lambda>a. act_return (Some a))) (\<lambda>_. act_return None)) (\<lambda>answer.
       act_then
         (case answer of
            None \<Rightarrow> complete_run (sx_env sx) run_id ''Task completed'' True [] None
          | Some a \<Rightarrow> act_then (emit sx run_id (answer_thought a)) (complete_run (sx_env sx) run_id a True [] None))
         (refresh_state (sx_env sx) run_id))"

definition empty_plan_error :: "completion_verdict \<Rightarrow> string" where
  "empty_plan_error verdict = ''Empty plan cannot satisfy delivery contracts''
     @ (if cv_unmet_step_ids verdict \<noteq> [] then '': '' @ join '', '' (cv_unmet_step_ids verdict) else [])"

text \<open>One cycle: \<open>Inl\<close> the state the run stops with, \<open>Inr\<close> the count of failures to go on with.\<close>

definition plan_cycle :: "scheduler \<Rightarrow> string \<Rightarrow> string \<Rightarrow> run_state \<Rightarrow> int \<Rightarrow> string \<Rightarrow> (run_state + int) action" where
  "plan_cycle sx run_id intent st failures conversation =
     (let stop = (\<lambda>err. act_bind (fail_with sx run_id err failures) (\<lambda>(s, _). act_return (Inl s)))
      in if rs_status st = RS_PAUSED then act_then (sx_pause sx) (act_return (Inr failures))
         else act_bind (planner_plan (sx_planner sx) run_id intent (get_feedback_text (sx_has_monitor sx) st False None) conversation) (\<lambda>answer.
           case answer of
             None \<Rightarrow> stop ''Planner failed to produce a valid plan''
           | Some (plan, raw) \<Rightarrow>
               act_then (emit sx run_id (plan_thought plan raw))
               (if dp_steps plan = []
                then (if rs_delivery_contracts st \<noteq> [] \<or> dp_declared_operations plan \<noteq> []
                      then stop (empty_plan_error (completion_gate plan [] [] (rs_delivery_contracts st)))
                      else act_bind (answer_and_complete sx run_id (str_or (rs_intent st) intent) st conversation) (\<lambda>s. act_return (Inl s)))
                else act_bind (execute_plan sx run_id plan failures (rs_seq st) (rs_delivery_contracts st)) (\<lambda>(s, n).
                  if rs_status s \<in> {RS_COMPLETED, RS_FAILED} then act_return (Inl s)
                  else if cf_run_attempt_budget (sx_config sx) \<le> n
                  then act_bind (fail_with sx run_id (''Circuit breaker: '' @ show_int n @ '' consecutive failures'') n) (\<lambda>(s', _). act_return (Inl s'))
                  else act_return (Inr n)))))"

fun plan_loop :: "scheduler \<Rightarrow> string \<Rightarrow> string \<Rightarrow> string \<Rightarrow> nat \<Rightarrow> run_state \<Rightarrow> int \<Rightarrow> run_state action" where
  "plan_loop sx run_id intent conversation left st failures =
     (if rs_status st \<in> {RS_COMPLETED, RS_FAILED} then act_return st
      else case left of
        0 \<Rightarrow> act_bind (fail_with sx run_id (''Exceeded max iterations ('' @ show_int (cf_run_attempt_budget (sx_config sx)) @ '')'') failures)
               (\<lambda>(s, _). act_return s)
      | Suc left' \<Rightarrow>
          guard_cancelled sx (act_bind (fail_with sx run_id cancelled_error failures) (\<lambda>(s, _). act_return s))
            (act_bind (plan_cycle sx run_id intent st failures conversation) (\<lambda>res.
               case res of
                 Inl s \<Rightarrow> act_return s
               | Inr n \<Rightarrow> act_bind (refresh_state (sx_env sx) run_id) (\<lambda>s. plan_loop sx run_id intent conversation left' s n))))"

definition plan_execute_revise_loop :: "scheduler \<Rightarrow> string \<Rightarrow> string \<Rightarrow> string \<Rightarrow> run_state action" where
  "plan_execute_revise_loop sx run_id intent conversation =
     act_bind (refresh_state (sx_env sx) run_id) (\<lambda>st.
       plan_loop sx run_id intent conversation (nat (cf_run_attempt_budget (sx_config sx))) st 0)"

section \<open>Does the request need tools?\<close>

text \<open>\<^verbatim>\<open>\b(w1|w2|...)\b\<close> on lower-case text. Text is read as UTF-8 bytes, and only ASCII letters, digits and the underscore count
  as word characters; a letter of another script next to a keyword, which Python counts as one, is outside the model.\<close>

definition word_boundary :: "char option \<Rightarrow> string \<Rightarrow> bool" where
  "word_boundary prev s =
     ((case prev of None \<Rightarrow> False | Some c \<Rightarrow> is_word c) \<noteq> (case s of [] \<Rightarrow> False | c # _ \<Rightarrow> is_word c))"

definition word_pattern :: "string list \<Rightarrow> char option \<Rightarrow> string \<Rightarrow> bool" where
  "word_pattern ws prev s =
     (word_boundary prev s \<and> list_ex (\<lambda>w. starts_with w s \<and> word_boundary (Some (last w)) (drop (length w) s)) ws)"

text \<open>\<^verbatim>\<open>\.(txt|md|...)\b\<close>\<close>

definition extension_pattern :: "string list \<Rightarrow> char option \<Rightarrow> string \<Rightarrow> bool" where
  "extension_pattern exts prev s =
     (case s of
        c # rest \<Rightarrow> c = CHR ''.'' \<and> list_ex (\<lambda>w. starts_with w rest \<and> word_boundary (Some (last w)) (drop (length w) rest)) exts
      | [] \<Rightarrow> False)"

definition alt_pattern :: "string list \<Rightarrow> char option \<Rightarrow> string \<Rightarrow> bool" where
  "alt_pattern ws prev s = list_ex (\<lambda>w. starts_with w s) ws"

text \<open>\<^verbatim>\<open>[a-zA-Z]:[\\/]\<close>\<close>

definition drive_pattern :: "char option \<Rightarrow> string \<Rightarrow> bool" where
  "drive_pattern prev s = (case s of a # b # d # _ \<Rightarrow> is_alpha a \<and> b = CHR '':'' \<and> (d = backslash \<or> d = CHR ''/'') | _ \<Rightarrow> False)"

text \<open>The Chinese words for parent directory, workspace, directory, path and file, as UTF-8 bytes.\<close>

definition cjk_signals :: "string list" where
  "cjk_signals =
     [[CHR 0xE7, CHR 0x88, CHR 0xB6, CHR 0xE7, CHR 0x9B, CHR 0xAE, CHR 0xE5, CHR 0xBD, CHR 0x95],
      [CHR 0xE5, CHR 0xB7, CHR 0xA5, CHR 0xE4, CHR 0xBD, CHR 0x9C, CHR 0xE5, CHR 0x8C, CHR 0xBA],
      [CHR 0xE7, CHR 0x9B, CHR 0xAE, CHR 0xE5, CHR 0xBD, CHR 0x95],
      [CHR 0xE8, CHR 0xB7, CHR 0xAF, CHR 0xE5, CHR 0xBE, CHR 0x84],
      [CHR 0xE6, CHR 0x96, CHR 0x87, CHR 0xE4, CHR 0xBB, CHR 0xB6]]"

definition tool_signal_patterns :: "(char option \<Rightarrow> string \<Rightarrow> bool) list" where
  "tool_signal_patterns =
     [word_pattern [''file'', ''write'', ''read'', ''create'', ''delete'', ''append'', ''list'', ''cat'', ''mkdir'', ''rm'', ''touch''],
      extension_pattern [''txt'', ''md'', ''json'', ''yaml'', ''yml'', ''toml'', ''ini'', ''log'', ''csv'', ''py'', ''js'', ''ts'', ''html'', ''css''],
      alt_pattern ([''workspace'', ''directory'', ''folder'', ''path'', ''directories''] @ cjk_signals),
      alt_pattern [''../'', ''..'' @ [backslash], ''parent dir''],
      drive_pattern,
      alt_pattern [''http://'', ''https://'', ''www.'', ''.com'', ''.org'', ''.io'', ''.net''],
      word_pattern [''web'', ''search'', ''fetch'', ''http'', ''browser'', ''navigate'', ''api'', ''url'', ''download'', ''upload'', ''curl'', ''request''],
      word_pattern [''mcp'', ''playwright'', ''memory'', ''screenshot'', ''query'', ''execute'']]"

definition intent_requires_tools :: "string \<Rightarrow> bool" where
  "intent_requires_tools intent = (intent \<noteq> [] \<and> list_ex (\<lambda>p. search p (lower intent)) tool_signal_patterns)"

definition classify_intent :: "scheduler \<Rightarrow> string \<Rightarrow> bool action" where
  "classify_intent sx intent c =
     (let truncated = take 500 intent
      in if intent_requires_tools truncated then (Inr True, c)
         else (case sx_classify sx c truncated of
                 Inl _ \<Rightarrow> (Inr True, c)
               | Inr content \<Rightarrow> (Inr (lower (strip content) \<noteq> ''no''), c)))"

section \<open>A run\<close>

definition repr_exc :: "py_exc \<Rightarrow> string" where
  "repr_exc e = ex_class e @ ''('' @ repr_str (ex_msg e) @ '')''"

definition contracts_resolved :: "delivery_contract list \<Rightarrow> bool \<Rightarrow> string option \<Rightarrow> payload" where
  "contracts_resolved cs timed_out err =
     PDeliveryContractsResolved \<lparr> dcr_contracts = cs, dcr_source = ''extracted'', dcr_timed_out = timed_out, dcr_error = err \<rparr>"

definition resolve_contracts :: "scheduler \<Rightarrow> string \<Rightarrow> string \<Rightarrow> unit action" where
  "resolve_contracts sx run_id intent =
     act_bind (refresh_state (sx_env sx) run_id) (\<lambda>st.
       if \<not> rs_requires_contract_extraction st then act_return ()
       else if \<not> sx_can_extract sx then act_return ()
       else (\<lambda>c. act_try (case sx_extract sx c intent of
                           Inr cs \<Rightarrow> emit sx run_id (contracts_resolved cs False None)
                         | Inl e \<Rightarrow> act_raise e)
                   (\<lambda>e. emit sx run_id (if ex_kind e = ExTimeout then contracts_resolved [] True (Some ''contract extraction timed out'')
                                        else contracts_resolved [] False (Some (repr_exc e)))) c))"

definition run_loop :: "scheduler \<Rightarrow> string \<Rightarrow> string \<Rightarrow> string \<Rightarrow> run_state action" where
  "run_loop sx run_id intent conversation =
     act_then (ensure_run_started (sx_env sx) run_id intent)
     (act_then (resolve_contracts sx run_id intent)
     (act_bind (classify_intent sx intent) (\<lambda>needs_tools.
        if needs_tools then plan_execute_revise_loop sx run_id intent conversation
        else act_bind (refresh_state (sx_env sx) run_id) (\<lambda>st. answer_and_complete sx run_id intent st conversation))))"

text \<open>
  The barrier around the loop: an exception becomes a failed run. A timeout that escapes the loop is reported as the run's.
\<close>

definition barrier_error :: "scheduler \<Rightarrow> py_exc \<Rightarrow> string" where
  "barrier_error sx e =
     (if ex_kind e = ExTimeout then ''Run timed out after '' @ show_int (cf_run_timeout_ms (sx_config sx)) @ ''ms (watchdog)''
      else ''Unhandled scheduler error: '' @ repr_exc e)"

definition run_barrier :: "scheduler \<Rightarrow> string \<Rightarrow> run_state action \<Rightarrow> run_state action" where
  "run_barrier sx run_id loop =
     act_try loop (\<lambda>e.
       act_then (quietly (sx_reap sx))
       (act_then (quietly (fail_run (sx_env sx) run_id (barrier_error sx e)))
       (refresh_state (sx_env sx) run_id)))"

definition scheduler_run :: "scheduler \<Rightarrow> string \<Rightarrow> string \<Rightarrow> string \<Rightarrow> run_state action" where
  "scheduler_run sx run_id intent conversation = run_barrier sx run_id (run_loop sx run_id intent conversation)"

end
