(* ===== verification/Scheduler_Properties.thy ===== *)
theory Scheduler_Properties
  imports Plan_Scheduler
begin

text \<open>
  Properties of the plan mode scheduler: a run that is not paused or waiting is closed when
  \<^verbatim>\<open>run()\<close> returns, it is closed as completed only behind the completion
  gate, and two places where feedback or a request is lost.
\<close>

section \<open>What the scheduler's operations keep\<close>

text \<open>
  \<open>reads env run sel P m\<close>: \<open>m\<close> keeps the log well formed, and a state that \<open>sel\<close> finds in its result is the fold of the log at its end
  and satisfies \<open>P\<close>.
\<close>

definition shows_state :: "exec_env \<Rightarrow> string \<Rightarrow> ('a \<Rightarrow> run_state option) \<Rightarrow> (run_state \<Rightarrow> bool) \<Rightarrow> py_exc + 'a \<Rightarrow> exec_ctx \<Rightarrow> bool" where
  "shows_state env run_id sel P r c' \<longleftrightarrow> log_ok env run_id c'
     \<and> (\<forall>x st. r = Inr x \<longrightarrow> sel x = Some st \<longrightarrow> fold_events (get_events (xc_store c') run_id) = Inr st \<and> P st)"

definition reads :: "exec_env \<Rightarrow> string \<Rightarrow> ('a \<Rightarrow> run_state option) \<Rightarrow> (run_state \<Rightarrow> bool) \<Rightarrow> 'a action \<Rightarrow> bool" where
  "reads env run_id sel P m \<longleftrightarrow> (\<forall>c. log_ok env run_id c \<longrightarrow> ensures m c (shows_state env run_id sel P))"

abbreviation keeps :: "exec_env \<Rightarrow> string \<Rightarrow> 'a action \<Rightarrow> bool" where
  "keeps env run_id \<equiv> reads env run_id (\<lambda>_. None) (\<lambda>_. True)"

named_theorems keeping \<open>operations that keep the log well formed\<close>

lemma keepsI: "(\<And>c r c'. log_ok env run_id c \<Longrightarrow> m c = (r, c') \<Longrightarrow> log_ok env run_id c') \<Longrightarrow> keeps env run_id m"
  by (auto simp: reads_def ensures_def shows_state_def split: prod.splits)

lemma readsD: "reads env run_id sel P m \<Longrightarrow> log_ok env run_id c \<Longrightarrow> ensures m c (shows_state env run_id sel P)"
  by (simp add: reads_def)

lemma keepsD: "reads env run_id sel P m \<Longrightarrow> log_ok env run_id c \<Longrightarrow> m c = (r, c') \<Longrightarrow> log_ok env run_id c'"
  using ensuresD[OF readsD] by (fastforce simp: shows_state_def)

lemma reads_keeps: "reads env run_id sel P m \<Longrightarrow> keeps env run_id m"
  by (auto intro!: keepsI elim: keepsD)

lemma reads_return [keeping]: "sel x = None \<Longrightarrow> reads env run_id sel P (act_return x)"
  by (simp add: reads_def action_wp shows_state_def)

lemma reads_raise [keeping]: "reads env run_id sel P (act_raise e)"
  by (simp add: reads_def action_wp shows_state_def)

lemma reads_bind [keeping]:
  assumes "keeps env run_id m" "\<And>x. reads env run_id sel P (f x)"
  shows "reads env run_id sel P (act_bind m f)"
  unfolding reads_def ensures_bind
proof (intro allI impI)
  fix c assume ok: "log_ok env run_id c"
  show "ensures m c (\<lambda>r c'. case r of Inl e \<Rightarrow> shows_state env run_id sel P (Inl e) c' | Inr x \<Rightarrow> ensures (f x) c' (shows_state env run_id sel P))"
    by (rule ensures_mono[OF readsD[OF assms(1) ok]]) (use assms(2) in \<open>auto simp: shows_state_def reads_def split: sum.splits\<close>)
qed

lemma reads_then [keeping]: "keeps env run_id m \<Longrightarrow> reads env run_id sel P k \<Longrightarrow> reads env run_id sel P (act_then m k)"
  unfolding act_then_def by (rule reads_bind)

lemma keeps_try [keeping]:
  assumes "keeps env run_id m" "\<And>e. keeps env run_id (h e)"
  shows "keeps env run_id (act_try m h)"
  unfolding reads_def ensures_try
proof (intro allI impI)
  fix c assume ok: "log_ok env run_id c"
  show "ensures m c (\<lambda>r c'. case r of Inl e \<Rightarrow> ensures (h e) c' (shows_state env run_id (\<lambda>_. None) (\<lambda>_. True))
      | Inr x \<Rightarrow> shows_state env run_id (\<lambda>_. None) (\<lambda>_. True) (Inr x) c')"
    by (rule ensures_mono[OF readsD[OF assms(1) ok]]) (use assms(2) in \<open>auto simp: shows_state_def reads_def split: sum.splits\<close>)
qed

lemma reads_if [keeping]: "(b \<Longrightarrow> reads env run_id sel P m) \<Longrightarrow> (\<not> b \<Longrightarrow> reads env run_id sel P k) \<Longrightarrow> reads env run_id sel P (if b then m else k)"
  by simp

lemma reads_option [keeping]:
  "(x = None \<Longrightarrow> reads env run_id sel P m) \<Longrightarrow> (\<And>y. x = Some y \<Longrightarrow> reads env run_id sel P (f y)) \<Longrightarrow>
     reads env run_id sel P (case x of None \<Rightarrow> m | Some y \<Rightarrow> f y)"
  by (cases x) auto

lemma reads_prod [keeping]: "(\<And>a b. x = (a, b) \<Longrightarrow> reads env run_id sel P (f a b)) \<Longrightarrow> reads env run_id sel P (case x of (a, b) \<Rightarrow> f a b)"
  by (cases x) auto

lemma reads_sum [keeping]:
  "(\<And>a. x = Inl a \<Longrightarrow> reads env run_id sel P (f a)) \<Longrightarrow> (\<And>b. x = Inr b \<Longrightarrow> reads env run_id sel P (g b)) \<Longrightarrow>
     reads env run_id sel P (case x of Inl a \<Rightarrow> f a | Inr b \<Rightarrow> g b)"
  by (cases x) auto

lemma reads_guard [keeping]:
  "reads env run_id sel P stop \<Longrightarrow> reads env run_id sel P go \<Longrightarrow> reads env run_id sel P (guard_cancelled sx stop go)"
  by (simp add: reads_def ensures_def guard_cancelled_def)

lemma keeps_pure: "(\<And>c. snd (m c) = c) \<Longrightarrow> keeps env run_id m"
  by (rule keepsI) (metis snd_conv)

lemma keeps_sums [keeping]: "keeps env run_id (act_sum r)" "keeps env run_id (act_result r')"
  by (rule keeps_pure; cases r; simp add: act_sum_def act_raise_def act_return_def)
    (rule keeps_pure; cases r'; simp add: act_result_def act_raise_def act_return_def)

lemma keeps_answer [keeping]: "keeps env run_id (generate_answer sx intent st conv)"
  by (rule keeps_pure) (auto simp: generate_answer_def act_sum_def act_raise_def act_return_def split: sum.splits)

lemma keeps_classify [keeping]: "keeps env run_id (classify_intent sx intent)"
  by (rule keeps_pure) (auto simp: classify_intent_def Let_def split: sum.splits)

lemma keeps_new_plan_id [keeping]: "keeps env run_id (new_plan_id sx run_id')"
  by (rule keeps_pure) (auto simp: new_plan_id_def act_return_def)

lemma keeps_orderly: "orderly env run_id m \<Longrightarrow> keeps env run_id m"
  by (rule keepsI) (blast dest: orderlyD)

lemmas keeps_writes [keeping] =
  keeps_orderly[OF orderly_append_run_event] keeps_orderly[OF orderly_complete] keeps_orderly[OF orderly_fail]

lemma keeps_refresh [keeping]: "keeps env run_id (refresh_state env run_id)" "keeps env run_id (refresh_authoritative_state env run_id)"
  by (rule keeps_pure; auto simp: refresh_state_def split: sum.splits)
    (rule keeps_pure; auto simp: refresh_authoritative_state_def Let_def split: sum.splits)

lemma keeps_log_append [keeping]: "keeps env run_id (log_append env run_id p None)"
  by (rule keepsI) (metis log_append_ok prod.inject)

lemma keeps_rejection [keeping]: "keeps env run_id (record_plan_rejection env run_id stage n reasons rec)"
  unfolding record_plan_rejection_def by (intro keeping) auto

lemma keeps_started [keeping]: "keeps env run_id (ensure_run_started env run_id intent)"
  by (rule keepsI) (auto simp: ensure_run_started_def split: if_splits elim: keepsD[OF keeps_log_append])

lemma keeps_quietly [keeping]: "keeps env run_id m \<Longrightarrow> keeps env run_id (quietly m)"
  unfolding quietly_def by (intro keeping) auto

text \<open>A state read last.\<close>

lemma refresh_state_fold:
  "log_ok env run_id c \<Longrightarrow> refresh_state env run_id c =
     (case fold_events (get_events (xc_store c) run_id) of Inl e \<Rightarrow> (Inl (exc_of_error e), c) | Inr st \<Rightarrow> (Inr st, c))"
  by (simp add: refresh_state_def log_reader_eq)

lemma fold_status: "fold_events (get_events (xc_store c) run_id) = Inr st \<Longrightarrow> rs_status st = last (RS_RUNNING # statuses c run_id)"
  using fold_status_last[of "get_events (xc_store c) run_id" st] by (simp add: map_filter_statuses statuses_def)

lemma reads_refresh: "reads env run_id Some (\<lambda>_. True) (refresh_state env run_id)"
  by (auto simp: reads_def ensures_def shows_state_def refresh_state_fold split: sum.splits prod.splits)

text \<open>The ends of a run: the statuses after a failure or a completion that was written or found unnecessary.\<close>

definition run_over :: "exec_ctx \<Rightarrow> string \<Rightarrow> bool" where
  "run_over c run_id \<longleftrightarrow> statuses c run_id \<noteq> [] \<and> ended (last (statuses c run_id))"

definition unfoldable :: "exec_ctx \<Rightarrow> string \<Rightarrow> bool" where
  "unfoldable c run_id \<longleftrightarrow> (\<exists>x. fold_events (get_events (xc_store c) run_id) = Inl x)"

definition closes :: "exec_env \<Rightarrow> string \<Rightarrow> run_status \<Rightarrow> unit action \<Rightarrow> bool" where
  "closes env run_id s m \<longleftrightarrow> (\<forall>c. log_ok env run_id c \<longrightarrow> ensures m c (\<lambda>r c'. log_ok env run_id c'
     \<and> (case r of Inl e \<Rightarrow> c' = c \<and> unfoldable c run_id
        | Inr _ \<Rightarrow> statuses c' run_id = (if run_over c run_id then statuses c run_id else statuses c run_id @ [s]))))"

lemma is_run_terminal_raises:
  assumes "log_ok env run_id c" "is_run_terminal env run_id c = (Inl e, c')"
  shows "c' = c \<and> unfoldable c run_id"
  using assms(2)
  by (auto simp: is_run_terminal_def log_reader_eq[OF assms(1)] act_bind_def refresh_state_fold[OF assms(1)] act_return_def unfoldable_def
      split: if_splits sum.splits)

lemma closes_guarded:
  assumes "\<And>c. log_ok env run_id c \<Longrightarrow> ensures k c (\<lambda>r c'. log_ok env run_id c'
     \<and> (case r of Inl e \<Rightarrow> c' = c \<and> unfoldable c run_id | Inr _ \<Rightarrow> statuses c' run_id = statuses c run_id @ [s]))"
  shows "closes env run_id s (act_bind (is_run_terminal env run_id) (\<lambda>t. if t then act_return () else k))"
  unfolding closes_def
proof (intro allI impI)
  fix c assume ok: "log_ok env run_id c"
  let ?Q = "\<lambda>r c'. log_ok env run_id c' \<and> (case r of Inl e \<Rightarrow> c' = c \<and> unfoldable c run_id
     | Inr _ \<Rightarrow> statuses c' run_id = (if run_over c run_id then statuses c run_id else statuses c run_id @ [s]))"
  from is_run_terminal_cases[OF ok]
  show "ensures (act_bind (is_run_terminal env run_id) (\<lambda>t. if t then act_return () else k)) c ?Q"
  proof (elim disjE exE)
    fix e assume "is_run_terminal env run_id c = (Inl e, c)"
    then show ?thesis using ok is_run_terminal_raises[OF ok] by (simp add: ensures_def act_bind_def)
  next
    assume t: "is_run_terminal env run_id c = (Inr (statuses c run_id \<noteq> [] \<and> ended (last (statuses c run_id))), c)"
    then show ?thesis using ok assms[OF ok]
      by (cases "run_over c run_id") (auto simp: ensures_def act_bind_def act_return_def run_over_def split: prod.splits)
  qed
qed

lemma append_status:
  assumes "log_ok env run_id c"
  shows "ensures (log_append env run_id p None) c (\<lambda>r c'. log_ok env run_id c' \<and> r = Inr () \<and> statuses c' run_id = statuses c run_id @ status_of p)"
proof -
  obtain c' where c': "log_append env run_id p None c = (Inr (), c')" "wrote env run_id c [(p, None)] c'" "log_ok env run_id c'"
    using log_append_ok[OF assms(1)] by blast
  have "statuses c' run_id = statuses c run_id @ status_of p" using wrote_statuses[OF assms(1) c'(2)] by simp
  then show ?thesis using c' by (simp add: ensures_def)
qed

lemma closes_complete: "closes env run_id RS_COMPLETED (complete_run env run_id s b u cv)"
  unfolding complete_run_def by (rule closes_guarded, rule ensures_mono[OF append_status]) (auto simp: status_of_def)

lemma closes_fail: "closes env run_id RS_FAILED (fail_run env run_id err)"
  unfolding fail_run_def
proof (rule closes_guarded, goal_cases)
  case (1 c)
  show ?case
  proof (cases "fold_events (get_events (xc_store c) run_id)")
    case (Inl e)
    then show ?thesis using 1 by (simp add: ensures_bind ensures_def[of "refresh_state _ _"] refresh_state_fold[OF 1] unfoldable_def)
  next
    case (Inr st)
    have "ensures (log_append env run_id (PRun (RunFailed q)) None) c (\<lambda>r c'. log_ok env run_id c'
       \<and> (case r of Inl e \<Rightarrow> c' = c \<and> unfoldable c run_id | Inr _ \<Rightarrow> statuses c' run_id = statuses c run_id @ [RS_FAILED]))" for q
      by (rule ensures_mono[OF append_status[OF 1]]) (auto simp: status_of_def)
    then show ?thesis using Inr by (simp add: ensures_def act_bind_def refresh_state_fold[OF 1] Let_def)
  qed
qed

section \<open>Every run settles\<close>

text \<open>How the scheduler is put together, and what it expects of the others who write to the log while it waits.\<close>

definition well_wired :: "scheduler \<Rightarrow> string \<Rightarrow> bool" where
  "well_wired sx run_id \<longleftrightarrow> run_id \<noteq> [] \<and> pn_env (sx_planner sx) = sx_env sx \<and> retries_ok (sx_dag sx)
     \<and> keeps (sx_env sx) run_id (sx_wait sx) \<and> keeps (sx_env sx) run_id (sx_pause sx)
     \<and> keeps (sx_env sx) run_id (sx_reap sx) \<and> keeps (sx_env sx) run_id (sx_compress sx)
     \<and> keeps (sx_env sx) run_id (sx_compact sx)"

lemma wiredD:
  assumes "well_wired sx run_id"
  shows "run_id \<noteq> []" "pn_env (sx_planner sx) = sx_env sx" "retries_ok (sx_dag sx)"
    "keeps (sx_env sx) run_id (sx_wait sx)" "keeps (sx_env sx) run_id (sx_pause sx)"
    "keeps (sx_env sx) run_id (sx_reap sx)" "keeps (sx_env sx) run_id (sx_compress sx)" "keeps (sx_env sx) run_id (sx_compact sx)"
  using assms by (auto simp: well_wired_def)

definition over :: "run_state \<Rightarrow> bool" where
  "over st \<longleftrightarrow> ended (rs_status st)"

lemma closes_keeps: "closes env run_id s m \<Longrightarrow> keeps env run_id m"
  unfolding closes_def by (rule keepsI) (fastforce dest: ensuresD)

lemma reads_closed:
  assumes "closes env run_id s m" "ended s"
  shows "reads env run_id Some over (act_then m (refresh_state env run_id))"
  unfolding reads_def
proof (intro allI impI)
  fix c assume ok: "log_ok env run_id c"
  obtain r c1 where m: "m c = (r, c1)" by fastforce
  have ok1: "log_ok env run_id c1" and st: "r = Inr () \<Longrightarrow> statuses c1 run_id = (if run_over c run_id then statuses c run_id else statuses c run_id @ [s])"
    using ensuresD[OF assms(1)[unfolded closes_def, rule_format, OF ok] m] by auto
  have "over t" if "r = Inr ()" "fold_events (get_events (xc_store c1) run_id) = Inr t" for t
    using fold_status[OF that(2)] st[OF that(1)] assms(2) by (auto simp: over_def run_over_def split: if_splits)
  then show "ensures (act_then m (refresh_state env run_id)) c (shows_state env run_id Some over)"
    using m ok1 refresh_state_fold[OF ok1]
    by (cases r) (auto simp: ensures_def act_then_def act_bind_def shows_state_def split: sum.splits prod.splits)
qed

lemma reads_map:
  assumes "reads env run_id sel P m" "\<And>x st. sel' (g x) = Some st \<Longrightarrow> sel x = Some st"
  shows "reads env run_id sel' P (act_bind m (\<lambda>x. act_return (g x)))"
  unfolding reads_def ensures_bind
proof (intro allI impI)
  fix c assume ok: "log_ok env run_id c"
  show "ensures m c (\<lambda>r c'. case r of Inl e \<Rightarrow> shows_state env run_id sel' P (Inl e) c'
      | Inr x \<Rightarrow> ensures (act_return (g x)) c' (shows_state env run_id sel' P))"
    by (rule ensures_mono[OF readsD[OF assms(1) ok]]) (use assms(2) in \<open>auto simp: shows_state_def action_wp split: sum.splits\<close>)
qed

lemma reads_weaken: "reads env run_id sel P m \<Longrightarrow> (\<And>st. P st \<Longrightarrow> Q st) \<Longrightarrow> reads env run_id sel Q m"
  unfolding reads_def by (fastforce simp: shows_state_def elim!: ensures_mono)

abbreviation fst_state :: "run_state \<times> int \<Rightarrow> run_state option" where
  "fst_state \<equiv> Some \<circ> fst"

lemma reads_fail_with: "reads (sx_env sx) run_id fst_state over (fail_with sx run_id err n)"
proof -
  have assoc: "act_then a (act_bind b f) = act_bind (act_then a b) f" for a :: "'x action" and b :: "'y action" and f :: "'y \<Rightarrow> 'z action"
    by (auto simp: act_then_def act_bind_def fun_eq_iff split: prod.splits sum.splits)
  show ?thesis unfolding fail_with_def assoc
    by (rule reads_map[OF reads_closed[OF closes_fail]]) (auto simp: ended_def)
qed

lemma keeps_fail_with [keeping]: "keeps (sx_env sx) run_id (fail_with sx run_id err n)"
  by (rule reads_keeps[OF reads_fail_with])

lemma keeps_emit [keeping]: "keeps (sx_env sx) run_id (emit sx run_id p)"
  unfolding emit_def by (intro keeping) auto

lemma keeps_emits [keeping]:
  "keeps (sx_env sx) run_id (emit_plan_revised sx run_id plan_id revised results reason remaining)"
  "keeps (sx_env sx) run_id (emit_plan_failed sx run_id plan_id completed layer_count err)"
  unfolding emit_plan_revised_def emit_plan_failed_def by (intro keeping)+

lemma keeps_finalize [keeping]: "keeps (sx_env sx) run_id (finalize_with_summary sx run_id intent fallback b u cv)"
  unfolding finalize_with_summary_def by (intro keeping)

lemma reads_refresh_pair: "reads env run_id fst_state (\<lambda>_. True) (act_bind (refresh_state env run_id) (\<lambda>st. act_return (st, n)))"
  by (rule reads_map[OF reads_refresh]) auto

lemma reads_fail_any: "reads (sx_env sx) run_id fst_state (\<lambda>_. True) (fail_with sx run_id err n)"
  by (rule reads_weaken[OF reads_fail_with]) simp

lemma reads_dispose:
  assumes "well_wired sx run_id"
  shows "reads (sx_env sx) run_id fst_state (\<lambda>_. True) (dispose_completion_verdict sx run_id intent root_plan plan_id verdict n k fallback)"
  unfolding dispose_completion_verdict_def Let_def
  by (intro reads_if reads_then reads_fail_any reads_refresh_pair keeping wiredD[OF assms])

lemma reads_settle:
  assumes "well_wired sx run_id"
  shows "reads (sx_env sx) run_id fst_state (\<lambda>_. True)
    (settle_empty_revised sx run_id plan_id root_plan results aliases revised reason contracts n k)"
  unfolding settle_empty_revised_def Let_def
  by (intro reads_if reads_then reads_fail_any reads_dispose[OF assms] keeping)

section \<open>Confirmations, layers, repairs and revisions\<close>

lemma keeps_retry [keeping]:
  assumes "well_wired sx run_id"
  shows "keeps (sx_env sx) run_id (retry_step (sx_dag sx) run_id plan sid results)"
  by (rule keepsI) (use execute_step_effect[OF _ wiredD(3)[OF assms]] wrote_log_ok in \<open>unfold retry_step_def, blast\<close>)

lemma keeps_wait [keeping]:
  assumes "well_wired sx run_id"
  shows "keeps (sx_env sx) run_id (wait_for_resume sx run_id)"
  unfolding wait_for_resume_def by (intro keeping wiredD[OF assms]) auto

lemma keeps_confirm_step [keeping]:
  assumes "well_wired sx run_id"
  shows "keeps (sx_env sx) run_id (confirm_step sx run_id plan plan_id sid n results)"
  by (induction n) (unfold confirm_step.simps, (intro keeping keeps_wait[OF assms] keeps_retry[OF assms]; simp)+)

lemma keeps_confirmations [keeping]:
  assumes "well_wired sx run_id"
  shows "keeps (sx_env sx) run_id (handle_dag_confirmations sx run_id plan plan_id confs results)"
proof (induction confs arbitrary: results)
  case (Cons conf confs)
  obtain sid cid where "conf = (sid, cid)" by fastforce
  then show ?case by simp (intro keeping keeps_confirm_step[OF assms] Cons.IH; simp)
qed (simp add: keeping)

lemma keeps_run_layer:
  assumes "well_wired (pr_sx pr) (pr_run_id pr)"
  shows "keeps (sx_env (pr_sx pr)) (pr_run_id pr) (run_layer pr plan_id idx layer ps)"
proof (rule keepsI)
  fix c r c' assume ok: "log_ok (sx_env (pr_sx pr)) (pr_run_id pr) c" and run: "run_layer pr plan_id idx layer ps c = (r, c')"
  obtain out results c1 where l: "execute_layer (sx_dag (pr_sx pr)) (pr_run_id pr) (pst_plan ps) plan_id layer idx (pst_results ps) c = (out, results, c1)"
    by (metis prod_cases3)
  have "\<exists>ps. wrote (sx_env (pr_sx pr)) (pr_run_id pr) c ps c1" using execute_layer_ok[OF ok wiredD(3)[OF assms] l] by metis
  then show "log_ok (sx_env (pr_sx pr)) (pr_run_id pr) c'" using run l wrote_log_ok[OF ok] by (auto simp: run_layer_def)
qed

lemma repair_loop_log_ok:
  "repair_loop cx run_id plan plan_id steps st = (r, st') \<Longrightarrow> log_ok (rp_env cx) run_id (snd (snd st)) \<Longrightarrow> log_ok (rp_env cx) run_id (snd (snd st'))"
proof (induction cx run_id plan plan_id steps st arbitrary: r st' rule: repair_loop.induct)
  case (2 cx run_id plan plan_id step steps results rounds c)
  have app: "append_run_event (rp_env cx) run_id p None False c1 = (x, c2) \<Longrightarrow> log_ok (rp_env cx) run_id c1 \<Longrightarrow> log_ok (rp_env cx) run_id c2" for p c1 x c2
    by (rule keepsD[OF keeps_writes(1)])
  show ?case
  proof (cases "rb_max_repair_rounds (rp_budget cx) \<le> dget_or 0 rounds (ds_id step)")
    case True
    then show ?thesis using 2 by simp
  next
    case False
    then show ?thesis using 2
      by (auto simp: Let_def split: prod.splits sum.splits option.splits if_splits dest: app)
  qed
qed simp

lemma keeps_local_repair: "keeps (sx_env (pr_sx pr)) (pr_run_id pr) (try_local_repair pr plan_id ps)"
proof (rule keepsI)
  fix c r c' assume ok: "log_ok (sx_env (pr_sx pr)) (pr_run_id pr) c" and run: "try_local_repair pr plan_id ps c = (r, c')"
  show "log_ok (sx_env (pr_sx pr)) (pr_run_id pr) c'"
    using run ok unfolding try_local_repair_def Let_def attempt_step_local_repair_def
    by (auto split: option.splits prod.splits sum.splits dest!: repair_loop_log_ok)
qed

lemma keeps_planner_plan:
  assumes "well_wired sx run_id"
  shows "keeps (sx_env sx) run_id (planner_plan (sx_planner sx) run_id intent fb conv)"
proof (rule keepsI)
  fix c r c' assume ok: "log_ok (sx_env sx) run_id c" and run: "planner_plan (sx_planner sx) run_id intent fb conv c = (r, c')"
  have "log_ok (pn_env (sx_planner sx)) run_id c" using ok wiredD(2)[OF assms] by simp
  from ensuresD[OF plan_attempts_outcome[OF this] run[unfolded planner_plan_def]] quiet_from_log_ok[OF this]
  show "log_ok (sx_env sx) run_id c'" unfolding attempts_post_def wiredD(2)[OF assms] by blast
qed

lemma keeps_ask_revision:
  assumes wired: "well_wired (pr_sx pr) (pr_run_id pr)"
  shows "keeps (sx_env (pr_sx pr)) (pr_run_id pr) (ask_revision pr idx ps)"
proof -
  let ?sx = "pr_sx pr" and ?id = "pr_run_id pr"
  have "keeps (sx_env ?sx) ?id (revise_with_degenerate_guard cx (planner_revise (sx_planner ?sx) ?id plan results st ifb) ?id plan results fb)"
    if env: "rv_env cx = sx_env ?sx" for cx plan results st ifb fb
  proof (rule keepsI)
    fix c r c' assume ok: "log_ok (sx_env ?sx) ?id c"
      and run: "revise_with_degenerate_guard cx (planner_revise (sx_planner ?sx) ?id plan results st ifb) ?id plan results fb c = (r, c')"
    have e: "rv_env cx = pn_env (sx_planner ?sx)" "log_ok (pn_env (sx_planner ?sx)) ?id c" using ok env wiredD(2)[OF wired] by simp_all
    from ensuresD[OF guarded.revise_loop_post[OF wiredD(1)[OF wired] e] run[unfolded revise_with_degenerate_guard_def]]
    show "log_ok (sx_env ?sx) ?id c'" unfolding revise_post_def env using wrote_log_ok[OF ok] by blast
  qed
  then show ?thesis unfolding ask_revision_def Let_def by (intro keeping) auto
qed

section \<open>Rounds and the loop\<close>

fun end_state :: "round_end \<Rightarrow> run_state option" where
  "end_state (Ended st n) = Some st"
| "end_state _ = None"

definition good_run :: "plan_run \<Rightarrow> bool" where
  "good_run pr \<longleftrightarrow> well_wired (pr_sx pr) (pr_run_id pr)"

abbreviation reads_round :: "plan_run \<Rightarrow> round_end action \<Rightarrow> bool" where
  "reads_round pr \<equiv> reads (sx_env (pr_sx pr)) (pr_run_id pr) end_state (\<lambda>_. True)"

lemma reads_ended_with: "reads env run_id fst_state P m \<Longrightarrow> reads env run_id end_state P (ended_with m)"
proof -
  have "ended_with m = act_bind m (\<lambda>x. act_return (Ended (fst x) (snd x)))" by (simp add: ended_with_def case_prod_unfold)
  then show "reads env run_id fst_state P m \<Longrightarrow> reads env run_id end_state P (ended_with m)" by (auto intro: reads_map)
qed

lemmas round_ends = reads_ended_with[OF reads_fail_any] reads_ended_with[OF reads_dispose] reads_ended_with[OF reads_settle]

lemma keeps_warn [keeping]: "keeps (sx_env (pr_sx pr)) (pr_run_id pr) (warn_known_bad pr s plan merged)"
  unfolding warn_known_bad_def Let_def by (intro keeping) auto

lemma reads_merge_checked:
  assumes "\<And>ps. reads_round pr (go ps)"
  shows "reads_round pr (merge_checked pr revised ps go)"
  unfolding merge_checked_def by (intro reads_prod reads_bind reads_if reads_then round_ends assms keeping)

lemma reads_heal:
  assumes "good_run pr"
  shows "reads_round pr (heal_layer pr plan_id idx k ps)"
  unfolding heal_layer_def Let_def
  by (intro reads_merge_checked reads_bind reads_prod reads_if reads_option reads_then round_ends keeps_local_repair
        keeps_ask_revision assms[unfolded good_run_def] keeping reads_return) simp_all

lemma reads_suspended: "reads_round pr (act_bind (refresh_state (sx_env (pr_sx pr)) (pr_run_id pr)) (\<lambda>st. act_return (Ended st n)))"
  by (rule reads_map[OF reads_refresh]) auto

lemma reads_outcome:
  "(\<And>b. out = LayerDone b \<Longrightarrow> reads env run_id sel P (f b)) \<Longrightarrow> (\<And>cs. out = LayerSuspended cs \<Longrightarrow> reads env run_id sel P (g cs)) \<Longrightarrow>
   (\<And>e. out = LayerRaised e \<Longrightarrow> reads env run_id sel P (h e)) \<Longrightarrow>
   reads env run_id sel P (case out of LayerDone b \<Rightarrow> f b | LayerSuspended cs \<Rightarrow> g cs | LayerRaised e \<Rightarrow> h e)"
  by (cases out) auto

lemma reads_run_layers:
  assumes "good_run pr"
  shows "reads_round pr (run_layers pr plan_id k idx layers ps)"
proof (induction layers arbitrary: idx ps)
  case (Cons layer layers)
  note w = assms[unfolded good_run_def]
  show ?case unfolding run_layers.simps Let_def
    by (intro reads_guard reads_bind reads_prod reads_if reads_outcome reads_then round_ends reads_suspended reads_heal[OF assms]
        Cons.IH keeps_run_layer[OF w] keeps_confirmations[OF w] wiredD(7)[OF w])
qed (simp add: reads_return)

lemma reads_conclude:
  assumes "good_run pr"
  shows "reads_round pr (conclude_plan pr plan_id k ps)"
  unfolding conclude_plan_def Let_def
  by (intro reads_merge_checked reads_bind reads_prod reads_if reads_option reads_then round_ends keeps_local_repair
        keeps_ask_revision assms[unfolded good_run_def] keeping reads_return) simp_all

lemma reads_round_end:
  "(\<And>ps. x = NextLayer ps \<Longrightarrow> reads env run_id sel P (f ps)) \<Longrightarrow> (\<And>ps. x = Rerun ps \<Longrightarrow> reads env run_id sel P (g ps)) \<Longrightarrow>
   (\<And>st n. x = Ended st n \<Longrightarrow> reads env run_id sel P (h st n)) \<Longrightarrow>
   reads env run_id sel P (case x of NextLayer ps \<Rightarrow> f ps | Rerun ps \<Rightarrow> g ps | Ended st n \<Rightarrow> h st n)"
  by (cases x) auto

text \<open>A state read by the first part is still the fold of the log when the second part only returns it.\<close>

lemma reads_bind_end:
  assumes "reads env run_id end_state P m" "\<And>st n. f (Ended st n) = act_return (g st n)" "\<And>st n t. sel (g st n) = Some t \<Longrightarrow> t = st"
    and "\<And>ps. reads env run_id sel P (f (NextLayer ps))" "\<And>ps. reads env run_id sel P (f (Rerun ps))"
  shows "reads env run_id sel P (act_bind m f)"
  unfolding reads_def ensures_bind
proof (intro allI impI)
  fix c assume ok: "log_ok env run_id c"
  have "ensures (f x) c' (shows_state env run_id sel P)" if "shows_state env run_id end_state P (Inr x) c'" for x c'
  proof (cases x)
    case (Ended st n)
    have "sel (g st n) = Some t \<Longrightarrow> t = st" for t by (rule assms(3))
    then show ?thesis using that unfolding Ended assms(2) action_wp shows_state_def by fastforce
  qed (use that assms(4,5) in \<open>auto simp: shows_state_def reads_def\<close>)
  then show "ensures m c (\<lambda>r c'. case r of Inl e \<Rightarrow> shows_state env run_id sel P (Inl e) c' | Inr x \<Rightarrow> ensures (f x) c' (shows_state env run_id sel P))"
    by (intro ensures_mono[OF readsD[OF assms(1) ok]]) (auto simp: shows_state_def split: sum.splits)
qed

lemma reads_execute_round:
  assumes "good_run pr"
  shows "reads_round pr (execute_round pr ps)"
  unfolding execute_round_def Let_def
  by (intro reads_bind_end[OF reads_run_layers[OF assms]] reads_bind reads_if reads_then round_ends keeping)
    (auto simp: reads_conclude[OF assms] reads_return)

lemma reads_execute_rounds:
  assumes "good_run pr"
  shows "reads (sx_env (pr_sx pr)) (pr_run_id pr) fst_state (\<lambda>_. True) (execute_rounds pr left n ps)"
proof (induction left arbitrary: n ps)
  case 0
  show ?case unfolding execute_rounds.simps by (rule reads_fail_any)
next
  case (Suc left)
  show ?case unfolding execute_rounds.simps
    by (rule reads_bind_end[OF reads_execute_round[OF assms], where g = Pair]) (use Suc.IH in auto)
qed

lemma keeps_initial [keeping]: "keeps (sx_env sx) run_id (initial_results sx run_id plan)"
  unfolding initial_results_def by (intro keeping) auto

lemma reads_execute_plan:
  assumes "well_wired sx run_id"
  shows "reads (sx_env sx) run_id fst_state (\<lambda>_. True) (execute_plan sx run_id plan n seq contracts)"
proof -
  have r: "reads (sx_env sx) run_id fst_state (\<lambda>_. True) (execute_rounds \<lparr> pr_sx = sx, pr_run_id = run_id, pr_root = a, pr_contracts = b,
      pr_state_seq = d, pr_failures = e \<rparr> left k ps)" for a b d e left k ps
    using reads_execute_rounds[of "\<lparr> pr_sx = sx, pr_run_id = run_id, pr_root = a, pr_contracts = b, pr_state_seq = d, pr_failures = e \<rparr>"] assms
    by (simp add: good_run_def)
  show ?thesis unfolding execute_plan_def by (intro reads_bind keeping r)
qed

lemma reads_answer_and_complete: "reads (sx_env sx) run_id Some over (answer_and_complete sx run_id intent st conv)"
proof -
  have assoc: "act_then (act_then a b) d = act_then a (act_then b d)" for a :: "'x action" and b :: "'y action" and d :: "'z action"
    by (auto simp: act_then_def act_bind_def fun_eq_iff split: prod.splits sum.splits)
  have fin: "reads (sx_env sx) run_id Some over (act_then (complete_run (sx_env sx) run_id s b u cv) (refresh_state (sx_env sx) run_id))" for s b u cv
    by (rule reads_closed[OF closes_complete]) (simp add: ended_def)
  have "reads (sx_env sx) run_id Some over (act_then
      (case x of None \<Rightarrow> complete_run (sx_env sx) run_id ''Task completed'' True [] None
       | Some a \<Rightarrow> act_then (emit sx run_id (answer_thought a)) (complete_run (sx_env sx) run_id a True [] None)) (refresh_state (sx_env sx) run_id))" for x
    by (cases x) (simp_all add: assoc fin reads_then keeps_emit)
  then show ?thesis unfolding answer_and_complete_def by (intro reads_bind keeps_try keeps_answer) (auto intro: keeping)
qed

definition left_state :: "run_state + int \<Rightarrow> run_state option" where
  "left_state x = (case x of Inl st \<Rightarrow> Some st | Inr _ \<Rightarrow> None)"

lemma reads_stop: "reads (sx_env sx) run_id left_state over (act_bind (fail_with sx run_id err n) (\<lambda>(s, _). act_return (Inl s)))"
proof -
  show ?thesis unfolding case_prod_unfold by (rule reads_map[OF reads_fail_with]) (simp add: left_state_def)
qed

lemma reads_plan_cycle:
  assumes w: "well_wired sx run_id"
  shows "reads (sx_env sx) run_id left_state over (plan_cycle sx run_id intent st failures conv)"
proof -
  have exec: "reads (sx_env sx) run_id left_state over (act_bind (execute_plan sx run_id plan failures seq cs) (\<lambda>(s, n).
      if rs_status s \<in> {RS_COMPLETED, RS_FAILED} then act_return (Inl s)
      else if cf_run_attempt_budget (sx_config sx) \<le> n
      then act_bind (fail_with sx run_id (''Circuit breaker: '' @ show_int n @ '' consecutive failures'') n) (\<lambda>(s', _). act_return (Inl s'))
      else act_return (Inr n)))" for plan seq cs
    unfolding reads_def ensures_bind
  proof (intro allI impI, rule ensures_mono[OF readsD[OF reads_execute_plan[OF w]]])
    fix c r c' assume shown: "shows_state (sx_env sx) run_id fst_state (\<lambda>_. True) r c'"
    then have ok: "log_ok (sx_env sx) run_id c'" by (simp add: shows_state_def)
    then show "case r of Inl e \<Rightarrow> shows_state (sx_env sx) run_id left_state over (Inl e) c'
      | Inr x \<Rightarrow> ensures (case x of (s, n) \<Rightarrow> if rs_status s \<in> {RS_COMPLETED, RS_FAILED} then act_return (Inl s)
          else if cf_run_attempt_budget (sx_config sx) \<le> n
          then act_bind (fail_with sx run_id (''Circuit breaker: '' @ show_int n @ '' consecutive failures'') n) (\<lambda>(s', _). act_return (Inl s'))
          else act_return (Inr n)) c' (shows_state (sx_env sx) run_id left_state over)"
      using shown readsD[OF reads_stop ok] by (auto simp: shows_state_def action_wp left_state_def over_def ended_def split: sum.splits)
  qed
  have ans: "reads (sx_env sx) run_id left_state over (act_bind (answer_and_complete sx run_id i st conv) (\<lambda>s. act_return (Inl s)))" for i
    by (rule reads_map[OF reads_answer_and_complete]) (simp add: left_state_def)
  have pause: "reads (sx_env sx) run_id left_state over (act_then (sx_pause sx) (act_return (Inr failures)))"
    by (intro reads_then wiredD(5)[OF w] reads_return) (simp add: left_state_def)
  have planned: "reads (sx_env sx) run_id left_state over (case x of None \<Rightarrow> a | Some y \<Rightarrow> (case y of (p, raw) \<Rightarrow> f p raw))"
    if "reads (sx_env sx) run_id left_state over a" "\<And>p raw. reads (sx_env sx) run_id left_state over (f p raw)" for x a f
    using that by (auto split: option.splits prod.splits)
  have emitted: "reads (sx_env sx) run_id left_state over (act_then (emit sx run_id e) (if b then if b' then m1 else m2 else m3))"
    if "reads (sx_env sx) run_id left_state over m1" "reads (sx_env sx) run_id left_state over m2" "reads (sx_env sx) run_id left_state over m3"
    for e b b' m1 m2 m3
    by (rule reads_then[OF keeps_emit]) (use that in simp)
  show ?thesis unfolding plan_cycle_def Let_def
    by (rule reads_if[OF pause], rule reads_bind[OF keeps_planner_plan[OF w]], rule planned[OF reads_stop], rule emitted[OF reads_stop ans exec])
qed

lemma reads_stopped: "reads (sx_env sx) run_id Some over (act_bind (fail_with sx run_id err n) (\<lambda>(s, _). act_return s))"
  unfolding case_prod_unfold by (rule reads_map[OF reads_fail_with]) simp

lemma reads_plan_loop:
  assumes w: "well_wired sx run_id"
  shows "log_ok (sx_env sx) run_id c \<Longrightarrow> fold_events (get_events (xc_store c) run_id) = Inr st \<Longrightarrow>
     ensures (plan_loop sx run_id intent conv left st n) c (shows_state (sx_env sx) run_id Some over)"
proof (induction left arbitrary: c st n)
  case 0
  show ?case
  proof (cases "rs_status st \<in> {RS_COMPLETED, RS_FAILED}")
    case True
    then show ?thesis using 0 by (auto simp: action_wp shows_state_def over_def ended_def)
  next
    case False
    then show ?thesis using readsD[OF reads_stopped 0(1)] by (subst plan_loop.simps) simp
  qed
next
  case (Suc left)
  have go: "ensures (act_bind (plan_cycle sx run_id intent st n conv) (\<lambda>res. case res of Inl s \<Rightarrow> act_return s
      | Inr k \<Rightarrow> act_bind (refresh_state (sx_env sx) run_id) (\<lambda>s. plan_loop sx run_id intent conv left s k))) c (shows_state (sx_env sx) run_id Some over)"
    unfolding ensures_bind
  proof (rule ensures_mono[OF readsD[OF reads_plan_cycle[OF w] Suc.prems(1)]])
    fix r c' assume shown: "shows_state (sx_env sx) run_id left_state over r c'"
    then have ok: "log_ok (sx_env sx) run_id c'" by (simp add: shows_state_def)
    have again: "ensures (act_bind (refresh_state (sx_env sx) run_id) (\<lambda>s. plan_loop sx run_id intent conv left s k)) c' (shows_state (sx_env sx) run_id Some over)" for k
      using Suc.IH[OF ok] ok
      by (cases "fold_events (get_events (xc_store c') run_id)")
        (simp_all add: ensures_def act_bind_def refresh_state_fold[OF ok] shows_state_def del: plan_loop.simps)
    show "case r of Inl e \<Rightarrow> shows_state (sx_env sx) run_id Some over (Inl e) c'
      | Inr x \<Rightarrow> ensures (case x of Inl s \<Rightarrow> act_return s
          | Inr k \<Rightarrow> act_bind (refresh_state (sx_env sx) run_id) (\<lambda>s. plan_loop sx run_id intent conv left s k)) c' (shows_state (sx_env sx) run_id Some over)"
    proof (cases r)
      case (Inr x)
      then show ?thesis using shown again
        by (cases x) (auto simp: shows_state_def action_wp left_state_def simp del: plan_loop.simps)
    qed (use ok in \<open>simp add: shows_state_def\<close>)
  qed
  show ?case
  proof (cases "rs_status st \<in> {RS_COMPLETED, RS_FAILED}")
    case True
    then show ?thesis using Suc.prems by (subst plan_loop.simps) (auto simp: action_wp shows_state_def over_def ended_def)
  next
    case False
    have "ensures (guard_cancelled sx a b) c Q \<longleftrightarrow> (if sx_cancelled sx c then ensures a c Q else ensures b c Q)" for a b :: "run_state action" and Q
      by (simp add: guard_cancelled_def ensures_def)
    then show ?thesis using False go readsD[OF reads_stopped Suc.prems(1)] by (subst plan_loop.simps) (simp del: plan_loop.simps)
  qed
qed

section \<open>The barrier\<close>

lemma keeps_resolve [keeping]: "keeps (sx_env sx) run_id (resolve_contracts sx run_id intent)"
proof -
  have attempt: "keeps (sx_env sx) run_id (\<lambda>c. act_try (case sx_extract sx c intent of Inr cs \<Rightarrow> emit sx run_id (f cs) | Inl e \<Rightarrow> act_raise e) h c)"
    if "\<And>e. keeps (sx_env sx) run_id (h e)" for f h
  proof (rule keepsI)
    fix c r c' assume ok: "log_ok (sx_env sx) run_id c"
      and run: "act_try (case sx_extract sx c intent of Inr cs \<Rightarrow> emit sx run_id (f cs) | Inl e \<Rightarrow> act_raise e) h c = (r, c')"
    have "keeps (sx_env sx) run_id (act_try (case sx_extract sx c intent of Inr cs \<Rightarrow> emit sx run_id (f cs) | Inl e \<Rightarrow> act_raise e) h)"
      by (rule keeps_try[OF _ that]) (auto intro: keeping split: sum.splits)
    then show "log_ok (sx_env sx) run_id c'" using keepsD ok run by blast
  qed
  show ?thesis unfolding resolve_contracts_def
    by (rule reads_bind[OF keeps_refresh(1)], rule reads_if, rule reads_return, simp, rule reads_if,
        rule reads_return, simp, rule attempt, rule keeps_emit)
qed

lemma reads_run_loop:
  assumes w: "well_wired sx run_id"
  shows "reads (sx_env sx) run_id Some over (run_loop sx run_id intent conv)"
proof -
  have loop: "reads (sx_env sx) run_id Some over (plan_execute_revise_loop sx run_id intent conv)"
    unfolding reads_def
  proof (intro allI impI)
    fix c assume ok: "log_ok (sx_env sx) run_id c"
    show "ensures (plan_execute_revise_loop sx run_id intent conv) c (shows_state (sx_env sx) run_id Some over)"
      using reads_plan_loop[OF w ok, of _ intent conv] ok
      by (cases "fold_events (get_events (xc_store c) run_id)")
        (simp_all add: plan_execute_revise_loop_def ensures_def act_bind_def refresh_state_fold[OF ok] shows_state_def del: plan_loop.simps)
  qed
  show ?thesis unfolding run_loop_def
    by (rule reads_then[OF keeps_started], rule reads_then[OF keeps_resolve], rule reads_bind[OF keeps_classify], rule reads_if[OF loop])
      (rule reads_bind[OF keeps_refresh(1) reads_answer_and_complete])
qed

lemma barrier_settles:
  assumes ok: "log_ok env run_id c" and m: "closes env run_id s m" "ended s"
    and run: "act_then (quietly m) (refresh_state env run_id) c = (r, c')"
  shows "log_ok env run_id c' \<and> (case r of Inr st \<Rightarrow> over st \<and> fold_events (get_events (xc_store c') run_id) = Inr st | Inl e \<Rightarrow> unfoldable c' run_id)"
proof -
  obtain x c1 where x: "m c = (x, c1)" by fastforce
  have post: "log_ok env run_id c1" "case x of Inl e \<Rightarrow> c1 = c \<and> unfoldable c run_id
      | Inr _ \<Rightarrow> statuses c1 run_id = (if run_over c run_id then statuses c run_id else statuses c run_id @ [s])"
    using ensuresD[OF m(1)[unfolded closes_def, rule_format, OF ok] x] by auto
  have q: "quietly m c = (Inr (), c1)" using x by (cases x) (auto simp: quietly_def act_try_def act_return_def)
  then have rc: "(r, c') = refresh_state env run_id c1" using run by (simp add: act_then_def act_bind_def)
  have "over st" if f: "fold_events (get_events (xc_store c1) run_id) = Inr st" for st
    using fold_status[OF f] post(2) m(2) f by (cases x) (auto simp: over_def run_over_def unfoldable_def split: if_splits)
  then show ?thesis using rc post(1) by (auto simp: refresh_state_fold unfoldable_def split: sum.splits)
qed

text \<open>The barrier settles what its loop leaves open: it needs to know of the loop only the states it returns.\<close>

lemma barrier_ends:
  assumes w: "keeps (sx_env sx) run_id (sx_reap sx)" and r1: "loop c = (Inl e, c1)" and ok: "log_ok (sx_env sx) run_id c1"
    and run: "run_barrier sx run_id loop c = (r, c')"
  shows "log_ok (sx_env sx) run_id c'
    \<and> (case r of Inr st \<Rightarrow> over st \<and> fold_events (get_events (xc_store c') run_id) = Inr st | Inl e \<Rightarrow> unfoldable c' run_id)"
proof -
  obtain u c2 where c2: "quietly (sx_reap sx) c1 = (u, c2)" by fastforce
  have ok2: "log_ok (sx_env sx) run_id c2" by (rule keepsD[OF keeps_quietly[OF w] ok c2])
  have "u = Inr ()" using c2 by (auto simp: quietly_def act_try_def act_return_def split: sum.splits prod.splits)
  then have "act_then (quietly (fail_run (sx_env sx) run_id (barrier_error sx e))) (refresh_state (sx_env sx) run_id) c2 = (r, c')"
    using run r1 c2 by (simp add: run_barrier_def act_try_def act_then_def act_bind_def)
  from barrier_settles[OF ok2 closes_fail _ this] show ?thesis by (simp add: ended_def)
qed

lemma run_settles:
  assumes w: "well_wired sx run_id" and ok: "log_ok (sx_env sx) run_id c"
    and run: "scheduler_run sx run_id intent conversation c = (r, c')"
  shows "case r of
      Inr st \<Rightarrow> rs_status st \<in> {RS_COMPLETED, RS_FAILED} \<and> fold_events (get_events (xc_store c') run_id) = Inr st
    | Inl e \<Rightarrow> \<exists>x. fold_events (get_events (xc_store c') run_id) = Inl x"
proof -
  obtain r1 c1 where r1: "run_loop sx run_id intent conversation c = (r1, c1)" by fastforce
  have shown: "shows_state (sx_env sx) run_id Some over r1 c1" using ensuresD[OF readsD[OF reads_run_loop[OF w] ok] r1] .
  show ?thesis
  proof (cases r1)
    case (Inr st)
    then show ?thesis using run r1 shown by (auto simp: scheduler_run_def run_barrier_def act_try_def shows_state_def over_def ended_def)
  next
    case (Inl e)
    from barrier_ends[OF wiredD(6)[OF w] r1[unfolded Inl] _ run[unfolded scheduler_run_def]] shown show ?thesis
      by (auto simp: shows_state_def ended_def over_def unfoldable_def split: sum.splits)
  qed
qed

text \<open>C1: Every run settles. Whatever the model answers, the tools do, the operator confirms or leaves unanswered, and whatever raises on
  the way, a run of the planning scheduler stops, and the state it returns is the fold of its log and has ended as completed or failed.
  It returns no state only when the log itself cannot be folded.\<close>

theorem scheduler_run_settles:
  assumes w: "well_wired sx run_id" and ok: "log_ok (sx_env sx) run_id c"
    and run: "scheduler_run sx run_id intent conversation c = (r, c')"
  shows "case r of
      Inr st \<Rightarrow> rs_status st \<in> {RS_COMPLETED, RS_FAILED} \<and> fold_events (get_events (xc_store c') run_id) = Inr st
    | Inl e \<Rightarrow> \<exists>x. fold_events (get_events (xc_store c') run_id) = Inl x"
  by (rule run_settles[OF assms])

section \<open>No completion past the gate\<close>

text \<open>Operations that write no status, raising or not.\<close>

definition mute :: "exec_env \<Rightarrow> string \<Rightarrow> 'a action \<Rightarrow> bool" where
  "mute env run_id m \<longleftrightarrow> (\<forall>c. log_ok env run_id c \<longrightarrow> ensures m c (\<lambda>r c'. log_ok env run_id c' \<and> statuses c' run_id = statuses c run_id))"

lemma muteD: "mute env run_id m \<Longrightarrow> log_ok env run_id c \<Longrightarrow> m c = (r, c') \<Longrightarrow> log_ok env run_id c' \<and> statuses c' run_id = statuses c run_id"
  unfolding mute_def using ensuresD by fastforce

lemma mute_log_append: "run_status_of p = None \<Longrightarrow> mute env run_id (log_append env run_id p None)"
  unfolding mute_def by (intro allI impI ensures_mono[OF append_status]) (auto simp: status_of_def)

lemma mute_bind:
  assumes "mute env run_id m" "\<And>x. mute env run_id (f x)"
  shows "mute env run_id (act_bind m f)"
  unfolding mute_def ensures_bind
proof (intro allI impI)
  fix c assume ok: "log_ok env run_id c"
  obtain r c1 where m: "m c = (r, c1)" by fastforce
  note m1 = muteD[OF assms(1) ok m]
  show "ensures m c (\<lambda>r c'. case r of Inl e \<Rightarrow> log_ok env run_id c' \<and> statuses c' run_id = statuses c run_id
      | Inr x \<Rightarrow> ensures (f x) c' (\<lambda>r c'. log_ok env run_id c' \<and> statuses c' run_id = statuses c run_id))"
  proof (cases r)
    case (Inr x)
    obtain r2 c2 where f: "f x c1 = (r2, c2)" by fastforce
    show ?thesis using m Inr f muteD[OF assms(2) conjunct1[OF m1] f] m1 by (simp add: ensures_def)
  qed (use m m1 in \<open>simp add: ensures_def\<close>)
qed

lemma mute_then: "mute env run_id m \<Longrightarrow> mute env run_id k \<Longrightarrow> mute env run_id (act_then m k)"
  unfolding act_then_def by (rule mute_bind)

lemma mute_pure: "(\<And>c. snd (m c) = c) \<Longrightarrow> mute env run_id m"
  unfolding mute_def ensures_def by (metis (mono_tags, lifting) case_prod_beta)

lemma mute_return: "mute env run_id (act_return x)"
  by (rule mute_pure) (simp add: act_return_def)

lemma mute_try: "mute env run_id m \<Longrightarrow> mute env run_id (quietly m)"
  unfolding mute_def ensures_def quietly_def act_try_def act_return_def by (auto split: prod.splits sum.splits)

lemma mute_emit:
  assumes "run_status_of p = None"
  shows "mute (sx_env sx) run_id (emit sx run_id p)"
proof -
  have "mute (sx_env sx) run_id (is_run_terminal (sx_env sx) run_id)"
    by (rule mute_pure) (auto simp: is_run_terminal_def act_bind_def refresh_state_def act_return_def split: sum.splits prod.splits)
  moreover have "mute (sx_env sx) run_id (record_late_event_rejection (sx_env sx) run_id et why)" for et why
    unfolding mute_def record_late_event_rejection_def ensures_def
    using mute_try[OF mute_log_append, unfolded mute_def ensures_def] by simp
  ultimately show ?thesis using mute_log_append[OF assms]
    unfolding emit_def append_run_event_def Let_def by (auto intro!: mute_then mute_bind mute_return)
qed

text \<open>An operation that closes a run that is not over, and otherwise changes no status.\<close>

definition closing :: "exec_env \<Rightarrow> string \<Rightarrow> run_status \<Rightarrow> unit action \<Rightarrow> bool" where
  "closing env run_id s m \<longleftrightarrow> (\<forall>c. log_ok env run_id c \<longrightarrow> ensures m c (\<lambda>r c'. log_ok env run_id c'
     \<and> statuses c' run_id = (case r of Inl e \<Rightarrow> statuses c run_id
          | Inr _ \<Rightarrow> if run_over c run_id then statuses c run_id else statuses c run_id @ [s])))"

lemma closingD: "closing env run_id s m \<Longrightarrow> log_ok env run_id c \<Longrightarrow> m c = (r, c') \<Longrightarrow> log_ok env run_id c'
     \<and> statuses c' run_id = (case r of Inl e \<Rightarrow> statuses c run_id | Inr _ \<Rightarrow> if run_over c run_id then statuses c run_id else statuses c run_id @ [s])"
  unfolding closing_def using ensuresD by fastforce

lemma closes_closing: "closes env run_id s m \<Longrightarrow> closing env run_id s m"
proof -
  assume closes: "closes env run_id s m"
  show "closing env run_id s m" unfolding closing_def
  proof (intro allI impI)
    fix c assume ok: "log_ok env run_id c"
    show "ensures m c (\<lambda>r c'. log_ok env run_id c' \<and> statuses c' run_id = (case r of Inl e \<Rightarrow> statuses c run_id
        | Inr _ \<Rightarrow> if run_over c run_id then statuses c run_id else statuses c run_id @ [s]))"
      by (rule ensures_mono[OF closes[unfolded closes_def, rule_format, OF ok]]) (auto split: sum.splits)
  qed
qed

lemma closing_bind:
  assumes "mute env run_id m" "\<And>x. closing env run_id s (f x)"
  shows "closing env run_id s (act_bind m f)"
  unfolding closing_def ensures_def
proof (intro allI impI)
  fix c assume ok: "log_ok env run_id c"
  obtain r c1 where m: "m c = (r, c1)" by fastforce
  note m1 = muteD[OF assms(1) ok m]
  have over: "run_over c1 run_id = run_over c run_id" using m1 by (simp add: run_over_def)
  show "case act_bind m f c of (r, c') \<Rightarrow> log_ok env run_id c' \<and> statuses c' run_id = (case r of Inl e \<Rightarrow> statuses c run_id
      | Inr _ \<Rightarrow> if run_over c run_id then statuses c run_id else statuses c run_id @ [s])"
  proof (cases r)
    case (Inr x)
    obtain r2 c2 where f: "f x c1 = (r2, c2)" by fastforce
    show ?thesis using m Inr f closingD[OF assms(2) conjunct1[OF m1] f] m1 over by (cases r2) (simp_all add: act_bind_def)
  qed (use m m1 in \<open>simp add: act_bind_def\<close>)
qed

lemma closing_try:
  assumes "closing env run_id s m" "\<And>e. closing env run_id s (h e)"
  shows "closing env run_id s (act_try m h)"
  unfolding closing_def ensures_def
proof (intro allI impI)
  fix c assume ok: "log_ok env run_id c"
  obtain r c1 where m: "m c = (r, c1)" by fastforce
  note m1 = closingD[OF assms(1) ok m]
  show "case act_try m h c of (r, c') \<Rightarrow> log_ok env run_id c' \<and> statuses c' run_id = (case r of Inl e \<Rightarrow> statuses c run_id
      | Inr _ \<Rightarrow> if run_over c run_id then statuses c run_id else statuses c run_id @ [s])"
  proof (cases r)
    case (Inl e)
    obtain r2 c2 where f: "h e c1 = (r2, c2)" by fastforce
    have "run_over c1 run_id = run_over c run_id" using m1 Inl by (simp add: run_over_def)
    then show ?thesis using m Inl f closingD[OF assms(2) conjunct1[OF m1] f] m1 by (cases r2) (simp_all add: act_try_def)
  qed (use m m1 in \<open>simp add: act_try_def\<close>)
qed

lemma closing_finalize: "closing (sx_env sx) run_id RS_COMPLETED (finalize_with_summary sx run_id intent fallback b u cv)"
proof -
  have pure: "mute (sx_env sx) run_id (refresh_authoritative_state (sx_env sx) run_id)" "mute (sx_env sx) run_id (generate_answer sx i st conv)" for i st conv
    by (rule mute_pure; auto simp: refresh_authoritative_state_def Let_def split: sum.splits)
      (rule mute_pure; auto simp: generate_answer_def act_sum_def act_raise_def act_return_def split: sum.splits)
  show ?thesis unfolding finalize_with_summary_def act_then_def
    by (intro closing_try closing_bind pure mute_emit closes_closing[OF closes_complete]) (simp add: answer_thought_def)
qed

text \<open>What the state returned at the end says.\<close>

definition decides :: "exec_env \<Rightarrow> string \<Rightarrow> run_status \<Rightarrow> (run_state \<times> int) action \<Rightarrow> bool" where
  "decides env run_id s m \<longleftrightarrow> (\<forall>c st n c'. log_ok env run_id c \<longrightarrow> \<not> run_over c run_id \<longrightarrow> m c = (Inr (st, n), c') \<longrightarrow>
     rs_status st = s \<and> statuses c' run_id = statuses c run_id @ [s])"

lemma decides_then:
  assumes "mute env run_id m" "decides env run_id s k"
  shows "decides env run_id s (act_then m k)"
  unfolding decides_def
proof (intro allI impI)
  fix c st n c' assume ok: "log_ok env run_id c" and no: "\<not> run_over c run_id" and run: "act_then m k c = (Inr (st, n), c')"
  obtain r c1 where m: "m c = (r, c1)" by fastforce
  note m1 = muteD[OF assms(1) ok m]
  have "k c1 = (Inr (st, n), c')" using run m by (cases r) (auto simp: act_then_def act_bind_def)
  moreover have "\<not> run_over c1 run_id" using m1 no by (simp add: run_over_def)
  ultimately show "rs_status st = s \<and> statuses c' run_id = statuses c run_id @ [s]" using assms(2) m1 by (auto simp: decides_def)
qed

lemma decides_closing:
  assumes "closing env run_id s m"
  shows "decides env run_id s (act_then m (act_bind (refresh_state env run_id) (\<lambda>st. act_return (st, n))))"
  unfolding decides_def
proof (intro allI impI)
  fix c st k c' assume ok: "log_ok env run_id c" and no: "\<not> run_over c run_id"
    and run: "act_then m (act_bind (refresh_state env run_id) (\<lambda>st. act_return (st, n))) c = (Inr (st, k), c')"
  obtain r c1 where m: "m c = (r, c1)" by fastforce
  note m1 = closingD[OF assms ok m]
  obtain u where r: "r = Inr u" using run m by (cases r) (auto simp: act_then_def act_bind_def)
  have "c' = c1 \<and> fold_events (get_events (xc_store c1) run_id) = Inr st"
    using run m r m1 by (auto simp: act_then_def act_bind_def refresh_state_fold act_return_def split: sum.splits)
  then show "rs_status st = s \<and> statuses c' run_id = statuses c run_id @ [s]" using m1 r no fold_status[of c1 run_id st] by auto
qed

lemma decides_fail_with: "decides (sx_env sx) run_id RS_FAILED (fail_with sx run_id err n)"
  unfolding fail_with_def by (rule decides_closing[OF closes_closing[OF closes_fail]])

lemma mute_emits:
  "mute (sx_env sx) run_id (emit_plan_revised sx run_id plan_id revised results reason remaining)"
  "mute (sx_env sx) run_id (emit_plan_failed sx run_id plan_id completed layer_count err)"
  unfolding emit_plan_revised_def emit_plan_failed_def by (simp_all add: mute_emit)

definition gate_open :: "completion_verdict \<Rightarrow> bool" where
  "gate_open v \<longleftrightarrow> cv_mechanical_complete v \<and> cv_deliverable_status v \<noteq> ''failed''"

lemma dispose_decides:
  assumes "mute (sx_env sx) run_id (sx_compact sx)"
  shows "decides (sx_env sx) run_id (if gate_open verdict then RS_COMPLETED else RS_FAILED)
    (dispose_completion_verdict sx run_id intent root_plan plan_id verdict n k fallback)"
proof (cases "gate_open verdict")
  case True
  then have "dispose_completion_verdict sx run_id intent root_plan plan_id verdict n k fallback =
      act_then (emit sx run_id (PPlan (PlanCompleted \<lparr> pco_plan_id = plan_id,
          pco_completed_steps = int (length (dp_steps root_plan)) - int (length (cv_unmet_step_ids verdict)), pco_total_layers = int k,
          pco_summary = ''Completed '' @ show_int (int (length (dp_steps root_plan)) - int (length (cv_unmet_step_ids verdict))) @ ''/''
             @ show_nat (length (dp_steps root_plan)) @ '' root steps'' \<rparr>)))
        (act_then (sx_compact sx) (act_then (finalize_with_summary sx run_id intent fallback True [] (Some verdict))
        (act_bind (refresh_state (sx_env sx) run_id) (\<lambda>st. act_return (st, 0)))))"
    by (simp add: dispose_completion_verdict_def gate_open_def Let_def)
  then show ?thesis using True by (simp add: decides_then decides_closing closing_finalize assms mute_emit)
next
  case False
  then show ?thesis unfolding dispose_completion_verdict_def Let_def
    by (auto simp: gate_open_def intro: decides_then decides_fail_with mute_emits)
qed

text \<open>C4: The completion gate decides how a plan ends, and nothing else: when a revision leaves no steps, the run completes exactly if the
  model did not declare failure, every step of the root plan ended normally and every delivery contract is met or there is none;
  otherwise it fails. Either way the log gains exactly that one status.\<close>

theorem completion_gate_decides_the_run:
  assumes "log_ok (sx_env sx) run_id c" "\<not> run_over c run_id" "mute (sx_env sx) run_id (sx_compact sx)"
    and "settle_empty_revised sx run_id plan_id root_plan results aliases revised reason contracts failures layer_count c = (Inr (st, n), c')"
  shows "rs_status st = (if \<not> dp_failed revised \<and> cv_mechanical_complete (completion_gate root_plan results aliases contracts)
             \<and> cv_deliverable_status (completion_gate root_plan results aliases contracts) \<noteq> ''failed''
           then RS_COMPLETED else RS_FAILED)
    \<and> statuses c' run_id = statuses c run_id @ [rs_status st]"
proof -
  let ?v = "completion_gate root_plan results aliases contracts"
  have "decides (sx_env sx) run_id (if \<not> dp_failed revised \<and> gate_open ?v then RS_COMPLETED else RS_FAILED)
      (settle_empty_revised sx run_id plan_id root_plan results aliases revised reason contracts failures layer_count)"
    using dispose_decides[OF assms(3), of ?v] unfolding settle_empty_revised_def Let_def
    by (auto intro!: decides_then mute_emits decides_fail_with)
  then show ?thesis using assms(1,2,4) unfolding decides_def gate_open_def by auto
qed

section \<open>Feedback about a revision\<close>

lemma rmap_Inr: "rmap f r = Inr y \<longleftrightarrow> (\<exists>x. r = Inr x \<and> y = f x)"
  by (cases r) auto

lemma revised_consumes:
  assumes "apply_plan seq (PlanRevised p) st0 = Inr st" "fb \<in> set (rs_feedbacks st)"
  shows "fb_consumed_at_seq fb \<noteq> None"
proof -
  have "rs_feedbacks st = consume_feedbacks seq (rs_feedbacks st0)"
    using assms(1) by (auto simp: Let_def with_evidence_def update_latest_def rmap_Inr split: if_splits option.splits)
  then show ?thesis using assms(2) by (auto simp: consume_feedbacks_def split: if_splits)
qed

lemma no_feedback_after_revision:
  assumes "fold_events (es @ [e]) = Inr st" "ev_payload e = PPlan (PlanRevised p)"
  shows "get_feedback_text b st fr since = None"
proof -
  obtain s0 where "fold_result apply_event [e] s0 = Inr st"
    using assms(1) by (auto simp: fold_events_Inr fold_result_append rbind_Inr_iff simp del: fold_result.simps)
  then have "apply_event e s0 = Inr st" by (simp add: rbind_Inr_iff)
  then have "\<exists>seq s1. apply_plan seq (PlanRevised p) s1 = Inr st"
    using assms(2) by (auto simp: apply_event_def simp del: apply_plan.simps split: if_splits)
  then have "\<not> fb_active st since fb" if "fb \<in> set (rs_feedbacks st)" for fb using revised_consumes that by (auto simp: fb_active_def)
  then have "filter (fb_active st since) (rs_feedbacks st) = []" by (simp add: filter_empty_conv)
  then have "selected_feedbacks st fr since = []" by (simp add: selected_feedbacks_def)
  then show ?thesis by (simp add: get_feedback_text_def)
qed

lemma emit_writes:
  assumes "log_ok (sx_env sx) run_id c" "\<not> run_over c run_id" "emit sx run_id p c = (Inr (), c')"
  shows "\<exists>e. get_events (xc_store c') run_id = get_events (xc_store c) run_id @ [e] \<and> ev_payload e = p"
proof -
  note ok = assms(1)
  from is_run_terminal_cases[OF ok] have t: "is_run_terminal (sx_env sx) run_id c = (Inr False, c)"
  proof (elim disjE exE)
    fix e assume "is_run_terminal (sx_env sx) run_id c = (Inl e, c)"
    then show ?thesis using assms(3) by (simp add: emit_def append_run_event_def Let_def act_then_def act_bind_def)
  qed (use assms(2) in \<open>simp add: run_over_def\<close>)
  obtain c1 where c1: "log_append (sx_env sx) run_id p None c = (Inr (), c1)" "wrote (sx_env sx) run_id c [(p, None)] c1"
    using log_append_ok[OF ok] by blast
  have "c' = c1" using assms(3) t c1(1) by (simp add: emit_def append_run_event_def Let_def act_then_def act_bind_def act_return_def)
  moreover obtain es where "get_events (xc_store c1) run_id = get_events (xc_store c) run_id @ es" "map ev_payload es = [p]"
    by (rule wrote_get_events[OF _ c1(2)]) (use ok in \<open>auto simp: log_ok_def\<close>)
  ultimately show ?thesis by (cases es) auto
qed

text \<open>Feedbacks are never taken back, and a consumed one stays consumed.\<close>

lemma update_latest_feedbacks [simp]: "rs_feedbacks (update_latest f st) = rs_feedbacks st"
  by (simp add: update_latest_def split: option.split)

lemma apply_step_feedbacks:
  assumes "apply_step seq p st = Inr st'"
  shows "rs_feedbacks st' = rs_feedbacks st"
proof -
  obtain upd fresh where "record_plan_step (step_event_plan p) (step_event_id p) upd fresh
       (touch_evidence (step_event_update seq p) (step_event_id p) (step_event_plan p) seq st) = Inr st'"
    by (rule apply_step_record[OF assms])
  then show ?thesis by (auto simp: record_plan_step_def rbind_Inr_iff touch_evidence_def split: option.splits if_splits)
qed

definition carried :: "feedback_injected_payload list \<Rightarrow> feedback_injected_payload list \<Rightarrow> bool" where
  "carried fbs fbs' \<longleftrightarrow> (\<exists>old new. fbs' = old @ new \<and> list_all2 (\<lambda>a b. fb_consumed_at_seq a \<noteq> None \<longrightarrow> fb_consumed_at_seq b \<noteq> None) fbs old)"

lemma carried_refl: "carried fbs (fbs @ new)"
  unfolding carried_def by (intro exI[of _ fbs] exI[of _ new]) (simp add: list.rel_refl)

lemma carried_consume: "carried fbs (consume_feedbacks seq fbs)"
  unfolding carried_def by (intro exI[of _ "consume_feedbacks seq fbs"] exI[of _ "[]"])
    (auto simp: consume_feedbacks_def list_all2_map2 intro: list.rel_refl_strong)

lemma carried_trans: "carried a b \<Longrightarrow> carried b c \<Longrightarrow> carried a c"
proof -
  assume "carried a b" "carried b c"
  then obtain o1 n1 o2 n2 where 1: "b = o1 @ n1" "list_all2 (\<lambda>a b. fb_consumed_at_seq a \<noteq> None \<longrightarrow> fb_consumed_at_seq b \<noteq> None) a o1"
    and 2: "c = o2 @ n2" "list_all2 (\<lambda>a b. fb_consumed_at_seq a \<noteq> None \<longrightarrow> fb_consumed_at_seq b \<noteq> None) (o1 @ n1) o2"
    by (auto simp: carried_def)
  obtain u v where uv: "o2 = u @ v" "list_all2 (\<lambda>a b. fb_consumed_at_seq a \<noteq> None \<longrightarrow> fb_consumed_at_seq b \<noteq> None) o1 u"
    using 2(2) by (auto simp: list_all2_append1)
  have "list_all2 (\<lambda>a b. fb_consumed_at_seq a \<noteq> None \<longrightarrow> fb_consumed_at_seq b \<noteq> None) a u"
    by (rule list_all2_trans[OF _ 1(2) uv(2)]) blast
  then show ?thesis unfolding carried_def using 2(1) uv(1) by auto
qed

lemma apply_event_carries:
  assumes "apply_event e st = Inr st'"
  shows "carried (rs_feedbacks st) (rs_feedbacks st')"
proof -
  let ?st = "st\<lparr>rs_seq := max (rs_seq st) (ev_seq e)\<rparr>"
  have a: "apply_payload (ev_seq e) (ev_payload e) ?st = Inr st'" using assms by (simp add: apply_event_Inr)
  note same = carried_refl[where new = "[]", simplified]
  show ?thesis
  proof (cases "ev_payload e")
    case (PPlan p)
    then have p: "apply_plan (ev_seq e) p ?st = Inr st'" using a by simp
    then have "rs_feedbacks st' = rs_feedbacks st \<or> rs_feedbacks st' = consume_feedbacks (ev_seq e) (rs_feedbacks st)"
      by (cases p) (auto simp: Let_def with_evidence_def rmap_Inr split: if_splits)
    then show ?thesis using same[of "rs_feedbacks st"] carried_consume by (auto simp del: not_None_eq)
  next
    case (PStep p)
    then show ?thesis using a apply_step_feedbacks[of "ev_seq e" p ?st st'] same[of "rs_feedbacks st"] by simp
  next
    case (PFeedbackInjected p)
    then have "rs_feedbacks st' = rs_feedbacks st @ [if fb_injected_at_seq p = None then p\<lparr>fb_injected_at_seq := Some (ev_seq e)\<rparr> else p]"
      using a by (auto simp: apply_feedback_def)
    then show ?thesis by (simp only: carried_refl)
  next
    case (PRun p)
    then show ?thesis using a same[of "rs_feedbacks st"] by (cases p) (auto simp: Let_def split: if_splits)
  next
    case (PTool p)
    then show ?thesis using a same[of "rs_feedbacks st"] by (cases p) (auto simp: Let_def split: if_splits)
  next
    case (PConfirmation p)
    then show ?thesis using a same[of "rs_feedbacks st"] by (cases p) auto
  next
    case (PContext p)
    then show ?thesis using a same[of "rs_feedbacks st"] by (cases p) (auto simp: drop_refs_def)
  qed (use a same[of "rs_feedbacks st"] in \<open>auto simp: apply_thought_def Let_def\<close>)
qed

lemma fold_carries: "fold_result apply_event es st = Inr st' \<Longrightarrow> carried (rs_feedbacks st) (rs_feedbacks st')"
proof (induction es arbitrary: st)
  case (Cons e es)
  then obtain st1 where "apply_event e st = Inr st1" "fold_result apply_event es st1 = Inr st'" by (auto simp: rbind_Inr_iff)
  then show ?case using Cons.IH carried_trans apply_event_carries by blast
qed (use carried_refl[where new = "[]"] in simp)

lemma inactive_later:
  assumes "fold_events es = Inr st" "fold_events (es @ later) = Inr st2" "\<forall>fb\<in>set (rs_feedbacks st). fb_consumed_at_seq fb \<noteq> None"
    and "fb \<in> set (take (length (rs_feedbacks st)) (rs_feedbacks st2))"
  shows "\<not> fb_active st2 since fb"
proof -
  have "fold_result apply_event later st = Inr st2"
    using assms(1,2) by (auto simp: fold_events_Inr fold_result_append)
  from fold_carries[OF this] obtain old new where o: "rs_feedbacks st2 = old @ new"
    "list_all2 (\<lambda>a b. fb_consumed_at_seq a \<noteq> None \<longrightarrow> fb_consumed_at_seq b \<noteq> None) (rs_feedbacks st) old" by (auto simp: carried_def)
  have "fb \<in> set old" using assms(4) o list_all2_lengthD[OF o(2)] by simp
  then obtain n where n: "n < length old" "fb = old ! n" by (auto simp: in_set_conv_nth)
  then have "fb_consumed_at_seq fb \<noteq> None"
    using list_all2_nthD2[OF o(2) n(1)] assms(3) list_all2_lengthD[OF o(2)] by (metis nth_mem)
  then show ?thesis by (simp add: fb_active_def)
qed

text \<open>How a layer is healed by a revision: the accepted revision is the last thing to be written.\<close>

lemma ended_with_not_rerun: "ended_with m c \<noteq> (Inr (Rerun ps), c')"
  by (auto simp: ended_with_def act_bind_def act_return_def split: prod.splits sum.splits)

lemma merge_checked_goes:
  assumes "merge_checked pr revised ps go c = (Inr (Rerun ps'), c')"
  shows "\<exists>ps2. go ps2 c = (Inr (Rerun ps'), c')"
proof -
  obtain merged results aliases where m: "merge_revised_plan (pr_root pr) (pst_plan ps) revised (pst_results ps) (pst_aliases ps) = (merged, results, aliases)"
    using prod_cases3 by blast
  let ?v = "validate_plan (pn_registry (sx_planner (pr_sx pr))) merged (normal_ids results) (available_ids results)"
  show ?thesis
  proof (cases ?v)
    case (Inr errors)
    have "errors = []"
    proof (rule ccontr)
      assume "errors \<noteq> []"
      then have "act_then (record_plan_rejection (sx_env (pr_sx pr)) (pr_run_id pr) StageMerge 1 errors False)
          (ended_with (fail_with (pr_sx pr) (pr_run_id pr) (''Merged revision rejected: '' @ join ''; '' errors) (pr_failures pr))) c = (Inr (Rerun ps'), c')"
        using assms by (simp add: merge_checked_def m Inr act_result_def act_bind_def act_return_def)
      then show False using ended_with_not_rerun by (auto simp: act_then_def act_bind_def split: prod.splits sum.splits)
    qed
    then show ?thesis using assms by (auto simp: merge_checked_def m Inr act_result_def act_bind_def act_return_def)
  qed (use assms in \<open>simp add: merge_checked_def m act_result_def act_bind_def act_raise_def\<close>)
qed

lemma heal_layer_revises:
  assumes "try_local_repair pr plan_id ps0 c = (Inr (False, ps), c0)" "heal_layer pr plan_id idx k ps0 c = (Inr (Rerun ps'), c')"
  obtains s answer c1 where "ask_revision pr (int idx) ps c0 = (Inr (s, answer), c1)"
    "act_then (warn_known_bad pr s (pst_plan ps) (pst_plan ps'))
       (act_then (emit_plan_revised (pr_sx pr) (pr_run_id pr) plan_id (pst_plan ps') (pst_results ps') ''step_failure_revised''
          (remaining_text (pst_plan ps'))) (act_return (Rerun ps'))) c1 = (Inr (Rerun ps'), c')"
proof -
  obtain r c1 where a: "ask_revision pr (int idx) ps c0 = (r, c1)" by fastforce
  note run = assms(2)[unfolded heal_layer_def Let_def act_bind_def[of "try_local_repair pr plan_id ps0"] assms(1) prod.case sum.case if_False
      act_bind_def[of "ask_revision pr (int idx) ps"] a]
  obtain s answer err where r: "r = Inr (s, answer, err)" using run by (cases r) auto
  note run2 = run[unfolded r prod.case sum.case]
  have "err = None" using run2 ended_with_not_rerun by (cases err) auto
  moreover obtain revised where "answer = Some revised" using run2 calculation ended_with_not_rerun by (cases answer) auto
  ultimately have run3: "(if dp_steps revised = [] then ended_with (settle_empty_revised (pr_sx pr) (pr_run_id pr) plan_id (pr_root pr)
        (pst_results (ps\<lparr>pst_results := snd (merge_step_tasks (pst_results ps) revised)\<rparr>))
        (pst_aliases (ps\<lparr>pst_results := snd (merge_step_tasks (pst_results ps) revised)\<rparr>)) revised
        ''step_failure_revised'' (pr_contracts pr) (pr_failures pr) k)
      else merge_checked pr revised (ps\<lparr>pst_results := snd (merge_step_tasks (pst_results ps) revised)\<rparr>) (\<lambda>ps2.
        act_then (warn_known_bad pr s (pst_plan ps) (pst_plan ps2))
          (if dp_steps (pst_plan ps2) = []
           then ended_with (settle_empty_revised (pr_sx pr) (pr_run_id pr) plan_id (pr_root pr) (pst_results ps2) (pst_aliases ps2) (pst_plan ps2)
                  ''step_failure_revised'' (pr_contracts pr) (pr_failures pr) k)
           else act_then (emit_plan_revised (pr_sx pr) (pr_run_id pr) plan_id (pst_plan ps2) (pst_results ps2) ''step_failure_revised''
                  (remaining_text (pst_plan ps2))) (act_return (Rerun ps2))))) c1 = (Inr (Rerun ps'), c')"
    using run2 by simp
  then obtain ps2 where g: "act_then (warn_known_bad pr s (pst_plan ps) (pst_plan ps2))
      (if dp_steps (pst_plan ps2) = []
       then ended_with (settle_empty_revised (pr_sx pr) (pr_run_id pr) plan_id (pr_root pr) (pst_results ps2) (pst_aliases ps2) (pst_plan ps2)
              ''step_failure_revised'' (pr_contracts pr) (pr_failures pr) k)
       else act_then (emit_plan_revised (pr_sx pr) (pr_run_id pr) plan_id (pst_plan ps2) (pst_results ps2) ''step_failure_revised''
              (remaining_text (pst_plan ps2))) (act_return (Rerun ps2))) c1 = (Inr (Rerun ps'), c')"
    using merge_checked_goes ended_with_not_rerun by (cases "dp_steps revised = []") (simp_all, blast)
  have ne: "dp_steps (pst_plan ps2) \<noteq> []"
    using g ended_with_not_rerun by (cases "dp_steps (pst_plan ps2) = []") (auto simp: act_then_def act_bind_def split: prod.splits sum.splits)
  moreover have "ps2 = ps'" using g ne by (auto simp: act_then_def act_bind_def act_return_def split: prod.splits sum.splits)
  ultimately show ?thesis using that[of s "(answer, err)" c1] a r g by simp
qed

text \<open>C39: The warning about known-bad steps never reaches the model. When a failed layer is healed by a revision that leaves a step on the
  action that failed, the scheduler injects a warning for the next revision and then records the accepted revision, and that event
  marks every feedback of the run as consumed: the warning is in the state read next, but consumed, no feedback text is built from
  that state, and in no later state is any of this feedback active again.\<close>

theorem known_bad_warning_is_lost:
  assumes ok: "good_run pr" "log_ok (sx_env (pr_sx pr)) (pr_run_id pr) c"
    and heal: "try_local_repair pr plan_id ps0 c = (Inr (False, ps), c0)" "heal_layer pr plan_id idx k ps0 c = (Inr (Rerun ps'), c')"
    and live: "\<not> run_over c' (pr_run_id pr)" and st: "fold_events (get_events (xc_store c') (pr_run_id pr)) = Inr st"
    and bad: "fold_events (get_events (xc_store c0) (pr_run_id pr)) = Inr s"
      "unresolved_known_bad_steps (rs_step_evidence s) (plan_steps_to_payload (pst_plan ps')) (original_inputs (pst_plan ps)) \<noteq> []"
  shows "(\<exists>fb\<in>set (rs_feedbacks st). fb_error_type fb = Some ''unresolved_known_bad_steps'' \<and> fb_consumed_at_seq fb \<noteq> None)
    \<and> get_feedback_text has_monitor st for_revise since = None
    \<and> (\<forall>later st2. fold_events (get_events (xc_store c') (pr_run_id pr) @ later) = Inr st2 \<longrightarrow>
         (\<forall>fb\<in>set (take (length (rs_feedbacks st)) (rs_feedbacks st2)). \<not> fb_active st2 since fb))"
proof -
  let ?sx = "pr_sx pr" and ?id = "pr_run_id pr"
  let ?u = "unresolved_known_bad_steps (rs_step_evidence s) (plan_steps_to_payload (pst_plan ps')) (original_inputs (pst_plan ps))"
  let ?w = "PFeedbackInjected (known_bad_feedback (rs_step_evidence s) ?u)"
  have ok0: "log_ok (sx_env ?sx) ?id c0" by (rule keepsD[OF keeps_local_repair ok(2) heal(1)])
  obtain s' answer c1 where ask: "ask_revision pr (int idx) ps c0 = (Inr (s', answer), c1)"
    and tl: "act_then (warn_known_bad pr s' (pst_plan ps) (pst_plan ps'))
       (act_then (emit_plan_revised ?sx ?id plan_id (pst_plan ps') (pst_results ps') ''step_failure_revised''
          (remaining_text (pst_plan ps'))) (act_return (Rerun ps'))) c1 = (Inr (Rerun ps'), c')"
    by (rule heal_layer_revises[OF heal])
  have "s' = s" using ask bad(1)
    by (auto simp: ask_revision_def Let_def act_bind_def refresh_state_fold[OF ok0] act_return_def split: prod.splits sum.splits)
  have ok1: "log_ok (sx_env ?sx) ?id c1" by (rule keepsD[OF keeps_ask_revision[OF ok(1)[unfolded good_run_def]] ok0 ask])
  obtain r2 c2 where w: "warn_known_bad pr s (pst_plan ps) (pst_plan ps') c1 = (r2, c2)" by fastforce
  obtain r3 c3 where e: "emit_plan_revised ?sx ?id plan_id (pst_plan ps') (pst_results ps') ''step_failure_revised''
      (remaining_text (pst_plan ps')) c2 = (r3, c3)" by fastforce
  have r: "r2 = Inr ()" "r3 = Inr ()" "c3 = c'" using tl w e unfolding \<open>s' = s\<close>
    by (cases r2; cases r3; simp add: act_then_def act_bind_def act_return_def)+
  have emitw: "emit ?sx ?id ?w c1 = (Inr (), c2)" using w bad(2) r(1) by (simp add: warn_known_bad_def Let_def)
  have "mute (sx_env ?sx) ?id (emit ?sx ?id ?w)" by (simp add: mute_emit)
  note m1 = muteD[OF this ok1 emitw] and m2 = muteD[OF mute_emits(1) _ e]
  have ok2: "log_ok (sx_env ?sx) ?id c2" using m1 by blast
  have live2: "\<not> run_over c2 ?id" using m2[OF ok2] live r(3) by (simp add: run_over_def)
  have live1: "\<not> run_over c1 ?id" using m1 live2 by (simp add: run_over_def)
  obtain ew where ew: "get_events (xc_store c2) ?id = get_events (xc_store c1) ?id @ [ew]" "ev_payload ew = ?w"
    using emit_writes[OF ok1 live1 emitw] by blast
  obtain ev p where ev: "get_events (xc_store c') ?id = get_events (xc_store c2) ?id @ [ev]" "ev_payload ev = PPlan (PlanRevised p)"
    using emit_writes[OF ok2 live2] e unfolding emit_plan_revised_def r by metis
  have log: "get_events (xc_store c') ?id = get_events (xc_store c1) ?id @ [ew, ev]" using ew(1) ev(1) by simp
  obtain sa where sa: "fold_result apply_event [ew, ev] sa = Inr st"
    using st by (auto simp: log fold_events_Inr fold_result_append rbind_Inr_iff simp del: fold_result.simps)
  obtain sb where sb: "apply_event ew sa = Inr sb" "apply_event ev sb = Inr st" using sa by (auto simp: rbind_Inr_iff)
  let ?fb = "known_bad_feedback (rs_step_evidence s) ?u"
  have inj: "rs_feedbacks sb = rs_feedbacks sa @ [?fb\<lparr>fb_injected_at_seq := Some (ev_seq ew)\<rparr>]"
    using sb(1) ew(2) by (auto simp: apply_event_Inr apply_feedback_def known_bad_feedback_def)
  have cons: "rs_feedbacks st = consume_feedbacks (ev_seq ev) (rs_feedbacks sb)"
    using sb(2) ev(2) by (auto simp: apply_event_Inr Let_def with_evidence_def rmap_Inr split: if_splits)
  have all: "\<forall>fb\<in>set (rs_feedbacks st). fb_consumed_at_seq fb \<noteq> None" unfolding cons by (auto simp: consume_feedbacks_def)
  have "\<exists>fb\<in>set (rs_feedbacks st). fb_error_type fb = Some ''unresolved_known_bad_steps''"
    unfolding cons inj by (simp add: consume_feedbacks_def known_bad_feedback_def)
  moreover have "get_feedback_text has_monitor st for_revise since = None" using no_feedback_after_revision st ev by metis
  ultimately show ?thesis using all inactive_later[OF st] by blast
qed

section \<open>Two ways to record a step\<close>

text \<open>
  A step that runs after a confirmation and does not succeed is recorded as failed, the same result of an unconfirmed step as completed
  with status unsuccessful.
\<close>

lemma confirmed_step_recorded_as_failed:
  assumes "sr_exec_state r = UNSUCCESSFUL" "sr_confirmation_id r = None"
  shows "(\<exists>p. retried_event plan_id steps sid r = Some (DagStepFailed p, True))
    \<and> finish_event plan_id idx steps sid (Inr r) = Some (completed_event plan_id sid r ''unsuccessful'' (sr_error r))"
  using assms by (auto simp: retried_event_def finish_event_def is_completed_def is_unsuccessful_def needs_confirmation_def)

section \<open>The classification gate\<close>

definition padded_request :: string where
  "padded_request = replicate 500 (CHR '' '') @ ''write ../x.txt''"

lemma search_blank:
  assumes no: "\<And>prev k. \<not> p prev (replicate k a)"
  shows "\<not> search_from p prev (replicate n a)"
proof (induction n arbitrary: prev)
  case 0
  show ?case using no[of prev 0] by simp
next
  case (Suc n)
  show ?case using no[of prev "Suc n"] Suc.IH[of "Some a"] by simp
qed

lemma search_later: "(\<And>prev. p prev s) \<Longrightarrow> search_from p prev (t @ s)"
  by (induction t arbitrary: prev) (cases s; simp)+

lemma blank_needs_no_tools: "\<not> intent_requires_tools (replicate n (CHR '' ''))"
proof -
  have low: "lower (replicate n (CHR '' '')) = replicate n (CHR '' '')" by (simp add: lower_def map_replicate lower_char_def)
  have no: "\<not> starts_with (w # ws) (replicate k (CHR '' ''))" if "w \<noteq> CHR '' ''" for w ws k using that by (cases k) auto
  have each: "\<not> p prev (replicate k (CHR '' ''))" if "p \<in> set tool_signal_patterns" for p prev k
    using that by (cases k; auto simp: tool_signal_patterns_def word_pattern_def extension_pattern_def alt_pattern_def drive_pattern_def cjk_signals_def
        is_alpha_def no split: list.splits)
  have "\<not> search_from p None (replicate n (CHR '' ''))" if "p \<in> set tool_signal_patterns" for p
    by (rule search_blank) (rule each[OF that])
  then show ?thesis by (auto simp: intent_requires_tools_def low search_def list_ex_iff)
qed

text \<open>The gate that is to force a request with a tool signal into the tool layer reads only its first 500 characters: behind them, a
  request to write outside the workspace is classified by the model alone, and its "no" skips planning, guardrails and tools.\<close>

theorem late_tool_signal_passes_the_gate:
  "intent_requires_tools padded_request
   \<and> classify_intent (sx\<lparr>sx_classify := (\<lambda>_ _. Inr ''no'')\<rparr>) padded_request c = (Inr False, c)"
proof
  have "search (alt_pattern [''../'', ''..'' @ [backslash], ''parent dir'']) (lower padded_request)"
    using search_later[of "alt_pattern [''../'', ''..'' @ [backslash], ''parent dir'']" "lower ''../x.txt''" None "lower (replicate 500 (CHR '' '') @ ''write '')"]
    by (simp add: search_def padded_request_def lower_def alt_pattern_def lower_char_def)
  then show "intent_requires_tools padded_request" by (simp add: intent_requires_tools_def tool_signal_patterns_def padded_request_def)
  have "take 500 padded_request = replicate 500 (CHR '' '')" by (simp add: padded_request_def)
  moreover have "lower (strip ''no'') = ''no''" by code_simp
  ultimately show "classify_intent (sx\<lparr>sx_classify := (\<lambda>_ _. Inr ''no'')\<rparr>) padded_request c = (Inr False, c)"
    by (simp add: classify_intent_def blank_needs_no_tools)
qed

section \<open>Samples\<close>

text \<open>A scheduler whose model answers nothing but an empty object, which is no plan.\<close>

definition mute_scheduler :: scheduler where
  "mute_scheduler = \<lparr> sx_dag = sample_dag_env, sx_planner = brief_planner [], sx_config = SchedulerConfig0, sx_tool_defs = [sample_tool],
     sx_has_monitor = True, sx_uuid = (\<lambda>_. ''u''), sx_cancelled = (\<lambda>_. False), sx_wait = act_return True, sx_pause = act_return (),
     sx_reap = act_return (), sx_compress = act_return (), sx_compact = act_return (), sx_can_extract = True, sx_extract = (\<lambda>_ _. Inr []), sx_classify = (\<lambda>_ _. Inr ''yes''),
     sx_answer = (\<lambda>_ _ _ _. Inr ''done'') \<rparr>"

lemma mute_scheduler_wired: "well_wired mute_scheduler ''r1''" "log_ok (sx_env mute_scheduler) ''r1'' sample_ctx"
  using sample_log_ok(2) sample_ctx_ok
  by (simp_all add: well_wired_def mute_scheduler_def brief_planner_def sample_dag_env_def reads_return)

lemma scheduler_run_settles_witness:
  "map_sum (\<lambda>_. ()) rs_status (fst (scheduler_run mute_scheduler ''r1'' ''write notes'' [] sample_ctx)) = Inr RS_FAILED
   \<and> (\<exists>st. fold_events (get_events (xc_store (snd (scheduler_run mute_scheduler ''r1'' ''write notes'' [] sample_ctx))) ''r1'') = Inr st
        \<and> rs_status st \<in> {RS_COMPLETED, RS_FAILED})"
proof -
  let ?run = "scheduler_run mute_scheduler ''r1'' ''write notes'' [] sample_ctx"
  have r: "map_sum (\<lambda>_. ()) rs_status (fst ?run) = Inr RS_FAILED"
    unfolding mute_scheduler_def brief_planner_def note_registry_def by code_simp
  have "?run = (fst ?run, snd ?run)" by simp
  from scheduler_run_settles[OF mute_scheduler_wired this] r show ?thesis by (cases "fst ?run") auto
qed

definition normal_results :: "step_result dict" where
  "normal_results = map (\<lambda>s. (ds_id s, (StepResult0 (ds_id s))\<lparr>sr_exec_state := COMPLETED\<rparr>)) (dp_steps note_plan)"

definition settled_note :: "(py_exc + run_state \<times> int) \<times> exec_ctx" where
  "settled_note = settle_empty_revised mute_scheduler ''r1'' ''p'' note_plan normal_results [] DagPlan0 ''why'' [] 0 1 sample_ctx"

lemma completion_gate_decides_the_run_witness:
  "(\<exists>st n. fst settled_note = Inr (st, n) \<and> rs_status st = RS_COMPLETED) \<and> statuses (snd settled_note) ''r1'' = statuses sample_ctx ''r1'' @ [RS_COMPLETED]"
proof -
  have "map_sum (\<lambda>_. ()) (\<lambda>_. ()) (fst settled_note) = Inr ()"
    unfolding settled_note_def mute_scheduler_def brief_planner_def note_registry_def by code_simp
  then obtain st n where r: "fst settled_note = Inr (st, n)" by (cases "fst settled_note") auto
  have run: "settle_empty_revised mute_scheduler ''r1'' ''p'' note_plan normal_results [] DagPlan0 ''why'' [] 0 1 sample_ctx = (Inr (st, n), snd settled_note)"
    using r by (simp add: settled_note_def prod_eq_iff)
  have gate: "cv_mechanical_complete (completion_gate note_plan normal_results [] [])" "cv_deliverable_status (completion_gate note_plan normal_results [] []) \<noteq> ''failed''"
    "\<not> run_over sample_ctx ''r1''" "\<not> dp_failed DagPlan0" by code_simp+
  have "mute (sx_env mute_scheduler) ''r1'' (sx_compact mute_scheduler)" by (simp add: mute_scheduler_def mute_return)
  from completion_gate_decides_the_run[OF mute_scheduler_wired(2) gate(3) this run] gate r show ?thesis by simp
qed

text \<open>A run in which the second step of the plan failed; the model replaces it.\<close>

definition warned_ctx :: exec_ctx where
  "warned_ctx = snd (log_append sample_env ''r1'' (PStep (DagStepFailed \<lparr> dsf_plan_id = ''p'', dsf_step_id = ''s2'', dsf_error = ''x'',
     dsf_retryable = False, dsf_tool_name = ''note'', dsf_tool_call_id = None \<rparr>)) None sample_ctx)"

definition warned_run :: plan_run where
  "warned_run = \<lparr> pr_sx = mute_scheduler\<lparr>sx_planner := heal_planner, sx_config := SchedulerConfig0\<lparr>cf_local_repair_enabled := False\<rparr>\<rparr>,
     pr_run_id = ''r1'', pr_root = note_plan, pr_contracts = [], pr_state_seq = 0, pr_failures = 0 \<rparr>"

definition warned_state :: plan_state where
  "warned_state = \<lparr> pst_plan = note_plan, pst_results = heal_results, pst_aliases = [(''s1'', ''s1''), (''s2'', ''s2'')], pst_rounds = [] \<rparr>"

definition warned :: "(py_exc + round_end) \<times> exec_ctx" where
  "warned = heal_layer warned_run ''p'' 0 1 warned_state warned_ctx"

fun rerun_plan :: "round_end \<Rightarrow> dag_plan option" where
  "rerun_plan (Rerun ps) = Some (pst_plan ps)"
| "rerun_plan _ = None"

lemma known_bad_warning_is_lost_witness:
  "\<exists>st. fold_events (get_events (xc_store (snd warned)) ''r1'') = Inr st \<and> length (rs_feedbacks st) = 1
     \<and> (\<exists>fb\<in>set (rs_feedbacks st). fb_error_type fb = Some ''unresolved_known_bad_steps'' \<and> fb_consumed_at_seq fb \<noteq> None)
     \<and> get_feedback_text True st True (Some 0) = None"
proof -
  have w: "map_sum (\<lambda>_. ()) rerun_plan (fst warned) = Inr (Some (fst heal_merge)) \<and> \<not> run_over (snd warned) ''r1''
    \<and> map_sum (\<lambda>_. ()) (\<lambda>st. length (rs_feedbacks st)) (fold_events (get_events (xc_store (snd warned)) ''r1'')) = Inr 1
    \<and> map_sum (\<lambda>_. ()) (\<lambda>s. unresolved_known_bad_steps (rs_step_evidence s) (plan_steps_to_payload (fst heal_merge)) (original_inputs note_plan))
        (fold_events (get_events (xc_store warned_ctx) ''r1'')) = Inr [''s2'']"
    unfolding warned_def warned_run_def mute_scheduler_def brief_planner_def heal_planner_def note_registry_def by code_simp
  then obtain ps' where ps': "fst warned = Inr (Rerun ps')" "pst_plan ps' = fst heal_merge"
    by (cases "fst warned"; cases "projr (fst warned)") auto
  obtain st where st: "fold_events (get_events (xc_store (snd warned)) ''r1'') = Inr st" "length (rs_feedbacks st) = 1"
    using w by (cases "fold_events (get_events (xc_store (snd warned)) ''r1'')") auto
  obtain s where s: "fold_events (get_events (xc_store warned_ctx) ''r1'') = Inr s"
    "unresolved_known_bad_steps (rs_step_evidence s) (plan_steps_to_payload (pst_plan ps')) (original_inputs note_plan) \<noteq> []"
    using w ps'(2) by (cases "fold_events (get_events (xc_store warned_ctx) ''r1'')") auto
  have env: "pr_run_id warned_run = ''r1''" "sx_env (pr_sx warned_run) = sample_env" "pst_plan warned_state = note_plan"
    by (simp_all add: warned_run_def mute_scheduler_def sample_dag_env_def warned_state_def)
  have good: "good_run warned_run" using mute_scheduler_wired(1)
    by (simp add: good_run_def well_wired_def warned_run_def mute_scheduler_def heal_planner_def brief_planner_def reads_return)
  have "log_ok sample_env ''r1'' sample_ctx" using mute_scheduler_wired(2) by (simp add: mute_scheduler_def sample_dag_env_def)
  then have ok: "log_ok sample_env ''r1'' warned_ctx" unfolding warned_ctx_def by (rule keepsD[OF keeps_log_append _ surjective_pairing])
  have no_repair: "try_local_repair warned_run ''p'' warned_state warned_ctx = (Inr (False, warned_state), warned_ctx)"
    by (simp add: try_local_repair_def warned_run_def local_repair_budget_def)
  have heal: "heal_layer warned_run ''p'' 0 1 warned_state warned_ctx = (Inr (Rerun ps'), snd warned)"
    using ps'(1) by (simp add: warned_def prod_eq_iff)
  have "\<not> run_over (snd warned) ''r1''" using w by blast
  from known_bad_warning_is_lost[OF good _ no_repair heal, unfolded env, OF ok this st(1) s, of True True "Some 0"] st show ?thesis by blast
qed

end
