(* ===== verification/Agent_Kernel.thy ===== *)
theory Agent_Kernel
  imports Scheduler_Properties "HOL-Library.Multiset"
begin

text \<open>
  The agent kernel (core/agent_kernel.py): how the history of a run becomes the messages of a
  chat request, how the reply is read, and the forced summary of a stopped run. The chat service
  is an argument.
\<close>

section \<open>The agent kernel\<close>

record think_result =
  tk_thought :: string
  tk_tool_name :: "string option"
  tk_tool_input :: "json dict option"
  tk_direct_answer :: "string option"
  tk_tool_call_id :: "string option"

record chat_call =
  cc_id :: string
  cc_name :: string
  cc_arguments :: "json dict"

record chat_response =
  cr_content :: "string option"
  cr_tool_calls :: "chat_call list"

text \<open>The messages of a chat. The tool calls of an assistant message are pairs of call id and tool name.\<close>

datatype message =
  SystemMsg string
| UserMsg string
| AssistantMsg string "(string \<times> string) list"
| ToolMsg string string

text \<open>The language model's client and the prompt template are parameters.\<close>

record kernel =
  kn_prompt :: "string \<Rightarrow> string"
  kn_chat :: "exec_ctx \<Rightarrow> message list \<Rightarrow> py_exc + chat_response"

fun find_sub :: "string \<Rightarrow> string \<Rightarrow> nat option" where
  "find_sub p [] = (if p = [] then Some 0 else None)"
| "find_sub p (c # s) = (if starts_with p (c # s) then Some 0 else map_option Suc (find_sub p s))"

definition before_sub :: "string \<Rightarrow> string \<Rightarrow> string" where
  "before_sub p s = (case find_sub p s of None \<Rightarrow> s | Some i \<Rightarrow> take i s)"

definition remove_prefix :: "string \<Rightarrow> string \<Rightarrow> string" where
  "remove_prefix p s = (if starts_with p s then drop (length p) s else s)"

definition extract_answer :: "string \<Rightarrow> string option" where
  "extract_answer body =
     (case find_sub ''ANSWER:'' body of
        None \<Rightarrow> None
      | Some i \<Rightarrow>
          (let rest = strip (drop (i + 7) body)
           in if rest = [] then None else Some (strip (takeWhile (\<lambda>c. c \<noteq> CHR 0x0A) rest))))"

definition stop_marker :: string where
  "stop_marker = ''<STOP>''"

definition summary_prompt :: string where
  "summary_prompt = ''You are a helpful assistant. Summarize the completed task for the user in plain text. ''
     @ ''Do not use any special format prefixes like ANSWER: or THOUGHT:. Just write naturally.''"

definition summary_request :: string where
  "summary_request = ''The task is now complete. Based on everything done above, provide a brief final response ''
     @ ''to the user summarizing what was accomplished. Be concise and helpful. Do not use any tools.''"

definition generate_stop_summary :: "kernel \<Rightarrow> exec_ctx \<Rightarrow> message list \<Rightarrow> string \<Rightarrow> string option" where
  "generate_stop_summary kn c messages response =
     (case kn_chat kn c (SystemMsg summary_prompt # tl messages @ [AssistantMsg response [], UserMsg summary_request]) of
        Inl _ \<Rightarrow> None
      | Inr resp \<Rightarrow> map_option (\<lambda>s. strip (remove_prefix ''THOUGHT:'' (remove_prefix ''ANSWER:'' s))) (cr_content resp))"

section \<open>History\<close>

fun status_text :: "tool_result_status \<Rightarrow> string" where
  "status_text TRS_COMPLETED = ''completed''"
| "status_text TRS_UNSUCCESSFUL = ''unsuccessful''"
| "status_text TRS_FAILED = ''failed''"
| "status_text TRS_TIMEOUT = ''timeout''"
| "status_text TRS_GUARDRAIL_BLOCKED = ''guardrail_blocked''"

definition tool_result_message :: "tool_result \<Rightarrow> message" where
  "tool_result_message tr =
     ToolMsg (trs_tool_call_id tr)
       (status_text (trs_status tr) @ '': '' @ (if trs_output tr \<noteq> JNull then py_str (trs_output tr) else opt_or (trs_error tr) []))"

datatype entry = Thought thought_entry | Outcome tool_result

fun entry_seq :: "entry \<Rightarrow> int" where
  "entry_seq (Thought t) = te_seq t"
| "entry_seq (Outcome r) = trs_event_seq r"

definition has_summary :: "run_state \<Rightarrow> bool" where
  "has_summary st = (case rs_summary st of None \<Rightarrow> False | Some (SumText s) \<Rightarrow> s \<noteq> [] | Some (SumEpisode _) \<Rightarrow> True)"

definition history_window :: "run_state \<Rightarrow> int" where
  "history_window st = max (if has_summary st then max (rs_keep_recent_count st) 2 else 5) 2"

definition last_n :: "int \<Rightarrow> 'a list \<Rightarrow> 'a list" where
  "last_n n xs = drop (length xs - nat n) xs"

text \<open>The result message of a call.\<close>

definition result_messages :: "tool_result list \<Rightarrow> string \<Rightarrow> message list" where
  "result_messages results tcid = (case find (\<lambda>r. trs_tool_call_id r = tcid) results of None \<Rightarrow> [] | Some r \<Rightarrow> [tool_result_message r])"

text \<open>The open assistant message is its content and its tool calls; closing it answers every call right away.\<close>

definition flush_open :: "tool_result list \<Rightarrow> (string \<times> (string \<times> string) list) option \<Rightarrow> message list" where
  "flush_open results cur =
     (case cur of
        None \<Rightarrow> []
      | Some (body, calls) \<Rightarrow>
          AssistantMsg body calls #
          concat (map (\<lambda>(tcid, _). result_messages results tcid) calls))"

fun add_call :: "(string \<times> (string \<times> string) list) option \<Rightarrow> tool_result \<Rightarrow> string \<times> (string \<times> string) list" where
  "add_call None r = ([], [(trs_tool_call_id r, trs_tool_name r)])"
| "add_call (Some (body, calls)) r = (body, calls @ [(trs_tool_call_id r, trs_tool_name r)])"

fun walk_timeline :: "tool_result list \<Rightarrow> (string \<times> (string \<times> string) list) option \<Rightarrow> entry list \<Rightarrow> message list" where
  "walk_timeline results cur [] = flush_open results cur"
| "walk_timeline results cur (Thought t # es) = flush_open results cur @ walk_timeline results (Some (te_thought t, [])) es"
| "walk_timeline results cur (Outcome r # es) = walk_timeline results (Some (add_call cur r)) es"

definition history_timeline :: "run_state \<Rightarrow> entry list" where
  "history_timeline st =
     sort_key entry_seq (map Thought (last_n (history_window st) (rs_thought_history st))
       @ map Outcome (last_n (history_window st) (rs_tool_results st)))"

definition build_history_messages :: "run_state \<Rightarrow> message list" where
  "build_history_messages st = walk_timeline (last_n (history_window st) (rs_tool_results st)) None (history_timeline st)"

section \<open>Thinking\<close>

definition summary_text :: "run_summary \<Rightarrow> string" where
  "summary_text s = (case s of SumEpisode e \<Rightarrow> to_context_text e | SumText t \<Rightarrow> t)"

definition think_messages :: "kernel \<Rightarrow> string \<Rightarrow> run_state \<Rightarrow> string option \<Rightarrow> message list" where
  "think_messages kn intent st feedback =
     SystemMsg (kn_prompt kn intent)
     # (if opt_or feedback [] \<noteq> [] then [SystemMsg (''## Monitoring Feedback'' @ [CHR 0x0A] @ opt_or feedback [])] else [])
     @ (if has_summary st then [SystemMsg (''Previous context summary:'' @ [CHR 0x0A] @ summary_text (the (rs_summary st)))] else [])
     @ build_history_messages st"

definition stop_result :: "string \<Rightarrow> string option \<Rightarrow> think_result" where
  "stop_result thought answer =
     \<lparr> tk_thought = thought, tk_tool_name = None, tk_tool_input = None, tk_direct_answer = answer, tk_tool_call_id = None \<rparr>"

definition strip_thought :: "string \<Rightarrow> string" where
  "strip_thought s = (if starts_with ''THOUGHT:'' s then strip (drop 8 s) else s)"

definition consume_response :: "kernel \<Rightarrow> exec_ctx \<Rightarrow> message list \<Rightarrow> chat_response \<Rightarrow> think_result list" where
  "consume_response kn c messages resp =
     (let body = opt_or (cr_content resp) []
      in if cr_tool_calls resp \<noteq> []
         then map (\<lambda>tc. \<lparr> tk_thought = body, tk_tool_name = Some (cc_name tc), tk_tool_input = Some (cc_arguments tc), tk_direct_answer = None,
                          tk_tool_call_id = Some (cc_id tc) \<rparr>) (cr_tool_calls resp)
         else (case extract_answer body of
                 Some answer \<Rightarrow> [stop_result (''Answered directly: '' @ take 80 answer) (Some answer)]
               | None \<Rightarrow>
                   if contains_sub stop_marker body \<or> contains_sub ''ANSWER:'' body
                   then (let summary = opt_or (generate_stop_summary kn c messages body) []
                         in if summary \<noteq> []
                            then [stop_result (take 200 (strip_thought (before_sub stop_marker (before_sub (CHR 0x0A # stop_marker) body)))) (Some summary)]
                            else if contains_sub stop_marker body then [stop_result (strip_thought (strip (before_sub stop_marker body))) None]
                            else [stop_result (strip body) None])
                   else [stop_result (strip body) None]))"

definition llm_think :: "kernel \<Rightarrow> exec_ctx \<Rightarrow> string \<Rightarrow> run_state \<Rightarrow> string option \<Rightarrow> py_exc + think_result list" where
  "llm_think kn c intent st feedback =
     rmap (consume_response kn c (think_messages kn intent st feedback)) (kn_chat kn c (think_messages kn intent st feedback))"

section \<open>The history follows the protocol of tool calls\<close>















text \<open>The texts of the assistant messages: those of the thoughts, after an empty one when the log starts with a result.\<close>

fun assistant_body :: "message \<Rightarrow> string option" where
  "assistant_body (AssistantMsg body calls) = Some body"
| "assistant_body _ = None"

definition assistant_bodies :: "message list \<Rightarrow> string list" where
  "assistant_bodies ms = List.map_filter assistant_body ms"




lemma assistant_bodies_append [simp]: "assistant_bodies (ms @ ms') = assistant_bodies ms @ assistant_bodies ms'"
  by (simp add: assistant_bodies_def List.map_filter_def)






end
