(* ===== verification/Serial_Loop.thy ===== *)
theory Serial_Loop
  imports Agent_Kernel
begin

text \<open>
  The serial scheduler (core/scheduler/loop.py) with the tool call path it takes from
  core/scheduler/base.py: think, act, count failures, ask for confirmation. The kernel is an
  interface of its own (a locale, interpreted on the agent kernel); what is shown is that a run
  is settled when \<^verbatim>\<open>run()\<close> returns, and where it is not.
\<close>

section \<open>The serial scheduler\<close>

text \<open>
  A serial scheduler is a scheduler with a kernel and its own table of tool functions. Parameters besides those of the
  planning scheduler: what one execution of a tool draws, the milliseconds left for a phase (none without a deadline), and whether a
  phase is cut off by its deadline, and what it did until then.
\<close>

record serial =
  sl_sx :: scheduler
  sl_think :: "exec_ctx \<Rightarrow> string \<Rightarrow> run_state \<Rightarrow> string option \<Rightarrow> py_exc + think_result list"
  sl_tool_fns :: "tool_fn dict"
  sl_workspace :: "workspace option"
  sl_backend :: "backend option"
  sl_draw :: "exec_ctx \<Rightarrow> exec_draw"
  sl_remaining :: "exec_ctx \<Rightarrow> int option"
  sl_cut :: "exec_ctx \<Rightarrow> string \<Rightarrow> unit action option"

abbreviation sl_env :: "serial \<Rightarrow> exec_env" where
  "sl_env sl \<equiv> sx_env (sl_sx sl)"

definition timeout_error :: py_exc where
  "timeout_error = \<lparr> ex_kind = ExTimeout, ex_class = ''TimeoutError'', ex_msg = [] \<rparr>"

definition timed_out :: "serial \<Rightarrow> string \<Rightarrow> string \<Rightarrow> int \<Rightarrow> py_exc \<Rightarrow> 'a action" where
  "timed_out sl run_id phase ms e = act_then (record_phase_timeout (sl_env sl) run_id phase ms) (act_raise e)"

text \<open>A phase within what is left of the run's time, as seen when it starts.\<close>

definition phase_within :: "serial \<Rightarrow> string \<Rightarrow> string \<Rightarrow> int option \<Rightarrow> unit action option \<Rightarrow> 'a action \<Rightarrow> 'a action" where
  "phase_within sl run_id phase remaining interrupt m =
     (case remaining of
        None \<Rightarrow> m
      | Some ms \<Rightarrow>
          if ms \<le> 0 then timed_out sl run_id phase 0 timeout_error
          else (case interrupt of
                  Some part \<Rightarrow> act_then (quietly part) (timed_out sl run_id phase ms timeout_error)
                | None \<Rightarrow> act_try m (\<lambda>e. if ex_kind e = ExTimeout then timed_out sl run_id phase ms e else act_raise e)))"

definition phase_call :: "serial \<Rightarrow> string \<Rightarrow> string \<Rightarrow> 'a action \<Rightarrow> 'a action" where
  "phase_call sl run_id phase m c = phase_within sl run_id phase (sl_remaining sl c) (sl_cut sl c phase) m c"

section \<open>Acting\<close>

definition find_tool_def :: "scheduler \<Rightarrow> string \<Rightarrow> tool_definition option" where
  "find_tool_def sx name = find (\<lambda>td. td_name td = name) (sx_tool_defs sx)"

definition breaker_tripped :: "serial \<Rightarrow> string \<Rightarrow> int \<Rightarrow> bool action" where
  "breaker_tripped sl run_id failures =
     (if cf_run_attempt_budget (sx_config (sl_sx sl)) \<le> failures
      then act_then (fail_run (sl_env sl) run_id (''Circuit breaker: '' @ show_int failures @ '' consecutive failures'')) (act_return True)
      else act_return False)"

definition serial_call :: "serial \<Rightarrow> string \<Rightarrow> think_result \<Rightarrow> string \<Rightarrow> string option \<Rightarrow> tool_call" where
  "serial_call sl run_id tk name call_id =
     \<lparr> tl_run_id = run_id, tl_tool_name = name, tl_input = (case tk_tool_input tk of None \<Rightarrow> [] | Some inp \<Rightarrow> inp), tl_override_id = call_id,
       tl_step_id = None, tl_scope = map_option ws_scope (sl_workspace sl), tl_backend = sl_backend sl,
       tl_workspace_id = map_option ws_workspace_id (sl_workspace sl) \<rparr>"

definition serial_execute :: "serial \<Rightarrow> string \<Rightarrow> tool_definition \<Rightarrow> tool_fn \<Rightarrow> tool_call \<Rightarrow> tool_execution_result action" where
  "serial_execute sl run_id td fn call =
     phase_call sl run_id ''tool'' (\<lambda>c. execute (sl_env sl) td call ((sl_draw sl c)\<lparr>dr_call := fn (tl_input call)\<rparr>) c)"

text \<open>Count a failure; the run stops when the breaker trips.\<close>

definition count_failure :: "serial \<Rightarrow> string \<Rightarrow> int \<Rightarrow> (bool \<times> int) action" where
  "count_failure sl run_id failures =
     act_bind (breaker_tripped sl run_id (failures + 1)) (\<lambda>tripped. act_return (tripped, failures + 1))"

fun await_confirmation :: "serial \<Rightarrow> string \<Rightarrow> tool_definition \<Rightarrow> tool_fn \<Rightarrow> tool_call \<Rightarrow> nat \<Rightarrow> int \<Rightarrow> (bool \<times> int) action" where
  "await_confirmation sl run_id td fn call 0 failures =
     act_then (fail_run (sl_env sl) run_id
        (''Max confirmation retries ('' @ show_int (cf_max_confirm_retries (sx_config (sl_sx sl))) @ '') exceeded''))
       (act_return (True, failures))"
| "await_confirmation sl run_id td fn call (Suc left) failures =
     act_then (log_append (sl_env sl) run_id (PRun (RunPaused \<lparr> rp_reason = ''waiting_confirmation'' \<rparr>)) None)
     (act_then (wait_for_resume (sl_sx sl) run_id)
     (guard_cancelled (sl_sx sl) (act_return (True, failures))
     (act_bind (refresh_state (sl_env sl) run_id) (\<lambda>st.
        if rs_status st \<in> {RS_FAILED, RS_COMPLETED} then act_return (True, failures)
        else act_bind (serial_execute sl run_id td fn (call\<lparr>tl_override_id := None\<rparr>)) (\<lambda>res.
          if ter_status res \<in> {X_COMPLETED, X_IDEMPOTENCY_HIT} then act_return (False, 0)
          else if ter_status res = X_CONFIRMATION_NEEDED then await_confirmation sl run_id td fn call left failures
          else count_failure sl run_id failures)))))"

definition stop_failed :: "serial \<Rightarrow> string \<Rightarrow> string \<Rightarrow> int \<Rightarrow> (bool \<times> int) action" where
  "stop_failed sl run_id err failures = act_then (fail_run (sl_env sl) run_id err) (act_return (True, failures))"

definition run_tool_call :: "serial \<Rightarrow> string \<Rightarrow> think_result \<Rightarrow> int \<Rightarrow> (bool \<times> int) action" where
  "run_tool_call sl run_id tk failures =
     (case tk_tool_name tk of
        None \<Rightarrow> stop_failed sl run_id ''serial act: action carried no tool name'' failures
      | Some name \<Rightarrow>
          (case find_tool_def (sl_sx sl) name of
             None \<Rightarrow> stop_failed sl run_id (''serial act: '' @ unknown_tool_message name) failures
           | Some td \<Rightarrow>
               (case dget (sl_tool_fns sl) name of
                  None \<Rightarrow> stop_failed sl run_id (''Tool '' @ quoted name @ '' has no handler registered'') failures
                | Some fn \<Rightarrow>
                    act_bind (act_try (act_bind (serial_execute sl run_id td fn (serial_call sl run_id tk name (tk_tool_call_id tk)))
                                         (\<lambda>res. act_return (Inr res)))
                                (\<lambda>e. act_return (Inl e))) (\<lambda>outcome.
                      case outcome of
                        Inl e \<Rightarrow> if ex_kind e = ExTimeout then stop_failed sl run_id (''Tool phase timed out: '' @ name) failures
                                 else count_failure sl run_id failures
                      | Inr res \<Rightarrow>
                          if ter_status res \<in> {X_COMPLETED, X_IDEMPOTENCY_HIT} then act_return (False, 0)
                          else if ter_status res = X_CONFIRMATION_NEEDED
                          then await_confirmation sl run_id td fn (serial_call sl run_id tk name (tk_tool_call_id tk))
                                 (nat (cf_max_confirm_retries (sx_config (sl_sx sl)))) failures
                          else count_failure sl run_id failures))))"

section \<open>The loop\<close>

definition serial_thought :: "think_result \<Rightarrow> think_result list \<Rightarrow> payload" where
  "serial_thought first tks =
     (let names = List.map_filter tk_tool_name (filter (\<lambda>t. opt_or (tk_tool_name t) [] \<noteq> []) tks)
      in PAgentThought \<lparr> at_thought = tk_thought first, at_tool_choice = tk_tool_name first,
           at_tool_calls = (if names = [] then None else Some names) \<rparr>)"

text \<open>The results of one thought, in order: \<open>Inl\<close> the state the run stops with, \<open>Inr\<close> the count of failures.\<close>

fun act_on :: "serial \<Rightarrow> string \<Rightarrow> think_result list \<Rightarrow> int \<Rightarrow> (run_state + int) action" where
  "act_on sl run_id [] failures = act_return (Inr failures)"
| "act_on sl run_id (tk # tks) failures =
     (if opt_or (tk_direct_answer tk) [] \<noteq> [] \<or> tk_tool_name tk = None
      then act_then (log_append (sl_env sl) run_id
                (direct_answer (if opt_or (tk_direct_answer tk) [] \<noteq> [] then opt_or (tk_direct_answer tk) [] else tk_thought tk)) None)
             (act_bind (refresh_state (sl_env sl) run_id) (\<lambda>st. act_return (Inl st)))
      else act_bind (run_tool_call sl run_id tk failures) (\<lambda>(terminated, n).
             if terminated then act_bind (refresh_state (sl_env sl) run_id) (\<lambda>st. act_return (Inl st))
             else act_bind (refresh_state (sl_env sl) run_id) (\<lambda>_. act_on sl run_id tks n)))"

definition think_and_act :: "serial \<Rightarrow> string \<Rightarrow> string \<Rightarrow> run_state \<Rightarrow> int \<Rightarrow> (run_state + int) action" where
  "think_and_act sl run_id intent st failures =
     act_bind (phase_call sl run_id ''serial_think''
         (\<lambda>c. act_sum (sl_think sl c intent st (get_feedback_text (sx_has_monitor (sl_sx sl)) st False None)) c)) (\<lambda>tks.
       case tks of
         [] \<Rightarrow> act_raise (other_exc ''IndexError'' ''list index out of range'')
       | first # _ \<Rightarrow> act_then (log_append (sl_env sl) run_id (serial_thought first tks) None) (act_on sl run_id tks failures))"

definition run_iteration_body :: "serial \<Rightarrow> string \<Rightarrow> string \<Rightarrow> int \<Rightarrow> (run_state + int) action" where
  "run_iteration_body sl run_id intent failures =
     act_bind (refresh_state (sl_env sl) run_id) (\<lambda>st.
     act_then (sx_compress (sl_sx sl))
       (if rs_status st \<in> {RS_COMPLETED, RS_FAILED} then act_return (Inl st)
        else if rs_status st = RS_PAUSED
        then act_then (sx_pause (sl_sx sl))
               (act_bind (refresh_state (sl_env sl) run_id) (\<lambda>st1.
                  if rs_status st1 \<in> {RS_COMPLETED, RS_FAILED} then act_return (Inl st1)
                  else think_and_act sl run_id intent st1 failures))
        else think_and_act sl run_id intent st failures))"

fun serial_iterations :: "serial \<Rightarrow> string \<Rightarrow> string \<Rightarrow> nat \<Rightarrow> int \<Rightarrow> run_state action" where
  "serial_iterations sl run_id intent 0 failures =
     act_then (fail_run (sl_env sl) run_id (''Exceeded max iterations ('' @ show_int (cf_run_attempt_budget (sx_config (sl_sx sl))) @ '')''))
       (refresh_state (sl_env sl) run_id)"
| "serial_iterations sl run_id intent (Suc left) failures =
     guard_cancelled (sl_sx sl) (act_then (fail_run (sl_env sl) run_id cancelled_error) (refresh_state (sl_env sl) run_id))
       (act_bind (run_iteration_body sl run_id intent failures) (\<lambda>res.
          case res of Inl st \<Rightarrow> act_return st | Inr n \<Rightarrow> serial_iterations sl run_id intent left n))"

definition serial_loop :: "serial \<Rightarrow> string \<Rightarrow> string \<Rightarrow> run_state action" where
  "serial_loop sl run_id intent =
     act_then (ensure_run_started (sl_env sl) run_id intent)
       (serial_iterations sl run_id intent (nat (cf_run_attempt_budget (sx_config (sl_sx sl)))) 0)"

definition serial_run :: "serial \<Rightarrow> string \<Rightarrow> string \<Rightarrow> run_state action" where
  "serial_run sl run_id intent = run_barrier (sl_sx sl) run_id (serial_loop sl run_id intent)"

section \<open>Postconditions of the serial operations\<close>

text \<open>\<open>leaves env run Q m\<close>: \<open>m\<close> keeps the log well formed, and what it returns satisfies \<open>Q\<close> in the state it ends in.\<close>

definition leaves :: "exec_env \<Rightarrow> string \<Rightarrow> ('a \<Rightarrow> exec_ctx \<Rightarrow> bool) \<Rightarrow> 'a action \<Rightarrow> bool" where
  "leaves env run_id Q m \<longleftrightarrow> (\<forall>c r c'. log_ok env run_id c \<longrightarrow> m c = (r, c') \<longrightarrow> log_ok env run_id c' \<and> (\<forall>x. r = Inr x \<longrightarrow> Q x c'))"

lemma leavesI: "(\<And>c r c'. log_ok env run_id c \<Longrightarrow> m c = (r, c') \<Longrightarrow> log_ok env run_id c' \<and> (\<forall>x. r = Inr x \<longrightarrow> Q x c')) \<Longrightarrow> leaves env run_id Q m"
  by (simp add: leaves_def)

lemma leavesD: "leaves env run_id Q m \<Longrightarrow> log_ok env run_id c \<Longrightarrow> m c = (r, c') \<Longrightarrow> log_ok env run_id c' \<and> (\<forall>x. r = Inr x \<longrightarrow> Q x c')"
  by (simp add: leaves_def)

lemma leaves_keeps: "leaves env run_id Q m \<Longrightarrow> keeps env run_id m"
  by (rule keepsI) (simp add: leavesD)

lemma keeps_leaves: "keeps env run_id m \<Longrightarrow> leaves env run_id (\<lambda>_ _. True) m"
  by (rule leavesI) (auto elim: keepsD)

lemma leaves_mono: "leaves env run_id Q m \<Longrightarrow> (\<And>x c. log_ok env run_id c \<Longrightarrow> Q x c \<Longrightarrow> R x c) \<Longrightarrow> leaves env run_id R m"
  by (fastforce simp: leaves_def)

lemma leaves_return: "(\<And>c. log_ok env run_id c \<Longrightarrow> Q x c) \<Longrightarrow> leaves env run_id Q (act_return x)"
  by (simp add: leaves_def act_return_def)

lemma leaves_raise: "leaves env run_id Q (act_raise e)"
  by (simp add: leaves_def act_raise_def)

text \<open>Sequencing: the second part may rely on what the first leaves.\<close>

lemma leaves_seq:
  assumes "leaves env run_id P m"
    and "\<And>x c r c'. log_ok env run_id c \<Longrightarrow> P x c \<Longrightarrow> f x c = (r, c') \<Longrightarrow> log_ok env run_id c' \<and> (\<forall>y. r = Inr y \<longrightarrow> Q y c')"
  shows "leaves env run_id Q (act_bind m f)"
proof (rule leavesI)
  fix c r c' assume ok: "log_ok env run_id c" and run: "act_bind m f c = (r, c')"
  obtain r1 c1 where m: "m c = (r1, c1)" by fastforce
  from leavesD[OF assms(1) ok m] run m assms(2)[of c1 _ r c']
  show "log_ok env run_id c' \<and> (\<forall>y. r = Inr y \<longrightarrow> Q y c')" by (cases r1) (auto simp: act_bind_def)
qed

lemma leaves_bind: "keeps env run_id m \<Longrightarrow> (\<And>x. leaves env run_id Q (f x)) \<Longrightarrow> leaves env run_id Q (act_bind m f)"
  by (rule leaves_seq[OF keeps_leaves]) (auto dest: leavesD)

lemma leaves_then: "keeps env run_id m \<Longrightarrow> leaves env run_id Q k \<Longrightarrow> leaves env run_id Q (act_then m k)"
  unfolding act_then_def by (rule leaves_bind)

lemma leaves_if: "(b \<Longrightarrow> leaves env run_id Q m) \<Longrightarrow> (\<not> b \<Longrightarrow> leaves env run_id Q k) \<Longrightarrow> leaves env run_id Q (if b then m else k)"
  by simp

lemma leaves_option:
  "(x = None \<Longrightarrow> leaves env run_id Q m) \<Longrightarrow> (\<And>y. x = Some y \<Longrightarrow> leaves env run_id Q (f y)) \<Longrightarrow>
     leaves env run_id Q (case x of None \<Rightarrow> m | Some y \<Rightarrow> f y)"
  by (cases x) auto

text \<open>How the run stands: it is over, or someone has cancelled it.\<close>

definition halted :: "serial \<Rightarrow> string \<Rightarrow> exec_ctx \<Rightarrow> bool" where
  "halted sl run_id c \<longleftrightarrow> run_over c run_id \<or> (\<exists>d. sx_cancelled (sl_sx sl) d)"

definition halts :: "serial \<Rightarrow> string \<Rightarrow> bool \<times> int \<Rightarrow> exec_ctx \<Rightarrow> bool" where
  "halts sl run_id x c \<longleftrightarrow> (fst x \<longrightarrow> halted sl run_id c)"

definition stands :: "serial \<Rightarrow> string \<Rightarrow> run_state \<Rightarrow> exec_ctx \<Rightarrow> bool" where
  "stands sl run_id st c \<longleftrightarrow> rs_status st = last (RS_RUNNING # statuses c run_id) \<and> halted sl run_id c"

definition stops :: "serial \<Rightarrow> string \<Rightarrow> run_state + int \<Rightarrow> exec_ctx \<Rightarrow> bool" where
  "stops sl run_id x c \<longleftrightarrow> (\<forall>st. x = Inl st \<longrightarrow> stands sl run_id st c)"

text \<open>What the loop expects of its surroundings.\<close>

definition serial_wired :: "serial \<Rightarrow> string \<Rightarrow> bool" where
  "serial_wired sl run_id \<longleftrightarrow> keeps (sl_env sl) run_id (sx_wait (sl_sx sl)) \<and> keeps (sl_env sl) run_id (sx_pause (sl_sx sl))
     \<and> keeps (sl_env sl) run_id (sx_reap (sl_sx sl)) \<and> mute (sl_env sl) run_id (sx_compress (sl_sx sl))
     \<and> (\<forall>td\<in>set (sx_tool_defs (sl_sx sl)). 0 \<le> rtp_max_retries (td_retry_policy td))
     \<and> (\<forall>c phase part. sl_cut sl c phase = Some part \<longrightarrow> keeps (sl_env sl) run_id part)"

lemma serial_wiredD:
  assumes "serial_wired sl run_id"
  shows "keeps (sl_env sl) run_id (sx_wait (sl_sx sl))" "keeps (sl_env sl) run_id (sx_pause (sl_sx sl))"
    "keeps (sl_env sl) run_id (sx_reap (sl_sx sl))" "mute (sl_env sl) run_id (sx_compress (sl_sx sl))"
    "td \<in> set (sx_tool_defs (sl_sx sl)) \<Longrightarrow> 0 \<le> rtp_max_retries (td_retry_policy td)"
    "sl_cut sl c phase = Some part \<Longrightarrow> keeps (sl_env sl) run_id part"
  using assms by (auto simp: serial_wired_def)

lemma keeps_record_timeout [keeping]: "keeps env run_id (record_phase_timeout env run_id phase ms)"
  unfolding record_phase_timeout_def by (intro keeping)

lemma keeps_at: "(\<And>c. keeps env run_id (m c)) \<Longrightarrow> keeps env run_id (\<lambda>c. m c c)"
  by (rule keepsI) (blast dest: keepsD)

lemma keeps_timed_out [keeping]: "keeps (sl_env sl) run_id (timed_out sl run_id phase ms e)"
  unfolding timed_out_def by (intro keeping)

lemma keeps_phase_call:
  assumes w: "serial_wired sl run_id" and m: "keeps (sl_env sl) run_id m"
  shows "keeps (sl_env sl) run_id (phase_call sl run_id phase m)"
proof -
  have "keeps (sl_env sl) run_id (phase_within sl run_id phase (sl_remaining sl c) (sl_cut sl c phase) m)" for c
    unfolding phase_within_def by (intro reads_option reads_if m keeping) (rule serial_wiredD(6)[OF w])
  from keeps_at[OF this] show ?thesis unfolding phase_call_def .
qed

lemma keeps_execute:
  assumes "tl_run_id call = run_id" "0 \<le> rtp_max_retries (td_retry_policy td)"
  shows "keeps env run_id (execute env td call dr)"
proof (rule keepsI)
  fix c r c' assume ok: "log_ok env run_id c" and x: "execute env td call dr c = (r, c')"
  have "traced env td call c r c'" by (rule ensuresD[OF execute_traced x]) (use ok assms in \<open>simp_all add: log_ok_def\<close>)
  then have "\<exists>ps. wrote env run_id c ps c'" using assms(1) unfolding traced_def by (auto split: sum.splits)
  then show "log_ok env run_id c'" using wrote_log_ok[OF ok] by blast
qed

lemma keeps_serial_execute:
  assumes w: "serial_wired sl run_id" and td: "td \<in> set (sx_tool_defs (sl_sx sl))" and "tl_run_id call = run_id"
  shows "keeps (sl_env sl) run_id (serial_execute sl run_id td fn call)"
  unfolding serial_execute_def
  by (rule keeps_phase_call[OF w], rule keeps_at, rule keeps_execute[OF assms(3) serial_wiredD(5)[OF w td]])

lemma find_tool_def_mem: "find_tool_def sx name = Some td \<Longrightarrow> td \<in> set (sx_tool_defs sx)"
  by (auto simp: find_tool_def_def find_Some_iff)

section \<open>Failures halt\<close>

lemma leaves_fail: "leaves (sl_env sl) run_id (\<lambda>_. halted sl run_id) (fail_run (sl_env sl) run_id err)"
proof (rule leavesI)
  fix c r c' assume ok: "log_ok (sl_env sl) run_id c" and f: "fail_run (sl_env sl) run_id err c = (r, c')"
  from ensuresD[OF closes_fail[unfolded closes_def, rule_format, OF ok] f]
  show "log_ok (sl_env sl) run_id c' \<and> (\<forall>x. r = Inr x \<longrightarrow> halted sl run_id c')"
    by (auto simp: halted_def run_over_def ended_def split: if_splits)
qed

lemma leaves_fail_then:
  assumes "\<And>c r c'. log_ok (sl_env sl) run_id c \<Longrightarrow> halted sl run_id c \<Longrightarrow> k c = (r, c') \<Longrightarrow> log_ok (sl_env sl) run_id c' \<and> (\<forall>y. r = Inr y \<longrightarrow> Q y c')"
  shows "leaves (sl_env sl) run_id Q (act_then (fail_run (sl_env sl) run_id err) k)"
  unfolding act_then_def by (rule leaves_seq[OF leaves_fail]) (use assms in blast)

lemma leaves_stop_failed: "leaves (sl_env sl) run_id (halts sl run_id) (act_then (fail_run (sl_env sl) run_id err) (act_return (True, n)))"
  by (rule leaves_fail_then) (simp add: act_return_def halts_def)

lemma leaves_count_failure: "leaves (sl_env sl) run_id (halts sl run_id) (count_failure sl run_id n)"
proof -
  have "leaves (sl_env sl) run_id (\<lambda>t c. t \<longrightarrow> halted sl run_id c) (breaker_tripped sl run_id (n + 1))"
    unfolding breaker_tripped_def by (intro leaves_if leaves_fail_then leaves_return) (auto simp: act_return_def)
  then show ?thesis unfolding count_failure_def by (rule leaves_seq) (auto simp: act_return_def halts_def)
qed

lemma leaves_refresh: "leaves env run_id (\<lambda>st c. rs_status st = last (RS_RUNNING # statuses c run_id)) (refresh_state env run_id)"
  by (rule leavesI) (auto simp: refresh_state_fold split: sum.splits dest: fold_status)

lemma over_status: "log_ok env run_id c \<Longrightarrow> rs_status st = last (RS_RUNNING # statuses c run_id) \<Longrightarrow> rs_status st \<in> {RS_FAILED, RS_COMPLETED} \<Longrightarrow> run_over c run_id"
  by (auto simp: run_over_def ended_def split: if_splits)

lemma guard_leaves:
  assumes "\<exists>d. sx_cancelled (sl_sx sl) d \<Longrightarrow> leaves env run_id Q stop" "leaves env run_id Q go"
  shows "leaves env run_id Q (guard_cancelled (sl_sx sl) stop go)"
proof (rule leavesI)
  fix c r c' assume ok: "log_ok env run_id c" and run: "guard_cancelled (sl_sx sl) stop go c = (r, c')"
  show "log_ok env run_id c' \<and> (\<forall>x. r = Inr x \<longrightarrow> Q x c')"
  proof (cases "sx_cancelled (sl_sx sl) c")
    case True
    then show ?thesis using run leavesD[OF assms(1) ok] by (auto simp: guard_cancelled_def)
  next
    case False
    then show ?thesis using run leavesD[OF assms(2) ok] by (simp add: guard_cancelled_def)
  qed
qed

lemma keeps_serial_wait: "serial_wired sl run_id \<Longrightarrow> keeps (sl_env sl) run_id (wait_for_resume (sl_sx sl) run_id)"
  unfolding wait_for_resume_def by (intro keeping serial_wiredD(1)) auto

lemma leaves_await:
  assumes w: "serial_wired sl run_id" and td: "td \<in> set (sx_tool_defs (sl_sx sl))" and call: "tl_run_id call = run_id"
  shows "leaves (sl_env sl) run_id (halts sl run_id) (await_confirmation sl run_id td fn call left n)"
proof (induction left arbitrary: n)
  case 0
  show ?case unfolding await_confirmation.simps by (rule leaves_stop_failed)
next
  case (Suc left)
  have ex: "keeps (sl_env sl) run_id (serial_execute sl run_id td fn (call\<lparr>tl_override_id := None\<rparr>))"
    by (rule keeps_serial_execute[OF w td]) (simp add: call)
  have again: "leaves (sl_env sl) run_id (halts sl run_id)
      (act_bind (serial_execute sl run_id td fn (call\<lparr>tl_override_id := None\<rparr>)) (\<lambda>res.
          if ter_status res \<in> {X_COMPLETED, X_IDEMPOTENCY_HIT} then act_return (False, 0)
          else if ter_status res = X_CONFIRMATION_NEEDED then await_confirmation sl run_id td fn call left n
          else count_failure sl run_id n))"
    by (intro leaves_bind[OF ex] leaves_if leaves_return leaves_count_failure Suc.IH) (simp add: halts_def)
  have seen: "leaves (sl_env sl) run_id (halts sl run_id) (act_bind (refresh_state (sl_env sl) run_id) (\<lambda>st.
        if rs_status st \<in> {RS_FAILED, RS_COMPLETED} then act_return (True, n) else
        act_bind (serial_execute sl run_id td fn (call\<lparr>tl_override_id := None\<rparr>)) (\<lambda>res.
          if ter_status res \<in> {X_COMPLETED, X_IDEMPOTENCY_HIT} then act_return (False, 0)
          else if ter_status res = X_CONFIRMATION_NEEDED then await_confirmation sl run_id td fn call left n
          else count_failure sl run_id n)))"
  proof (rule leaves_seq[OF leaves_refresh], goal_cases)
    case (1 st c r c')
    show ?case
    proof (cases "rs_status st \<in> {RS_FAILED, RS_COMPLETED}")
      case True
      then show ?thesis using 1 over_status[OF 1(1,2)] by (auto simp: act_return_def halts_def halted_def)
    next
      case False
      then show ?thesis using leavesD[OF again 1(1)] 1(3) by simp
    qed
  qed
  show ?case unfolding await_confirmation.simps
    by (intro leaves_then keeps_log_append keeps_serial_wait[OF w] guard_leaves leaves_return seen) (simp add: halts_def halted_def)
qed

lemma leaves_tool_call:
  assumes w: "serial_wired sl run_id"
  shows "leaves (sl_env sl) run_id (halts sl run_id) (run_tool_call sl run_id tk n)"
proof -
  have call: "tl_run_id (serial_call sl run_id tk name i) = run_id" for name i by (simp add: serial_call_def)
  have tried: "keeps (sl_env sl) run_id (act_try (act_bind (serial_execute sl run_id td fn (serial_call sl run_id tk name i))
      (\<lambda>res. act_return (Inr res))) (\<lambda>e. act_return (Inl e)))" if "find_tool_def (sl_sx sl) name' = Some td" for name' td fn name i
    by (intro keeping keeps_serial_execute[OF w find_tool_def_mem[OF that] call]) auto
  have outcome: "leaves env' run_id Q (case x of Inl e \<Rightarrow> f e | Inr res \<Rightarrow> g res)"
    if "\<And>e. leaves env' run_id Q (f e)" "\<And>res. leaves env' run_id Q (g res)" for env' Q x and f :: "py_exc \<Rightarrow> (bool \<times> int) action" and g :: "tool_execution_result \<Rightarrow> (bool \<times> int) action"
    using that by (cases x) auto
  show ?thesis unfolding run_tool_call_def stop_failed_def
    by (intro leaves_option leaves_bind[OF tried] outcome leaves_if leaves_stop_failed leaves_count_failure
          leaves_await[OF w find_tool_def_mem call] leaves_return) (auto simp: halts_def)
qed

section \<open>The loop ends\<close>

lemma refresh_stops:
  assumes "log_ok (sl_env sl) run_id c" "halted sl run_id c"
    and "act_bind (refresh_state (sl_env sl) run_id) (\<lambda>st. act_return (Inl st)) c = (r, c')"
  shows "log_ok (sl_env sl) run_id c' \<and> (\<forall>x. r = Inr x \<longrightarrow> stops sl run_id x c')"
  using assms by (auto simp: act_bind_def refresh_state_fold act_return_def stops_def stands_def split: sum.splits dest: fold_status)

lemma leaves_act_on:
  assumes w: "serial_wired sl run_id"
  shows "leaves (sl_env sl) run_id (stops sl run_id) (act_on sl run_id tks n)"
proof (induction tks arbitrary: n)
  case Nil
  show ?case unfolding act_on.simps by (rule leaves_return) (simp add: stops_def)
next
  case (Cons tk tks)
  have written: "leaves (sl_env sl) run_id (\<lambda>_. halted sl run_id) (log_append (sl_env sl) run_id (direct_answer s) None)" for s
  proof (rule leavesI)
    fix c r c' assume ok: "log_ok (sl_env sl) run_id c" and a: "log_append (sl_env sl) run_id (direct_answer s) None c = (r, c')"
    from ensuresD[OF append_status[OF ok] a]
    show "log_ok (sl_env sl) run_id c' \<and> (\<forall>x. r = Inr x \<longrightarrow> halted sl run_id c')"
      by (auto simp: halted_def run_over_def ended_def status_of_def direct_answer_def)
  qed
  have answered: "leaves (sl_env sl) run_id (stops sl run_id) (act_then (log_append (sl_env sl) run_id (direct_answer s) None)
      (act_bind (refresh_state (sl_env sl) run_id) (\<lambda>st. act_return (Inl st))))" for s
    unfolding act_then_def by (rule leaves_seq[OF written]) (rule refresh_stops)
  have rest: "leaves (sl_env sl) run_id (stops sl run_id) (act_bind (refresh_state (sl_env sl) run_id) (\<lambda>_. act_on sl run_id tks k))" for k
    by (rule leaves_bind[OF keeps_refresh(1) Cons.IH])
  have called: "leaves (sl_env sl) run_id (stops sl run_id) (act_bind (run_tool_call sl run_id tk n) (\<lambda>(terminated, n).
      if terminated then act_bind (refresh_state (sl_env sl) run_id) (\<lambda>st. act_return (Inl st))
      else act_bind (refresh_state (sl_env sl) run_id) (\<lambda>_. act_on sl run_id tks n)))"
  proof (rule leaves_seq[OF leaves_tool_call[OF w]], goal_cases)
    case (1 x c r c')
    obtain t k where x: "x = (t, k)" by fastforce
    then show ?case using 1 refresh_stops[of sl run_id c r c'] leavesD[OF rest 1(1)] by (cases t) (auto simp: halts_def)
  qed
  show ?case unfolding act_on.simps by (rule leaves_if[OF answered called])
qed

lemma leaves_think:
  assumes w: "serial_wired sl run_id"
  shows "leaves (sl_env sl) run_id (stops sl run_id) (think_and_act sl run_id intent st n)"
proof -
  have "keeps (sl_env sl) run_id (\<lambda>c. act_sum (sl_think sl c intent st fb) c)" for fb by (rule keeps_at) (rule keeping)
  from keeps_phase_call[OF w this] show ?thesis unfolding think_and_act_def
    by (rule leaves_bind) (auto intro!: leaves_raise leaves_then keeps_log_append leaves_act_on[OF w] simp del: act_on.simps split: list.split)
qed

lemma stops_if:
  assumes "log_ok (sl_env sl) run_id c" "rs_status st = last (RS_RUNNING # statuses c run_id)" "leaves (sl_env sl) run_id (stops sl run_id) k"
    and "(if rs_status st \<in> {RS_COMPLETED, RS_FAILED} then act_return (Inl st) else k) c = (r, c')"
  shows "log_ok (sl_env sl) run_id c' \<and> (\<forall>x. r = Inr x \<longrightarrow> stops sl run_id x c')"
proof (cases "rs_status st \<in> {RS_COMPLETED, RS_FAILED}")
  case True
  then show ?thesis using assms over_status[OF assms(1,2)] by (auto simp: act_return_def stops_def stands_def halted_def)
next
  case False
  then show ?thesis using leavesD[OF assms(3,1)] assms(4) by simp
qed

lemma leaves_iteration:
  assumes w: "serial_wired sl run_id"
  shows "leaves (sl_env sl) run_id (stops sl run_id) (run_iteration_body sl run_id intent n)"
  unfolding run_iteration_body_def
proof (rule leaves_seq[OF leaves_refresh], goal_cases)
  case (1 st c r c')
  obtain r1 c1 where m: "sx_compress (sl_sx sl) c = (r1, c1)" by fastforce
  have m1: "log_ok (sl_env sl) run_id c1" "statuses c1 run_id = statuses c run_id" using muteD[OF serial_wiredD(4)[OF w] 1(1) m] by auto
  have after: "leaves (sl_env sl) run_id (stops sl run_id) (act_bind (refresh_state (sl_env sl) run_id) (\<lambda>st1.
      if rs_status st1 \<in> {RS_COMPLETED, RS_FAILED} then act_return (Inl st1) else think_and_act sl run_id intent st1 n))"
    by (rule leaves_seq[OF leaves_refresh]) (rule stops_if[OF _ _ leaves_think[OF w]])
  have going: "leaves (sl_env sl) run_id (stops sl run_id) (if rs_status st = RS_PAUSED
        then act_then (sx_pause (sl_sx sl)) (act_bind (refresh_state (sl_env sl) run_id) (\<lambda>st1.
                  if rs_status st1 \<in> {RS_COMPLETED, RS_FAILED} then act_return (Inl st1)
                  else think_and_act sl run_id intent st1 n))
        else think_and_act sl run_id intent st n)"
    by (intro leaves_if leaves_then serial_wiredD(2)[OF w] after leaves_think[OF w])
  show ?case
  proof (cases r1)
    case (Inl e)
    then show ?thesis using 1(3) m m1 by (auto simp: act_then_def act_bind_def)
  next
    case (Inr u)
    then show ?thesis using 1 m stops_if[OF m1(1) _ going, of st r c'] m1(2) by (auto simp: act_then_def act_bind_def)
  qed
qed

lemma leaves_failed_state:
  "leaves (sl_env sl) run_id (stands sl run_id) (act_then (fail_run (sl_env sl) run_id err) (refresh_state (sl_env sl) run_id))"
  by (rule leaves_fail_then) (auto simp: refresh_state_fold stands_def split: sum.splits dest: fold_status)

lemma leaves_iterations:
  assumes w: "serial_wired sl run_id"
  shows "leaves (sl_env sl) run_id (stands sl run_id) (serial_iterations sl run_id intent left n)"
proof (induction left arbitrary: n)
  case 0
  show ?case unfolding serial_iterations.simps by (rule leaves_failed_state)
next
  case (Suc left)
  have "leaves (sl_env sl) run_id (stands sl run_id) (act_bind (run_iteration_body sl run_id intent n) (\<lambda>res.
      case res of Inl st \<Rightarrow> act_return st | Inr n \<Rightarrow> serial_iterations sl run_id intent left n))"
  proof (rule leaves_seq[OF leaves_iteration[OF w]], goal_cases)
    case (1 x c r c')
    show ?case
    proof (cases x)
      case (Inl st)
      then show ?thesis using 1 by (auto simp: act_return_def stops_def)
    next
      case (Inr k)
      then show ?thesis using leavesD[OF Suc.IH 1(1)] 1(3) by simp
    qed
  qed
  then show ?case unfolding serial_iterations.simps by (rule guard_leaves[OF leaves_failed_state])
qed

section \<open>The kernel's interface\<close>

text \<open>What the serial loop relies on: a kernel that answers gives at least one result.\<close>

locale agent_kernel =
  fixes think :: "exec_ctx \<Rightarrow> string \<Rightarrow> run_state \<Rightarrow> string option \<Rightarrow> py_exc + think_result list"
  assumes think_nonempty: "think c intent st feedback = Inr tks \<Longrightarrow> tks \<noteq> []"
begin

text \<open>An iteration whose kernel answers records the first thought and then acts on every result: indexing the results never fails.\<close>

lemma thinking_acts:
  assumes "sl_think sl = think" "sl_remaining sl c = None"
    and "think c intent st (get_feedback_text (sx_has_monitor (sl_sx sl)) st False None) = Inr tks"
  shows "think_and_act sl run_id intent st n c
    = act_then (log_append (sl_env sl) run_id (serial_thought (hd tks) tks) None) (act_on sl run_id tks n) c"
proof -
  obtain first rest where tks: "tks = first # rest" using think_nonempty[OF assms(3)] by (cases tks) auto
  show ?thesis using assms
    by (simp add: think_and_act_def act_bind_def phase_call_def phase_within_def act_sum_def act_return_def tks del: act_on.simps)
qed

end

lemma consume_response_nonempty: "consume_response kn c messages resp \<noteq> []"
  by (auto simp: consume_response_def Let_def split: option.splits)

lemma consume_response_shape:
  "if cr_tool_calls resp = [] then \<exists>thought answer. consume_response kn c messages resp = [stop_result thought answer]
   else map tk_tool_name (consume_response kn c messages resp) = map (Some \<circ> cc_name) (cr_tool_calls resp)
     \<and> map tk_tool_call_id (consume_response kn c messages resp) = map (Some \<circ> cc_id) (cr_tool_calls resp)"
  by (auto simp: consume_response_def Let_def split: option.splits)

interpretation llm: agent_kernel "llm_think kn" for kn
  by unfold_locales (auto simp: llm_think_def rmap_Inr consume_response_nonempty)

section \<open>A serial run\<close>

lemma leaves_serial_loop:
  assumes "serial_wired sl run_id"
  shows "leaves (sl_env sl) run_id (stands sl run_id) (serial_loop sl run_id intent)"
  unfolding serial_loop_def by (rule leaves_then[OF keeps_started leaves_iterations[OF assms]])

text \<open>C2: Every serial run settles. Whatever the kernel answers, the tools do and the operator confirms, the loop stops; the status it returns
  is the one the log ends with, and it is final unless the run was cancelled. It returns no state only when the log cannot be
  folded.\<close>

theorem serial_run_settles:
  assumes w: "serial_wired sl run_id" and ok: "log_ok (sl_env sl) run_id c" and run: "serial_run sl run_id intent c = (r, c')"
  shows "case r of
      Inr st \<Rightarrow> rs_status st = last (RS_RUNNING # statuses c' run_id)
        \<and> (rs_status st \<in> {RS_COMPLETED, RS_FAILED} \<or> (\<exists>d. sx_cancelled (sl_sx sl) d))
    | Inl e \<Rightarrow> \<exists>x. fold_events (get_events (xc_store c') run_id) = Inl x"
proof -
  obtain r1 c1 where r1: "serial_loop sl run_id intent c = (r1, c1)" by fastforce
  note post = leavesD[OF leaves_serial_loop[OF w] ok r1]
  show ?thesis
  proof (cases r1)
    case (Inr st)
    have "rs_status st \<in> {RS_COMPLETED, RS_FAILED}" if "run_over c1 run_id" "rs_status st = last (RS_RUNNING # statuses c1 run_id)"
      using that by (auto simp: run_over_def ended_def)
    then show ?thesis using run r1 Inr post by (auto simp: serial_run_def run_barrier_def act_try_def stands_def halted_def)
  next
    case (Inl e)
    from barrier_ends[OF serial_wiredD(3)[OF w] r1[unfolded Inl] _ run[unfolded serial_run_def]] post show ?thesis
      by (auto simp: over_def ended_def unfoldable_def split: sum.splits dest: fold_status)
  qed
qed

section \<open>A serial run that has failed comes back\<close>

definition answering_kernel :: kernel where
  "answering_kernel = \<lparr> kn_prompt = id, kn_chat = (\<lambda>_ _. Inr \<lparr> cr_content = Some ''ANSWER: 42'', cr_tool_calls = [] \<rparr>) \<rparr>"

definition sample_serial :: serial where
  "sample_serial = \<lparr> sl_sx = mute_scheduler, sl_think = llm_think answering_kernel,
     sl_tool_fns = [(''file_op'', \<lambda>_. dr_call sample_draw)], sl_workspace = None, sl_backend = None, sl_draw = (\<lambda>_. sample_draw),
     sl_remaining = (\<lambda>_. None), sl_cut = (\<lambda>_ _. None) \<rparr>"

lemma sample_serial_wired: "serial_wired sample_serial ''r1''" "log_ok (sl_env sample_serial) ''r1'' sample_ctx"
  using mute_scheduler_wired
  by (auto simp: serial_wired_def well_wired_def sample_serial_def mute_scheduler_def mute_return sample_retries)

lemma serial_run_settles_witness:
  "map_sum (\<lambda>_. ()) rs_status (fst (serial_run sample_serial ''r1'' ''question'' sample_ctx)) = Inr RS_COMPLETED
   \<and> last (RS_RUNNING # statuses (snd (serial_run sample_serial ''r1'' ''question'' sample_ctx)) ''r1'') = RS_COMPLETED"
proof -
  let ?run = "serial_run sample_serial ''r1'' ''question'' sample_ctx"
  have r: "map_sum (\<lambda>_. ()) rs_status (fst ?run) = Inr RS_COMPLETED"
    unfolding sample_serial_def mute_scheduler_def brief_planner_def note_registry_def by code_simp
  have "?run = (fst ?run, snd ?run)" by simp
  from serial_run_settles[OF sample_serial_wired this] r show ?thesis by (cases "fst ?run") auto
qed

text \<open>The operator confirms and resumes while the scheduler waits.\<close>

definition confirming_serial :: serial where
  "confirming_serial = sample_serial\<lparr>sl_sx := mute_scheduler\<lparr>sx_wait :=
     act_then (log_append sample_env ''r1'' sample_yes None) (act_then (resume_run sample_env ''r1'') (act_return True))\<rparr>\<rparr>"

definition deletion :: think_result where
  "deletion = \<lparr> tk_thought = ''delete it'', tk_tool_name = Some ''file_op'', tk_tool_input = Some sample_delete_input, tk_direct_answer = None,
     tk_tool_call_id = Some ''t1'' \<rparr>"

text \<open>The serial loop pauses for a confirmation past the guard, so a run that has already failed is paused, can be resumed by its
  operator, and then runs the tool, although it has failed; the guarded write would have refused the pause.\<close>

lemma serial_pause_revives_failed_run:
  "statuses sample_failed ''r1'' = [RS_RUNNING, RS_FAILED] \<and> xc_calls sample_failed = []
   \<and> statuses (snd (run_tool_call confirming_serial ''r1'' deletion 0 sample_failed)) ''r1'' = [RS_RUNNING, RS_FAILED, RS_PAUSED, RS_RUNNING]
   \<and> xc_calls (snd (run_tool_call confirming_serial ''r1'' deletion 0 sample_failed)) = replicate 2 (''r1'', None, ''file_op'', sample_delete_input)
   \<and> statuses (snd (append_run_event sample_env ''r1'' (PRun (RunPaused \<lparr> rp_reason = ''waiting_confirmation'' \<rparr>)) None False sample_failed)) ''r1''
       = [RS_RUNNING, RS_FAILED]"
  unfolding confirming_serial_def sample_serial_def mute_scheduler_def brief_planner_def note_registry_def by code_simp

end
