(* ===== verification/Lifecycle.thy ===== *)
theory Lifecycle
  imports Executor_Properties
begin

text \<open>
  The startup scan for orphaned runs (core/lifecycle.py) over the event store, and that
  after the scan no run of the store is left in an active state.
\<close>

section \<open>Definitions\<close>

text \<open>The majority tenant, the first one on a tie.\<close>

definition count_tenants :: "string list \<Rightarrow> nat dict" where
  "count_tenants ts = fold (\<lambda>t d. dset t (dget_or 0 d t + 1) d) ts []"

fun first_max :: "string \<times> nat \<Rightarrow> (string \<times> nat) list \<Rightarrow> string" where
  "first_max best [] = fst best"
| "first_max best (kv # kvs) = first_max (if snd best < snd kv then kv else best) kvs"

definition derive_run_tenant :: "event list \<Rightarrow> string" where
  "derive_run_tenant events =
     (case count_tenants (filter (\<lambda>t. t \<noteq> []) (map ev_tenant_id events)) of
        [] \<Rightarrow> ''default''
      | kv # kvs \<Rightarrow> first_max kv kvs)"

definition run_workspace :: "event list \<Rightarrow> string option" where
  "run_workspace events = Option.bind (find (\<lambda>e. opt_truthy (ev_workspace_id e)) events) ev_workspace_id"

definition orphaned_payload :: "pyfloat \<Rightarrow> payload" where
  "orphaned_payload now_text = PRun (RunOrphaned \<lparr> ro_reason = ''server_restart'', ro_detected_at = now_text \<rparr>)"

definition orphan_error :: string where
  "orphan_error = ''Run was terminated because the server process restarted while it was active ''
     @ ''(orphaned run). Automatic crash recovery is not performed; please re-submit ''
     @ ''the task '' @ dash @ '' completed steps are not repeated (event sourcing + idempotency).''"

definition orphan_summary :: string where
  "orphan_summary = [CHR 0xE4, CHR 0xBB, CHR 0xBB, CHR 0xE5, CHR 0x8A, CHR 0xA1, CHR 0xE5, CHR 0x9B, CHR 0xA0, CHR 0xE6, CHR 0x9C, CHR 0x8D, CHR 0xE5, CHR 0x8A, CHR 0xA1, CHR 0xE9, CHR 0x87, CHR 0x8D, CHR 0xE5, CHR 0x90, CHR 0xAF, CHR 0xE8, CHR 0x80, CHR 0x8C, CHR 0xE4, CHR 0xB8, CHR 0xAD, CHR 0xE6, CHR 0x96, CHR 0xAD, CHR 0xEF, CHR 0xBC, CHR 0x88, CHR 0xE5, CHR 0xAD, CHR 0xA4, CHR 0xE5, CHR 0x84, CHR 0xBF, CHR 0x20, CHR 0x72, CHR 0x75, CHR 0x6E, CHR 0xEF, CHR 0xBC, CHR 0x89, CHR 0xEF, CHR 0xBC, CHR 0x8C, CHR 0xE8, CHR 0xAF, CHR 0xB7, CHR 0xE9, CHR 0x87, CHR 0x8D, CHR 0xE6, CHR 0x96, CHR 0xB0, CHR 0xE5, CHR 0x8F, CHR 0x91, CHR 0xE8, CHR 0xB5, CHR 0xB7, CHR 0xE4, CHR 0xBB, CHR 0xBB, CHR 0xE5, CHR 0x8A, CHR 0xA1, CHR 0xE3, CHR 0x80, CHR 0x82]"

definition orphan_message :: string where
  "orphan_message = [CHR 0xE4, CHR 0xBB, CHR 0xBB, CHR 0xE5, CHR 0x8A, CHR 0xA1, CHR 0xE5, CHR 0x9B, CHR 0xA0, CHR 0xE6, CHR 0x9C, CHR 0x8D, CHR 0xE5, CHR 0x8A, CHR 0xA1, CHR 0xE9, CHR 0x87, CHR 0x8D, CHR 0xE5, CHR 0x90, CHR 0xAF, CHR 0xE8, CHR 0x80, CHR 0x8C, CHR 0xE4, CHR 0xB8, CHR 0xAD, CHR 0xE6, CHR 0x96, CHR 0xAD, CHR 0xEF, CHR 0xBC, CHR 0x8C, CHR 0xE8, CHR 0xAF, CHR 0xB7, CHR 0xE9, CHR 0x87, CHR 0x8D, CHR 0xE6, CHR 0x96, CHR 0xB0, CHR 0xE5, CHR 0x8F, CHR 0x91, CHR 0xE8, CHR 0xB5, CHR 0xB7, CHR 0xE8, CHR 0xAF, CHR 0xA5, CHR 0xE4, CHR 0xBB, CHR 0xBB, CHR 0xE5, CHR 0x8A, CHR 0xA1, CHR 0xEF, CHR 0xBC, CHR 0x9B, CHR 0xE5, CHR 0xB7, CHR 0xB2, CHR 0xE5, CHR 0xAE, CHR 0x8C, CHR 0xE6, CHR 0x88, CHR 0x90, CHR 0xE7, CHR 0x9A, CHR 0x84, CHR 0xE6, CHR 0xAD, CHR 0xA5, CHR 0xE9, CHR 0xAA, CHR 0xA4, CHR 0xE4, CHR 0xB8, CHR 0x8D, CHR 0xE4, CHR 0xBC, CHR 0x9A, CHR 0xE9, CHR 0x87, CHR 0x8D, CHR 0xE5, CHR 0xA4, CHR 0x8D, CHR 0xE6, CHR 0x89, CHR 0xA7, CHR 0xE8, CHR 0xA1, CHR 0x8C, CHR 0xE3, CHR 0x80, CHR 0x82]"

definition orphan_failed_payload :: "event list \<Rightarrow> payload" where
  "orphan_failed_payload events = PRun (RunFailed \<lparr> rf_final_error = orphan_error, rf_event_count = int (length events) + 2,
     rf_result_summary = Some orphan_summary, rf_user_facing_message = orphan_message \<rparr>)"

definition orphan_opts :: "event list \<Rightarrow> string \<Rightarrow> append_opts" where
  "orphan_opts events key = \<lparr> ao_tenant_id = derive_run_tenant events, ao_workspace_id = run_workspace events,
     ao_idempotency_key = Some key, ao_is_audit = False \<rparr>"

definition active_status :: "run_status \<Rightarrow> bool" where
  "active_status s \<longleftrightarrow> s \<in> {RS_RUNNING, RS_PAUSED}"

text \<open>One run of the scan: whether it was terminated. \<open>clock\<close> gives the time of each append, \<open>now_text\<close> the time of the scan.\<close>

definition mark_orphan :: "(nat \<Rightarrow> timestamp) \<Rightarrow> pyfloat \<Rightarrow> string \<Rightarrow> store \<Rightarrow> (py_exc + bool) \<times> store" where
  "mark_orphan clock now_text run_id st =
     (let events = get_events st run_id
      in if events = [] then (Inr False, st)
         else case fold_events events of
                Inl e \<Rightarrow> (Inl (exc_of_error e), st)
              | Inr state \<Rightarrow>
                  if \<not> active_status (rs_status state) then (Inr False, st)
                  else (case append_event st run_id (orphaned_payload now_text) (orphan_opts events (''orphan_detect_'' @ run_id))
                               (clock (length (es_events st))) of
                          (Inl e, st1) \<Rightarrow> (Inl (exc_of_store_error e), st1)
                        | (Inr _, st1) \<Rightarrow>
                            (case append_event st1 run_id (orphan_failed_payload events) (orphan_opts events (''orphan_fail_'' @ run_id))
                                    (clock (length (es_events st1))) of
                               (Inl e, st2) \<Rightarrow> (Inl (exc_of_store_error e), st2)
                             | (Inr _, st2) \<Rightarrow> (Inr True, st2))))"

fun mark_loop :: "(nat \<Rightarrow> timestamp) \<Rightarrow> pyfloat \<Rightarrow> string list \<Rightarrow> nat \<Rightarrow> store \<Rightarrow> (py_exc + nat) \<times> store" where
  "mark_loop clock now_text [] marked st = (Inr marked, st)"
| "mark_loop clock now_text (r # rs) marked st =
     (case mark_orphan clock now_text r st of
        (Inl e, st1) \<Rightarrow> (Inl e, st1)
      | (Inr b, st1) \<Rightarrow> mark_loop clock now_text rs (if b then Suc marked else marked) st1)"

definition mark_orphans :: "(nat \<Rightarrow> timestamp) \<Rightarrow> pyfloat \<Rightarrow> store \<Rightarrow> (py_exc + nat) \<times> store" where
  "mark_orphans clock now_text st = mark_loop clock now_text (list_all_run_ids st None) 0 st"

section \<open>The startup scan\<close>

definition settled_run :: "store \<Rightarrow> string \<Rightarrow> bool" where
  "settled_run st rid \<longleftrightarrow> (\<exists>s. fold_events (get_events st rid) = Inr s \<and> \<not> active_status (rs_status s))"

definition unused_key :: "store \<Rightarrow> string \<Rightarrow> string \<Rightarrow> bool" where
  "unused_key st rid key \<longleftrightarrow> (\<forall>r\<in>set (es_events st). \<not> key_matches rid (event_type_value RUN) key r)"

text \<open>What the scan relies on: the stream folds, and an active run has not been terminated by an earlier scan.\<close>

definition scannable :: "store \<Rightarrow> string \<Rightarrow> bool" where
  "scannable st rid \<longleftrightarrow> (\<exists>s. fold_events (get_events st rid) = Inr s
     \<and> (active_status (rs_status s) \<longrightarrow> unused_key st rid (''orphan_fail_'' @ rid)))"

lemma fold_events_snoc:
  assumes "fold_events es = Inr s" "ev_run_id e = rs_run_id s" "ev_payload e = PRun q"
  shows "\<exists>s'. fold_events (es @ [e]) = Inr s' \<and> rs_status s' = (case run_status_of (PRun q) of None \<Rightarrow> rs_status s | Some x \<Rightarrow> x)"
proof -
  have ne: "es \<noteq> []" and f: "fold_result apply_event es (RunState0 (ev_run_id (hd es))) = Inr s"
    using assms(1) by (auto simp: fold_events_Inr)
  obtain s' where s': "apply_event e s = Inr s'" using assms(2,3) by (simp add: apply_event_def)
  have "fold_events (es @ [e]) = Inr s'" using ne f s' by (simp add: fold_events_Inr fold_result_append)
  then show ?thesis using fold_status_last[OF assms(1)] fold_status_last[of "es @ [e]" s'] assms(3)
    by (auto simp: map_filter_def split: option.splits)
qed

lemma fold_run_id: "fold_events es = Inr s \<Longrightarrow> e \<in> set es \<Longrightarrow> ev_run_id e = rs_run_id s"
proof -
  have "fold_result apply_event xs t = Inr s \<Longrightarrow> rs_run_id s = rs_run_id t \<and> (\<forall>e\<in>set xs. ev_run_id e = rs_run_id t)" for xs t
    by (induction xs arbitrary: t) (fastforce simp: rbind_Inr_iff apply_event_Inr dest: apply_payload_fields(1))+
  then show "fold_events es = Inr s \<Longrightarrow> e \<in> set es \<Longrightarrow> ev_run_id e = rs_run_id s" unfolding fold_events_Inr by metis
qed

lemma get_events_run_id: "store_wf st \<Longrightarrow> e \<in> set (get_events st rid) \<Longrightarrow> ev_run_id e = rid"
  unfolding store_wf_def
  by (force simp: get_events_rows events_of_rows_def run_rows_def List.map_filter_def split: row_body.splits option.splits)

text \<open>A keyed append of a RUN event to a run that folds.\<close>

lemma append_run_folds:
  assumes wf: "store_wf st" and f: "fold_events (get_events st rid) = Inr s"
    and app: "append_event st rid (PRun q) (orphan_opts events key) now = (res, st')"
  shows "\<exists>e s' rows. res = Inr e \<and> store_wf st' \<and> (\<forall>rid2. rid2 \<noteq> rid \<longrightarrow> get_events st' rid2 = get_events st rid2)
    \<and> es_events st' = es_events st @ rows \<and> (\<forall>r\<in>set rows. er_run_id r = rid \<and> er_idempotency_key r = Some key)
    \<and> fold_events (get_events st' rid) = Inr s'
    \<and> (unused_key st rid key \<longrightarrow> rs_status s' = (case run_status_of (PRun q) of None \<Rightarrow> rs_status s | Some x \<Rightarrow> x))
    \<and> (\<not> unused_key st rid key \<longrightarrow> s' = s)"
proof -
  let ?o = "orphan_opts events key"
  have key: "ao_idempotency_key ?o = Some key" by (simp add: orphan_opts_def)
  have dup: "dup_row (new_row st rid (PRun q) ?o now) (es_events st) = None \<longleftrightarrow> unused_key st rid key"
    by (auto simp: dup_row_def key find_None_iff unused_key_def split: option.splits)
  note out = append_event_result[OF wf app]
  show ?thesis
  proof (cases "unused_key st rid key")
    case True
    then have none: "dup_row (new_row st rid (PRun q) ?o now) (es_events st) = None" using dup by blast
    obtain e where e: "res = Inr e" "store_wf st'" "ev_payload e = PRun q" "ev_run_id e = rid"
        "get_events st' rid = get_events st rid @ [e]" "\<forall>rid2. rid2 \<noteq> rid \<longrightarrow> get_events st' rid2 = get_events st rid2"
      using out none by auto
    have st': "st' = snd (append_commit st rid (PRun q) ?o now)" using app none by (simp add: append_event_eq[OF wf])
    have rows: "es_events st' = es_events st @ [allocated_row st rid (PRun q) ?o now]"
      using append_commit_rows[OF wf, of rid "PRun q" ?o now] none st' by simp
    have "get_events st rid \<noteq> []" using f by (simp add: fold_events_Inr)
    then obtain e0 where "e0 \<in> set (get_events st rid)" by (meson last_in_set)
    then have "rs_run_id s = rid" using fold_run_id[OF f] get_events_run_id[OF wf] by metis
    from fold_events_snoc[OF f _ e(3)] this e(4) obtain s' where s': "fold_events (get_events st rid @ [e]) = Inr s'"
        "rs_status s' = (case run_status_of (PRun q) of None \<Rightarrow> rs_status s | Some x \<Rightarrow> x)" by auto
    have "er_idempotency_key (allocated_row st rid (PRun q) ?o now) = Some key" by (simp add: allocated_row_def key)
    then show ?thesis using e s' rows True by (intro exI[of _ e] exI[of _ s'] exI[of _ "[allocated_row st rid (PRun q) ?o now]"]) auto
  next
    case False
    then show ?thesis using out dup f by (auto intro!: exI[of _ "[]"])
  qed
qed

lemma mark_orphan_ok:
  assumes wf: "store_wf st" and sc: "scannable st rid"
  shows "\<exists>b st' rows. mark_orphan clock t rid st = (Inr b, st') \<and> store_wf st' \<and> settled_run st' rid
    \<and> (\<forall>rid2. rid2 \<noteq> rid \<longrightarrow> get_events st' rid2 = get_events st rid2)
    \<and> es_events st' = es_events st @ rows \<and> (\<forall>r\<in>set rows. er_run_id r = rid)
    \<and> (settled_run st rid \<longrightarrow> \<not> b \<and> st' = st)"
proof -
  obtain s where s: "fold_events (get_events st rid) = Inr s" "active_status (rs_status s) \<longrightarrow> unused_key st rid (''orphan_fail_'' @ rid)"
    using sc by (auto simp: scannable_def)
  then have ne: "get_events st rid \<noteq> []" by (simp add: fold_events_Inr)
  define events where "events = get_events st rid"
  show ?thesis
  proof (cases "active_status (rs_status s)")
    case False
    then have "mark_orphan clock t rid st = (Inr False, st)" "settled_run st rid"
      using s ne by (auto simp: mark_orphan_def settled_run_def)
    then show ?thesis using wf by (auto intro!: exI[of _ "[]"])
  next
    case True
    obtain r1 st1 where a1: "append_event st rid (orphaned_payload t) (orphan_opts events (''orphan_detect_'' @ rid)) (clock (length (es_events st))) = (r1, st1)"
      by fastforce
    from append_run_folds[OF wf s(1) a1[unfolded orphaned_payload_def]] obtain e1 s1 rows1 where 1: "r1 = Inr e1" "store_wf st1"
      "\<forall>rid2. rid2 \<noteq> rid \<longrightarrow> get_events st1 rid2 = get_events st rid2" "es_events st1 = es_events st @ rows1"
      "\<forall>r\<in>set rows1. er_run_id r = rid \<and> er_idempotency_key r = Some (''orphan_detect_'' @ rid)"
      "fold_events (get_events st1 rid) = Inr s1" by blast
    have free: "unused_key st1 rid (''orphan_fail_'' @ rid)"
      using s(2) True 1(4,5) by (auto simp: unused_key_def key_matches_def)
    obtain r2 st2 where a2: "append_event st1 rid (orphan_failed_payload events) (orphan_opts events (''orphan_fail_'' @ rid)) (clock (length (es_events st1))) = (r2, st2)"
      by fastforce
    from append_run_folds[OF 1(2) 1(6) a2[unfolded orphan_failed_payload_def]] free obtain e2 s2 rows2 where 2: "r2 = Inr e2" "store_wf st2"
      "\<forall>rid2. rid2 \<noteq> rid \<longrightarrow> get_events st2 rid2 = get_events st1 rid2" "es_events st2 = es_events st1 @ rows2"
      "\<forall>r\<in>set rows2. er_run_id r = rid" "fold_events (get_events st2 rid) = Inr s2" "rs_status s2 = RS_FAILED"
      by (metis run_status_of.simps(5) option.simps(5))
    have "mark_orphan clock t rid st = (Inr True, st2)"
      using ne s(1) True a1 a2 1(1) 2(1) by (simp add: mark_orphan_def Let_def flip: events_def)
    moreover have "settled_run st2 rid" using 2(6,7) by (simp add: settled_run_def active_status_def)
    moreover have "\<not> settled_run st rid" using s(1) True by (simp add: settled_run_def)
    ultimately show ?thesis using 1 2 by (intro exI[of _ True] exI[of _ st2] exI[of _ "rows1 @ rows2"]) auto
  qed
qed

lemma scannable_cong:
  assumes "get_events st' rid = get_events st rid" "es_events st' = es_events st @ rows" "\<forall>r\<in>set rows. er_run_id r \<noteq> rid"
  shows "scannable st' rid \<longleftrightarrow> scannable st rid"
proof -
  have "unused_key st' rid k \<longleftrightarrow> unused_key st rid k" for k using assms(2,3) by (auto simp: unused_key_def key_matches_def)
  then show ?thesis by (simp add: scannable_def assms(1))
qed

lemma mark_loop_ok:
  assumes "store_wf st" "distinct rids" "\<forall>rid\<in>set rids. scannable st rid"
  shows "\<exists>n st' rows. mark_loop clock t rids m st = (Inr n, st') \<and> store_wf st' \<and> (\<forall>rid\<in>set rids. settled_run st' rid)
    \<and> (\<forall>rid. rid \<notin> set rids \<longrightarrow> get_events st' rid = get_events st rid)
    \<and> es_events st' = es_events st @ rows \<and> (\<forall>r\<in>set rows. er_run_id r \<in> set rids)
    \<and> ((\<forall>rid\<in>set rids. settled_run st rid) \<longrightarrow> n = m \<and> st' = st)"
  using assms
proof (induction rids arbitrary: m st)
  case Nil
  then show ?case by auto
next
  case (Cons rid rids)
  from mark_orphan_ok[OF Cons.prems(1), of rid clock t] Cons.prems(3) obtain b st1 rows1 where 1: "mark_orphan clock t rid st = (Inr b, st1)" "store_wf st1"
    "settled_run st1 rid" "\<forall>rid2. rid2 \<noteq> rid \<longrightarrow> get_events st1 rid2 = get_events st rid2" "es_events st1 = es_events st @ rows1"
    "\<forall>r\<in>set rows1. er_run_id r = rid" "settled_run st rid \<longrightarrow> \<not> b \<and> st1 = st" by auto
  have "\<forall>r\<in>set rids. scannable st1 r"
  proof
    fix r assume r: "r \<in> set rids"
    then have "r \<noteq> rid" using Cons.prems(2) by auto
    then show "scannable st1 r" using scannable_cong[of st1 r st rows1] 1(4,5,6) Cons.prems(3) r by auto
  qed
  from Cons.IH[OF 1(2) _ this, of "if b then Suc m else m"] Cons.prems(2) obtain n st2 rows2 where 2:
    "mark_loop clock t rids (if b then Suc m else m) st1 = (Inr n, st2)" "store_wf st2" "\<forall>r\<in>set rids. settled_run st2 r"
    "\<forall>r. r \<notin> set rids \<longrightarrow> get_events st2 r = get_events st1 r" "es_events st2 = es_events st1 @ rows2"
    "\<forall>r\<in>set rows2. er_run_id r \<in> set rids" "(\<forall>r\<in>set rids. settled_run st1 r) \<longrightarrow> n = (if b then Suc m else m) \<and> st2 = st1" by auto
  have "rid \<notin> set rids" using Cons.prems(2) by simp
  then have "settled_run st2 rid" using 1(3) 2(4) by (simp add: settled_run_def)
  then show ?case using 1 2 by (intro exI[of _ n] exI[of _ st2] exI[of _ "rows1 @ rows2"]) auto
qed

text \<open>C13: After the startup scan no run is left active. If every run's stream folds and no active run was terminated by an earlier
  scan, the scan ends normally; afterwards every listed run folds to a final status, runs that were already final are
  untouched, and a second scan finds nothing and writes nothing.\<close>

theorem startup_scan_settles_every_run:
  assumes "store_wf st" "\<forall>rid\<in>set (list_all_run_ids st None). scannable st rid"
  shows "\<exists>n st'. mark_orphans clock t st = (Inr n, st')
    \<and> (\<forall>rid\<in>set (list_all_run_ids st' None). \<exists>s. fold_events (get_events st' rid) = Inr s \<and> rs_status s \<notin> {RS_RUNNING, RS_PAUSED})
    \<and> mark_orphans clock2 t2 st' = (Inr 0, st')"
proof -
  let ?rids = "list_all_run_ids st None"
  have dist: "distinct (list_all_run_ids s None)" for s by (simp add: list_all_run_ids_def distinct_dedup)
  from mark_loop_ok[OF assms(1) dist assms(2), of clock t 0] obtain n st' rows where 1: "mark_orphans clock t st = (Inr n, st')" "store_wf st'"
    "\<forall>rid\<in>set ?rids. settled_run st' rid" "es_events st' = es_events st @ rows" "\<forall>r\<in>set rows. er_run_id r \<in> set ?rids"
    by (auto simp: mark_orphans_def)
  have settled: "settled_run st' rid" if "rid \<in> set (list_all_run_ids st' None)" for rid
  proof -
    have "rid \<in> set ?rids" using that 1(4,5) by (auto simp: list_all_run_ids_def set_dedup)
    then show ?thesis using 1(3) by blast
  qed
  then have "\<forall>rid\<in>set (list_all_run_ids st' None). scannable st' rid" by (auto simp: scannable_def settled_run_def)
  from mark_loop_ok[OF 1(2) dist this, of clock2 t2 0] settled have "mark_orphans clock2 t2 st' = (Inr 0, st')"
    by (auto simp: mark_orphans_def)
  moreover have "\<exists>s. fold_events (get_events st' rid) = Inr s \<and> rs_status s \<notin> {RS_RUNNING, RS_PAUSED}"
    if "rid \<in> set (list_all_run_ids st' None)" for rid
    using settled[OF that] by (auto simp: settled_run_def active_status_def)
  ultimately show ?thesis using 1(1) by blast
qed

lemma startup_scan_settles_every_run_witness:
  "\<exists>n st'. mark_orphans of_nat ''1.0'' sample_store = (Inr n, st') \<and> mark_orphans of_nat ''2.0'' st' = (Inr 0, st') \<and> n = 1"
proof -
  have ids: "list_all_run_ids sample_store None = [''r1'']" by code_simp
  have "map_sum id rs_status (fold_events (get_events sample_store ''r1'')) = Inr RS_RUNNING" by code_simp
  then obtain s where "fold_events (get_events sample_store ''r1'') = Inr s"
    by (cases "fold_events (get_events sample_store ''r1'')") auto
  moreover have "list_all (\<lambda>r. \<not> key_matches ''r1'' (event_type_value RUN) ''orphan_fail_r1'' r) (es_events sample_store)" by code_simp
  ultimately have "\<forall>rid\<in>set (list_all_run_ids sample_store None). scannable sample_store rid"
    by (simp add: ids scannable_def unused_key_def list_all_iff)
  from startup_scan_settles_every_run[OF sample_store_wf this, of of_nat "''1.0''" of_nat "''2.0''"]
  obtain n st' where r: "mark_orphans of_nat ''1.0'' sample_store = (Inr n, st')" "mark_orphans of_nat ''2.0'' st' = (Inr 0, st')" by blast
  have "map_sum (\<lambda>_. ()) id (fst (mark_orphans of_nat ''1.0'' sample_store)) = Inr 1" by code_simp
  then have "n = 1" by (simp add: r(1))
  with r show ?thesis by blast
qed

end
