(* ===== verification/Context_Manager.thy ===== *)
theory Context_Manager
  imports Agent_Kernel Lifecycle
begin

text \<open>
  The context manager (core/context_manager.py): the estimate of the context, the three tiers of
  compression with their cooldown, episodes, and checkpoints. Token counter, chat client, JSON
  decoder and float rounding are arguments. Scores are rationals, so comparisons of float literals
  are exact; text is a list of bytes, so the cuts of a non-ASCII text count bytes.
\<close>

section \<open>Configuration\<close>

text \<open>\<^verbatim>\<open>int(s)\<close> on a decimal text: signs, surrounding blanks and single inner underscores are allowed.\<close>

definition digits_ok :: "string \<Rightarrow> bool" where
  "digits_ok s \<longleftrightarrow> list_all (\<lambda>part. part \<noteq> [] \<and> list_all is_digit part) (split_on (CHR ''_'') s)"

definition digits_value :: "string \<Rightarrow> int" where
  "digits_value s = foldl (\<lambda>n c. if c = CHR ''_'' then n else 10 * n + (of_char c - 48)) 0 s"

definition py_int :: "string \<Rightarrow> int option" where
  "py_int s =
     (case strip s of
        [] \<Rightarrow> None
      | c # t \<Rightarrow>
          if c = CHR ''-'' then (if digits_ok t then Some (- digits_value t) else None)
          else if c = CHR ''+'' then (if digits_ok t then Some (digits_value t) else None)
          else if digits_ok (c # t) then Some (digits_value (c # t)) else None)"

definition default_context_token_limit :: int where
  "default_context_token_limit = 160000"

definition resolve_context_token_limit :: "string option \<Rightarrow> int option \<Rightarrow> int" where
  "resolve_context_token_limit env_value explicit =
     (case explicit of
        Some n \<Rightarrow> if n > 0 then n else (case env_value of None \<Rightarrow> default_context_token_limit
           | Some raw \<Rightarrow> (case py_int raw of None \<Rightarrow> default_context_token_limit | Some v \<Rightarrow> if v > 0 then v else default_context_token_limit))
      | None \<Rightarrow> (case env_value of None \<Rightarrow> default_context_token_limit
           | Some raw \<Rightarrow> (case py_int raw of None \<Rightarrow> default_context_token_limit | Some v \<Rightarrow> if v > 0 then v else default_context_token_limit)))"

definition heuristic_tokens :: "string \<Rightarrow> int" where
  "heuristic_tokens s = (if s = [] then 0 else max 1 (int (length s) div 4))"

text \<open>
  The manager. Parameters: the chat client, the token counter, the JSON decoder, the summarising prompt and the
  rounded mean of a list of scores as a float.
\<close>

record context_manager =
  cm_has_store :: bool
  cm_llm :: "(exec_ctx \<Rightarrow> message list \<Rightarrow> py_exc + chat_response) option"
  cm_count :: "string \<Rightarrow> int"
  cm_loads :: "string \<Rightarrow> (string \<times> nat) + json"
  cm_prompt :: string
  cm_mean :: "rat list \<Rightarrow> pyfloat"
  cm_token_limit :: int
  cm_checkpoint_interval :: int
  cm_cooldown_iterations :: int
  cm_preserve_threshold :: rat
  cm_excerpt_max_items :: int
  cm_excerpt_max_chars :: int
  cm_compression_threshold :: int
  cm_emergency_threshold :: int
  cm_lazy_clear_threshold :: int

text \<open>The product of an integer and a float is rounded by \<^term>\<open>fl\<close>; \<^verbatim>\<open>int()\<close> cuts the fraction off.\<close>

definition int_of_float :: "rat \<Rightarrow> int" where
  "int_of_float x = (if x < 0 then - \<lfloor>- x\<rfloor> else \<lfloor>x\<rfloor>)"

definition threshold_of :: "(rat \<Rightarrow> rat) \<Rightarrow> int \<Rightarrow> rat \<Rightarrow> int" where
  "threshold_of fl limit ratio = int_of_float (fl (fl (of_int limit) * ratio))"

definition init_context_manager :: "(rat \<Rightarrow> rat) \<Rightarrow> context_manager \<Rightarrow> int \<Rightarrow> rat \<Rightarrow> rat \<Rightarrow> rat \<Rightarrow> context_manager result" where
  "init_context_manager fl cm token_limit compression_ratio emergency_ratio lazy_ratio =
     (if \<not> (0 < lazy_ratio \<and> lazy_ratio \<le> compression_ratio \<and> compression_ratio \<le> emergency_ratio \<and> emergency_ratio \<le> 1)
      then Inl (ValueError ''invalid compression threshold ratios'')
      else Inr (cm\<lparr>cm_token_limit := token_limit,
                   cm_compression_threshold := threshold_of fl token_limit compression_ratio,
                   cm_emergency_threshold := threshold_of fl token_limit emergency_ratio,
                   cm_lazy_clear_threshold := threshold_of fl token_limit lazy_ratio\<rparr>))"

section \<open>Estimates and scores\<close>

definition summary_context_text :: "run_summary \<Rightarrow> string" where
  "summary_context_text s = (case s of SumEpisode e \<Rightarrow> to_context_text e | SumText t \<Rightarrow> t)"

definition estimate_context_tokens :: "context_manager \<Rightarrow> run_state \<Rightarrow> int" where
  "estimate_context_tokens cm st =
     max 1 (sum_list (map (\<lambda>t. cm_count cm (te_thought t)) (rs_thought_history st))
       + sum_list (map (\<lambda>tr. (if trs_output tr \<noteq> JNull then cm_count cm (py_str (trs_output tr)) else 0)
                          + (if opt_truthy (trs_error tr) then cm_count cm (opt_or (trs_error tr) []) else 0)) (rs_tool_results st))
       + (case rs_summary st of None \<Rightarrow> 0 | Some s \<Rightarrow> cm_count cm (summary_context_text s)))"

definition decision_markers :: "string list" where
  "decision_markers = [''decided'', ''choose'', ''select'', ''plan'', ''strategy'', ''approach'']"

fun score_event_importance :: "entry \<Rightarrow> rat" where
  "score_event_importance (Thought t) =
     (if list_ex (\<lambda>m. contains_sub m (lower (te_thought t))) decision_markers then 7 / 10 else 5 / 10)"
| "score_event_importance (Outcome tr) =
     (if status_text (trs_status tr) \<in> {''failed'', ''timeout'', ''guardrail_blocked''} then 8 / 10
      else if status_text (trs_status tr) = ''unsuccessful'' then 6 / 10 else 2 / 10)"

definition slice_to :: "int \<Rightarrow> 'a list \<Rightarrow> 'a list" where
  "slice_to n xs = (if n \<ge> 0 then take (nat n) xs else take (length xs - nat (- n)) xs)"

definition excerpt_of :: "entry \<Rightarrow> rat \<times> int \<times> string" where
  "excerpt_of x = (score_event_importance x, entry_seq x,
     (case x of
        Thought t \<Rightarrow> te_thought t
      | Outcome tr \<Rightarrow> ''['' @ trs_tool_name tr @ '' '' @ status_text (trs_status tr) @ ''] ''
          @ (if opt_truthy (trs_error tr) then opt_or (trs_error tr) []
             else if truthy (trs_output tr) then py_str (trs_output tr) else [])))"

definition select_preserved_excerpts :: "context_manager \<Rightarrow> thought_entry list \<Rightarrow> tool_result list \<Rightarrow> string list" where
  "select_preserved_excerpts cm thoughts results =
     (let candidates = map excerpt_of (filter (\<lambda>x. score_event_importance x \<ge> cm_preserve_threshold cm)
                         (map Thought thoughts @ map Outcome results));
          sorted_candidates = sort_key (\<lambda>(s, q, t). - s) (sort_key (\<lambda>(s, q, t). q) candidates)
      in map (\<lambda>(s, q, t). slice_to (cm_excerpt_max_chars cm) t) (slice_to (cm_excerpt_max_items cm) sorted_candidates))"

text \<open>\<^verbatim>\<open>xs[:-n] if len(xs) > n else []\<close>\<close>

definition but_last_n :: "int \<Rightarrow> 'a list \<Rightarrow> 'a list" where
  "but_last_n n xs = (if int (length xs) > n then slice_to (- n) xs else [])"

definition recent_seqs :: "int \<Rightarrow> int list \<Rightarrow> int set" where
  "recent_seqs n seqs = (if int (length seqs) > n then set (last_n n seqs) else {})"

definition select_low_importance_events :: "run_state \<Rightarrow> int list" where
  "select_low_importance_events st =
     (let keep = max (rs_keep_recent_count st) 2;
          recent_thoughts = recent_seqs keep (map te_seq (rs_thought_history st));
          recent_results = recent_seqs keep (map trs_event_seq (rs_tool_results st))
      in map te_seq (filter (\<lambda>t. te_seq t \<notin> recent_thoughts \<and> score_event_importance (Thought t) \<le> 2 / 10)
                       (but_last_n keep (rs_thought_history st)))
         @ map trs_event_seq (filter (\<lambda>tr. trs_event_seq tr \<notin> recent_results \<and> score_event_importance (Outcome tr) \<le> 2 / 10)
                       (but_last_n keep (rs_tool_results st))))"

definition compute_episode_importance :: "context_manager \<Rightarrow> run_state \<Rightarrow> pyfloat" where
  "compute_episode_importance cm st =
     (if rs_thought_history st = [] \<and> rs_tool_results st = [] then ''0.0''
      else cm_mean cm (map (score_event_importance \<circ> Thought) (rs_thought_history st)
                       @ map (score_event_importance \<circ> Outcome) (rs_tool_results st)))"

section \<open>Episodes\<close>

definition slice_text :: "nat \<Rightarrow> json \<Rightarrow> string result" where
  "slice_text n v =
     (case v of JStr s \<Rightarrow> Inr (take n s) | JList xs \<Rightarrow> Inr (py_str (JList (take n xs))) | _ \<Rightarrow> Inl (TypeErr ''object is not subscriptable''))"

definition cross :: string where
  "cross = [CHR 0xE2, CHR 0x9C, CHR 0x97]"

definition step_line :: "json dict \<Rightarrow> string result" where
  "step_line step =
     (let status = dget_or (JStr ''?'') step ''status'';
          line = (\<lambda>detail. ''  Step '' @ py_str (dget_or (JStr ''?'') step ''step_id'') @ ''(''
                    @ py_str (dget_or (JStr ''?'') step ''tool_name'') @ ''): '' @ py_str status @ detail)
      in if status = JStr ''completed''
         then rmap (\<lambda>t. line ('' '' @ arrow @ '' '' @ t)) (slice_text 100 (dget_or (JStr []) step ''output_summary''))
         else if status = JStr ''failed''
         then rmap (\<lambda>t. line ('' '' @ cross @ '' '' @ t)) (slice_text 100 (dget_or (JStr []) step ''error''))
         else Inr (line []))"

fun map_result :: "('a \<Rightarrow> 'e + 'b) \<Rightarrow> 'a list \<Rightarrow> 'e + 'b list" where
  "map_result f [] = Inr []"
| "map_result f (x # xs) = rbind (f x) (\<lambda>y. rmap (\<lambda>ys. y # ys) (map_result f xs))"

definition plan_lines :: "plan_entry \<Rightarrow> string list result" where
  "plan_lines pe =
     rmap (\<lambda>steps. (''[Plan] '' @ ple_plan_id pe @ '': '' @ take 80 (ple_intent pe))
             # (if opt_truthy (ple_revision_reason pe) then [''[Plan] Revision reason: '' @ opt_or (ple_revision_reason pe) []] else [])
             @ steps)
       (map_result step_line (ple_steps pe))"

definition thought_line :: "thought_entry \<Rightarrow> string" where
  "thought_line t = ''Thought: '' @ take 500 (te_thought t)"

definition result_line :: "tool_result \<Rightarrow> string" where
  "result_line tr =
     (let raw = (if truthy (trs_output tr) then py_str (trs_output tr) else opt_or (trs_error tr) [])
      in ''Tool '' @ quoted (trs_tool_name tr) @ '' '' @ arrow @ '' ''
         @ (if length raw > 2000 then take 2000 raw @ [CHR 0x0A] @ ''...(truncated)...'' else raw))"

definition activity_text :: "run_state \<Rightarrow> thought_entry list \<Rightarrow> tool_result list \<Rightarrow> string result" where
  "activity_text st thoughts results =
     rmap (\<lambda>plans. join [CHR 0x0A] (map thought_line thoughts @ map result_line results @ concat plans))
       (map_result plan_lines (rs_plan_history st))"

definition clip_activity :: "string \<Rightarrow> string" where
  "clip_activity s =
     (if length s > 2000
      then take 1000 s @ [CHR 0x0A] @ ''...(truncated)...'' @ [CHR 0x0A] @ drop (length s - 1000) s else s)"

text \<open>What the checked constructor of an episode accepts.\<close>

definition str_value :: "json \<Rightarrow> string result" where
  "str_value v = (case v of JStr s \<Rightarrow> Inr s | _ \<Rightarrow> Inl (ValueError ''Episode: a string is required''))"

definition strs_value :: "json \<Rightarrow> string list result" where
  "strs_value v = (case v of JList xs \<Rightarrow> if list_all is_jstr xs then Inr (map py_str xs) else Inl (ValueError ''Episode: strings are required'')
                   | _ \<Rightarrow> Inl (ValueError ''Episode: a list is required''))"

definition opt_value :: "json option \<Rightarrow> string option result" where
  "opt_value v = (case v of None \<Rightarrow> Inr None | Some JNull \<Rightarrow> Inr None | Some j \<Rightarrow> rmap Some (str_value j))"

definition base_episode :: "context_manager \<Rightarrow> run_state \<Rightarrow> int \<times> int \<Rightarrow> int list \<Rightarrow> thought_entry list \<Rightarrow> tool_result list \<Rightarrow> episode" where
  "base_episode cm st rng refs thoughts results =
     \<lparr> ep_range = rng, ep_key_decisions = [], ep_tools_used = dedup [] (map trs_tool_name results), ep_key_findings = [],
       ep_errors_encountered = [], ep_current_plan = None, ep_original_event_refs = sort refs, ep_title = [], ep_summary = [],
       ep_importance_score = compute_episode_importance cm st, ep_embedding = None, ep_parent_episode_id = None,
       ep_format = ''legacy'', ep_preserved_excerpts = select_preserved_excerpts cm thoughts results \<rparr>"

definition errors_of :: "tool_result list \<Rightarrow> string list" where
  "errors_of results = map (\<lambda>tr. opt_or (trs_error tr) []) (filter (\<lambda>tr. opt_truthy (trs_error tr)) results)"

definition legacy_episode :: "string \<Rightarrow> string \<Rightarrow> episode \<Rightarrow> episode" where
  "legacy_episode title body ep = ep\<lparr>ep_current_plan := Some body, ep_title := title, ep_summary := take 500 body\<rparr>"

definition structured_episode :: "json dict \<Rightarrow> string list \<Rightarrow> episode \<Rightarrow> episode result" where
  "structured_episode d errors ep =
     rbind (let v = dget_or (JStr []) d ''title'' in if truthy v then str_value v else Inr ''Episode summary'') (\<lambda>title.
     rbind (let v = dget_or (JStr []) d ''summary'' in if truthy v then str_value v else Inr []) (\<lambda>summary.
     rbind (let v = dget_or (JList []) d ''key_decisions'' in if truthy v then strs_value v else Inr [''No explicit decisions recorded'']) (\<lambda>decisions.
     rbind (case dget d ''tools_used'' of None \<Rightarrow> Inr (ep_tools_used ep) | Some v \<Rightarrow> strs_value v) (\<lambda>tools.
     rbind (case dget d ''key_findings'' of None \<Rightarrow> Inr [] | Some v \<Rightarrow> strs_value v) (\<lambda>findings.
     rbind (case dget d ''errors_encountered'' of None \<Rightarrow> Inr errors | Some v \<Rightarrow> strs_value v) (\<lambda>errs.
     rmap (\<lambda>plan. ep\<lparr>ep_key_decisions := decisions, ep_tools_used := tools, ep_key_findings := findings, ep_errors_encountered := errs,
                     ep_current_plan := plan, ep_title := title, ep_summary := summary, ep_format := ''structured''\<rparr>)
       (opt_value (dget d ''current_plan''))))))))"

definition parsed_object :: "context_manager \<Rightarrow> string \<Rightarrow> json dict option" where
  "parsed_object cm response = (case parse_lenient_json (cm_loads cm) response of Inr (JDict d) \<Rightarrow> Some d | _ \<Rightarrow> None)"

definition generate_episode ::
    "context_manager \<Rightarrow> run_state \<Rightarrow> int \<times> int \<Rightarrow> int list \<Rightarrow> thought_entry list \<Rightarrow> tool_result list \<Rightarrow> exec_ctx \<Rightarrow> episode result" where
  "generate_episode cm st rng refs thoughts results c =
     rbind (activity_text st thoughts results) (\<lambda>activity.
       let ep = base_episode cm st rng refs thoughts results; clipped = clip_activity activity
       in case cm_llm cm of
            None \<Rightarrow> Inr (ep\<lparr>ep_errors_encountered := errors_of results, ep_current_plan := (if clipped = [] then None else Some clipped),
                           ep_title := ''Legacy summary (no LLM)'', ep_summary := take 500 clipped\<rparr>)
          | Some chat \<Rightarrow>
              (case (case chat c [SystemMsg (cm_prompt cm), UserMsg activity] of Inl _ \<Rightarrow> None | Inr r \<Rightarrow> cr_content r) of
                 None \<Rightarrow> Inr (legacy_episode ''Legacy summary (LLM unavailable)'' clipped ep)
               | Some response \<Rightarrow>
                   (case parsed_object cm response of
                      None \<Rightarrow> Inr (legacy_episode ''Legacy summary (LLM non-JSON)'' (strip response) ep)
                    | Some d \<Rightarrow> structured_episode d (errors_of results) ep)))"

section \<open>Compression\<close>

definition archived_refs :: "thought_entry list \<Rightarrow> tool_result list \<Rightarrow> int list" where
  "archived_refs thoughts results = sort (remdups (map te_seq thoughts @ map trs_event_seq results))"

definition episode_range :: "int list \<Rightarrow> int \<times> int" where
  "episode_range refs = (if refs = [] then (0, 0) else (hd refs, last refs))"

definition write_episode :: "context_manager \<Rightarrow> exec_env \<Rightarrow> string \<Rightarrow> run_state \<Rightarrow> int \<Rightarrow> thought_entry list \<Rightarrow> tool_result list \<Rightarrow> unit action" where
  "write_episode cm env run_id st keep thoughts results c =
     (let refs = archived_refs thoughts results
      in case generate_episode cm st (episode_range refs) refs thoughts results c of
           Inl err \<Rightarrow> (Inl (exc_of_error err), c)
         | Inr ep \<Rightarrow>
             if cm_has_store cm
             then log_append env run_id (PContext (EpisodeArchived \<lparr> ea_episode = ep, ea_keep_recent_count = keep, ea_archived_event_refs = refs \<rparr>)) None c
             else (Inr (), c))"

definition archive_episode :: "context_manager \<Rightarrow> exec_env \<Rightarrow> string \<Rightarrow> run_state \<Rightarrow> unit action" where
  "archive_episode cm env run_id st =
     (let thoughts = but_last_n 2 (rs_thought_history st); results = but_last_n 2 (rs_tool_results st)
      in if thoughts = [] \<and> results = [] then act_return () else write_episode cm env run_id st 2 thoughts results)"

definition emergency_compact :: "context_manager \<Rightarrow> exec_env \<Rightarrow> string \<Rightarrow> run_state \<Rightarrow> unit action" where
  "emergency_compact cm env run_id st =
     write_episode cm env run_id st 3 (but_last_n 3 (rs_thought_history st)) (but_last_n 3 (rs_tool_results st))"

definition lazy_clear :: "context_manager \<Rightarrow> exec_env \<Rightarrow> string \<Rightarrow> run_state \<Rightarrow> unit action" where
  "lazy_clear cm env run_id st =
     (let refs = select_low_importance_events st
      in if refs = [] \<or> \<not> cm_has_store cm then act_return ()
         else log_append env run_id (PContext (ContextPruned \<lparr> cp_pruned_event_refs = refs, cp_pruned_seq_count = int (length refs),
                cp_reason = ''lazy_clear'' \<rparr>)) None)"

definition before_boundary :: "run_state \<Rightarrow> bool" where
  "before_boundary st \<longleftrightarrow> rs_plan_boundary_seqs st \<noteq> [] \<and> rs_seq st < last (rs_plan_boundary_seqs st)"

definition cooling_down :: "context_manager \<Rightarrow> int dict \<Rightarrow> string \<Rightarrow> int \<Rightarrow> bool" where
  "cooling_down cm seen run_id iteration \<longleftrightarrow>
     (let prev = (case dget seen run_id of None \<Rightarrow> 0 | Some n \<Rightarrow> n) in prev > 0 \<and> iteration - prev < cm_cooldown_iterations cm)"

text \<open>The second component of the result is the table of the iterations compressed last.\<close>

definition maybe_compress ::
    "context_manager \<Rightarrow> exec_env \<Rightarrow> string \<Rightarrow> int \<Rightarrow> run_state \<Rightarrow> int dict \<Rightarrow> exec_ctx \<Rightarrow> (py_exc + unit) \<times> int dict \<times> exec_ctx" where
  "maybe_compress cm env run_id iteration st seen c =
     (let estimate = estimate_context_tokens cm st;
          tier = (if estimate > cm_emergency_threshold cm then emergency_compact cm env run_id st
                  else if estimate > cm_compression_threshold cm then archive_episode cm env run_id st
                  else lazy_clear cm env run_id st)
      in if before_boundary st \<or> estimate \<le> cm_lazy_clear_threshold cm \<or> cooling_down cm seen run_id iteration
         then (Inr (), seen, c)
         else (case tier c of (r, c') \<Rightarrow> (r, dset run_id iteration seen, c')))"

section \<open>Checkpoints\<close>

definition try_checkpoint :: "context_manager \<Rightarrow> exec_env \<Rightarrow> string \<Rightarrow> int \<Rightarrow> run_state \<Rightarrow> unit action" where
  "try_checkpoint cm env run_id iteration st =
     (if iteration \<le> 0 then act_return ()
      else if cm_checkpoint_interval cm = 0 then act_raise (other_exc ''ZeroDivisionError'' ''integer modulo by zero'')
      else if iteration mod cm_checkpoint_interval cm \<noteq> 0 then act_return ()
      else if \<not> cm_has_store cm then act_raise (other_exc ''AttributeError'' ''append_event'')
      else log_append env run_id (PContext (ContextCheckpointed \<lparr> cc_checkpoint_seq = rs_seq st,
             cc_snapshot_ref = ''checkpoint_iter_'' @ show_int iteration \<rparr>)) None)"

definition checkpoint_of :: "event \<Rightarrow> int option" where
  "checkpoint_of e = (case ev_payload e of PContext (ContextCheckpointed p) \<Rightarrow> Some (cc_checkpoint_seq p) | _ \<Rightarrow> None)"

definition find_resume_seq :: "event list \<Rightarrow> int" where
  "find_resume_seq events =
     foldl (\<lambda>seen e. case checkpoint_of e of None \<Rightarrow> seen | Some s \<Rightarrow> if s > seen then s else seen) 0 events"

text \<open>What a scheduler does with the manager before each step; the table is the manager's own.\<close>

definition manage_context :: "context_manager \<Rightarrow> exec_env \<Rightarrow> string \<Rightarrow> int \<Rightarrow> run_state \<Rightarrow> int dict \<Rightarrow> exec_ctx \<Rightarrow> (py_exc + unit) \<times> int dict \<times> exec_ctx" where
  "manage_context cm env run_id iteration st seen c =
     (case maybe_compress cm env run_id iteration st seen c of
        (Inl e, seen', c') \<Rightarrow> (Inl e, seen', c')
      | (Inr _, seen', c') \<Rightarrow> (case try_checkpoint cm env run_id iteration st c' of (r, c'') \<Rightarrow> (r, seen', c'')))"

section \<open>The working view\<close>

definition work :: "run_state \<Rightarrow> entry list" where
  "work st = map Thought (rs_thought_history st) @ map Outcome (rs_tool_results st)"

definition work_seqs :: "run_state \<Rightarrow> int list" where
  "work_seqs st = map te_seq (rs_thought_history st) @ map trs_event_seq (rs_tool_results st)"

text \<open>Only thoughts, tool outcomes and context events touch the working view.\<close>

lemma apply_run_work: "rs_thought_history (apply_run p st) = rs_thought_history st" "rs_tool_results (apply_run p st) = rs_tool_results st"
  by (cases p; simp add: Let_def)+

lemma apply_plan_work:
  assumes "apply_plan seq p st = Inr st'"
  shows "rs_thought_history st' = rs_thought_history st" "rs_tool_results st' = rs_tool_results st"
  using assms by (cases p; auto simp: Let_def with_evidence_Inr update_latest_def split: if_splits option.splits)+

lemma update_latest_work:
  "rs_thought_history (update_latest f st) = rs_thought_history st" "rs_tool_results (update_latest f st) = rs_tool_results st"
  by (simp_all add: update_latest_def split: option.split)

lemma record_work:
  assumes "record_plan_step pid sid upd fresh st = Inr st'"
  shows "rs_thought_history st' = rs_thought_history st \<and> rs_tool_results st' = rs_tool_results st"
  using assms by (auto simp: record_plan_step_def rbind_Inr_iff update_latest_work split: option.splits if_splits)

lemma apply_step_work:
  assumes "apply_step seq p st = Inr st'"
  shows "rs_thought_history st' = rs_thought_history st \<and> rs_tool_results st' = rs_tool_results st"
  using assms by (cases p) (auto simp: Let_def touch_evidence_def dest!: record_work)

lemma apply_tool_work:
  "work_seqs (apply_tool seq p st) = work_seqs st \<or> work_seqs (apply_tool seq p st) = work_seqs st @ [seq]"
  by (cases p) (auto simp: work_seqs_def ToolResult0_def Let_def)

lemma filter_map_distinct:
  assumes "distinct (map f xs @ map g ys)"
  shows "distinct (map f (filter p xs) @ map g (filter q ys))"
proof -
  have d: "distinct (map f xs)" "distinct (map g ys)" "f ` set xs \<inter> g ` set ys = {}" using assms by simp_all
  have "f ` set (filter p xs) \<inter> g ` set (filter q ys) \<subseteq> f ` set xs \<inter> g ` set ys" by force
  then show ?thesis using d distinct_map_filter[OF d(1), of p] distinct_map_filter[OF d(2), of q] by simp
qed

lemma drop_refs_work:
  assumes "distinct (work_seqs st)"
  shows "distinct (work_seqs (drop_refs refs st)) \<and> set (work_seqs (drop_refs refs st)) \<subseteq> set (work_seqs st)"
proof
  show "distinct (work_seqs (drop_refs refs st))"
    using filter_map_distinct[OF assms[unfolded work_seqs_def]] by (simp add: work_seqs_def drop_refs_def)
  show "set (work_seqs (drop_refs refs st)) \<subseteq> set (work_seqs st)" by (force simp: work_seqs_def drop_refs_def)
qed

lemma work_seqs_cong:
  "rs_thought_history s = rs_thought_history t \<Longrightarrow> rs_tool_results s = rs_tool_results t \<Longrightarrow> work_seqs s = work_seqs t"
  by (simp add: work_seqs_def)

lemma apply_context_work:
  assumes "distinct (work_seqs st)"
  shows "distinct (work_seqs (apply_context p st)) \<and> set (work_seqs (apply_context p st)) \<subseteq> set (work_seqs st)"
proof (cases p)
  case (ContextCheckpointed q)
  then have "work_seqs (apply_context p st) = work_seqs st" by (simp add: work_seqs_def)
  with assms show ?thesis by simp
next
  case (EpisodeArchived q)
  let ?s = "st\<lparr>rs_summary := Some (SumEpisode (ea_episode q)), rs_episodes := rs_episodes st @ [ea_episode q],
    rs_keep_recent_count := ea_keep_recent_count q\<rparr>"
  have w: "work_seqs ?s = work_seqs st" by (simp add: work_seqs_def)
  then show ?thesis using drop_refs_work[of ?s] assms EpisodeArchived unfolding w by simp
next
  case (ContextPruned q)
  then show ?thesis using drop_refs_work[OF assms] by simp
qed

lemma apply_payload_work:
  assumes "apply_payload seq p st = Inr st'" "distinct (work_seqs st)" "seq \<notin> set (work_seqs st)"
  shows "distinct (work_seqs st') \<and> set (work_seqs st') \<subseteq> insert seq (set (work_seqs st))"
proof -
  have ?thesis if "work_seqs st' = work_seqs st" using that assms by (simp add: subset_insertI)
  note same = this[OF work_seqs_cong]
  show ?thesis
  proof (cases p)
    case (PRun q) then show ?thesis using assms(1) by (intro same) (auto simp: apply_run_work)
  next
    case (PAgentThought q)
    then have "work_seqs st' = map te_seq (rs_thought_history st) @ seq # map trs_event_seq (rs_tool_results st)"
      using assms(1) by (auto simp: work_seqs_def apply_thought_def Let_def)
    then show ?thesis using assms(2,3) by (simp add: work_seqs_def)
  next
    case (PTool q) then show ?thesis using assms apply_tool_work[of seq q st] by auto
  next
    case (PConfirmation q) then show ?thesis using assms(1) by (intro same; cases q) auto
  next
    case (PContext q) then show ?thesis using assms apply_context_work[of st q] by auto
  next
    case (PPlan q) then show ?thesis using assms(1) apply_plan_work[of seq q st st'] by (intro same) simp_all
  next
    case (PStep q) then show ?thesis using assms(1) apply_step_work[of seq q st st'] by (intro same) simp_all
  next
    case (PFeedbackInjected q) then show ?thesis using assms(1) by (intro same) (auto simp: apply_feedback_def Let_def)
  qed (use assms(1) in \<open>(intro same; auto)+\<close>)
qed

lemma folded_work:
  assumes "fold_result apply_event es (RunState0 rid) = Inr st" "distinct (map ev_seq es)"
  shows "distinct (work_seqs st) \<and> set (work_seqs st) \<subseteq> set (map ev_seq es)"
  using assms
proof (induction rule: fold_state_induct)
  case init
  then show ?case by (simp add: work_seqs_def RunState0_def)
next
  case (step es e s s')
  have p: "apply_payload (ev_seq e) (ev_payload e) (s\<lparr>rs_seq := max (rs_seq s) (ev_seq e)\<rparr>) = Inr s'"
    using step.hyps by (simp add: apply_event_Inr)
  have w: "work_seqs (s\<lparr>rs_seq := n\<rparr>) = work_seqs s" for n by (simp add: work_seqs_def)
  have ih: "distinct (work_seqs s)" "set (work_seqs s) \<subseteq> set (map ev_seq es)" using step by auto
  have "ev_seq e \<notin> set (map ev_seq es)" using step.prems by simp
  with ih(2) have "ev_seq e \<notin> set (work_seqs s)" by blast
  from apply_payload_work[OF p] ih this show ?case unfolding w by auto
qed

lemma get_events_distinct:
  assumes "store_wf s"
  shows "distinct (map ev_seq (get_events s run_id))"
proof -
  have c: "distinct (map er_seq (run_rows run_id (es_events s)))"
    using assms by (simp add: store_wf_def rows_wf_def contiguous_def)
  have "distinct (map ev_seq (events_of_rows rows)) \<and> set (map ev_seq (events_of_rows rows)) \<subseteq> set (map er_seq rows)"
    if "distinct (map er_seq rows)" for rows
    using that by (induction rows) (auto simp: events_of_rows_def map_filter_simps split: row_body.splits option.splits)
  with c assms show ?thesis by (simp add: get_events_rows store_wf_def)
qed

section \<open>What compression keeps\<close>

lemma but_last_n_split: "0 < n \<Longrightarrow> but_last_n n xs = take (length xs - nat n) xs"
  by (auto simp: but_last_n_def slice_to_def)

lemma dropped_are_old:
  assumes "distinct (map f xs)" "2 \<le> n" "\<And>x. x \<in> set xs \<Longrightarrow> f x \<in> set refs \<Longrightarrow> x \<in> set (but_last_n n xs)"
  shows "\<exists>as. filter (\<lambda>x. f x \<notin> set refs) xs = as @ last_n 2 xs"
proof -
  let ?m = "length xs - 2"
  have "f x \<notin> set refs" if x: "x \<in> set (drop ?m xs)" for x
  proof
    assume r: "f x \<in> set refs"
    have "x \<in> set (but_last_n n xs)" using assms(3)[OF in_set_dropD[OF x] r] .
    then have "x \<in> set (take (length xs - nat n) xs)" using assms(2) by (simp add: but_last_n_split)
    then have "x \<in> set (take ?m xs)" using set_take_subset_set_take[of "length xs - nat n" ?m xs] assms(2) by (simp add: subset_iff)
    then show False using x set_take_disj_set_drop_if_distinct[OF conjunct1[OF distinct_map[THEN iffD1, OF assms(1)]], of ?m ?m] by auto
  qed
  then have "filter (\<lambda>x. f x \<notin> set refs) (drop ?m xs) = drop ?m xs" by (simp add: filter_id_conv)
  moreover have "filter (\<lambda>x. f x \<notin> set refs) xs = filter (\<lambda>x. f x \<notin> set refs) (take ?m xs) @ filter (\<lambda>x. f x \<notin> set refs) (drop ?m xs)"
    by (metis append_take_drop_id filter_append)
  ultimately show ?thesis by (simp add: last_n_def)
qed

text \<open>The entries outside a window, and references that name only those.\<close>

definition old_work :: "int \<Rightarrow> run_state \<Rightarrow> entry list" where
  "old_work n st = map Thought (but_last_n n (rs_thought_history st)) @ map Outcome (but_last_n n (rs_tool_results st))"

lemma set_but_last_n: "set (but_last_n n xs) \<subseteq> set xs"
  by (auto simp: but_last_n_def slice_to_def dest: in_set_takeD)

lemma old_work_sub: "set (old_work n st) \<subseteq> set (work st)"
proof -
  have "set (but_last_n n (rs_thought_history st)) \<subseteq> set (rs_thought_history st)"
    "set (but_last_n n (rs_tool_results st)) \<subseteq> set (rs_tool_results st)" by (rule set_but_last_n)+
  then show ?thesis by (simp add: old_work_def work_def) blast
qed

lemma work_seqs_inj:
  assumes "distinct (work_seqs st)" "x \<in> set (work st)" "y \<in> set (work st)" "entry_seq x = entry_seq y"
  shows "x = y"
proof -
  have "map entry_seq (work st) = work_seqs st" by (simp add: work_def work_seqs_def)
  then have "inj_on entry_seq (set (work st))" using assms(1) by (metis distinct_map)
  then show ?thesis using assms(2-4) by (simp add: inj_on_def)
qed

lemma names_old:
  assumes "distinct (work_seqs st)" "set refs \<subseteq> entry_seq ` set (old_work n st)" "x \<in> set (work st)" "entry_seq x \<in> set refs"
  shows "x \<in> set (old_work n st)"
proof -
  obtain y where y: "y \<in> set (old_work n st)" "entry_seq x = entry_seq y" using assms(2,4) by blast
  then have "x = y" using work_seqs_inj[OF assms(1,3)] old_work_sub by blast
  with y show ?thesis by simp
qed

lemma entry_in_work [simp]:
  "Thought t \<in> set (work st) \<longleftrightarrow> t \<in> set (rs_thought_history st)" "Outcome tr \<in> set (work st) \<longleftrightarrow> tr \<in> set (rs_tool_results st)"
  by (auto simp: work_def)

lemma drop_refs_recent:
  assumes d: "distinct (work_seqs st)" and n: "2 \<le> n" and refs: "set refs \<subseteq> entry_seq ` set (old_work n st)"
  shows "\<exists>as. rs_thought_history (drop_refs refs st) = as @ last_n 2 (rs_thought_history st)"
    and "\<exists>as. rs_tool_results (drop_refs refs st) = as @ last_n 2 (rs_tool_results st)"
proof -
  have t: "t \<in> set (but_last_n n (rs_thought_history st))" if "t \<in> set (rs_thought_history st)" "te_seq t \<in> set refs" for t
    using names_old[OF d refs, of "Thought t"] that by (auto simp: old_work_def)
  have r: "tr \<in> set (but_last_n n (rs_tool_results st))" if "tr \<in> set (rs_tool_results st)" "trs_event_seq tr \<in> set refs" for tr
    using names_old[OF d refs, of "Outcome tr"] that by (auto simp: old_work_def)
  have "distinct (map te_seq (rs_thought_history st))" "distinct (map trs_event_seq (rs_tool_results st))"
    using d by (simp_all add: work_seqs_def)
  from dropped_are_old[OF this(1) n t] dropped_are_old[OF this(2) n r]
  show "\<exists>as. rs_thought_history (drop_refs refs st) = as @ last_n 2 (rs_thought_history st)"
    "\<exists>as. rs_tool_results (drop_refs refs st) = as @ last_n 2 (rs_tool_results st)" by (simp_all add: drop_refs_def)
qed

lemma drop_refs_lost:
  "x \<in> set (work st) \<Longrightarrow> x \<notin> set (work (drop_refs refs st)) \<Longrightarrow> entry_seq x \<in> set refs"
  "set (work (drop_refs refs st)) \<subseteq> set (work st)"
  by (cases x) (auto simp: drop_refs_def work_def)

section \<open>The events of each tier\<close>

lemma archived_refs_old:
  "set (archived_refs (but_last_n n (rs_thought_history st)) (but_last_n n (rs_tool_results st))) = entry_seq ` set (old_work n st)"
  by (auto simp: archived_refs_def old_work_def image_Un image_image)

lemma low_score: "score_event_importance x \<le> 2 / 10 \<Longrightarrow> \<exists>tr. x = Outcome tr \<and> trs_status tr = TRS_COMPLETED"
proof (cases x)
  case (Outcome tr)
  assume "score_event_importance x \<le> 2 / 10"
  then show ?thesis using Outcome by (cases "trs_status tr") simp_all
qed (auto split: if_splits)

lemma pruned_refs:
  assumes "s \<in> set (select_low_importance_events st)"
  shows "\<exists>tr. Outcome tr \<in> set (old_work (max (rs_keep_recent_count st) 2) st) \<and> trs_status tr = TRS_COMPLETED \<and> s = trs_event_seq tr"
proof -
  let ?k = "max (rs_keep_recent_count st) 2"
  consider t where "score_event_importance (Thought t) \<le> 2 / 10"
    | tr where "tr \<in> set (but_last_n ?k (rs_tool_results st))" "score_event_importance (Outcome tr) \<le> 2 / 10" "s = trs_event_seq tr"
    using assms unfolding select_low_importance_events_def Let_def set_append set_map set_filter by blast
  then show ?thesis
  proof cases
    case (1 t)
    from low_score[OF 1] show ?thesis by simp
  next
    case (2 tr)
    from low_score[OF 2(2)] have "trs_status tr = TRS_COMPLETED" by simp
    with 2(1,3) show ?thesis by (auto simp: old_work_def)
  qed
qed

lemma structured_refs: "structured_episode d errs e = Inr e' \<Longrightarrow> ep_original_event_refs e' = ep_original_event_refs e"
  unfolding structured_episode_def Let_def by (auto simp: rbind_Inr_iff rmap_Inr)

lemma episode_refs:
  assumes "generate_episode cm st rng refs ths rss c = Inr ep"
  shows "ep_original_event_refs ep = sort refs"
proof -
  let ?b = "base_episode cm st rng refs ths rss"
  have b: "ep_original_event_refs ?b = sort refs" by (simp add: base_episode_def)
  obtain a where a: "activity_text st ths rss = Inr a" using assms by (auto simp: generate_episode_def rbind_Inr_iff)
  show ?thesis
  proof (cases "cm_llm cm")
    case None
    then show ?thesis using assms a b by (auto simp: generate_episode_def Let_def)
  next
    case (Some chat)
    let ?r = "case chat c [SystemMsg (cm_prompt cm), UserMsg a] of Inl _ \<Rightarrow> None | Inr r \<Rightarrow> cr_content r"
    have g: "generate_episode cm st rng refs ths rss c =
      (case ?r of None \<Rightarrow> Inr (legacy_episode ''Legacy summary (LLM unavailable)'' (clip_activity a) ?b)
       | Some response \<Rightarrow> (case parsed_object cm response of
            None \<Rightarrow> Inr (legacy_episode ''Legacy summary (LLM non-JSON)'' (strip response) ?b)
          | Some d \<Rightarrow> structured_episode d (errors_of rss) ?b))"
      unfolding generate_episode_def by (simp add: a Some Let_def)
    show ?thesis
    proof (cases ?r)
      case None
      then show ?thesis using assms b unfolding g by (auto simp: legacy_episode_def)
    next
      case (Some response)
      then show ?thesis using assms b structured_refs unfolding g
        by (cases "parsed_object cm response") (auto simp: legacy_episode_def)
    qed
  qed
qed

lemma fold_append_context:
  assumes ok: "log_ok env run_id c" and f: "fold_events (get_events (xc_store c) run_id) = Inr st"
    and a: "log_append env run_id (PContext q) None c = (r, c')"
  shows "\<exists>n. fold_events (get_events (xc_store c') run_id) = Inr (apply_context q (st\<lparr>rs_seq := n\<rparr>))"
proof -
  have wf: "store_wf (xc_store c)" using ok by (simp add: log_ok_def)
  have w: "wrote env run_id c [(PContext q, None)] c'" using log_append_ok[OF ok, of "PContext q"] a by auto
  obtain es where es: "get_events (xc_store c') run_id = get_events (xc_store c) run_id @ es" "map ev_payload es = [PContext q]"
    "\<And>e. e \<in> set es \<Longrightarrow> ev_run_id e = run_id" using wrote_get_events[OF wf w] by auto
  then obtain e where e: "es = [e]" "ev_payload e = PContext q" "ev_run_id e = run_id" by auto
  have ne: "get_events (xc_store c) run_id \<noteq> []"
    and g: "fold_result apply_event (get_events (xc_store c) run_id) (RunState0 (ev_run_id (hd (get_events (xc_store c) run_id)))) = Inr st"
    using f by (auto simp: fold_events_Inr)
  have "ev_run_id (hd (get_events (xc_store c) run_id)) = run_id" using get_events_run_id[OF wf] ne by simp
  then have "rs_run_id st = run_id" using fold_run_id[OF f hd_in_set[OF ne]] by simp
  then show ?thesis using g ne by (auto simp: es(1) e fold_events_Inr fold_result_append apply_event_def)
qed

definition retains :: "run_state \<Rightarrow> run_state \<Rightarrow> bool" where
  "retains st st' \<longleftrightarrow> trusted st' = trusted st
     \<and> (\<exists>as. rs_thought_history st' = as @ last_n 2 (rs_thought_history st))
     \<and> (\<exists>bs. rs_tool_results st' = bs @ last_n 2 (rs_tool_results st))
     \<and> set (work st') \<subseteq> set (work st)
     \<and> (\<forall>x\<in>set (work st) - set (work st').
          (\<exists>ep. rs_summary st' = Some (SumEpisode ep) \<and> entry_seq x \<in> set (ep_original_event_refs ep))
          \<or> (\<exists>tr. x = Outcome tr \<and> trs_status tr = TRS_COMPLETED))"

lemma last_n_suffix: "\<exists>as. xs = as @ last_n n xs"
  unfolding last_n_def by (metis append_take_drop_id)

lemma retains_refl: "retains st st"
  unfolding retains_def using last_n_suffix[of "rs_thought_history st" 2] last_n_suffix[of "rs_tool_results st" 2] by blast

lemma retains_drop:
  assumes d: "distinct (work_seqs st)" and n: "2 \<le> n" and refs: "set refs \<subseteq> entry_seq ` set (old_work n st)"
    and lost: "\<And>x. x \<in> set (work st) \<Longrightarrow> entry_seq x \<in> set refs \<Longrightarrow>
      (\<exists>ep. rs_summary st' = Some (SumEpisode ep) \<and> entry_seq x \<in> set (ep_original_event_refs ep))
      \<or> (\<exists>tr. x = Outcome tr \<and> trs_status tr = TRS_COMPLETED)"
    and t: "trusted st' = trusted st" and w: "rs_thought_history st' = rs_thought_history (drop_refs refs st)"
      "rs_tool_results st' = rs_tool_results (drop_refs refs st)"
  shows "retains st st'"
proof -
  have work': "work st' = work (drop_refs refs st)" using w by (simp add: work_def)
  show ?thesis unfolding retains_def
  proof (intro conjI)
    show "\<exists>as. rs_thought_history st' = as @ last_n 2 (rs_thought_history st)" "\<exists>bs. rs_tool_results st' = bs @ last_n 2 (rs_tool_results st)"
      using drop_refs_recent[OF d n refs] w by simp_all
    show "\<forall>x\<in>set (work st) - set (work st').
          (\<exists>ep. rs_summary st' = Some (SumEpisode ep) \<and> entry_seq x \<in> set (ep_original_event_refs ep))
          \<or> (\<exists>tr. x = Outcome tr \<and> trs_status tr = TRS_COMPLETED)"
      using lost drop_refs_lost(1)[of _ st refs] unfolding work' by blast
    show "set (work st') \<subseteq> set (work st)" unfolding work' by (rule drop_refs_lost(2))
  qed (rule t)
qed

text \<open>One attempt of a tier on the log: the state read afterwards retains what was there before.\<close>

definition settles :: "exec_env \<Rightarrow> string \<Rightarrow> run_state \<Rightarrow> unit action \<Rightarrow> bool" where
  "settles env run_id st m \<longleftrightarrow>
     (\<forall>c r c'. log_ok env run_id c \<longrightarrow> fold_events (get_events (xc_store c) run_id) = Inr st \<longrightarrow> m c = (r, c')
        \<longrightarrow> (\<exists>st'. fold_events (get_events (xc_store c') run_id) = Inr st' \<and> retains st st'))"

lemma folded_work_distinct:
  assumes "log_ok env run_id c" "fold_events (get_events (xc_store c) run_id) = Inr st"
  shows "distinct (work_seqs st)"
  using assms folded_work get_events_distinct by (fastforce simp: fold_events_Inr log_ok_def)

lemma settles_return: "settles env run_id st (act_return ())"
  using retains_refl by (auto simp: settles_def act_return_def)

lemma settles_lazy_clear: "settles env run_id st (lazy_clear cm env run_id st)"
proof (cases "select_low_importance_events st = [] \<or> \<not> cm_has_store cm")
  case True
  then show ?thesis using settles_return by (simp add: lazy_clear_def Let_def)
next
  case False
  let ?refs = "select_low_importance_events st"
  let ?q = "ContextPruned \<lparr> cp_pruned_event_refs = ?refs, cp_pruned_seq_count = int (length ?refs), cp_reason = ''lazy_clear'' \<rparr>"
  have m: "lazy_clear cm env run_id st = log_append env run_id (PContext ?q) None" using False by (simp add: lazy_clear_def Let_def)
  show ?thesis unfolding settles_def m
  proof (intro allI impI)
    fix c r c' assume ok: "log_ok env run_id c" "fold_events (get_events (xc_store c) run_id) = Inr st"
      and a: "log_append env run_id (PContext ?q) None c = (r, c')"
    obtain n where n: "fold_events (get_events (xc_store c') run_id) = Inr (apply_context ?q (st\<lparr>rs_seq := n\<rparr>))"
      using fold_append_context[OF ok a] by blast
    have d: "distinct (work_seqs st)" by (rule folded_work_distinct[OF ok])
    have sub: "set ?refs \<subseteq> entry_seq ` set (old_work (max (rs_keep_recent_count st) 2) st)" using pruned_refs by force
    have "retains st (apply_context ?q (st\<lparr>rs_seq := n\<rparr>))"
    proof (rule retains_drop[OF d _ sub])
      fix x assume x: "x \<in> set (work st)" "entry_seq x \<in> set ?refs"
      obtain tr where tr: "Outcome tr \<in> set (old_work (max (rs_keep_recent_count st) 2) st)" "trs_status tr = TRS_COMPLETED"
        "entry_seq x = trs_event_seq tr" using pruned_refs[OF x(2)] by blast
      have "Outcome tr \<in> set (work st)" using tr(1) old_work_sub by blast
      then have "x = Outcome tr" using work_seqs_inj[OF d x(1), of "Outcome tr"] tr(3) by simp
      with tr(2) show "(\<exists>ep. rs_summary (apply_context ?q (st\<lparr>rs_seq := n\<rparr>)) = Some (SumEpisode ep) \<and> entry_seq x \<in> set (ep_original_event_refs ep))
        \<or> (\<exists>tr. x = Outcome tr \<and> trs_status tr = TRS_COMPLETED)" by blast
    qed (simp_all add: drop_refs_def trusted_def)
    with n show "\<exists>st'. fold_events (get_events (xc_store c') run_id) = Inr st' \<and> retains st st'" by blast
  qed
qed

lemma settles_write_episode:
  assumes k: "2 \<le> n" and keep: "ths = but_last_n n (rs_thought_history st)" "rss = but_last_n n (rs_tool_results st)"
  shows "settles env run_id st (write_episode cm env run_id st k ths rss)"
  unfolding settles_def
proof (intro allI impI)
  fix c r c' assume ok: "log_ok env run_id c" "fold_events (get_events (xc_store c) run_id) = Inr st"
    and m: "write_episode cm env run_id st k ths rss c = (r, c')"
  let ?refs = "archived_refs ths rss"
  consider "c' = c" | ep where "generate_episode cm st (episode_range ?refs) ?refs ths rss c = Inr ep"
      "log_append env run_id (PContext (EpisodeArchived \<lparr> ea_episode = ep, ea_keep_recent_count = k, ea_archived_event_refs = ?refs \<rparr>)) None c = (r, c')"
    using m unfolding write_episode_def Let_def by (auto split: sum.splits if_splits)
  then show "\<exists>st'. fold_events (get_events (xc_store c') run_id) = Inr st' \<and> retains st st'"
  proof cases
    case 1
    with ok(2) retains_refl show ?thesis by blast
  next
    case (2 ep)
    let ?q = "EpisodeArchived \<lparr> ea_episode = ep, ea_keep_recent_count = k, ea_archived_event_refs = ?refs \<rparr>"
    obtain i where i: "fold_events (get_events (xc_store c') run_id) = Inr (apply_context ?q (st\<lparr>rs_seq := i\<rparr>))"
      using fold_append_context[OF ok 2(2)] by blast
    have sub: "set ?refs \<subseteq> entry_seq ` set (old_work n st)" using archived_refs_old keep by simp
    have ep: "set (ep_original_event_refs ep) = set ?refs" using episode_refs[OF 2(1)] by simp
    have "retains st (apply_context ?q (st\<lparr>rs_seq := i\<rparr>))"
      by (rule retains_drop[OF folded_work_distinct[OF ok] k sub]) (simp_all add: drop_refs_def trusted_def ep)
    with i show ?thesis by blast
  qed
qed

text \<open>
  C5: Context compression, whatever tier it takes and whether or not it raises: the state folded from the log afterwards
  has the same trusted part; the last two thoughts and the last two tool outcomes are still in the working view; nothing
  was added to it; and what left it is either named by the episode that now stands as the summary, or a completed
  tool outcome.
\<close>

theorem compression_keeps_recent_work:
  assumes "log_ok env run_id c" "fold_events (get_events (xc_store c) run_id) = Inr st"
    and "maybe_compress cm env run_id iteration st seen c = (r, seen', c')"
  shows "\<exists>st'. fold_events (get_events (xc_store c') run_id) = Inr st' \<and> trusted st' = trusted st
     \<and> (\<exists>as. rs_thought_history st' = as @ last_n 2 (rs_thought_history st))
     \<and> (\<exists>bs. rs_tool_results st' = bs @ last_n 2 (rs_tool_results st))
     \<and> set (work st') \<subseteq> set (work st)
     \<and> (\<forall>x\<in>set (work st) - set (work st').
          (\<exists>ep. rs_summary st' = Some (SumEpisode ep) \<and> entry_seq x \<in> set (ep_original_event_refs ep))
          \<or> (\<exists>tr. x = Outcome tr \<and> trs_status tr = TRS_COMPLETED))"
proof -
  have e: "settles env run_id st (emergency_compact cm env run_id st)"
    unfolding emergency_compact_def by (rule settles_write_episode[of 3]) simp_all
  have a: "settles env run_id st (archive_episode cm env run_id st)"
    unfolding archive_episode_def Let_def using settles_return settles_write_episode[of 2] by simp
  let ?tier = "if estimate_context_tokens cm st > cm_emergency_threshold cm then emergency_compact cm env run_id st
    else if estimate_context_tokens cm st > cm_compression_threshold cm then archive_episode cm env run_id st
    else lazy_clear cm env run_id st"
  have t: "settles env run_id st ?tier" using e a settles_lazy_clear by simp
  have "c' = c \<or> (\<exists>r'. ?tier c = (r', c'))"
    using assms(3) unfolding maybe_compress_def Let_def by (auto split: if_splits prod.splits)
  then have "\<exists>st'. fold_events (get_events (xc_store c') run_id) = Inr st' \<and> retains st st'"
    using assms(1,2) t retains_refl unfolding settles_def by blast
  then show ?thesis unfolding retains_def .
qed

section \<open>The schedulers' view of the manager\<close>

text \<open>
  What a scheduler runs before a step. The iteration and the manager's table, as they stand at that point of the run, are
  functions of the state.
\<close>

definition context_step ::
    "context_manager \<Rightarrow> exec_env \<Rightarrow> string \<Rightarrow> (exec_ctx \<Rightarrow> run_state \<Rightarrow> int) \<Rightarrow> (exec_ctx \<Rightarrow> int dict) \<Rightarrow> unit action" where
  "context_step cm env run_id iteration seen =
     act_bind (refresh_state env run_id) (\<lambda>st c. case manage_context cm env run_id (iteration c st) st (seen c) c of (r, _, c') \<Rightarrow> (r, c'))"

text \<open>After a completed plan the scheduler compresses without a checkpoint.\<close>

definition compact_step ::
    "context_manager \<Rightarrow> exec_env \<Rightarrow> string \<Rightarrow> (exec_ctx \<Rightarrow> run_state \<Rightarrow> int) \<Rightarrow> (exec_ctx \<Rightarrow> int dict) \<Rightarrow> unit action" where
  "compact_step cm env run_id iteration seen =
     act_bind (refresh_state env run_id) (\<lambda>st c. case maybe_compress cm env run_id (iteration c st) st (seen c) c of (r, _, c') \<Rightarrow> (r, c'))"

lemma mute_raise: "mute env run_id (act_raise e)"
  by (rule mute_pure) (simp add: act_raise_def)

lemma mute_context_event: "mute env run_id (log_append env run_id (PContext q) None)"
  by (rule mute_log_append) simp

lemma mute_write_episode: "mute env run_id (write_episode cm env run_id st k ths rss)"
  unfolding mute_def
proof (intro allI impI)
  fix c assume ok: "log_ok env run_id c"
  let ?refs = "archived_refs ths rss"
  show "ensures (write_episode cm env run_id st k ths rss) c (\<lambda>r c'. log_ok env run_id c' \<and> statuses c' run_id = statuses c run_id)"
  proof (cases "generate_episode cm st (episode_range ?refs) ?refs ths rss c")
    case (Inr ep)
    then show ?thesis using ok mute_context_event[unfolded mute_def]
      by (cases "cm_has_store cm") (auto simp: ensures_def write_episode_def Let_def)
  qed (use ok in \<open>simp add: ensures_def write_episode_def Let_def\<close>)
qed

lemma mute_tiers: "mute env run_id (lazy_clear cm env run_id st)" "mute env run_id (archive_episode cm env run_id st)"
  "mute env run_id (emergency_compact cm env run_id st)" "mute env run_id (try_checkpoint cm env run_id i st)"
  by (simp_all add: lazy_clear_def archive_episode_def emergency_compact_def try_checkpoint_def Let_def
      mute_context_event mute_return mute_write_episode mute_raise)

lemma maybe_compress_mute:
  assumes "log_ok env run_id c" "maybe_compress cm env run_id i st seen c = (r, seen', c')"
  shows "log_ok env run_id c' \<and> statuses c' run_id = statuses c run_id"
proof -
  let ?tier = "if estimate_context_tokens cm st > cm_emergency_threshold cm then emergency_compact cm env run_id st
    else if estimate_context_tokens cm st > cm_compression_threshold cm then archive_episode cm env run_id st
    else lazy_clear cm env run_id st"
  have "mute env run_id ?tier" by (simp add: mute_tiers)
  moreover have "c' = c \<or> (\<exists>r'. ?tier c = (r', c'))"
    using assms(2) unfolding maybe_compress_def Let_def by (auto split: if_splits prod.splits)
  ultimately show ?thesis using assms(1) muteD by blast
qed

lemma manage_context_mute:
  assumes ok: "log_ok env run_id c" and m: "manage_context cm env run_id i st seen c = (r, seen', c')"
  shows "log_ok env run_id c' \<and> statuses c' run_id = statuses c run_id"
proof -
  obtain r1 s1 c1 where c1: "maybe_compress cm env run_id i st seen c = (r1, s1, c1)" using prod_cases3 by blast
  note k = maybe_compress_mute[OF ok c1]
  show ?thesis
  proof (cases r1)
    case (Inl e)
    then show ?thesis using m c1 k by (simp add: manage_context_def)
  next
    case (Inr u)
    obtain r2 c2 where "try_checkpoint cm env run_id i st c1 = (r2, c2)" by fastforce
    then show ?thesis using m c1 k Inr muteD[OF mute_tiers(4), of env run_id c1 cm i st r2 c2] by (simp add: manage_context_def)
  qed
qed

text \<open>
  Compressing and checkpointing never write a run status, whether they return or raise: the context manager satisfies
  what both schedulers assume of it (\<^const>\<open>sx_compress\<close>, \<^const>\<open>sx_compact\<close>).
\<close>

lemma context_manager_is_mute:
  "mute env run_id (context_step cm env run_id iteration seen)" "mute env run_id (compact_step cm env run_id iteration seen)"
proof -
  have manage: "mute env run_id (\<lambda>c. case manage_context cm env run_id (iteration c st) st (seen c) c of (r, _, c') \<Rightarrow> (r, c'))" for st
    unfolding mute_def ensures_def using manage_context_mute by (auto split: prod.splits)
  have compact: "mute env run_id (\<lambda>c. case maybe_compress cm env run_id (iteration c st) st (seen c) c of (r, _, c') \<Rightarrow> (r, c'))" for st
    unfolding mute_def ensures_def using maybe_compress_mute by (auto split: prod.splits)
  have refresh: "mute env run_id (refresh_state env run_id)" by (rule mute_pure) (simp add: refresh_state_def split: sum.split)
  show "mute env run_id (context_step cm env run_id iteration seen)" unfolding context_step_def by (rule mute_bind[OF refresh manage])
  show "mute env run_id (compact_step cm env run_id iteration seen)" unfolding compact_step_def by (rule mute_bind[OF refresh compact])
qed

section \<open>Tiers and cooldown\<close>

text \<open>
  Rounding of products that is monotone and exact on the limit keeps the tiers apart: the three thresholds are ordered
  and lie within the token limit, so each estimate falls in exactly one tier.
\<close>

lemma int_of_float_mono: "x \<le> y \<Longrightarrow> int_of_float x \<le> int_of_float y"
  unfolding int_of_float_def by (auto intro: floor_mono order_trans[of _ 0])

theorem tier_thresholds_are_ordered:
  assumes "init_context_manager fl cm limit compression_ratio emergency_ratio lazy_ratio = Inr cm'"
    and "mono fl" "fl 0 = 0" "fl (of_int limit) = of_int limit" "0 < limit"
  shows "0 \<le> cm_lazy_clear_threshold cm' \<and> cm_lazy_clear_threshold cm' \<le> cm_compression_threshold cm'
     \<and> cm_compression_threshold cm' \<le> cm_emergency_threshold cm' \<and> cm_emergency_threshold cm' \<le> cm_token_limit cm'"
proof -
  have r: "0 < lazy_ratio" "lazy_ratio \<le> compression_ratio" "compression_ratio \<le> emergency_ratio" "emergency_ratio \<le> 1"
    and cm': "cm_compression_threshold cm' = threshold_of fl limit compression_ratio"
      "cm_emergency_threshold cm' = threshold_of fl limit emergency_ratio"
      "cm_lazy_clear_threshold cm' = threshold_of fl limit lazy_ratio" "cm_token_limit cm' = limit"
    using assms(1) by (auto simp: init_context_manager_def split: if_splits)
  have m: "threshold_of fl limit p \<le> threshold_of fl limit q" if "p \<le> q" for p q
    unfolding threshold_of_def assms(4) using assms(5) that
    by (intro int_of_float_mono monoD[OF assms(2)] mult_left_mono) simp_all
  have "threshold_of fl limit 1 = limit" "threshold_of fl limit 0 = 0"
    using assms(3-5) by (simp_all add: threshold_of_def int_of_float_def)
  then show ?thesis unfolding cm' using m[OF r(2)] m[OF r(3)] m[OF r(4)] m[of 0 lazy_ratio] r(1) by simp
qed

text \<open>Once a run was compressed at an iteration past the first, it is left alone until the cooldown is over.\<close>

lemma cooldown_holds:
  assumes "maybe_compress cm env run_id i st seen c = (r, seen', c')" "seen' \<noteq> seen" "0 < i" "j - i < cm_cooldown_iterations cm"
  shows "maybe_compress cm env run_id j st2 seen' d = (Inr (), seen', d)"
proof -
  have "seen' = dset run_id i seen" using assms(1,2) unfolding maybe_compress_def Let_def by (auto split: if_splits prod.splits)
  then have "cooling_down cm seen' run_id j" using assms(3,4) by (simp add: cooling_down_def Let_def dict_simps)
  then show ?thesis by (simp add: maybe_compress_def Let_def)
qed

section \<open>Two ways compression goes wrong\<close>

lemma structured_tools_null: "dget d ''tools_used'' = Some JNull \<Longrightarrow> \<exists>err. structured_episode d errors ep = Inl err"
  unfolding structured_episode_def Let_def by (cases "structured_episode d errors ep") (auto simp: structured_episode_def Let_def rbind_Inr_iff rmap_Inr strs_value_def)

lemma episode_tools_null:
  assumes "cm_llm cm = Some chat" "\<And>ms. chat c ms = Inr reply" "cr_content reply = Some response"
    and "parsed_object cm response = Some d" "dget d ''tools_used'' = Some JNull"
  shows "\<exists>err. generate_episode cm st rng refs ths rss c = Inl err"
proof (cases "activity_text st ths rss")
  case (Inr a)
  then show ?thesis using assms structured_tools_null[OF assms(5)] by (simp add: generate_episode_def Let_def)
qed (simp add: generate_episode_def)

text \<open>
  A summary that is valid JSON but does not fit the episode (here: \<^verbatim>\<open>"tools_used": null\<close>) is not absorbed like
  a missing or unreadable one: building the episode raises, the exception leaves \<^verbatim>\<open>maybe_compress\<close>, nothing is
  written, and the cooldown has been armed for nothing.
\<close>

theorem malformed_summary_is_fatal:
  assumes "cm_llm cm = Some chat" "\<And>ms. chat c ms = Inr reply" "cr_content reply = Some response"
    and "parsed_object cm response = Some d" "dget d ''tools_used'' = Some JNull"
    and "\<not> before_boundary st" "\<not> cooling_down cm seen run_id iteration"
    and "cm_lazy_clear_threshold cm \<le> cm_emergency_threshold cm" "cm_emergency_threshold cm < estimate_context_tokens cm st"
  shows "\<exists>e. maybe_compress cm env run_id iteration st seen c = (Inl e, dset run_id iteration seen, c)"
proof -
  let ?ths = "but_last_n 3 (rs_thought_history st)" and ?rss = "but_last_n 3 (rs_tool_results st)"
  let ?refs = "archived_refs ?ths ?rss"
  obtain err where "generate_episode cm st (episode_range ?refs) ?refs ?ths ?rss c = Inl err"
    using episode_tools_null[OF assms(1-5)] by blast
  then have "emergency_compact cm env run_id st c = (Inl (exc_of_error err), c)"
    by (simp add: emergency_compact_def write_episode_def Let_def)
  then show ?thesis using assms(6-9) by (auto simp: maybe_compress_def Let_def)
qed

text \<open>
  Emergency compaction does not ask whether there is anything to compact: with at most three thoughts and three
  outcomes in view it archives an episode of no events. The view is as long as before, and the summary that stood for
  all earlier archived work is replaced by the empty one.
\<close>

lemma emergency_compact_of_nothing:
  assumes ok: "log_ok env run_id c" "fold_events (get_events (xc_store c) run_id) = Inr st"
    and few: "length (rs_thought_history st) \<le> 3" "length (rs_tool_results st) \<le> 3"
    and s: "cm_has_store cm" and g: "generate_episode cm st (0, 0) [] [] [] c = Inr ep"
  shows "\<exists>c' st'. emergency_compact cm env run_id st c = (Inr (), c') \<and> fold_events (get_events (xc_store c') run_id) = Inr st'
     \<and> work st' = work st \<and> rs_summary st' = Some (SumEpisode ep) \<and> ep_original_event_refs ep = []"
proof -
  let ?q = "EpisodeArchived \<lparr> ea_episode = ep, ea_keep_recent_count = 3, ea_archived_event_refs = [] \<rparr>"
  have none: "but_last_n 3 (rs_thought_history st) = []" "but_last_n 3 (rs_tool_results st) = []" using few by (simp_all add: but_last_n_def)
  have e: "emergency_compact cm env run_id st c = log_append env run_id (PContext ?q) None c"
    using s g by (simp add: emergency_compact_def write_episode_def none archived_refs_def episode_range_def)
  obtain c' where c': "log_append env run_id (PContext ?q) None c = (Inr (), c')" using log_append_ok[OF ok(1)] by blast
  obtain n where "fold_events (get_events (xc_store c') run_id) = Inr (apply_context ?q (st\<lparr>rs_seq := n\<rparr>))"
    using fold_append_context[OF ok c'] by blast
  then show ?thesis using c' e episode_refs[OF g] by (simp add: work_def drop_refs_def)
qed

section \<open>Witnesses\<close>

definition sample_manager :: context_manager where
  "sample_manager = \<lparr> cm_has_store = True, cm_llm = None, cm_count = heuristic_tokens, cm_loads = (\<lambda>_. Inr (JDict [(''tools_used'', JNull)])),
     cm_prompt = ''Summarize'', cm_mean = (\<lambda>_. ''0.5''), cm_token_limit = 100, cm_checkpoint_interval = 10, cm_cooldown_iterations = 10,
     cm_preserve_threshold = 6 / 10, cm_excerpt_max_items = 6, cm_excerpt_max_chars = 600, cm_compression_threshold = 8,
     cm_emergency_threshold = 100, cm_lazy_clear_threshold = 4 \<rparr>"

definition thinking :: "string \<Rightarrow> exec_ctx \<Rightarrow> exec_ctx" where
  "thinking t c = snd (log_append sample_env ''r1'' (PAgentThought \<lparr> at_thought = t, at_tool_choice = None, at_tool_calls = None \<rparr>) None c)"

definition sample_thinking :: exec_ctx where
  "sample_thinking = thinking ''and then the third one'' (thinking ''now the second one'' (thinking ''I decided on the plan'' sample_ctx))"

definition sample_view :: run_state where
  "sample_view = (case fold_events (get_events (xc_store sample_thinking) ''r1'') of Inr st \<Rightarrow> st | Inl _ \<Rightarrow> RunState0 [])"

lemma log_ok_append: "log_ok env run_id c \<Longrightarrow> log_ok env run_id (snd (log_append env run_id p None c))"
  using log_append_ok[of env run_id c p] by auto

lemma sample_thinking_ok: "log_ok sample_env ''r1'' sample_thinking"
  unfolding sample_thinking_def thinking_def by (intro log_ok_append) (use mute_scheduler_wired(2) in \<open>simp add: mute_scheduler_def sample_dag_env_def\<close>)

lemma sample_view_folds: "fold_events (get_events (xc_store sample_thinking) ''r1'') = Inr sample_view"
proof -
  have "isl (fold_events (get_events (xc_store sample_thinking) ''r1'')) = False" by code_simp
  then show ?thesis by (auto simp: sample_view_def split: sum.splits)
qed

lemma compression_keeps_recent_work_witness:
  "length (rs_thought_history sample_view) = 3
   \<and> fst (maybe_compress sample_manager sample_env ''r1'' 1 sample_view [] sample_thinking) = Inr ()
   \<and> (\<exists>st'. fold_events (get_events (xc_store (snd (snd (maybe_compress sample_manager sample_env ''r1'' 1 sample_view [] sample_thinking)))) ''r1'') = Inr st'
        \<and> (\<exists>as. rs_thought_history st' = as @ last_n 2 (rs_thought_history sample_view)) \<and> set (work st') \<subseteq> set (work sample_view))"
proof -
  let ?m = "maybe_compress sample_manager sample_env ''r1'' 1 sample_view [] sample_thinking"
  have "?m = (fst ?m, fst (snd ?m), snd (snd ?m))" by simp
  note w = compression_keeps_recent_work[OF sample_thinking_ok sample_view_folds this]
  have l: "length (rs_thought_history sample_view) = 3" by code_simp
  have f: "fst ?m = Inr ()" by code_simp
  from w l f show ?thesis by blast
qed

lemma tier_thresholds_are_ordered_witness:
  "map_sum (\<lambda>_. ()) (\<lambda>cm. (cm_lazy_clear_threshold cm, cm_compression_threshold cm, cm_emergency_threshold cm))
     (init_context_manager id sample_manager 160000 (8 / 10) (95 / 100) (6 / 10)) = Inr (96000, 128000, 152000)
   \<and> (96000 :: int) \<le> 128000 \<and> (152000 :: int) \<le> 160000"
proof -
  let ?i = "init_context_manager id sample_manager 160000 (8 / 10) (95 / 100) (6 / 10)"
  have i: "map_sum (\<lambda>_. ()) (\<lambda>cm. (cm_lazy_clear_threshold cm, cm_compression_threshold cm, cm_emergency_threshold cm, cm_token_limit cm)) ?i
     = Inr (96000, 128000, 152000, 160000)" by code_simp
  then obtain cm where cm: "?i = Inr cm" by (cases ?i) auto
  from tier_thresholds_are_ordered[OF cm] i cm show ?thesis by (simp add: mono_def)
qed

definition malformed_manager :: context_manager where
  "malformed_manager = sample_manager\<lparr>cm_llm := Some (\<lambda>_ _. Inr \<lparr> cr_content = Some ''{}'', cr_tool_calls = [] \<rparr>), cm_emergency_threshold := 8\<rparr>"

lemma malformed_summary_is_fatal_witness:
  "\<exists>e. maybe_compress malformed_manager sample_env ''r1'' 1 sample_view [] sample_thinking = (Inl e, [(''r1'', 1)], sample_thinking)"
proof -
  have p: "parsed_object malformed_manager ''{}'' = Some [(''tools_used'', JNull)]" by code_simp
  have e: "8 < estimate_context_tokens malformed_manager sample_view" by code_simp
  have b: "\<not> before_boundary sample_view" "\<not> cooling_down malformed_manager [] ''r1'' 1" by code_simp+
  have "\<exists>e. maybe_compress malformed_manager sample_env ''r1'' 1 sample_view [] sample_thinking = (Inl e, dset ''r1'' 1 [], sample_thinking)"
    by (rule malformed_summary_is_fatal[where reply = "\<lparr> cr_content = Some ''{}'', cr_tool_calls = [] \<rparr>", OF _ _ _ p _ b])
      (use e in \<open>simp_all add: malformed_manager_def sample_manager_def\<close>)
  then show ?thesis by simp
qed

end
