(* ===== verification/Contract_Extractor.thy ===== *)
theory Contract_Extractor
  imports Agent_Kernel Lifecycle
begin

text \<open>
  The contract extractor (core/contract_extractor.py): contracts read from a model's answer behind
  a structural check, with bounded retries; and what reaches the state of the run when the
  scheduler calls it.
\<close>

section \<open>Extraction\<close>

text \<open>Parameters: the chat client, the two prompt templates and the digest behind contract ids.\<close>

record extractor =
  ce_chat :: "exec_ctx \<Rightarrow> nat \<Rightarrow> message list \<Rightarrow> py_exc + string"
  ce_prompt :: "string \<Rightarrow> string \<Rightarrow> string"
  ce_retry_prompt :: "string \<Rightarrow> string \<Rightarrow> string"
  ce_loads :: "string \<Rightarrow> (string \<times> nat) + json"
  ce_sha256hex :: "string \<Rightarrow> string"
  ce_registry :: "unit registry"
  ce_max_retries :: int

definition tool_list :: "extractor \<Rightarrow> string" where
  "tool_list ex = join '', '' (sort (tool_names (ce_registry ex)))"

definition build_prompt :: "extractor \<Rightarrow> string \<Rightarrow> string" where
  "build_prompt ex intent = ce_prompt ex (take 4000 intent) (tool_list ex)"

text \<open>A contract, or the reason it was dropped.\<close>

definition validate_item :: "extractor \<Rightarrow> json dict \<Rightarrow> (delivery_contract + string) result" where
  "validate_item ex item =
     (case dget_or (JStr []) item ''tool'' of
        JStr tool \<Rightarrow>
          if tool = [] then Inr (Inr (''operation missing a '' @ quoted ''tool'' @ '' name''))
          else (case tool_def_or_error (ce_registry ex) tool of
                  (None, unknown) \<Rightarrow> Inr (Inr (opt_or unknown (unknown_tool_message tool)))
                | (Some td, _) \<Rightarrow>
                    (case dget item ''input'' of
                       Some (JDict inp) \<Rightarrow>
                         rmap (\<lambda>errors.
                           if errors \<noteq> [] then Inr (''tool '' @ quoted tool @ '': '' @ join ''; '' errors)
                           else Inl (ensure_contract_id (ce_sha256hex ex)
                                  \<lparr> dc_contract_id = [], dc_source = EXTRACTED, dc_tool = tool, dc_input = inp \<rparr>))
                           (validate_delivery_contract_input tool (JDict inp) (Some td))
                     | _ \<Rightarrow> Inr (Inr (''tool '' @ quoted tool @ '': input not an object''))))
      | _ \<Rightarrow> Inr (Inr (''operation missing a '' @ quoted ''tool'' @ '' name'')))"

fun sift_items :: "extractor \<Rightarrow> json list \<Rightarrow> (delivery_contract list \<times> string list) result" where
  "sift_items ex [] = Inr ([], [])"
| "sift_items ex (v # vs) =
     rbind (case v of JDict item \<Rightarrow> validate_item ex item | _ \<Rightarrow> Inr (Inr ''a listed operation was not an object'')) (\<lambda>x.
     rmap (\<lambda>(cs, ds). case x of Inl k \<Rightarrow> (k # cs, ds) | Inr reason \<Rightarrow> (cs, reason # ds)) (sift_items ex vs))"

definition parse_extraction :: "extractor \<Rightarrow> string \<Rightarrow> (delivery_contract list \<times> string) result" where
  "parse_extraction ex response =
     (case parse_lenient_json (ce_loads ex) (strip response) of
        Inl NoObject \<Rightarrow> Inr ([], ''no JSON object found in extraction response'')
      | Inl (InvalidJson _ _) \<Rightarrow> Inr ([], ''extraction JSON parse failed'')
      | Inr (JDict data) \<Rightarrow>
          (case dget_or JNull data ''required_operations'' of
             JNull \<Rightarrow> Inr ([], ''missing '' @ quoted ''required_operations'' @ '' key'')
           | JList raw \<Rightarrow>
               rmap (\<lambda>(cs, dropped). if cs \<noteq> [] \<or> dropped = [] then (cs, [])
                                    else ([], ''all listed operations were rejected: '' @ join '' | '' dropped))
                 (sift_items ex raw)
           | _ \<Rightarrow> Inr ([], quoted ''required_operations'' @ '' is not a list''))
      | Inr _ \<Rightarrow> Inr ([], ''response JSON root is not an object''))"

fun extract_attempts :: "extractor \<Rightarrow> exec_ctx \<Rightarrow> string \<Rightarrow> nat \<Rightarrow> nat \<Rightarrow> string \<Rightarrow> py_exc + delivery_contract list" where
  "extract_attempts ex c intent 0 attempt last_err = Inr []"
| "extract_attempts ex c intent (Suc left) attempt last_err =
     (let messages = SystemMsg (build_prompt ex intent)
            # (if last_err \<noteq> [] then [UserMsg (ce_retry_prompt ex last_err (tool_list ex))] else [])
      in case ce_chat ex c attempt messages of
           Inl e \<Rightarrow> extract_attempts ex c intent left (Suc attempt) (repr_exc e)
         | Inr content \<Rightarrow>
             (case parse_extraction ex content of
                Inl e \<Rightarrow> Inl (exc_of_error e)
              | Inr (contracts, err) \<Rightarrow>
                  if err = [] then Inr contracts else extract_attempts ex c intent left (Suc attempt) err))"

definition extract_contracts :: "extractor \<Rightarrow> exec_ctx \<Rightarrow> string \<Rightarrow> py_exc + delivery_contract list" where
  "extract_contracts ex c intent = (if intent = [] then Inr [] else extract_attempts ex c intent (nat (ce_max_retries ex + 1)) 1 [])"

section \<open>What is extracted\<close>

definition contract_ok :: "unit registry \<Rightarrow> delivery_contract \<Rightarrow> bool" where
  "contract_ok rg k \<longleftrightarrow> dc_source k = EXTRACTED \<and>
     (case get_tool_def rg (dc_tool k) of
        None \<Rightarrow> False
      | Some td \<Rightarrow> validate_delivery_contract_input (dc_tool k) (JDict (dc_input k)) (Some td) = Inr [])"

lemma validate_item_ok:
  assumes "validate_item ex item = Inr (Inl k)"
  shows "contract_ok (ce_registry ex) k"
proof -
  obtain tool where tool: "dget_or (JStr []) item ''tool'' = JStr tool" "tool \<noteq> []"
    using assms by (auto simp: validate_item_def split: json.splits if_splits)
  obtain td where td: "get_tool_def (ce_registry ex) tool = Some td"
    using assms tool by (cases "get_tool_def (ce_registry ex) tool") (auto simp: validate_item_def tool_def_or_error_def)
  obtain inp where inp: "dget item ''input'' = Some (JDict inp)"
    using assms tool td by (auto simp: validate_item_def tool_def_or_error_def split: option.splits json.splits)
  obtain errors where e: "validate_delivery_contract_input tool (JDict inp) (Some td) = Inr errors"
    using assms tool td inp by (cases "validate_delivery_contract_input tool (JDict inp) (Some td)") (auto simp: validate_item_def tool_def_or_error_def)
  have "errors = []" "k = ensure_contract_id (ce_sha256hex ex) \<lparr> dc_contract_id = [], dc_source = EXTRACTED, dc_tool = tool, dc_input = inp \<rparr>"
    using assms tool td inp e by (auto simp: validate_item_def tool_def_or_error_def split: if_splits)
  with td e show ?thesis by (simp add: contract_ok_def ensure_contract_id_def)
qed

lemma sift_items_ok: "sift_items ex vs = Inr (cs, ds) \<Longrightarrow> list_all (contract_ok (ce_registry ex)) cs"
proof (induction vs arbitrary: cs ds)
  case (Cons v vs)
  obtain x cs' ds' where x: "(case v of JDict item \<Rightarrow> validate_item ex item | _ \<Rightarrow> Inr (Inr ''a listed operation was not an object'')) = Inr x"
    "sift_items ex vs = Inr (cs', ds')" "(cs, ds) = (case x of Inl k \<Rightarrow> (k # cs', ds') | Inr reason \<Rightarrow> (cs', reason # ds'))"
    using Cons.prems by (auto simp: rbind_Inr_iff rmap_Inr)
  show ?case
  proof (cases x)
    case (Inl k)
    then obtain item where "validate_item ex item = Inr (Inl k)" using x(1) by (cases v) auto
    then show ?thesis using Cons.IH[OF x(2)] x(3) Inl validate_item_ok by simp
  qed (use Cons.IH[OF x(2)] x(3) in simp)
qed simp

lemma parse_extraction_ok: "parse_extraction ex response = Inr (cs, err) \<Longrightarrow> list_all (contract_ok (ce_registry ex)) cs"
  unfolding parse_extraction_def
  by (auto simp: rmap_Inr split: sum.splits lenient_error.splits json.splits if_splits dest: sift_items_ok)

lemma extract_attempts_ok: "extract_attempts ex c intent left attempt err = Inr cs \<Longrightarrow> list_all (contract_ok (ce_registry ex)) cs"
proof (induction left arbitrary: attempt err)
  case (Suc left)
  obtain r where r: "ce_chat ex c attempt (SystemMsg (build_prompt ex intent)
      # (if err \<noteq> [] then [UserMsg (ce_retry_prompt ex err (tool_list ex))] else [])) = r" by blast
  show ?case
  proof (cases r)
    case (Inr content)
    then obtain ks e where p: "parse_extraction ex content = Inr (ks, e)" using Suc.prems r by (auto simp: Let_def split: sum.splits)
    then show ?thesis using Suc.prems Suc.IH r Inr parse_extraction_ok[OF p] by (auto simp: Let_def split: if_splits)
  qed (use Suc.prems Suc.IH r in \<open>auto simp: Let_def\<close>)
qed simp

lemma extract_ok: "extract_contracts ex c intent = Inr cs \<Longrightarrow> list_all (contract_ok (ce_registry ex)) cs"
  by (auto simp: extract_contracts_def extract_attempts_ok split: if_splits)

text \<open>An answer is useless when the call raised or the text was refused. A client with only such answers costs the attempts and
  yields no contract; it does not raise.\<close>

definition useless :: "extractor \<Rightarrow> py_exc + string \<Rightarrow> bool" where
  "useless ex answer \<longleftrightarrow> (case answer of Inl _ \<Rightarrow> True | Inr content \<Rightarrow> (\<exists>cs err. parse_extraction ex content = Inr (cs, err) \<and> err \<noteq> []))"

lemma extract_useless_client:
  assumes "\<And>n ms. useless ex (ce_chat ex c n ms)"
  shows "extract_contracts ex c intent = Inr []"
proof -
  have "extract_attempts ex c intent left attempt err = Inr []" for left attempt err
  proof (induction left arbitrary: attempt err)
    case (Suc left)
    let ?chat = "ce_chat ex c attempt (SystemMsg (build_prompt ex intent)
      # (if err \<noteq> [] then [UserMsg (ce_retry_prompt ex err (tool_list ex))] else []))"
    have "useless ex ?chat" by (rule assms)
    then show ?case using Suc.IH by (cases ?chat) (auto simp: Let_def useless_def)
  qed simp
  then show ?thesis by (simp add: extract_contracts_def)
qed

section \<open>The contracts of a run\<close>

lemma emit_contracts:
  assumes ok: "log_ok (sx_env sx) run_id c" "\<not> run_over c run_id" and f: "fold_events (get_events (xc_store c) run_id) = Inr st"
  shows "\<exists>c' st'. emit sx run_id (contracts_resolved cs b err) c = (Inr (), c')
     \<and> fold_events (get_events (xc_store c') run_id) = Inr st' \<and> rs_delivery_contracts st' = cs"
proof -
  let ?p = "contracts_resolved cs b err"
  have "is_run_terminal (sx_env sx) run_id c = (Inr False, c)"
    using is_run_terminal_cases[OF ok(1)] ok(2) f
    by (auto simp: run_over_def is_run_terminal_def refresh_state_fold[OF ok(1)] act_bind_def act_return_def split: if_splits)
  then obtain c' where c': "emit sx run_id ?p c = (Inr (), c')"
    using log_append_ok[OF ok(1), of ?p] by (auto simp: emit_def append_run_event_def Let_def act_then_def act_bind_def act_return_def)
  obtain e where e: "get_events (xc_store c') run_id = get_events (xc_store c) run_id @ [e]" "ev_payload e = ?p"
    using emit_writes[OF ok c'] by blast
  have wf: "store_wf (xc_store c)" "store_wf (xc_store c')"
    using ok(1) keepsD[OF keeps_emit ok(1) c'] by (simp_all add: log_ok_def)
  have ne: "get_events (xc_store c) run_id \<noteq> []"
    and g: "fold_result apply_event (get_events (xc_store c) run_id) (RunState0 (ev_run_id (hd (get_events (xc_store c) run_id)))) = Inr st"
    using f by (auto simp: fold_events_Inr)
  have "ev_run_id e = run_id" using get_events_run_id[OF wf(2), of e run_id] e(1) by simp
  moreover have "rs_run_id st = run_id" using fold_run_id[OF f hd_in_set[OF ne]] get_events_run_id[OF wf(1)] hd_in_set[OF ne] by metis
  ultimately have "fold_events (get_events (xc_store c') run_id)
      = Inr ((st\<lparr>rs_seq := max (rs_seq st) (ev_seq e)\<rparr>)\<lparr>rs_delivery_contracts := cs\<rparr>)"
    using g ne by (simp add: e fold_events_Inr fold_result_append apply_event_def contracts_resolved_def)
  with c' show ?thesis by auto
qed

text \<open>
  C20: What the extractor adds to a run is trustworthy although the model is not. A run that asks for extraction gets exactly what the
  extraction returned, and all of it names a registered tool and passes the validation a caller's contract passes; when the extraction
  raises or runs out of time, and when the model gives no usable answer, the run ends up with no contract. A scheduler without a
  model or a registry leaves the contracts of the run as they are. Nothing is raised in any case.
\<close>

theorem resolved_contracts_are_valid:
  assumes ok: "log_ok (sx_env sx) run_id c" "\<not> run_over c run_id" and f: "fold_events (get_events (xc_store c) run_id) = Inr st"
    and req: "rs_requires_contract_extraction st"
    and ex: "sx_extract sx c intent = extract_contracts ex c intent \<or> isl (sx_extract sx c intent)"
    and run: "resolve_contracts sx run_id intent c = (r, c')"
  shows "r = Inr () \<and> (\<exists>st'. fold_events (get_events (xc_store c') run_id) = Inr st'
     \<and> rs_delivery_contracts st' =
         (if sx_can_extract sx then (case sx_extract sx c intent of Inr cs \<Rightarrow> cs | Inl _ \<Rightarrow> []) else rs_delivery_contracts st)
     \<and> (sx_can_extract sx \<longrightarrow> list_all (contract_ok (ce_registry ex)) (rs_delivery_contracts st'))
     \<and> (sx_can_extract sx \<and> (\<forall>n ms. useless ex (ce_chat ex c n ms)) \<longrightarrow> rs_delivery_contracts st' = []))"
proof -
  have refresh: "refresh_state (sx_env sx) run_id c = (Inr st, c)" using f by (simp add: refresh_state_fold[OF ok(1)])
  note emitted = emit_contracts[OF ok f]
  note steps = resolve_contracts_def act_bind_def refresh req act_try_def
  show ?thesis
  proof (cases "sx_can_extract sx")
    case False
    then show ?thesis using run f by (simp add: steps act_return_def)
  next
    case can: True
    show ?thesis
    proof (cases "sx_extract sx c intent")
      case (Inr cs)
      obtain c1 st1 where e: "emit sx run_id (contracts_resolved cs False None) c = (Inr (), c1)"
        "fold_events (get_events (xc_store c1) run_id) = Inr st1" "rs_delivery_contracts st1 = cs" using emitted by blast
      have x: "extract_contracts ex c intent = Inr cs" using ex Inr by auto
      have "cs = []" if "\<forall>n ms. useless ex (ce_chat ex c n ms)" using extract_useless_client[of ex c intent] that x by auto
      then show ?thesis using run e extract_ok[OF x] by (auto simp: steps Inr can)
    next
      case (Inl x)
      let ?b = "ex_kind x = ExTimeout"
      let ?p = "if ?b then contracts_resolved [] True (Some ''contract extraction timed out'') else contracts_resolved [] False (Some (repr_exc x))"
      obtain b err where p: "?p = contracts_resolved [] b err" by (cases ?b) auto
      obtain c1 st1 where e: "emit sx run_id ?p c = (Inr (), c1)"
        "fold_events (get_events (xc_store c1) run_id) = Inr st1" "rs_delivery_contracts st1 = []"
        unfolding p using emitted[of "[]" b err] by blast
      then show ?thesis using run by (simp add: steps Inl act_raise_def can)
    qed
  qed
qed

definition listing_extractor :: extractor where
  "listing_extractor = \<lparr> ce_chat = (\<lambda>_ n _. if n = 1 then Inl (other_exc ''ConnectError'' ''down'') else Inr ''{}''), ce_prompt = (\<lambda>_ _. ''extract''),
     ce_retry_prompt = (\<lambda>_ _. ''again''),
     ce_loads = (\<lambda>_. Inr (JDict [(''required_operations'', JList [JInt 3, JDict [(''tool'', JStr ''note''), (''input'', JDict [(''text'', JStr ''x'')])]])])),
     ce_sha256hex = (\<lambda>_. replicate 64 (CHR ''a'')), ce_registry = note_registry, ce_max_retries = 1 \<rparr>"

definition asking_run :: payload where
  "asking_run = PRun (RunStarted \<lparr> rst_intent = ''note x'', rst_current_request = None, rst_context_snapshot = [], rst_conversation_id = None,
     rst_workspace_id = None, rst_intent_raw = None, rst_contracts = [], rst_requires_contract_extraction = True \<rparr>)"

definition asking_ctx :: exec_ctx where
  "asking_ctx = snd (log_append sample_env ''r9'' asking_run None sample_ctx)"

definition asking_scheduler :: scheduler where
  "asking_scheduler = mute_scheduler\<lparr>sx_extract := extract_contracts listing_extractor\<rparr>"

lemma resolved_contracts_are_valid_witness:
  "map_sum (\<lambda>_. ()) (\<lambda>st. map dc_tool (rs_delivery_contracts st))
     (fold_events (get_events (xc_store (snd (resolve_contracts asking_scheduler ''r9'' ''note x'' asking_ctx))) ''r9'')) = Inr [''note'']
   \<and> (\<exists>st'. fold_events (get_events (xc_store (snd (resolve_contracts asking_scheduler ''r9'' ''note x'' asking_ctx))) ''r9'') = Inr st'
        \<and> list_all (contract_ok note_registry) (rs_delivery_contracts st'))"
proof -
  let ?run = "resolve_contracts asking_scheduler ''r9'' ''note x'' asking_ctx"
  have r: "map_sum (\<lambda>_. ()) (\<lambda>st. map dc_tool (rs_delivery_contracts st)) (fold_events (get_events (xc_store (snd ?run)) ''r9'')) = Inr [''note'']"
    unfolding asking_scheduler_def mute_scheduler_def listing_extractor_def brief_planner_def note_registry_def by code_simp
  have s: "\<not> run_over asking_ctx ''r9'' \<and> map_sum (\<lambda>_. ()) rs_requires_contract_extraction (fold_events (get_events (xc_store asking_ctx) ''r9'')) = Inr True"
    by code_simp
  then obtain st where st: "fold_events (get_events (xc_store asking_ctx) ''r9'') = Inr st" "rs_requires_contract_extraction st"
    by (cases "fold_events (get_events (xc_store asking_ctx) ''r9'')") auto
  have ok: "log_ok (sx_env asking_scheduler) ''r9'' asking_ctx"
  proof -
    have "log_ok sample_env ''r9'' sample_ctx" using sample_ctx_ok sample_tenant by (simp add: log_ok_def)
    then show ?thesis using log_append_ok[of sample_env "''r9''" sample_ctx asking_run]
      by (auto simp: asking_scheduler_def mute_scheduler_def sample_dag_env_def asking_ctx_def)
  qed
  have ex: "sx_extract asking_scheduler asking_ctx ''note x'' = extract_contracts listing_extractor asking_ctx ''note x''"
    by (simp add: asking_scheduler_def)
  have "?run = (fst ?run, snd ?run)" by simp
  from resolved_contracts_are_valid[OF ok conjunct1[OF s] st disjI1[OF ex] this] r show ?thesis by (auto simp: listing_extractor_def asking_scheduler_def mute_scheduler_def)
qed

end
