(* ===== verification/Run_Monitor.thy ===== *)
theory Run_Monitor
  imports Scoped_Store Lifecycle
begin

text \<open>
  The run monitor (monitoring/run_monitor.py): a bus subscriber that counts consecutive tool
  failures per run and writes feedback events. It is compared with the streak a reader would
  compute from the run's own events.
\<close>

section \<open>The state of the monitor\<close>

text \<open>
  Parameters: Python's hash of a text, the network location of a URL (none when there is none or parsing raises), the digest behind
  feedback ids, and the tenant of the calling context.
\<close>

record monitor_env =
  mn_hash :: "string \<Rightarrow> int"
  mn_netloc :: "string \<Rightarrow> string option"
  mn_sha256hex :: "string \<Rightarrow> string"
  mn_current_tenant :: string

text \<open>What the monitor keeps of one run. The code has one dictionary per field, keyed by the run.\<close>

record monitored =
  mr_last_seen_seq :: int
  mr_consecutive :: nat
  mr_per_ep :: "nat dict"
  mr_pending :: "(string \<times> int \<times> string) dict"
  mr_last_sig :: "(string \<times> int \<times> int) option"
  mr_repeated :: nat
  mr_stuck_sent :: nat
  mr_per_tool :: "nat dict"
  mr_err_map :: "nat dict dict"
  mr_captured_ep :: "string option"
  mr_fed :: "(string \<times> string) list"
  mr_last_fail_sig :: "(string \<times> int \<times> string) option"
  mr_repeat_fail :: nat

definition Monitored0 :: monitored where
  "Monitored0 = \<lparr> mr_last_seen_seq = 0, mr_consecutive = 0, mr_per_ep = [], mr_pending = [], mr_last_sig = None, mr_repeated = 0,
     mr_stuck_sent = 0, mr_per_tool = [], mr_err_map = [], mr_captured_ep = None, mr_fed = [], mr_last_fail_sig = None, mr_repeat_fail = 0 \<rparr>"

type_synonym run_monitor = "monitored dict"

section \<open>Feedback texts\<close>

definition extract_error_type :: "string \<Rightarrow> string" where
  "extract_error_type s = strip (takeWhile (\<lambda>c. c \<noteq> CHR '':'') s)"

definition endpoint_key :: "monitor_env \<Rightarrow> string \<Rightarrow> json \<Rightarrow> string" where
  "endpoint_key env tool url =
     (case url of
        JStr u \<Rightarrow> if tool = ''http_request'' then opt_or (mn_netloc env u) tool else tool
      | _ \<Rightarrow> tool)"

definition generate_suggestion :: "string \<Rightarrow> string \<Rightarrow> string option" where
  "generate_suggestion tool error_type =
     (if starts_with ''browser_'' tool
      then if starts_with ''Timeout'' error_type
           then Some (''Browser action timed out. Take a browser_snapshot to inspect the ''
                  @ ''current page, then retry the element-level action. For plain web '' @ ''fetches use http_request.'')
           else Some (''Browser automation failed. Take a browser_snapshot (accessibility tree) ''
                  @ ''to re-locate the target element before retrying.'')
      else if tool = ''http_request'' \<and> starts_with ''ConnectTimeout'' error_type
      then Some ''HTTP connection timed out. Check network or try a different URL.''
      else if tool = ''http_request'' \<and> starts_with ''InvalidURL'' error_type
      then Some ''Invalid URL format. Check and correct the URL before retrying.''
      else None)"

fun category_text :: "feedback_category \<Rightarrow> string" where
  "category_text TOOL_FAILURE = ''tool_failure''"
| "category_text REPEATED_CALL = ''repeated_call''"
| "category_text GUARDRAIL_TRIGGERED = ''guardrail_triggered''"
| "category_text OPERATOR_ADVICE = ''operator_advice''"
| "category_text CONDITION_RESOLVED = ''condition_resolved''"

definition monitor_feedback_id :: "monitor_env \<Rightarrow> string \<Rightarrow> feedback_category \<Rightarrow> string option \<Rightarrow> string option \<Rightarrow> string" where
  "monitor_feedback_id env rid category tool err =
     compute_feedback_id (mn_sha256hex env) rid (category_text category) (opt_or tool ''?'') (opt_or err ''?'')"

text \<open>The payload of \<^verbatim>\<open>_inject_feedback\<close>: source and id are filled in, the rest comes from the caller.\<close>

definition monitor_feedback ::
    "monitor_env \<Rightarrow> string \<Rightarrow> feedback_priority \<Rightarrow> string \<Rightarrow> feedback_category \<Rightarrow> string \<Rightarrow> int \<Rightarrow> feedback_injected_payload" where
  "monitor_feedback env rid priority body category affected expires =
     \<lparr> fb_feedback_id = monitor_feedback_id env rid category (Some affected) None, fb_source = MONITOR, fb_category = category,
       fb_feedback_text = body, fb_priority = priority, fb_affected_tool = Some affected, fb_error_type = None, fb_error_detail = None,
       fb_suggestion = None, fb_expires_at_seq = Some expires, fb_resolves_feedback_id = None, fb_consumed_at_seq = None,
       fb_injected_at_seq = None \<rparr>"

section \<open>Failures\<close>

text \<open>What the monitor counts as a failure: tool, error text, call id.\<close>

fun failure_of :: "payload \<Rightarrow> (string \<times> string \<times> string option) option" where
  "failure_of (PTool (ToolFailed p)) = Some (tf_tool_name p, tf_error p, Some (tf_tool_call_id p))"
| "failure_of (PTool (GuardrailTriggered p)) = Some (gt_tool_name p, [], Some (gt_tool_call_id p))"
| "failure_of (PStep (DagStepFailed p)) = Some (dsf_tool_name p, dsf_error p, dsf_tool_call_id p)"
| "failure_of _ = None"

fun is_blocked :: "payload \<Rightarrow> bool" where
  "is_blocked (PTool (GuardrailTriggered p)) = True"
| "is_blocked _ = False"

definition pending_call :: "monitored \<Rightarrow> string option \<Rightarrow> (string \<times> int \<times> string) option" where
  "pending_call m tc = Option.bind tc (dget (mr_pending m))"

definition bump_streak :: "string \<Rightarrow> monitored \<Rightarrow> monitored" where
  "bump_streak ep m =
     (let n = Suc (dget_or 0 (mr_per_ep m) ep) in m\<lparr>mr_per_ep := dset ep n (mr_per_ep m), mr_consecutive := n\<rparr>)"

definition bump_totals :: "string \<Rightarrow> string \<Rightarrow> monitored \<Rightarrow> monitored" where
  "bump_totals tool error_type m =
     (let errs = dget_or [] (mr_err_map m) tool
      in m\<lparr>mr_per_tool := dset tool (Suc (dget_or 0 (mr_per_tool m) tool)) (mr_per_tool m),
           mr_err_map := dset tool (dset error_type (Suc (dget_or 0 errs error_type)) errs) (mr_err_map m)\<rparr>)"

definition note_fail_sig :: "string \<times> int \<times> string \<Rightarrow> monitored \<Rightarrow> monitored" where
  "note_fail_sig sig m =
     m\<lparr>mr_repeat_fail := (if mr_last_fail_sig m = Some sig then Suc (mr_repeat_fail m) else 0), mr_last_fail_sig := Some sig\<rparr>"

definition dominant_error :: "nat dict \<Rightarrow> string" where
  "dominant_error errs = (case errs of [] \<Rightarrow> [] | kv # kvs \<Rightarrow> first_max kv kvs)"

definition failure_text :: "monitored \<Rightarrow> string \<Rightarrow> string \<Rightarrow> string \<Rightarrow> string" where
  "failure_text m tool ep dominant =
     (let ep_count = dget_or 0 (mr_per_ep m) ep; total = dget_or 0 (mr_per_tool m) tool
      in join '' ''
        ([''Endpoint '' @ quoted ep @ '' (tool '' @ quoted tool @ '') failed '' @ show_nat ep_count @ '' consecutive times: '' @ quoted dominant]
         @ (if 2 \<le> mr_repeat_fail m
            then [''Same input parameters and same error repeated '' @ show_nat (mr_repeat_fail m + 1) @ '' times. Retrying will not help.''] else [])
         @ (if ep_count < total
            then [''Tool '' @ quoted tool @ '' has '' @ show_nat total @ '' total failures '' @ dash @ '' endpoint may be unreachable.''] else [])))"

definition check_and_inject_feedback ::
    "monitor_env \<Rightarrow> string \<Rightarrow> string \<Rightarrow> string \<Rightarrow> string \<Rightarrow> bool \<Rightarrow> string \<Rightarrow> monitored \<Rightarrow> monitored \<times> feedback_injected_payload list" where
  "check_and_inject_feedback env rid tool ep error_type blocked detail m =
     (let errs = dget_or [] (mr_err_map m) tool;
          dominant = dominant_error errs;
          category = (if blocked then GUARDRAIL_TRIGGERED else TOOL_FAILURE)
      in if sum_list (map snd errs) = 0 \<or> (ep, error_type) \<in> set (mr_fed m) then (m, [])
         else (m\<lparr>mr_fed := mr_fed m @ [(ep, error_type)], mr_captured_ep := Some ep\<rparr>,
               [(monitor_feedback env rid PHigh (failure_text m tool ep dominant) category ep (mr_last_seen_seq m + 50))
                  \<lparr>fb_feedback_id := monitor_feedback_id env rid category (Some ep) (Some dominant), fb_error_type := Some dominant,
                   fb_error_detail := Some detail, fb_suggestion := generate_suggestion tool error_type\<rparr>]))"

text \<open>At three failures in a row the endpoint is reported.\<close>

definition report_streak ::
    "monitor_env \<Rightarrow> string \<Rightarrow> string \<Rightarrow> string \<Rightarrow> string \<Rightarrow> bool \<Rightarrow> string \<Rightarrow> monitored \<Rightarrow> monitored \<times> feedback_injected_payload list" where
  "report_streak env rid tool ep error_type blocked detail m =
     (if 3 \<le> dget_or 0 (mr_per_ep m) ep then check_and_inject_feedback env rid tool ep error_type blocked detail m else (m, []))"

definition on_failure :: "monitor_env \<Rightarrow> string \<Rightarrow> string \<times> string \<times> string option \<Rightarrow> bool \<Rightarrow> monitored \<Rightarrow> monitored \<times> feedback_injected_payload list" where
  "on_failure env rid failure blocked m =
     (case failure of (tool, err, tc) \<Rightarrow>
        (let error_type = extract_error_type err;
             ep = (case pending_call m tc of Some (_, _, ep) \<Rightarrow> ep | None \<Rightarrow> tool);
             inp_hash = (case pending_call m tc of Some (_, h, _) \<Rightarrow> h | None \<Rightarrow> mn_hash env [])
         in report_streak env rid tool ep error_type blocked err
              (note_fail_sig (ep, inp_hash, error_type) (bump_totals tool error_type (bump_streak ep m)))))"

section \<open>Calls and completions\<close>

definition on_called :: "monitor_env \<Rightarrow> tool_called_payload \<Rightarrow> monitored \<Rightarrow> monitored" where
  "on_called env p m =
     m\<lparr>mr_pending := dset (tc_tool_call_id p)
         (tc_tool_name p, mn_hash env (py_str (JDict (tc_input p))), endpoint_key env (tc_tool_name p) (dget_or (JStr []) (tc_input p) ''url''))
         (mr_pending m)\<rparr>"

text \<open>The last feedback on an endpoint that is neither a resolution nor expired, read off the run's events.\<close>

definition find_last_feedback_id :: "event list \<Rightarrow> string \<Rightarrow> string option result" where
  "find_last_feedback_id events ep =
     rmap (\<lambda>st. map_option fb_feedback_id (find (\<lambda>fb. fb_affected_tool fb = Some ep \<and> fb_category fb \<noteq> CONDITION_RESOLVED
        \<and> (case fb_expires_at_seq fb of None \<Rightarrow> True | Some s \<Rightarrow> rs_seq st \<le> s)) (rev (rs_feedbacks st)))) (fold_events events)"

definition reset_streak :: "string \<Rightarrow> monitored \<Rightarrow> monitored" where
  "reset_streak ep m = m\<lparr>mr_per_ep := (if mr_per_ep m = [] then [] else dset ep 0 (mr_per_ep m)), mr_consecutive := 0\<rparr>"

definition resolution :: "monitor_env \<Rightarrow> string \<Rightarrow> int \<Rightarrow> string \<Rightarrow> nat \<Rightarrow> string \<Rightarrow> feedback_injected_payload" where
  "resolution env rid seq ep was fid =
     (monitor_feedback env rid PLow (''Endpoint '' @ quoted ep @ '' recovered after '' @ show_nat was @ '' consecutive failures'')
        CONDITION_RESOLVED ep (seq + 10))\<lparr>fb_resolves_feedback_id := Some fid\<rparr>"

text \<open>Identical completed calls in a row: every third repetition is reported once.\<close>

definition note_repeat :: "monitor_env \<Rightarrow> string \<Rightarrow> int \<Rightarrow> string \<Rightarrow> string \<times> int \<times> int \<Rightarrow> monitored \<Rightarrow> monitored \<times> feedback_injected_payload list" where
  "note_repeat env rid seq tool sig m =
     (let m1 = (if mr_last_sig m = Some sig then m\<lparr>mr_repeated := Suc (mr_repeated m)\<rparr>
                else m\<lparr>mr_repeated := 0, mr_last_sig := Some sig, mr_stuck_sent := 0\<rparr>);
          n = mr_repeated m1
      in if 3 \<le> n \<and> n mod 3 = 0 \<and> mr_stuck_sent m1 < n div 3
         then (m1\<lparr>mr_stuck_sent := n div 3\<rparr>,
               [monitor_feedback env rid PHigh (''Warning: repeated same tool call '' @ show_nat (n + 1) @ '' times ('' @ tool @ ''). ''
                  @ ''Consider changing strategy or terminating.'') REPEATED_CALL tool (seq + 50)])
         else (m1, []))"

text \<open>
  A completion in three parts: the outcome and the feedback it causes, the resolution, the repetition. \<open>None\<close> as second component means that
  the handler raised and the rest is skipped: an unsuccessful completion without error text, or an event stream that cannot be folded.
\<close>

definition completed_outcome ::
    "monitor_env \<Rightarrow> event list \<Rightarrow> string \<Rightarrow> int \<Rightarrow> tool_completed_payload \<Rightarrow> string \<Rightarrow> monitored \<Rightarrow> monitored \<times> feedback_injected_payload list option" where
  "completed_outcome env events rid seq p ep m =
     (if tco_result_type p = TR_UNSUCCESSFUL
      then (case tco_error p of
              None \<Rightarrow> (bump_streak ep m, None)
            | Some err \<Rightarrow>
                (let (m1, fbs) = report_streak env rid (tco_tool_name p) ep (extract_error_type err) False err
                       (bump_totals (tco_tool_name p) (extract_error_type err) (bump_streak ep m))
                 in (m1, Some fbs)))
      else (let was = dget_or 0 (mr_per_ep m) ep; m1 = reset_streak ep m
            in if 3 \<le> was \<and> mr_captured_ep m1 = Some ep
               then (case find_last_feedback_id events ep of
                       Inl _ \<Rightarrow> (m1, None)
                     | Inr found \<Rightarrow> (m1, Some (if opt_or found [] \<noteq> [] then [resolution env rid seq ep was (opt_or found [])] else [])))
               else (m1, Some [])))"

definition on_completed ::
    "monitor_env \<Rightarrow> event list \<Rightarrow> string \<Rightarrow> int \<Rightarrow> tool_completed_payload \<Rightarrow> monitored \<Rightarrow> monitored \<times> feedback_injected_payload list" where
  "on_completed env events rid seq p m =
     (let info = dget (mr_pending m) (tco_tool_call_id p);
          ep = (case info of Some (_, _, ep) \<Rightarrow> ep | None \<Rightarrow> tco_tool_name p)
      in case completed_outcome env events rid seq p ep (m\<lparr>mr_pending := AList.delete (tco_tool_call_id p) (mr_pending m)\<rparr>) of
           (m1, None) \<Rightarrow> (m1, [])
         | (m1, Some fbs) \<Rightarrow>
             (case info of
                None \<Rightarrow> (m1, fbs)
              | Some (_, inp_hash, _) \<Rightarrow>
                  (let (m2, fbs2) = note_repeat env rid seq (tco_tool_name p) (ep, inp_hash, mn_hash env (py_str (tco_output p))) m1
                   in (m2, fbs @ fbs2))))"

section \<open>Events\<close>

definition observe :: "monitor_env \<Rightarrow> event list \<Rightarrow> event \<Rightarrow> monitored \<Rightarrow> monitored \<times> feedback_injected_payload list" where
  "observe env events e m0 =
     (let rid = ev_run_id e; m = m0\<lparr>mr_last_seen_seq := ev_seq e\<rparr>
      in case failure_of (ev_payload e) of
           Some failure \<Rightarrow> on_failure env rid failure (is_blocked (ev_payload e)) m
         | None \<Rightarrow>
             (case ev_payload e of
                PTool (ToolCalled p) \<Rightarrow> (on_called env p m, [])
              | PTool (ToolCompleted p) \<Rightarrow> on_completed env events rid (ev_seq e) p m
              | _ \<Rightarrow> (m, [])))"

definition run_view :: "run_monitor \<Rightarrow> string \<Rightarrow> monitored" where
  "run_view mon rid = dget_or Monitored0 mon rid"

definition monitor_tenant :: "monitor_env \<Rightarrow> event \<Rightarrow> string" where
  "monitor_tenant env e = str_or (ev_tenant_id e) (mn_current_tenant env)"

text \<open>Writing feedback. A failed write is dropped; a written event is observed in turn, which moves the last sequence number.\<close>

fun inject_all :: "monitor_env \<Rightarrow> string \<Rightarrow> string \<Rightarrow> timestamp \<Rightarrow> feedback_injected_payload list \<Rightarrow> monitored \<Rightarrow> store \<Rightarrow> monitored \<times> store" where
  "inject_all env tenant rid now [] m st = (m, st)"
| "inject_all env tenant rid now (fb # fbs) m st =
     (case scoped_append tenant st rid (PFeedbackInjected fb) None None False now of
        (Inl _, st1) \<Rightarrow> inject_all env tenant rid now fbs m st1
      | (Inr e, st1) \<Rightarrow> inject_all env tenant rid now fbs (m\<lparr>mr_last_seen_seq := ev_seq e\<rparr>) st1)"

definition on_event :: "monitor_env \<Rightarrow> timestamp \<Rightarrow> event \<Rightarrow> run_monitor \<times> store \<Rightarrow> run_monitor \<times> store" where
  "on_event env now e s =
     (case s of (mon, st) \<Rightarrow>
        (let rid = ev_run_id e; tenant = monitor_tenant env e;
             (m, fbs) = observe env (scoped_get_events tenant st rid) e (run_view mon rid);
             (m', st') = inject_all env tenant rid now fbs m st
         in (dset rid m' mon, st')))"

definition cleanup :: "string \<Rightarrow> run_monitor \<Rightarrow> run_monitor" where
  "cleanup rid mon = AList.delete rid mon"

section \<open>What the monitor counts\<close>






text \<open>A run as the monitor sees it: events, each with the events of its run that can be read at that point.\<close>

fun observe_all :: "monitor_env \<Rightarrow> (event list \<times> event) list \<Rightarrow> monitored \<Rightarrow> monitored \<times> feedback_injected_payload list" where
  "observe_all env [] m = (m, [])"
| "observe_all env ((view, e) # xs) m =
     (let (m1, fbs) = observe env view e m; (m2, rest) = observe_all env xs m1 in (m2, fbs @ rest))"


text \<open>The specification: the failure events about an endpoint since its last success.\<close>

definition streak :: "string \<Rightarrow> (string \<times> string option) list \<Rightarrow> nat" where
  "streak ep outs = length (takeWhile (\<lambda>x. snd x \<noteq> None) (rev (filter (\<lambda>x. fst x = ep) outs)))"


section \<open>One event\<close>

lemma per_ep_simps [simp]:
  "mr_per_ep (bump_totals tool t m) = mr_per_ep m" "mr_per_ep (note_fail_sig sig m) = mr_per_ep m"
  "mr_fed (bump_totals tool t m) = mr_fed m" "mr_fed (note_fail_sig sig m) = mr_fed m" "mr_fed (bump_streak ep m) = mr_fed m"
  "mr_fed (reset_streak ep m) = mr_fed m"
  by (simp_all add: bump_totals_def note_fail_sig_def bump_streak_def reset_streak_def Let_def)

lemma streak_simps [simp]:
  "dget_or 0 (mr_per_ep (bump_streak ep m)) k = (if k = ep then Suc (dget_or 0 (mr_per_ep m) ep) else dget_or 0 (mr_per_ep m) k)"
  "dget_or 0 (mr_per_ep (reset_streak ep m)) k = (if k = ep then 0 else dget_or 0 (mr_per_ep m) k)"
  by (auto simp: bump_streak_def reset_streak_def Let_def dict_simps dget_or_def)























section \<open>A whole run\<close>

lemma streak_Nil [simp]: "streak ep [] = 0"
  by (simp add: streak_def)





section \<open>Properties\<close>



lemma monitor_feedback_source [simp]: "fb_source (monitor_feedback env rid pr body cat ep s) = MONITOR"
  by (simp add: monitor_feedback_def)

lemma report_streak_source: "\<forall>fb\<in>set (snd (report_streak env rid tool ep t blocked detail m)). fb_source fb = MONITOR"
  by (simp add: report_streak_def check_and_inject_feedback_def Let_def)

lemma completed_outcome_source:
  assumes "completed_outcome env events rid seq p ep m = (m1, Some fbs)"
  shows "\<forall>fb\<in>set fbs. fb_source fb = MONITOR"
proof (cases "tco_result_type p = TR_UNSUCCESSFUL")
  case True
  then obtain err where "tco_error p = Some err" using assms by (auto simp: completed_outcome_def split: option.splits)
  then show ?thesis using assms True
      report_streak_source[of env rid "tco_tool_name p" ep "extract_error_type err" False err
        "bump_totals (tco_tool_name p) (extract_error_type err) (bump_streak ep m)"]
    by (auto simp: completed_outcome_def Let_def split: prod.splits)
next
  case False
  then show ?thesis using assms by (auto simp: completed_outcome_def Let_def resolution_def split: if_splits sum.splits)
qed

lemma note_repeat_source: "\<forall>fb\<in>set (snd (note_repeat env rid seq tool sig m)). fb_source fb = MONITOR"
  by (simp add: note_repeat_def Let_def)

lemma on_completed_source: "\<forall>fb\<in>set (snd (on_completed env events rid seq p m)). fb_source fb = MONITOR"
proof -
  have rep: "fb_source fb = MONITOR" if "note_repeat env rid seq tool sig m1 = (m2, fbs2)" "fb \<in> set fbs2" for m1 m2 fbs2 tool sig fb
    using note_repeat_source[of env rid seq tool sig m1] that by simp
  show ?thesis unfolding on_completed_def Let_def
    by (auto split: prod.splits option.splits dest: completed_outcome_source rep)
qed

lemma observe_source: "\<forall>fb\<in>set (snd (observe env view e m)). fb_source fb = MONITOR"
  using report_streak_source on_completed_source
  by (auto simp: observe_def Let_def on_failure_def split: option.splits prod.splits payload.splits tool_payload.splits)

definition monitor_event :: "event \<Rightarrow> bool" where
  "monitor_event x \<longleftrightarrow> (\<exists>fb. ev_payload x = PFeedbackInjected fb \<and> fb_source fb = MONITOR)"

lemma inject_all_writes:
  "inject_all env tenant rid now fbs m st = (m', st') \<Longrightarrow> store_wf st \<Longrightarrow> \<forall>fb\<in>set fbs. fb_source fb = MONITOR \<Longrightarrow>
   (\<forall>k. k \<noteq> rid \<longrightarrow> get_events st' k = get_events st k) \<and> (\<exists>new. get_events st' rid = get_events st rid @ new \<and> list_all monitor_event new)"
proof (induction fbs arbitrary: m st)
  case (Cons fb fbs)
  obtain r st1 where a: "scoped_append tenant st rid (PFeedbackInjected fb) None None False now = (r, st1)" by fastforce
  have free: "dup_row (new_row st rid (PFeedbackInjected fb) \<lparr> ao_tenant_id = tenant, ao_workspace_id = None, ao_idempotency_key = None,
       ao_is_audit = False \<rparr> now) (es_events st) = None" by (simp add: dup_row_def new_row_def)
  obtain x where x: "r = Inr x" "store_wf st1" "ev_payload x = PFeedbackInjected fb" "get_events st1 rid = get_events st rid @ [x]"
    "\<forall>k. k \<noteq> rid \<longrightarrow> get_events st1 k = get_events st k"
    using append_event_result[OF Cons.prems(2) a[unfolded scoped_append_def]] free by auto
  have "inject_all env tenant rid now fbs (m\<lparr>mr_last_seen_seq := ev_seq x\<rparr>) st1 = (m', st')" using Cons.prems(1) a x(1) by simp
  from Cons.IH[OF this x(2)] Cons.prems(3) x show ?case by (auto simp: monitor_event_def)
qed simp

text \<open>C37: The monitor only ever adds its own feedback to the run it observes. An event of one run leaves the counters and the events of every
  other run as they were; to its own run it appends nothing but monitor feedback, so the status of the run is untouched; and cleaning up a
  run forgets everything about it and nothing else.\<close>

theorem monitor_is_isolated:
  assumes "store_wf st" "on_event env now e (mon, st) = (mon', st')"
  shows "(\<forall>k. k \<noteq> ev_run_id e \<longrightarrow> run_view mon' k = run_view mon k \<and> get_events st' k = get_events st k)
    \<and> (\<exists>new. get_events st' (ev_run_id e) = get_events st (ev_run_id e) @ new \<and> list_all monitor_event new)
    \<and> (\<forall>s s'. fold_events (get_events st (ev_run_id e)) = Inr s \<longrightarrow> fold_events (get_events st' (ev_run_id e)) = Inr s' \<longrightarrow> rs_status s' = rs_status s)
    \<and> run_view (cleanup rid mon') rid = Monitored0 \<and> (\<forall>k. k \<noteq> rid \<longrightarrow> run_view (cleanup rid mon') k = run_view mon' k)"
proof -
  let ?rid = "ev_run_id e" and ?t = "monitor_tenant env e"
  obtain m fbs where o: "observe env (scoped_get_events ?t st ?rid) e (run_view mon ?rid) = (m, fbs)" by fastforce
  obtain m' st1 where i: "inject_all env ?t ?rid now fbs m st = (m', st1)" by fastforce
  have res: "mon' = dset ?rid m' mon" "st' = st1" using assms(2) o i by (auto simp: on_event_def Let_def)
  have "\<forall>fb\<in>set fbs. fb_source fb = MONITOR" using observe_source[of env "scoped_get_events ?t st ?rid" e "run_view mon ?rid"] o by simp
  from inject_all_writes[OF i assms(1) this] have w: "\<forall>k. k \<noteq> ?rid \<longrightarrow> get_events st' k = get_events st k"
    "\<exists>new. get_events st' ?rid = get_events st ?rid @ new \<and> list_all monitor_event new" using res by auto
  then obtain new where new: "get_events st' ?rid = get_events st ?rid @ new" "list_all monitor_event new" by blast
  have "List.map_filter (\<lambda>x. run_status_of (ev_payload x)) new = []"
    using new(2) by (induction new) (auto simp: monitor_event_def List.map_filter_def)
  then have status: "rs_status s' = rs_status s" if "fold_events (get_events st ?rid) = Inr s" "fold_events (get_events st' ?rid) = Inr s'" for s s'
    using fold_status_last[OF that(1)] fold_status_last[OF that(2)] by (simp add: new(1) List.map_filter_def)
  have clean: "run_view (cleanup rid mon') k = (if k = rid then Monitored0 else run_view mon' k)" for k
    by (simp add: run_view_def cleanup_def dget_or_def delete_conv')
  have kept: "run_view mon' k = run_view mon k" if "k \<noteq> ?rid" for k using that by (simp add: res(1) run_view_def dict_simps)
  show ?thesis
  proof (intro conjI)
    show "\<forall>k. k \<noteq> ?rid \<longrightarrow> run_view mon' k = run_view mon k \<and> get_events st' k = get_events st k" using kept w(1) by blast
    show "\<exists>new. get_events st' ?rid = get_events st ?rid @ new \<and> list_all monitor_event new" by (rule w(2))
    show "\<forall>s s'. fold_events (get_events st ?rid) = Inr s \<longrightarrow> fold_events (get_events st' ?rid) = Inr s' \<longrightarrow> rs_status s' = rs_status s"
      using status by blast
    show "run_view (cleanup rid mon') rid = Monitored0" by (simp only: clean if_True refl)
    show "\<forall>k. k \<noteq> rid \<longrightarrow> run_view (cleanup rid mon') k = run_view mon' k" by (simp add: clean)
  qed
qed

section \<open>A failing step counts twice\<close>

definition plain_monitor :: monitor_env where
  "plain_monitor = \<lparr> mn_hash = (\<lambda>_. 0), mn_netloc = (\<lambda>_. None), mn_sha256hex = id, mn_current_tenant = ''default'' \<rparr>"

definition seen :: "int \<Rightarrow> payload \<Rightarrow> event list \<times> event" where
  "seen seq p = ([], \<lparr> ev_run_id = ''r1'', ev_seq = seq, ev_payload = p, ev_idempotency_key = None, ev_created_at = 0, ev_tenant_id = ''default'',
     ev_workspace_id = None, ev_is_audit = False \<rparr>)"

definition failing_step :: "int \<Rightarrow> string \<Rightarrow> (event list \<times> event) list" where
  "failing_step seq cid =
     [seen seq (PTool (ToolCalled \<lparr> tc_tool_call_id = cid, tc_tool_name = ''note'', tc_input = [], tc_idempotency_key = None, tc_step_id = None \<rparr>)),
      seen (seq + 1) (PTool (ToolFailed \<lparr> tf_tool_call_id = cid, tf_tool_name = ''note'', tf_error = ''OSError: busy'', tf_retryable = False,
        tf_step_id = None \<rparr>)),
      seen (seq + 2) (PStep (DagStepFailed \<lparr> dsf_plan_id = ''p'', dsf_step_id = ''s1'', dsf_error = ''OSError: busy'', dsf_retryable = False,
        dsf_tool_name = ''note'', dsf_tool_call_id = Some cid \<rparr>))]"

text \<open>A failing step of a plan is counted twice, once for its tool call and once for the step: two failed steps reach the threshold of
  three, and the feedback speaks of three consecutive failures.\<close>

lemma failing_steps_count_twice:
  "case observe_all plain_monitor (failing_step 1 ''a'' @ failing_step 4 ''b'') Monitored0 of
     (m, fbs) \<Rightarrow> dget (mr_per_ep m) ''note'' = Some 4 \<and> length fbs = 1 \<and> map fb_affected_tool fbs = [Some ''note'']"
  by code_simp



definition third_failure :: event where
  "third_failure = snd (seen 3 (PTool (ToolFailed \<lparr> tf_tool_call_id = ''c'', tf_tool_name = ''note'', tf_error = ''OSError: busy'',
     tf_retryable = False, tf_step_id = None \<rparr>)))"

definition reported :: "run_monitor \<times> store" where
  "reported = on_event plain_monitor 9 third_failure ([(''r1'', Monitored0\<lparr>mr_per_ep := [(''note'', 2)]\<rparr>)], sample_store)"

lemma monitor_is_isolated_witness:
  "\<exists>new. get_events (snd reported) ''r1'' = get_events sample_store ''r1'' @ new \<and> list_all monitor_event new \<and> length new = 1
    \<and> run_view (cleanup ''r1'' (fst reported)) ''r1'' = Monitored0"
proof -
  have len: "length (get_events (snd reported) ''r1'') = Suc (length (get_events sample_store ''r1''))" by code_simp
  have rid: "ev_run_id third_failure = ''r1''" by (simp add: third_failure_def seen_def)
  have run: "on_event plain_monitor 9 third_failure ([(''r1'', Monitored0\<lparr>mr_per_ep := [(''note'', 2)]\<rparr>)], sample_store)
      = (fst reported, snd reported)" by (simp only: reported_def prod.collapse)
  note iso = monitor_is_isolated[OF sample_store_wf run, of "''r1''", unfolded rid]
  obtain new where new: "get_events (snd reported) ''r1'' = get_events sample_store ''r1'' @ new" "list_all monitor_event new"
    using iso by blast
  have "length new = 1" using len unfolding new(1) by simp
  moreover have "run_view (cleanup ''r1'' (fst reported)) ''r1'' = Monitored0" using iso by blast
  ultimately show ?thesis using new by blast
qed

end
