(* ===== verification/Carriers.thy ===== *)
theory Carriers
  imports Lifecycle
begin

text \<open>
  The boundary of execution roots (execution/boundary.py) and the startup reaper of containers
  (execution/reaper.py) after the scan for orphaned runs.
\<close>

section \<open>The boundary of execution roots\<close>

text \<open>
  Resolved paths are lists of components. Reading a text as a path, resolving it (with home directory and links) and
  asking whether a file exists are parameters.
\<close>

type_synonym path = "string list"

record file_system =
  fs_path :: "string \<Rightarrow> path"
  fs_resolve :: "path \<Rightarrow> path option"
  fs_is_file :: "path \<Rightarrow> bool"
  fs_sha256hex :: "string \<Rightarrow> string"

definition resolve_path_at :: "file_system \<Rightarrow> string \<Rightarrow> path \<Rightarrow> string \<Rightarrow> string + path" where
  "resolve_path_at fs label p shown =
     (case fs_resolve fs p of None \<Rightarrow> Inl (label @ '' '' @ quoted shown @ '' cannot be resolved'') | Some q \<Rightarrow> Inr q)"

definition tenant_dir :: "file_system \<Rightarrow> path \<Rightarrow> string \<Rightarrow> string + path" where
  "tenant_dir fs base tenant_id =
     (let p = base @ [safe_tenant_dir_component (fs_sha256hex fs) tenant_id] in resolve_path_at fs ''Execution root'' p (join ''/'' p))"

text \<open>\<^verbatim>\<open>p.relative_to(rdir)\<close> succeeds\<close>

definition below :: "path \<Rightarrow> path \<Rightarrow> bool" where
  "below rdir p \<longleftrightarrow> take (length rdir) p = rdir"

definition validate_directory_root :: "file_system \<Rightarrow> string \<Rightarrow> string \<Rightarrow> path \<Rightarrow> string + path" where
  "validate_directory_root fs v tenant_id base =
     rbind (tenant_dir fs base tenant_id) (\<lambda>rdir.
     rbind (resolve_path_at fs ''Execution root'' (fs_path fs v) v) (\<lambda>resolved.
       if resolved = rdir
       then Inl (''Execution root '' @ quoted v @ '' must be below tenant '' @ quoted tenant_id @ '' workspace directory, not the tenant directory itself'')
       else if \<not> below rdir resolved
       then Inl (''Execution root '' @ quoted v @ '' must be inside tenant '' @ quoted tenant_id @ '' workspace directory'')
       else Inr resolved))"

definition validate_remote_key :: "file_system \<Rightarrow> string \<Rightarrow> string \<Rightarrow> path \<Rightarrow> string + path" where
  "validate_remote_key fs v tenant_id base =
     rbind (tenant_dir fs base tenant_id) (\<lambda>rdir.
     rbind (resolve_path_at fs ''Remote private key'' (fs_path fs v) v) (\<lambda>resolved.
       if \<not> below rdir resolved
       then Inl (''Remote private key must be inside tenant '' @ quoted tenant_id @ '' key directory'')
       else if \<not> fs_is_file fs resolved then Inl ''Remote private key must point to an existing file''
       else Inr resolved))"

text \<open>The two base directories are resolved when the module is loaded.\<close>

definition validate_workspace_target :: "file_system \<Rightarrow> path \<Rightarrow> path \<Rightarrow> execution_target \<Rightarrow> string \<Rightarrow> string + path" where
  "validate_workspace_target fs base key_base target tenant_id =
     (if et_type target = REMOTE
      then (if opt_truthy (et_private_key_path target)
            then validate_remote_key fs (opt_or (et_private_key_path target) []) tenant_id key_base
            else Inl ''remote target requires a private_key_path'')
      else let v = (if et_type target = DIRECTORY then et_filesystem_root target else et_host_mount_src target)
           in if opt_truthy v then validate_directory_root fs (opt_or v []) tenant_id base
              else Inl (target_type_value (et_type target) @ '' target requires an execution root''))"

section \<open>The carrier reaper\<close>

record carrier =
  ct_id :: "string option"
  ct_run_id :: "string option"

definition plan_carrier_reaping :: "carrier list \<Rightarrow> string set \<Rightarrow> string list" where
  "plan_carrier_reaping containers active =
     List.map_filter (\<lambda>k. if opt_truthy (ct_run_id k) \<and> opt_or (ct_run_id k) [] \<notin> active \<and> opt_truthy (ct_id k) then ct_id k else None) containers"

fun active_runs :: "store \<Rightarrow> string list \<Rightarrow> string list result" where
  "active_runs st [] = Inr []"
| "active_runs st (r # rs) =
     (let events = get_events st r
      in if events = [] then active_runs st rs
         else rbind (fold_events events) (\<lambda>s. rmap (\<lambda>xs. if active_status (rs_status s) then r # xs else xs) (active_runs st rs)))"

text \<open>
  The containers to remove, given those that Docker lists with the harness's label. Listing, and removing each of them, is
  Docker's; the set of runs is visited in the order of the listing.
\<close>

definition reap_orphaned_carriers :: "bool \<Rightarrow> carrier list \<Rightarrow> store \<Rightarrow> string list result" where
  "reap_orphaned_carriers docker_available containers st =
     (if \<not> docker_available \<or> containers = [] then Inr []
      else rmap (\<lambda>active. plan_carrier_reaping containers (set active))
             (active_runs st (dedup [] (map (\<lambda>k. opt_or (ct_run_id k) []) (filter (\<lambda>k. opt_truthy (ct_run_id k)) containers)))))"

section \<open>Properties\<close>

lemma tenant_dir_plain:
  assumes "fs_resolve fs (base @ [safe_tenant_dir_component (fs_sha256hex fs) t]) = Some (base @ [safe_tenant_dir_component (fs_sha256hex fs) t])"
  shows "tenant_dir fs base t = Inr (base @ [safe_tenant_dir_component (fs_sha256hex fs) t])"
  using assms by (simp add: tenant_dir_def resolve_path_at_def)

lemma directory_root_below:
  assumes "validate_directory_root fs v t base = Inr p"
  shows "\<exists>rdir. tenant_dir fs base t = Inr rdir \<and> below rdir p \<and> p \<noteq> rdir"
  using assms unfolding validate_directory_root_def by (cases "tenant_dir fs base t") (auto simp: rbind_Inr_iff split: if_splits)

lemma remote_key_below:
  assumes "validate_remote_key fs v t base = Inr p"
  shows "\<exists>rdir. tenant_dir fs base t = Inr rdir \<and> below rdir p \<and> fs_is_file fs p"
  using assms unfolding validate_remote_key_def by (cases "tenant_dir fs base t") (auto simp: rbind_Inr_iff split: if_splits)

lemma target_below:
  assumes "validate_workspace_target fs base key_base target t = Inr p"
  shows "\<exists>rdir. tenant_dir fs (if et_type target = REMOTE then key_base else base) t = Inr rdir \<and> below rdir p"
  using assms directory_root_below remote_key_below unfolding validate_workspace_target_def Let_def
  by (auto split: if_splits) (metis, metis, metis)

lemma below_append: "below (b @ [x]) p \<Longrightarrow> below (b @ [y]) p \<Longrightarrow> x = y"
  by (simp add: below_def)

text \<open>
  Execution roots and keys of different tenants never meet: when the directories of two tenants exist as plain directories
  below the base (no link takes them elsewhere) and have different names, no path is accepted for both.
\<close>

theorem execution_roots_are_disjoint:
  assumes "\<And>x. fs_resolve fs (base @ [x]) = Some (base @ [x])" "\<And>x. fs_resolve fs (key_base @ [x]) = Some (key_base @ [x])"
    and "safe_tenant_dir_component (fs_sha256hex fs) t \<noteq> safe_tenant_dir_component (fs_sha256hex fs) u"
    and "validate_workspace_target fs base key_base a t = Inr p" "validate_workspace_target fs base key_base b u = Inr q"
    and "et_type a = REMOTE \<longleftrightarrow> et_type b = REMOTE"
  shows "p \<noteq> q"
proof
  assume eq: "p = q"
  let ?base = "if et_type a = REMOTE then key_base else base"
  have plain: "fs_resolve fs (?base @ [x]) = Some (?base @ [x])" for x using assms(1,2) by simp
  obtain r where "tenant_dir fs ?base t = Inr r" "below r p" using target_below[OF assms(4)] by blast
  then have 1: "below (?base @ [safe_tenant_dir_component (fs_sha256hex fs) t]) p" using tenant_dir_plain[OF plain] by simp
  obtain s where "tenant_dir fs ?base u = Inr s" "below s q" using target_below[OF assms(5)] assms(6) by auto
  then have "below (?base @ [safe_tenant_dir_component (fs_sha256hex fs) u]) p" using tenant_dir_plain[OF plain] eq by simp
  from below_append[OF 1 this] assms(3) show False by simp
qed

lemma rmap_Inr_iff: "rmap f r = Inr y \<longleftrightarrow> (\<exists>x. r = Inr x \<and> y = f x)"
  by (cases r) auto

lemma active_runs_set:
  assumes "active_runs st rs = Inr xs"
  shows "set xs = {r \<in> set rs. \<exists>s. fold_events (get_events st r) = Inr s \<and> active_status (rs_status s)}"
  using assms
proof (induction rs arbitrary: xs)
  case (Cons r rs)
  show ?case
  proof (cases "get_events st r = []")
    case True
    then have "\<not> (\<exists>s. fold_events (get_events st r) = Inr s)" by (simp add: fold_events_def)
    then show ?thesis using Cons True by auto
  next
    case False
    then obtain s ys where "fold_events (get_events st r) = Inr s" "active_runs st rs = Inr ys"
      "xs = (if active_status (rs_status s) then r # ys else ys)" using Cons.prems by (auto simp: Let_def rbind_Inr_iff rmap_Inr_iff)
    then show ?thesis using Cons.IH by auto
  qed
qed simp

lemma map_filter_cong: "(\<And>x. x \<in> set xs \<Longrightarrow> f x = g x) \<Longrightarrow> List.map_filter f xs = List.map_filter g xs"
  by (induction xs) (simp_all add: map_filter_simps split: option.split)

text \<open>The containers that carry the label of a run.\<close>

definition labelled_carrier :: "carrier \<Rightarrow> bool" where
  "labelled_carrier k \<longleftrightarrow> opt_truthy (ct_run_id k) \<and> opt_truthy (ct_id k)"

definition active_run :: "store \<Rightarrow> string \<Rightarrow> bool" where
  "active_run st rid \<longleftrightarrow> (\<exists>s. fold_events (get_events st rid) = Inr s \<and> active_status (rs_status s))"

abbreviation carrier_run :: "carrier \<Rightarrow> string" where
  "carrier_run k \<equiv> opt_or (ct_run_id k) []"

lemma reaping_exact:
  assumes "reap_orphaned_carriers True containers st = Inr cids"
  shows "cids = List.map_filter (\<lambda>k. if labelled_carrier k \<and> \<not> active_run st (carrier_run k) then ct_id k else None) containers"
proof (cases "containers = []")
  case True
  then show ?thesis using assms by (simp add: reap_orphaned_carriers_def map_filter_simps)
next
  case False
  let ?rids = "dedup [] (map (\<lambda>k. opt_or (ct_run_id k) []) (filter (\<lambda>k. opt_truthy (ct_run_id k)) containers))"
  obtain active where a: "active_runs st ?rids = Inr active" "cids = plan_carrier_reaping containers (set active)"
    using assms False by (auto simp: reap_orphaned_carriers_def rmap_Inr_iff)
  have "opt_or (ct_run_id k) [] \<in> set active \<longleftrightarrow> active_run st (carrier_run k)"
    if "k \<in> set containers" "opt_truthy (ct_run_id k)" for k
    using active_runs_set[OF a(1)] that by (auto simp: set_dedup active_run_def)
  then show ?thesis unfolding a(2) plan_carrier_reaping_def labelled_carrier_def by (intro map_filter_cong) auto
qed

lemma active_runs_return:
  assumes "\<And>r. r \<in> set rs \<Longrightarrow> get_events st r = [] \<or> settled_run st r"
  shows "\<exists>xs. active_runs st rs = Inr xs"
  using assms by (induction rs) (force simp: Let_def settled_run_def)+

text \<open>
  C14: Startup reclaims every container a crash left behind, and the reaper never takes a container from an active run. After the scan
  for orphaned runs no labelled container belongs to an active run, the reaper returns, and it removes exactly the containers with an
  id and the label of a run. On any store, whether the scan ran or not, a reaper that returns has removed exactly those of these
  containers whose run is not active, so that the containers of active runs and those without the label are left alone.
\<close>

theorem startup_reclaims_carriers:
  assumes wf: "store_wf st" "\<forall>rid\<in>set (list_all_run_ids st None). scannable st rid"
    and known: "\<forall>k\<in>set containers. opt_truthy (ct_run_id k) \<longrightarrow>
      opt_or (ct_run_id k) [] \<in> set (list_all_run_ids st None) \<or> get_events st (opt_or (ct_run_id k) []) = []"
  shows "(\<exists>n st'. mark_orphans clock t st = (Inr n, st')
      \<and> (\<forall>k\<in>set containers. labelled_carrier k \<longrightarrow> \<not> active_run st' (carrier_run k))
      \<and> reap_orphaned_carriers True containers st' = Inr (List.map_filter (\<lambda>k. if labelled_carrier k then ct_id k else None) containers))
    \<and> (\<forall>st1 cids. reap_orphaned_carriers True containers st1 = Inr cids \<longrightarrow>
        cids = List.map_filter (\<lambda>k. if labelled_carrier k \<and> \<not> active_run st1 (carrier_run k) then ct_id k else None) containers)"
proof -
  let ?rids = "list_all_run_ids st None"
  have "distinct ?rids" by (simp add: list_all_run_ids_def distinct_dedup)
  from mark_loop_ok[OF wf(1) this wf(2), of clock t 0] obtain n st' where 1: "mark_orphans clock t st = (Inr n, st')"
    "\<forall>rid\<in>set ?rids. settled_run st' rid" "\<forall>rid. rid \<notin> set ?rids \<longrightarrow> get_events st' rid = get_events st rid"
    unfolding mark_orphans_def by blast
  have quiet: "get_events st' (opt_or (ct_run_id k) []) = [] \<or> settled_run st' (opt_or (ct_run_id k) [])"
    if "k \<in> set containers" "opt_truthy (ct_run_id k)" for k
    using known 1(2,3) that by (cases "opt_or (ct_run_id k) [] \<in> set ?rids") auto
  have "\<exists>cids. reap_orphaned_carriers True containers st' = Inr cids"
  proof (cases "containers = []")
    case False
    obtain xs where "active_runs st' (dedup [] (map (\<lambda>k. opt_or (ct_run_id k) []) (filter (\<lambda>k. opt_truthy (ct_run_id k)) containers))) = Inr xs"
      using active_runs_return[of "dedup [] (map (\<lambda>k. opt_or (ct_run_id k) []) (filter (\<lambda>k. opt_truthy (ct_run_id k)) containers))" st'] quiet
      by (auto simp: set_dedup)
    then show ?thesis using False by (simp add: reap_orphaned_carriers_def)
  qed (simp add: reap_orphaned_carriers_def)
  then obtain cids where r: "reap_orphaned_carriers True containers st' = Inr cids" by blast
  have idle: "\<not> active_run st' (carrier_run k)" if "k \<in> set containers" "labelled_carrier k" for k
    using quiet[OF that(1)] that(2) by (auto simp: labelled_carrier_def settled_run_def fold_events_def active_run_def)
  have "cids = List.map_filter (\<lambda>k. if labelled_carrier k then ct_id k else None) containers"
    unfolding reaping_exact[OF r] by (rule map_filter_cong) (use idle in auto)
  with 1(1) r idle have "\<exists>n st'. mark_orphans clock t st = (Inr n, st')
      \<and> (\<forall>k\<in>set containers. labelled_carrier k \<longrightarrow> \<not> active_run st' (carrier_run k))
      \<and> reap_orphaned_carriers True containers st' = Inr (List.map_filter (\<lambda>k. if labelled_carrier k then ct_id k else None) containers)" by blast
  then show ?thesis using reaping_exact by blast
qed

section \<open>Witnesses\<close>

definition plain_fs :: file_system where
  "plain_fs = \<lparr> fs_path = split_on (CHR ''/''), fs_resolve = Some, fs_is_file = (\<lambda>_. True), fs_sha256hex = (\<lambda>_. replicate 64 (CHR ''a'')) \<rparr>"

definition directory_target :: "string \<Rightarrow> execution_target" where
  "directory_target p = \<lparr> et_type = DIRECTORY, et_filesystem_root = Some p, et_docker_image = None, et_host_mount_src = None, et_mount_root = None,
     et_host = None, et_port = 22, et_username = None, et_private_key_path = None, et_remote_root = None \<rparr>"

lemma execution_roots_are_disjoint_witness:
  "validate_workspace_target plain_fs [''ws''] [''keys''] (directory_target ''ws/acme/p'') ''acme'' = Inr [''ws'', ''acme'', ''p'']
   \<and> [''ws'', ''acme'', ''p''] \<noteq> [''ws'', ''zeta'', ''p'']"
proof -
  have v: "validate_workspace_target plain_fs [''ws''] [''keys''] (directory_target ''ws/acme/p'') ''acme'' = Inr [''ws'', ''acme'', ''p'']
    \<and> validate_workspace_target plain_fs [''ws''] [''keys''] (directory_target ''ws/zeta/p'') ''zeta'' = Inr [''ws'', ''zeta'', ''p'']
    \<and> safe_tenant_dir_component (fs_sha256hex plain_fs) ''acme'' \<noteq> safe_tenant_dir_component (fs_sha256hex plain_fs) ''zeta''" by code_simp
  have "[''ws'', ''acme'', ''p''] \<noteq> [''ws'', ''zeta'', ''p'']"
    by (rule execution_roots_are_disjoint[OF _ _ conjunct2[OF conjunct2[OF v]] conjunct1[OF v] conjunct1[OF conjunct2[OF v]]])
       (simp_all add: plain_fs_def directory_target_def)
  with v show ?thesis by blast
qed

lemma startup_reclaims_carriers_witness:
  "(\<exists>n st'. mark_orphans of_nat ''1.0'' sample_store = (Inr n, st')
    \<and> reap_orphaned_carriers True [\<lparr>ct_id = Some ''k1'', ct_run_id = Some ''r1''\<rparr>, \<lparr>ct_id = Some ''k2'', ct_run_id = None\<rparr>] st' = Inr [''k1''])
   \<and> reap_orphaned_carriers True [\<lparr>ct_id = Some ''k1'', ct_run_id = Some ''r1''\<rparr>, \<lparr>ct_id = Some ''k2'', ct_run_id = None\<rparr>] sample_store = Inr []"
proof -
  let ?ks = "[\<lparr>ct_id = Some ''k1'', ct_run_id = Some ''r1''\<rparr>, \<lparr>ct_id = Some ''k2'', ct_run_id = None\<rparr>]"
  have s: "list_all_run_ids sample_store None = [''r1''] \<and> map_sum (\<lambda>_. ()) rs_status (fold_events (get_events sample_store ''r1'')) = Inr RS_RUNNING
    \<and> list_all (\<lambda>r. \<not> key_matches ''r1'' (event_type_value RUN) ''orphan_fail_r1'' r) (es_events sample_store)
    \<and> List.map_filter (\<lambda>k. if labelled_carrier k then ct_id k else None) ?ks = [''k1'']
    \<and> map_sum (\<lambda>_. ()) (\<lambda>_. ()) (reap_orphaned_carriers True ?ks sample_store) = Inr ()" by code_simp
  from s obtain cids where c: "reap_orphaned_carriers True ?ks sample_store = Inr cids" by (cases "reap_orphaned_carriers True ?ks sample_store") auto
  from s obtain x where x: "fold_events (get_events sample_store ''r1'') = Inr x" "active_status (rs_status x)"
    by (cases "fold_events (get_events sample_store ''r1'')") (auto simp: active_status_def)
  then have "\<forall>rid\<in>set (list_all_run_ids sample_store None). scannable sample_store rid"
    using s by (simp add: scannable_def unused_key_def list_all_iff)
  note reclaim = startup_reclaims_carriers[OF sample_store_wf this, of ?ks of_nat "''1.0''"]
  have known: "\<forall>k\<in>set ?ks. opt_truthy (ct_run_id k) \<longrightarrow>
      opt_or (ct_run_id k) [] \<in> set (list_all_run_ids sample_store None) \<or> get_events sample_store (opt_or (ct_run_id k) []) = []"
    using s by (simp add: opt_truthy_def opt_or_def str_or_def)
  have "cids = []" using conjunct2[OF reclaim[OF known], rule_format, OF c] x
    by (simp add: active_run_def labelled_carrier_def opt_truthy_def opt_or_def str_or_def map_filter_simps)
  moreover have "\<exists>n st'. mark_orphans of_nat ''1.0'' sample_store = (Inr n, st') \<and> reap_orphaned_carriers True ?ks st' = Inr [''k1'']"
    using conjunct1[OF reclaim[OF known]] s by auto
  ultimately show ?thesis using c by blast
qed

end
