(* ===== verification/Replay.thy ===== *)
theory Replay
  imports Scoped_Store
begin

text \<open>
  The event replay inspector (replay/projection.py, replay/service.py): the state of a run at any
  point of its log, the timeline by pages, and the difference between two points. Reading the log
  is the store's; the operations are functions of the events read. A client sees the past unchanged
  by later appends, and the pages cover the timeline.
\<close>

section \<open>Reconstruction\<close>

definition reconstruct_state :: "event list \<Rightarrow> int option \<Rightarrow> run_state result" where
  "reconstruct_state events at_seq =
     (case events of
        [] \<Rightarrow> Inl (ValueError ''Cannot reconstruct state from an empty event list'')
      | first # _ \<Rightarrow>
          (case at_seq of
             None \<Rightarrow> fold_events events
           | Some n \<Rightarrow>
               if n < ev_seq first
               then Inl (ValueError (''at_seq='' @ show_int n @ '' is before the first event (seq='' @ show_int (ev_seq first)
                      @ ''); no state exists yet''))
               else fold_events (filter (\<lambda>e. ev_seq e \<le> n) events)))"

section \<open>The timeline\<close>

record replay_timeline_event =
  rt_seq :: int
  rt_event_type :: string
  rt_created_at :: timestamp
  rt_payload :: payload
  rt_tool_name :: "string option"
  rt_tool_call_id :: "string option"
  rt_step_id :: "string option"
  rt_is_terminal :: bool

text \<open>\<^verbatim>\<open>payload.get(key)\<close> for the three keys the timeline shows.\<close>

fun payload_tool_name :: "payload \<Rightarrow> string option" where
  "payload_tool_name (PTool (ToolCalled p)) = Some (tc_tool_name p)"
| "payload_tool_name (PTool (ToolCompleted p)) = Some (tco_tool_name p)"
| "payload_tool_name (PTool (ToolFailed p)) = Some (tf_tool_name p)"
| "payload_tool_name (PTool (ToolTimeout p)) = Some (tt_tool_name p)"
| "payload_tool_name (PTool (GuardrailTriggered p)) = Some (gt_tool_name p)"
| "payload_tool_name (PTool (OutputBlobStored p)) = Some (obs_tool_name p)"
| "payload_tool_name (PConfirmation (ConfirmationRequested p)) = Some (crq_tool_name p)"
| "payload_tool_name (PStep (DagStepStarted p)) = Some (dss_tool_name p)"
| "payload_tool_name (PStep (DagStepFailed p)) = Some (dsf_tool_name p)"
| "payload_tool_name (PStep (DagStepSkipped p)) = Some (dsk_tool_name p)"
| "payload_tool_name (PStepRepair (StepLocalRepairCompleted p)) = Some (slrc_tool_name p)"
| "payload_tool_name _ = None"

fun payload_tool_call_id :: "payload \<Rightarrow> string option" where
  "payload_tool_call_id (PTool (ToolCalled p)) = Some (tc_tool_call_id p)"
| "payload_tool_call_id (PTool (ToolCompleted p)) = Some (tco_tool_call_id p)"
| "payload_tool_call_id (PTool (ToolFailed p)) = Some (tf_tool_call_id p)"
| "payload_tool_call_id (PTool (ToolTimeout p)) = Some (tt_tool_call_id p)"
| "payload_tool_call_id (PTool (GuardrailTriggered p)) = Some (gt_tool_call_id p)"
| "payload_tool_call_id (PTool (OutputBlobStored p)) = Some (obs_tool_call_id p)"
| "payload_tool_call_id (PConfirmation (ConfirmationRequested p)) = Some (crq_tool_call_id p)"
| "payload_tool_call_id (PStep (DagStepCompleted p)) = dsc_tool_call_id p"
| "payload_tool_call_id (PStep (DagStepFailed p)) = dsf_tool_call_id p"
| "payload_tool_call_id _ = None"

fun payload_step_id :: "payload \<Rightarrow> string option" where
  "payload_step_id (PTool (ToolCalled p)) = tc_step_id p"
| "payload_step_id (PTool (ToolCompleted p)) = tco_step_id p"
| "payload_step_id (PTool (ToolFailed p)) = tf_step_id p"
| "payload_step_id (PTool (ToolTimeout p)) = tt_step_id p"
| "payload_step_id (PTool (GuardrailTriggered p)) = gt_step_id p"
| "payload_step_id (PTool (OutputBlobStored p)) = obs_step_id p"
| "payload_step_id (PConfirmation (ConfirmationRequested p)) = crq_step_id p"
| "payload_step_id (PConfirmation (ConfirmationReceived p)) = crc_step_id p"
| "payload_step_id (PStep (DagStepStarted p)) = Some (dss_step_id p)"
| "payload_step_id (PStep (DagStepCompleted p)) = Some (dsc_step_id p)"
| "payload_step_id (PStep (DagStepFailed p)) = Some (dsf_step_id p)"
| "payload_step_id (PStep (DagStepSkipped p)) = Some (dsk_step_id p)"
| "payload_step_id (PStepRepair (StepLocalRepairStarted p)) = Some (slrs_step_id p)"
| "payload_step_id (PStepRepair (StepLocalRepairCompleted p)) = Some (slrc_step_id p)"
| "payload_step_id _ = None"

definition project_timeline_event :: "event \<Rightarrow> replay_timeline_event" where
  "project_timeline_event e = \<lparr> rt_seq = ev_seq e, rt_event_type = event_type_value (ev_type e), rt_created_at = ev_created_at e,
     rt_payload = ev_payload e, rt_tool_name = payload_tool_name (ev_payload e), rt_tool_call_id = payload_tool_call_id (ev_payload e),
     rt_step_id = payload_step_id (ev_payload e), rt_is_terminal = is_terminal_event (ev_type e) (ev_phase e) \<rparr>"

record replay_timeline_response =
  tr_run_id :: string
  tr_latest_seq :: int
  tr_total :: int
  tr_timeline :: "replay_timeline_event list"
  tr_next_cursor :: int
  tr_has_more :: bool

text \<open>\<^verbatim>\<open>xs[a:b]\<close> for a start that is not negative; a negative end counts from the back.\<close>

definition py_slice :: "int \<Rightarrow> int \<Rightarrow> 'a list \<Rightarrow> 'a list" where
  "py_slice a b xs = (let stop = (if b < 0 then max 0 (int (length xs) + b) else b) in take (nat (stop - a)) (drop (nat a) xs))"

definition get_timeline :: "event list \<Rightarrow> string \<Rightarrow> int \<Rightarrow> int \<Rightarrow> replay_timeline_response option" where
  "get_timeline events run_id cursor limit =
     (if events = [] then None
      else let total = int (length events); start = max cursor 0; stop = min (start + limit) total
           in Some \<lparr> tr_run_id = run_id, tr_latest_seq = ev_seq (last events), tr_total = total,
                tr_timeline = map project_timeline_event (py_slice start stop events),
                tr_next_cursor = (if stop < total then stop else 0), tr_has_more = stop < total \<rparr>)"

section \<open>The state at a point\<close>

record guardrail_block_view =
  gv_guardrail_id :: string
  gv_reason :: string
  gv_event_seq :: int
  gv_tool_call_id :: string
  gv_tool_name :: string
  gv_step_id :: "string option"

fun guardrail_block :: "event \<Rightarrow> guardrail_block_view option" where
  "guardrail_block e =
     (case ev_payload e of
        PTool (GuardrailTriggered p) \<Rightarrow> Some \<lparr> gv_guardrail_id = gt_guardrail_id p, gv_reason = gt_reason p, gv_event_seq = ev_seq e,
          gv_tool_call_id = gt_tool_call_id p, gv_tool_name = gt_tool_name p, gv_step_id = gt_step_id p \<rparr>
      | _ \<Rightarrow> None)"

definition guardrail_blocks :: "event list \<Rightarrow> guardrail_block_view list" where
  "guardrail_blocks events = List.map_filter guardrail_block events"

record pending_confirmation_view =
  pv_confirmation_id :: string
  pv_tool_name :: string
  pv_risk_level :: string
  pv_event_seq :: int

definition confirmation_seqs :: "event list \<Rightarrow> int dict" where
  "confirmation_seqs events =
     fold (\<lambda>e d. case ev_payload e of PConfirmation (ConfirmationRequested p) \<Rightarrow> dset (crq_confirmation_id p) (ev_seq e) d | _ \<Rightarrow> d) events []"

definition pending_confirmation_views :: "run_state \<Rightarrow> event list \<Rightarrow> pending_confirmation_view list" where
  "pending_confirmation_views st events =
     map (\<lambda>p. \<lparr> pv_confirmation_id = crq_confirmation_id p, pv_tool_name = crq_tool_name p, pv_risk_level = crq_risk_level p,
                pv_event_seq = dget_or 0 (confirmation_seqs events) (crq_confirmation_id p) \<rparr>) (rs_pending_confirmations st)"

text \<open>What a checked field of a view accepts.\<close>

definition view_str :: "json \<Rightarrow> string result" where
  "view_str v = (case v of JStr s \<Rightarrow> Inr s | _ \<Rightarrow> Inl (ValueError ''a string is required''))"

definition view_opt :: "json option \<Rightarrow> string option result" where
  "view_opt v = (case v of None \<Rightarrow> Inr None | Some JNull \<Rightarrow> Inr None | Some j \<Rightarrow> rmap Some (view_str j))"

fun view_all :: "('a \<Rightarrow> 'e + 'b) \<Rightarrow> 'a list \<Rightarrow> 'e + 'b list" where
  "view_all f [] = Inr []"
| "view_all f (x # xs) = rbind (f x) (\<lambda>y. rmap (\<lambda>ys. y # ys) (view_all f xs))"

text \<open>The view of a piece of evidence is the evidence with checked dependencies and the gate's verdict on it.\<close>

definition step_evidence_view :: "run_state \<Rightarrow> (step_evidence \<times> string list \<times> bool) list result" where
  "step_evidence_view st =
     view_all (\<lambda>ev. rmap (\<lambda>deps. (ev, deps, evidence_normal ev)) (view_all view_str (se_depends_on ev)))
       (sort_key se_step_id (map snd (rs_step_evidence st)))"

record plan_step_view =
  psv_step_id :: string
  psv_status :: string
  psv_tool_name :: "string option"
  psv_output_summary :: "string option"
  psv_error :: "string option"
  psv_reason :: "string option"
  psv_tool_call_id :: "string option"

definition step_view :: "json dict \<Rightarrow> plan_step_view result" where
  "step_view s =
     rbind (view_str (dget_or (JStr []) s ''step_id'')) (\<lambda>sid.
     rbind (view_str (dget_or (JStr ''pending'') s ''status'')) (\<lambda>status.
     rbind (view_opt (dget s ''tool_name'')) (\<lambda>tool.
     rbind (view_opt (dget s ''output_summary'')) (\<lambda>summary.
     rbind (view_opt (dget s ''error'')) (\<lambda>err.
     rbind (view_opt (dget s ''reason'')) (\<lambda>reason.
     rmap (\<lambda>call. \<lparr> psv_step_id = sid, psv_status = status, psv_tool_name = tool, psv_output_summary = summary, psv_error = err,
                    psv_reason = reason, psv_tool_call_id = call \<rparr>) (view_opt (dget s ''tool_call_id''))))))))"

record plan_view =
  pw_plan_id :: string
  pw_intent :: string
  pw_status :: "string option"
  pw_summary :: "string option"
  pw_final_error :: "string option"
  pw_steps :: "plan_step_view list"

definition plan_view_of :: "run_state \<Rightarrow> plan_view option result" where
  "plan_view_of st =
     (case latest_entry st of
        None \<Rightarrow> Inr None
      | Some pe \<Rightarrow> rmap (\<lambda>steps. Some \<lparr> pw_plan_id = ple_plan_id pe, pw_intent = ple_intent pe, pw_status = ple_status pe,
                      pw_summary = ple_summary pe, pw_final_error = ple_final_error pe, pw_steps = steps \<rparr>)
                    (view_all step_view (ple_steps pe)))"

text \<open>The view carries the folded state (of which the wire shape copies fields) and what is added to it.\<close>

record run_state_view =
  rv_state :: run_state
  rv_latest_seq :: int
  rv_is_latest :: bool
  rv_completion_summary :: "string option"
  rv_plan :: "plan_view option"
  rv_guardrail_blocks :: "guardrail_block_view list"
  rv_pending_confirmations :: "pending_confirmation_view list"
  rv_step_evidence :: "(step_evidence \<times> string list \<times> bool) list"
  rv_thought_count :: nat

definition project_state_view :: "event list \<Rightarrow> int \<Rightarrow> int \<Rightarrow> run_state_view result" where
  "project_state_view events at_seq latest_seq =
     rbind (reconstruct_state events (Some at_seq)) (\<lambda>st.
     rbind (plan_view_of st) (\<lambda>plan.
     rmap (\<lambda>evidence. let sliced = filter (\<lambda>e. ev_seq e \<le> at_seq) events in
        \<lparr> rv_state = st, rv_latest_seq = latest_seq, rv_is_latest = rs_seq st \<ge> latest_seq,
          rv_completion_summary = (case rs_summary st of Some (SumText t) \<Rightarrow> Some t | _ \<Rightarrow> None), rv_plan = plan,
          rv_guardrail_blocks = guardrail_blocks sliced, rv_pending_confirmations = pending_confirmation_views st sliced,
          rv_step_evidence = evidence, rv_thought_count = length (rs_thought_history st) \<rparr>) (step_evidence_view st)))"

section \<open>Differences\<close>

fun jget :: "(json \<times> 'v) list \<Rightarrow> json \<Rightarrow> 'v option" where
  "jget [] k = None"
| "jget ((k', v) # d) k = (if py_eq k' k then Some v else jget d k)"

fun jset :: "json \<Rightarrow> 'v \<Rightarrow> (json \<times> 'v) list \<Rightarrow> (json \<times> 'v) list" where
  "jset k v [] = [(k, v)]"
| "jset k v ((k', v') # d) = (if py_eq k' k then (k', v) # d else (k', v') # jset k v d)"

fun hashable :: "json \<Rightarrow> bool" where
  "hashable (JList _) = False"
| "hashable (JDict _) = False"
| "hashable _ = True"

definition step_map_of :: "(json dict \<Rightarrow> 'v) \<Rightarrow> run_state \<Rightarrow> (json \<times> 'v) list result" where
  "step_map_of f st =
     fold_result (\<lambda>s d. let k = dget_or (JStr []) s ''step_id'' in if hashable k then Inr (jset k (f s) d) else Inl (TypeErr ''unhashable type''))
       (case latest_entry st of None \<Rightarrow> [] | Some pe \<Rightarrow> ple_steps pe) []"

definition step_status_map :: "run_state \<Rightarrow> (json \<times> json) list result" where
  "step_status_map = step_map_of (\<lambda>s. dget_or (JStr ''pending'') s ''status'')"

definition step_error_map :: "run_state \<Rightarrow> (json \<times> json option) list result" where
  "step_error_map = step_map_of (\<lambda>s. dget s ''error'')"

record step_change_view =
  sc_step_id :: string
  sc_from_status :: "string option"
  sc_to_status :: "string option"
  sc_error :: "string option"

definition step_change :: "(json \<times> json) list \<Rightarrow> (json \<times> json option) list \<Rightarrow> json \<times> json \<Rightarrow> step_change_view option result" where
  "step_change before errors x =
     (case x of (sid, to_status) \<Rightarrow>
        if (case jget before sid of None \<Rightarrow> to_status = JNull | Some v \<Rightarrow> py_eq v to_status) then Inr None
        else rbind (view_str sid) (\<lambda>s.
             rbind (view_opt (jget before sid)) (\<lambda>from.
             rbind (view_opt (Some to_status)) (\<lambda>to.
             rmap (\<lambda>err. Some \<lparr> sc_step_id = s, sc_from_status = from, sc_to_status = to, sc_error = err \<rparr>)
               (if to_status = JStr ''failed'' then view_opt (case jget errors sid of None \<Rightarrow> None | Some v \<Rightarrow> v) else Inr None)))))"

record state_diff =
  sd_run_id :: string
  sd_from_seq :: int
  sd_to_seq :: int
  sd_status_change :: "(run_status \<times> run_status) option"
  sd_steps_changed :: "step_change_view list"
  sd_tool_results_added :: "tool_result list"
  sd_guardrails_triggered :: "guardrail_block_view list"
  sd_error_change :: "(string option \<times> string option) option"
  sd_events_in_range :: "replay_timeline_event list"

definition diff_states :: "event list \<Rightarrow> int \<Rightarrow> int \<Rightarrow> state_diff result" where
  "diff_states events from_seq to_seq =
     (if from_seq > to_seq then Inl (ValueError (''from_seq ('' @ show_int from_seq @ '') must be <= to_seq ('' @ show_int to_seq @ '')''))
      else
        rbind (reconstruct_state events (Some from_seq)) (\<lambda>before.
        rbind (reconstruct_state events (Some to_seq)) (\<lambda>after.
        rbind (step_status_map before) (\<lambda>before_steps.
        rbind (step_status_map after) (\<lambda>after_steps.
        rbind (step_error_map after) (\<lambda>after_errors.
        rmap (\<lambda>changes.
          let in_range = filter (\<lambda>e. from_seq < ev_seq e \<and> ev_seq e \<le> to_seq) events
          in \<lparr> sd_run_id = rs_run_id after, sd_from_seq = from_seq, sd_to_seq = to_seq,
               sd_status_change = (if rs_status before \<noteq> rs_status after then Some (rs_status before, rs_status after) else None),
               sd_steps_changed = List.map_filter id changes,
               sd_tool_results_added = filter (\<lambda>tr. trs_tool_call_id tr \<notin> trs_tool_call_id ` set (rs_tool_results before)) (rs_tool_results after),
               sd_guardrails_triggered = guardrail_blocks in_range,
               sd_error_change = (if rs_last_error before \<noteq> rs_last_error after then Some (rs_last_error before, rs_last_error after) else None),
               sd_events_in_range = map project_timeline_event in_range \<rparr>)
          (view_all (step_change before_steps after_errors) after_steps)))))))"

section \<open>The service\<close>

datatype replay_error = RunNotFound string | SeqOutOfRange string | ReplayError py_error

definition validate_seq :: "int \<Rightarrow> int \<Rightarrow> int \<Rightarrow> replay_error + unit" where
  "validate_seq n first_seq last_seq =
     (if n < first_seq \<or> n > last_seq
      then Inl (SeqOutOfRange (''seq '' @ show_int n @ '' is out of range for this run (visible range: '' @ show_int first_seq @ ''..''
             @ show_int last_seq @ '')''))
      else Inr ())"

definition lift_replay :: "'a result \<Rightarrow> replay_error + 'a" where
  "lift_replay r = (case r of Inl e \<Rightarrow> Inl (ReplayError e) | Inr x \<Rightarrow> Inr x)"

definition get_state_at :: "event list \<Rightarrow> string \<Rightarrow> int option \<Rightarrow> replay_error + run_state_view" where
  "get_state_at events run_id at_seq =
     (if events = [] then Inl (RunNotFound run_id)
      else let last_seq = ev_seq (last events); target = (case at_seq of None \<Rightarrow> last_seq | Some n \<Rightarrow> n)
           in rbind (validate_seq target (ev_seq (hd events)) last_seq) (\<lambda>_. lift_replay (project_state_view events target last_seq)))"

definition get_diff :: "event list \<Rightarrow> string \<Rightarrow> int \<Rightarrow> int \<Rightarrow> replay_error + state_diff" where
  "get_diff events run_id from_seq to_seq =
     (if events = [] then Inl (RunNotFound run_id)
      else if from_seq > to_seq
      then Inl (SeqOutOfRange (''from_seq ('' @ show_int from_seq @ '') must be <= to_seq ('' @ show_int to_seq @ '')''))
      else let first_seq = ev_seq (hd events); last_seq = ev_seq (last events)
           in rbind (validate_seq from_seq first_seq last_seq) (\<lambda>_.
              rbind (validate_seq to_seq first_seq last_seq) (\<lambda>_. lift_replay (diff_states events from_seq to_seq))))"

record replay_run_meta =
  rm_run_id :: string
  rm_status :: run_status
  rm_intent :: string
  rm_latest_seq :: int
  rm_event_count :: int
  rm_created_at :: timestamp

definition get_run_meta :: "event list \<Rightarrow> string \<Rightarrow> replay_run_meta option result" where
  "get_run_meta events run_id =
     (case events of
        [] \<Rightarrow> Inr None
      | first # _ \<Rightarrow>
          let latest_seq = Max (ev_seq ` set events)
          in rmap (\<lambda>v. Some \<lparr> rm_run_id = run_id, rm_status = rs_status (rv_state v), rm_intent = rs_intent (rv_state v),
                       rm_latest_seq = latest_seq, rm_event_count = int (length events), rm_created_at = ev_created_at first \<rparr>)
               (project_state_view events latest_seq latest_seq))"

section \<open>The past does not change\<close>

lemma row_event_seq: "event_from_row r = Some e \<Longrightarrow> ev_seq e = er_seq r"
  by (cases "er_body r") (auto simp: event_from_row.simps)

lemma rows_events_increasing:
  assumes "sorted_wrt (<) (map er_seq rows)"
  shows "sorted_wrt (<) (map ev_seq (events_of_rows rows)) \<and> set (map ev_seq (events_of_rows rows)) \<subseteq> set (map er_seq rows)"
  using assms
proof (induction rows)
  case (Cons a rows)
  then have ih: "sorted_wrt (<) (map ev_seq (events_of_rows rows))" "set (map ev_seq (events_of_rows rows)) \<subseteq> set (map er_seq rows)" by auto
  show ?case
  proof (cases "event_from_row a")
    case None
    then show ?thesis using ih by (auto simp: events_of_rows_def map_filter_simps)
  next
    case (Some e)
    have "\<forall>y\<in>set (map ev_seq (events_of_rows rows)). er_seq a < y" using ih(2) Cons.prems by auto
    then show ?thesis using ih row_event_seq[OF Some] Some
      by (auto simp: events_of_rows_def map_filter_simps)
  qed
qed (simp add: events_of_rows_def map_filter_simps)

lemma get_events_increasing:
  assumes "store_wf s"
  shows "sorted_wrt (<) (map ev_seq (get_events s run_id))"
proof -
  have "map er_seq (run_rows run_id (es_events s)) = [1..int (length (run_rows run_id (es_events s)))]"
    using assms by (simp add: store_wf_def rows_wf_def contiguous_def)
  then have c: "sorted_wrt (<) (map er_seq (run_rows run_id (es_events s)))" by simp
  with rows_events_increasing[OF this] assms show ?thesis by (simp add: get_events_rows store_wf_def)
qed

lemma append_event_extends:
  assumes "store_wf st"
  shows "\<exists>new. get_events (snd (append_event st rid p opts now)) run_id = get_events st run_id @ new"
proof (cases "dup_row (new_row st rid p opts now) (es_events st)")
  case None
  then have a: "append_event st rid p opts now = append_commit st rid p opts now" using append_event_eq[OF assms] by simp
  have wf': "store_wf (snd (append_commit st rid p opts now))" by (rule store_wf_append_commit[OF assms])
  have "es_events (snd (append_commit st rid p opts now)) = es_events st @ [allocated_row st rid p opts now]"
    using None append_commit_rows[OF assms] by simp
  from get_events_snoc[OF assms wf' this allocated_row_simps(2)] show ?thesis unfolding a by blast
next
  case (Some q)
  then have "snd (append_event st rid p opts now) = st" using append_event_eq[OF assms] by simp
  then show ?thesis by simp
qed

lemma later_seq: "sorted_wrt (<) (map ev_seq (es @ new)) \<Longrightarrow> a \<in> set es \<Longrightarrow> b \<in> set new \<Longrightarrow> ev_seq a < ev_seq b"
  by (simp add: sorted_wrt_append)

lemma past_slice:
  assumes "sorted_wrt (<) (map ev_seq (es @ new))" "es \<noteq> []" "n \<le> ev_seq (last es)"
  shows "filter (\<lambda>e. ev_seq e \<le> n) (es @ new) = filter (\<lambda>e. ev_seq e \<le> n) es"
    and "filter (\<lambda>e. m < ev_seq e \<and> ev_seq e \<le> n) (es @ new) = filter (\<lambda>e. m < ev_seq e \<and> ev_seq e \<le> n) es"
proof -
  have "n < ev_seq e" if "e \<in> set new" for e
    using later_seq[OF assms(1) last_in_set[OF assms(2)] that] assms(3) by linarith
  then show "filter (\<lambda>e. ev_seq e \<le> n) (es @ new) = filter (\<lambda>e. ev_seq e \<le> n) es"
    "filter (\<lambda>e. m < ev_seq e \<and> ev_seq e \<le> n) (es @ new) = filter (\<lambda>e. m < ev_seq e \<and> ev_seq e \<le> n) es"
    by (simp_all add: filter_empty_conv) (use linorder_not_le in blast)+
qed

lemma reconstruct_past:
  assumes "sorted_wrt (<) (map ev_seq (es @ new))" "es \<noteq> []" "n \<le> ev_seq (last es)"
  shows "reconstruct_state (es @ new) (Some n) = reconstruct_state es (Some n)"
  using past_slice(1)[OF assms] assms(2) by (auto simp: reconstruct_state_def split: list.splits)

lemma rmap_lift_replay: "rmap f (lift_replay r) = lift_replay (rmap f r)"
  by (cases r) (simp_all add: lift_replay_def)

text \<open>A view without the mark of how far the log goes beyond it.\<close>

definition unmarked :: "run_state_view \<Rightarrow> run_state_view" where
  "unmarked v = v\<lparr>rv_latest_seq := 0, rv_is_latest := False\<rparr>"

lemma unmarked_view: "rmap unmarked (project_state_view es n k) =
    rbind (reconstruct_state es (Some n)) (\<lambda>st. rbind (plan_view_of st) (\<lambda>plan. rmap (\<lambda>evidence.
      \<lparr> rv_state = st, rv_latest_seq = 0, rv_is_latest = False,
        rv_completion_summary = (case rs_summary st of Some (SumText t) \<Rightarrow> Some t | _ \<Rightarrow> None), rv_plan = plan,
        rv_guardrail_blocks = guardrail_blocks (filter (\<lambda>e. ev_seq e \<le> n) es),
        rv_pending_confirmations = pending_confirmation_views st (filter (\<lambda>e. ev_seq e \<le> n) es),
        rv_step_evidence = evidence, rv_thought_count = length (rs_thought_history st) \<rparr>) (step_evidence_view st)))"
  by (simp add: project_state_view_def rmap_rbind rmap_rmap Let_def unmarked_def)

text \<open>
  C35: Events are only ever appended, so what the inspector shows of the past of a run stays what it was: after any append, to
  this run or another, the view at every point already visible (the state, the plan, the blocks, the pending confirmations and the
  evidence) is the same as before, but for the mark of how far the log goes; and so is the difference between any two such points.
\<close>

theorem replay_past_is_stable:
  assumes wf: "store_wf st" and es: "scoped_get_events t st run_id = es" "es \<noteq> []"
    and range: "ev_seq (hd es) \<le> m" "m \<le> n" "n \<le> ev_seq (last es)"
  shows "rmap unmarked (get_state_at (scoped_get_events t (snd (append_event st rid p opts now)) run_id) run_id (Some n))
       = rmap unmarked (get_state_at es run_id (Some n))
     \<and> get_diff (scoped_get_events t (snd (append_event st rid p opts now)) run_id) run_id m n = get_diff es run_id m n"
proof -
  let ?st = "snd (append_event st rid p opts now)"
  obtain new0 where "get_events ?st run_id = get_events st run_id @ new0" using append_event_extends[OF wf] by blast
  then obtain new where new: "scoped_get_events t ?st run_id = es @ new" using es(1) by (simp add: scoped_get_events_def of_tenant_def)
  have "sorted_wrt (<) (map ev_seq (get_events ?st run_id))" by (rule get_events_increasing[OF store_wf_append[OF wf]])
  then have "sorted_wrt (<) (map ev_seq (scoped_get_events t ?st run_id))"
    by (simp add: scoped_get_events_def of_tenant_def sorted_wrt_map sorted_wrt_filter)
  then have s: "sorted_wrt (<) (map ev_seq (es @ new))" unfolding new .
  have le: "ev_seq (last es) \<le> ev_seq (last (es @ new))" 
  proof (cases "new = []")
    case False
    then show ?thesis using later_seq[OF s last_in_set[OF es(2)] last_in_set[OF False]] by simp
  qed simp
  have m: "m \<le> ev_seq (last es)" "ev_seq (hd es) \<le> n" using range by linarith+
  note r = reconstruct_past[OF s es(2) range(3)] reconstruct_past[OF s es(2) m(1)]
  have hd: "hd (es @ new) = hd es" using es(2) by simp
  have "rmap unmarked (get_state_at (es @ new) run_id (Some n)) = rmap unmarked (get_state_at es run_id (Some n))"
    using es(2) hd m range le
    by (simp add: get_state_at_def validate_seq_def Let_def rmap_lift_replay unmarked_view r past_slice(1)[OF s es(2) range(3)] del: filter_append)
  moreover have "get_diff (es @ new) run_id m n = get_diff es run_id m n"
    using es(2) hd m range le past_slice(2)[OF s es(2) range(3), of m]
    by (simp add: get_diff_def validate_seq_def Let_def diff_states_def r)
  ultimately show ?thesis unfolding new ..
qed

section \<open>Paging\<close>

text \<open>A client that follows the cursors, page by page.\<close>

function all_pages :: "event list \<Rightarrow> string \<Rightarrow> int \<Rightarrow> int \<Rightarrow> replay_timeline_event list" where
  "all_pages events run_id limit cursor =
     (case get_timeline events run_id cursor limit of
        None \<Rightarrow> []
      | Some page \<Rightarrow> tr_timeline page @ (if tr_has_more page \<and> 0 < limit then all_pages events run_id limit (tr_next_cursor page) else []))"
  by pat_completeness auto

termination
  by (relation "measure (\<lambda>(events, _, _, cursor). length events - nat cursor)")
     (auto simp: get_timeline_def Let_def split: if_splits)

declare all_pages.simps [simp del]

lemma page_of_timeline:
  assumes "es \<noteq> []" "0 \<le> cursor" "cursor \<le> int (length es)" "0 < limit"
  shows "get_timeline es run_id cursor limit = Some \<lparr> tr_run_id = run_id, tr_latest_seq = ev_seq (last es), tr_total = int (length es),
     tr_timeline = map project_timeline_event (take (nat limit) (drop (nat cursor) es)),
     tr_next_cursor = (if cursor + limit < int (length es) then cursor + limit else 0), tr_has_more = cursor + limit < int (length es) \<rparr>"
proof -
  have "take (nat (min (cursor + limit) (int (length es)) - cursor)) (drop (nat cursor) es) = take (nat limit) (drop (nat cursor) es)"
  proof (cases "cursor + limit \<le> int (length es)")
    case False
    then have "length (drop (nat cursor) es) \<le> nat (min (cursor + limit) (int (length es)) - cursor)" "length (drop (nat cursor) es) \<le> nat limit"
      using assms(2) by auto
    then show ?thesis by simp
  qed (use assms in simp)
  then show ?thesis using assms by (auto simp: get_timeline_def py_slice_def Let_def max_def min_def)
qed

lemma pages_from:
  assumes "es \<noteq> []" "0 < limit"
  shows "0 \<le> cursor \<Longrightarrow> cursor \<le> int (length es) \<Longrightarrow> all_pages es run_id limit cursor = map project_timeline_event (drop (nat cursor) es)"
proof (induction "length es - nat cursor" arbitrary: cursor rule: less_induct)
  case less
  note page = page_of_timeline[OF assms(1) less.prems assms(2), of run_id]
  show ?case
  proof (cases "cursor + limit < int (length es)")
    case True
    have "all_pages es run_id limit (cursor + limit) = map project_timeline_event (drop (nat (cursor + limit)) es)"
      by (rule less.hyps) (use True less.prems assms(2) in auto)
    moreover have "drop (nat (cursor + limit)) es = drop (nat limit) (drop (nat cursor) es)"
      using less.prems assms(2) by (simp add: nat_add_distrib add.commute)
    ultimately have "all_pages es run_id limit (cursor + limit) = map project_timeline_event (drop (nat limit) (drop (nat cursor) es))" by simp
    then have "all_pages es run_id limit cursor =
        map project_timeline_event (take (nat limit) (drop (nat cursor) es) @ drop (nat limit) (drop (nat cursor) es))"
      using True assms(2) by (subst all_pages.simps) (simp add: page)
    then show ?thesis by (simp only: append_take_drop_id)
  next
    case False
    then have "length (drop (nat cursor) es) \<le> nat limit" using less.prems by auto
    then show ?thesis using False by (subst all_pages.simps) (simp add: page)
  qed
qed

text \<open>
  C40: Paging loses and repeats nothing: with any positive page size a client that starts at the beginning and follows the
  cursors gets the whole timeline of the run, every event once, in the order of the log.
\<close>

theorem timeline_pages_cover:
  assumes "0 < limit"
  shows "all_pages events run_id limit 0 = map project_timeline_event events"
proof (cases "events = []")
  case True
  then show ?thesis by (subst all_pages.simps) (simp add: get_timeline_def)
next
  case False
  from pages_from[OF this assms, of 0 run_id] show ?thesis by simp
qed

lemma timeline_pages_cover_witness:
  "all_pages (get_events sample_store ''r1'') ''r1'' 1 0 = map project_timeline_event (get_events sample_store ''r1'') \<and> length (get_events sample_store ''r1'') = 1"
proof -
  have "length (get_events sample_store ''r1'') = 1" by code_simp
  then show ?thesis using timeline_pages_cover[of 1 "get_events sample_store ''r1''" "''r1''"] by simp
qed

lemma replay_past_is_stable_witness:
  "rmap unmarked (get_state_at (scoped_get_events ''t'' (snd (append_event sample_store ''r1'' (PContext (ContextPruned \<lparr> cp_pruned_event_refs = [],
       cp_pruned_seq_count = 0, cp_reason = [] \<rparr>)) default_opts 5)) ''r1'') ''r1'' (Some 1))
     = rmap unmarked (get_state_at (scoped_get_events ''t'' sample_store ''r1'') ''r1'' (Some 1))
   \<and> map ev_seq (scoped_get_events ''t'' sample_store ''r1'') = [1]"
proof -
  let ?es = "scoped_get_events ''t'' sample_store ''r1''"
  have e: "map ev_seq ?es = [1]" by code_simp
  then have "?es \<noteq> []" "ev_seq (hd ?es) = 1" "ev_seq (last ?es) = 1" by (cases ?es; auto)+
  with replay_past_is_stable[OF sample_store_wf refl, of "''t''" "''r1''" 1 1] e show ?thesis by simp
qed

end
