(* ===== verification/Spec2Isabelle.thy ===== *)
theory Spec2Isabelle
  imports Plan_Check Dag_Vars Store_Properties Scoped_Store
    Serial_Loop Context_Manager Contract_Extractor Run_Monitor
    Lifecycle Carriers Replay
begin

text \<open>
  JAgent is an event-sourced harness around a language model agent (Python, \<^verbatim>\<open>src/harness\<close>). Every fact
  of a run is an event of an append-only log; the state of a run is the fold of its events; the
  schedulers, the executors and the monitor read that state and append further events. The language
  model proposes; the harness decides: a plan passes a static guard, a tool call passes guardrails and
  a confirmation gate, a run is completed only behind the completion gate. This development models
  that decision logic as executable functions over one state, the log, and proves what makes it
  trustworthy.

  \<^bold>\<open>How a run goes.\<close> \<^verbatim>\<open>run()\<close> of a scheduler writes RunStarted. In plan mode the intent is classified,
  the planner asks the model for a plan and hands it to the plan guard, the plan is layered, and the DAG
  executor runs each layer through the tool executor; a failed layer is repaired locally, or revised
  by the planner under the revision guard and merged; the completion gate then decides between
  RunCompleted and RunFailed. In serial mode the kernel turns the history into a chat request and each
  proposed call goes to the tool executor. Before a step the context manager may compress the working
  view; after every append the run monitor may inject feedback; at startup the lifecycle scan closes
  orphaned runs.

  \<^bold>\<open>Theories and sources\<close> (paths under \<^verbatim>\<open>src/harness\<close>).

  \<^item> \<^verbatim>\<open>Prelude\<close>, \<^verbatim>\<open>Py_Text\<close>: dictionaries (the locale \<open>dictionary\<close>), results that may raise, Python text and
    JSON values, \<^verbatim>\<open>str\<close>, \<^verbatim>\<open>repr\<close> and \<^verbatim>\<open>json.dumps\<close>; the locales \<open>invariant_machine\<close> and \<open>projected_machine\<close> for folds.
  \<^item> \<^verbatim>\<open>Plan_Model\<close>, \<^verbatim>\<open>Plan_Topo\<close>, \<^verbatim>\<open>Plan_Check\<close>: models/plan.py, the layering (Kahn) and the structural validation
    (three-colour search). Layering is sound, and succeeds exactly for acyclic plans with known
    dependencies; validation accepts exactly the well-formed plans.
  \<^item> \<^verbatim>\<open>Dag_Types\<close>, \<^verbatim>\<open>Dag_Vars\<close>: core/dag_types.py and core/dag_vars.py, step results and variable substitution.
  \<^item> \<^verbatim>\<open>Event_Model\<close>, \<^verbatim>\<open>Event_Fold\<close>, \<^verbatim>\<open>Recovery\<close>: models/events.py, core/fold.py, core/recovery.py. The folded
    state is well formed, pending confirmations are the unanswered ones, compression events never change
    the trusted part.
  \<^item> \<^verbatim>\<open>Event_Store\<close>, \<^verbatim>\<open>Store_Properties\<close>, \<^verbatim>\<open>Scoped_Store\<close>: storage/event_store.py and storage/scoped.py. Rows, keys and
    claims as tables; numbering without gaps, exactly-once appends and claims also when two writers interleave
    between lookup and commit; the log as a locale (\<open>event_log\<close>); isolation of tenants, but for the conversation upsert.
  \<^item> \<^verbatim>\<open>Tool_Model\<close>, \<^verbatim>\<open>Guardrails\<close>, \<^verbatim>\<open>Tool_Executor\<close>, \<^verbatim>\<open>Executor_Properties\<close>: models/tools.py, tools/registry.py,
    tools/guardrails.py, the egress policy, tools/retry.py and tools/executor.py. A tool runs only when every gate
    let it, a registered deletion only after the operator confirmed it; the retry loop is bounded; every branch leaves its trace.
  \<^item> \<^verbatim>\<open>Dag_Executor\<close>, \<^verbatim>\<open>Dag_Properties\<close>: core/dag_executor.py. Gated steps never run; the outcome of a layer is
    that of its results; results rebuilt from the log agree with those in memory. \<open>ctx_frame\<close> is the frame of a loop.
  \<^item> \<^verbatim>\<open>Delivery\<close>, \<^verbatim>\<open>Plan_Guard\<close>: models/intent.py, core/scheduler/completion.py, core/planner/guardrail.py,
    output_refs.py, revision_invariants.py. The gate is characterised exactly; accepted plans are sound.
  \<^item> \<^verbatim>\<open>Planner\<close>, \<^verbatim>\<open>Revision_Guard\<close>, \<^verbatim>\<open>Local_Repair\<close>: core/planner/agent.py, parsing.py, core/lenient_json.py,
    core/scheduler/revision_guard.py and local_repair.py. Bounded attempts, validated plans, read-only repairs.
    The reviser is the locale \<open>quiet_reviser\<close>, interpreted on the planner.
  \<^item> \<^verbatim>\<open>Run_Control\<close>, \<^verbatim>\<open>Plan_Scheduler\<close>, \<^verbatim>\<open>Scheduler_Properties\<close>: core/scheduler/base.py, plan.py and classify.py. Guarded
    writes end a run at most once; every run of the planning scheduler settles; completion goes through the gate.
  \<^item> \<^verbatim>\<open>Agent_Kernel\<close>, \<^verbatim>\<open>Serial_Loop\<close>: core/agent_kernel.py and core/scheduler/loop.py. The history follows the tool
    protocol; serial runs settle. The kernel is the locale \<open>agent_kernel\<close>, interpreted on the model's own.
  \<^item> \<^verbatim>\<open>Context_Manager\<close>: core/context_manager.py. Compression keeps recent work and trusted facts and writes
    no status.
  \<^item> \<^verbatim>\<open>Contract_Extractor\<close>: core/contract_extractor.py. Only checked contracts reach the state of a run.
  \<^item> \<^verbatim>\<open>Run_Monitor\<close>, \<^verbatim>\<open>Lifecycle\<close>, \<^verbatim>\<open>Carriers\<close>: monitoring/run_monitor.py, core/lifecycle.py, execution/boundary.py and
    execution/reaper.py. Feedback is earned and stays in its run; the startup scan settles every run and the
    reaper then reclaims every labelled container; execution roots of different tenants are disjoint.
  \<^item> \<^verbatim>\<open>Replay\<close>: replay/projection.py and replay/service.py. The past of a run is stable under appends; following the
    cursors yields the whole timeline.
  \<^item> This theory: the planning scheduler wired to the context manager.

  \<^bold>\<open>State and effects.\<close> An operation of the executors and schedulers is an \<open>action\<close>: a function on \<open>exec_ctx\<close> (the store,
  the limiter's history, the blobs, the tool calls made) that returns or raises. Exceptions are values of
  \<open>py_exc\<close> or \<open>py_error\<close>, so every raise and early return is a branch. A coroutine runs to its end in one action; what
  others write while it waits is a parameter (\<open>sx_wait\<close>, \<open>sx_pause\<close>, \<open>sx_reap\<close>), assumed only to keep the log
  well formed. Races inside the store are modelled by splitting lookup from commit.

  \<^bold>\<open>Parameters.\<close> The model's replies, the tools' functions, clocks, fresh identifiers, hashes, DNS, the JSON
  decoder, schema validation, the tokenizer and float rounding are arguments. A retried or repeated call may behave
  differently each time, since its function sees the number of the attempt or the log.

  \<^bold>\<open>Bounds.\<close> Bounded loops of the source (attempts, rounds, retries, iterations) recurse on what is left of their budget.
  Loops over data (the layering, the dependency closure, the pattern searches) are total by a measure.
  Only the depth-first searches of \<^verbatim>\<open>Plan_Check\<close> carry fuel: one unit per step and one more,
  which is shown to be enough for every plan, so no theorem is conditional on it.

  \<^bold>\<open>Abstractions.\<close> A string is a list of bytes, in the UTF-8 encoding of the source's literals: lengths and cuts of non-ASCII text
  count bytes; case and character classes are those of ASCII. Floats that are only stored are their text, those that are compared are rationals.
  Logging, tracing and metrics are left out.

  \<^bold>\<open>Not modelled.\<close> The bodies of the tools and the execution environments (files, networks, browsers, containers), the
  HTTP and WebSocket layer, the model clients, the tokenizers and prompt texts, tracing, and the
  statistics for the user interface (analysis, evaluation): effects on the outside world or views
  with no decision of their own. Of the schedulers, the tables of task handles with the check for a run already going, and a watchdog that
  interrupts the loop at an arbitrary wait; cancellation is a predicate on the state.
\<close>

section \<open>The planning scheduler with the context manager\<close>

definition managed :: "context_manager \<Rightarrow> (exec_ctx \<Rightarrow> run_state \<Rightarrow> int) \<Rightarrow> (exec_ctx \<Rightarrow> int dict) \<Rightarrow> string \<Rightarrow> scheduler \<Rightarrow> scheduler" where
  "managed cm iteration memo run_id sx = sx\<lparr>sx_compress := context_step cm (sx_env sx) run_id iteration memo,
     sx_compact := compact_step cm (sx_env sx) run_id iteration memo\<rparr>"

lemma mute_keeps: "mute env run_id m \<Longrightarrow> keeps env run_id m"
  using muteD by (intro keepsI) blast

text \<open>
  C3: The planning scheduler wired to the context manager: whatever the manager compresses, checkpoints or raises, before a
  layer and before completion, the run stops, and the state it returns is the fold of its log and has ended as completed
  or failed. Nothing is assumed of the manager, its model, its token counter or its table.
\<close>

theorem managed_runs_settle:
  assumes "well_wired (sx\<lparr>sx_compress := act_return (), sx_compact := act_return ()\<rparr>) run_id" "log_ok (sx_env sx) run_id c"
    and "scheduler_run (managed cm iteration memo run_id sx) run_id intent conversation c = (r, c')"
  shows "case r of
      Inr st \<Rightarrow> rs_status st \<in> {RS_COMPLETED, RS_FAILED} \<and> fold_events (get_events (xc_store c') run_id) = Inr st
    | Inl e \<Rightarrow> \<exists>x. fold_events (get_events (xc_store c') run_id) = Inl x"
proof (rule run_settles[OF _ _ assms(3)])
  have "keeps (sx_env sx) run_id (context_step cm (sx_env sx) run_id iteration memo)"
    "keeps (sx_env sx) run_id (compact_step cm (sx_env sx) run_id iteration memo)"
    by (rule mute_keeps[OF context_manager_is_mute(1)], rule mute_keeps[OF context_manager_is_mute(2)])
  then show "well_wired (managed cm iteration memo run_id sx) run_id" using assms(1) by (simp add: well_wired_def managed_def)
qed (use assms(2) in \<open>simp add: managed_def\<close>)

theorem managed_runs_settle_witness:
  "map_sum (\<lambda>_. ()) rs_status (fst (scheduler_run (managed sample_manager (\<lambda>_. rs_seq) (\<lambda>_. []) ''r1'' mute_scheduler) ''r1'' ''write notes'' [] sample_ctx))
     = Inr RS_FAILED
   \<and> (\<exists>st. fold_events (get_events (xc_store (snd (scheduler_run (managed sample_manager (\<lambda>_. rs_seq) (\<lambda>_. []) ''r1'' mute_scheduler) ''r1'' ''write notes'' [] sample_ctx))) ''r1'') = Inr st
        \<and> rs_status st \<in> {RS_COMPLETED, RS_FAILED})"
proof -
  let ?run = "scheduler_run (managed sample_manager (\<lambda>_. rs_seq) (\<lambda>_. []) ''r1'' mute_scheduler) ''r1'' ''write notes'' [] sample_ctx"
  have r: "map_sum (\<lambda>_. ()) rs_status (fst ?run) = Inr RS_FAILED"
    unfolding managed_def mute_scheduler_def brief_planner_def note_registry_def by code_simp
  have w: "well_wired (mute_scheduler\<lparr>sx_compress := act_return (), sx_compact := act_return ()\<rparr>) ''r1''"
    using mute_scheduler_wired(1) by (simp add: well_wired_def reads_return)
  have "?run = (fst ?run, snd ?run)" by simp
  from managed_runs_settle[OF w mute_scheduler_wired(2) this] r show ?thesis by (cases "fst ?run") auto
qed

end
